(* ===== verification/Prelude.thy ===== *)
theory Prelude
  imports Complex_Main
    "HOL-Library.AList"
    "HOL-Library.List_Lexorder"
    "HOL-Library.Char_ord"
    "HOL-Library.Product_Lexorder"
    "HOL-Library.Multiset"
begin

text \<open>
  What every component shares: the names of the model's base types, the pieces of the
  Python standard library the code leans on (\<open>max(..., key=...)\<close>, \<open>round(x, n)\<close>,
  \<open>sorted\<close>, dictionaries that keep insertion order), and the generic lemmas about them.

  Python floats and decimals are real numbers here: sums, products and comparisons are
  exact, the rounding of binary64 is not modelled. Identifiers (UUIDs) are natural numbers,
  instants and durations are real numbers of seconds, strings are lists of characters read
  as code points below 256.
\<close>

type_synonym uuid = nat
type_synonym instant = real

named_theorems acquisition_defs \<open>definitions unfolded by the acquisition loops\<close>
named_theorems transition_simps \<open>equations of the lead table and its transitions\<close>
named_theorems queue_defs \<open>definitions of the job table's row updates\<close>

subsection \<open>Python's \<open>max(xs, key=f)\<close>\<close>

text \<open>
  The loop behind \<open>max\<close> keeps the best element so far and replaces it only by a strictly
  larger key, so the first of several maximal elements wins.
\<close>

fun max_by :: "('a \<Rightarrow> 'k::linorder) \<Rightarrow> 'a \<Rightarrow> 'a list \<Rightarrow> 'a" where
  "max_by f b [] = b"
| "max_by f b (x # xs) = max_by f (if f b < f x then x else b) xs"

lemma max_by_in: "max_by f b xs \<in> set (b # xs)"
  by (induction xs arbitrary: b) auto

lemma max_by_ge: "y \<in> set (b # xs) \<Longrightarrow> f y \<le> f (max_by f b xs)"
proof (induction xs arbitrary: b y)
  case Nil
  then show ?case by simp
next
  case (Cons x xs)
  let ?c = "if f b < f x then x else b"
  have c: "f ?c \<le> f (max_by f ?c xs)"
    by (rule Cons.IH) simp
  have "f b \<le> f ?c" "f x \<le> f ?c"
    by auto
  with c Cons.IH [of _ ?c] Cons.prems show ?case
    by (auto intro: order_trans)
qed

lemma max_by_unique:
  assumes "inj_on f (set (b # xs))" and "set (c # ys) = set (b # xs)"
  shows "max_by f c ys = max_by f b xs"
proof -
  have "max_by f c ys \<in> set (b # xs)" "max_by f b xs \<in> set (c # ys)"
    using max_by_in [of f c ys] max_by_in [of f b xs] assms(2) by auto
  then have "f (max_by f c ys) = f (max_by f b xs)"
    using max_by_ge [of "max_by f c ys" b xs f] max_by_ge [of "max_by f b xs" c ys f]
    by (auto intro: antisym)
  moreover have "max_by f c ys \<in> set (b # xs)"
    using max_by_in [of f c ys] assms(2) by blast
  ultimately show ?thesis
    using assms(1) max_by_in [of f b xs] inj_onD by metis
qed

subsection \<open>Python's \<open>round(x, n)\<close>\<close>

text \<open>Round half to even, at \<open>n\<close> decimal digits.\<close>

definition round_half_even :: "real \<Rightarrow> int" where
  "round_half_even x =
     (let f = \<lfloor>x\<rfloor>; d = x - of_int f
      in if d < 1/2 then f else if 1/2 < d then f + 1 else if even f then f else f + 1)"

definition py_round :: "nat \<Rightarrow> real \<Rightarrow> real" where
  "py_round n x = of_int (round_half_even (x * 10 ^ n)) / 10 ^ n"

lemma round_half_even_of_int [simp]: "round_half_even (of_int i) = i"
  by (simp add: round_half_even_def)

lemma round_half_even_mono:
  assumes "x \<le> y"
  shows "round_half_even x \<le> round_half_even y"
proof -
  have le: "\<lfloor>x\<rfloor> \<le> \<lfloor>y\<rfloor>" using assms by (rule floor_mono)
  show ?thesis
  proof (cases "\<lfloor>x\<rfloor> = \<lfloor>y\<rfloor>")
    case True
    with assms show ?thesis by (simp add: round_half_even_def Let_def)
  next
    case False
    with le show ?thesis by (simp add: round_half_even_def Let_def)
  qed
qed

lemma py_round_0 [simp]: "py_round n 0 = 0"
  using round_half_even_of_int [of 0] by (simp add: py_round_def)

lemma py_round_1 [simp]: "py_round n 1 = 1"
  using round_half_even_of_int [of "10 ^ n"] by (simp add: py_round_def)

lemma py_round_mono: "x \<le> y \<Longrightarrow> py_round n x \<le> py_round n y"
  by (simp add: py_round_def divide_right_mono round_half_even_mono)

lemma py_round_nonneg: "0 \<le> x \<Longrightarrow> 0 \<le> py_round n x"
  using py_round_mono [of 0 x n] by simp

lemma py_round_le_1: "x \<le> 1 \<Longrightarrow> py_round n x \<le> 1"
  using py_round_mono [of x 1 n] by simp

subsection \<open>Computations that may raise\<close>

text \<open>A result is \<open>Inl\<close> of the exception or \<open>Inr\<close> of the value.\<close>

definition sum_bind :: "'e + 'a \<Rightarrow> ('a \<Rightarrow> 'e + 'b) \<Rightarrow> 'e + 'b" where
  "sum_bind m f = (case m of Inl e \<Rightarrow> Inl e | Inr x \<Rightarrow> f x)"

text \<open>For evaluation, the continuation is a case branch, entered only with the value.\<close>

declare sum_bind_def [code_unfold]

fun sum_mapM :: "('a \<Rightarrow> 'e + 'b) \<Rightarrow> 'a list \<Rightarrow> 'e + 'b list" where
  "sum_mapM f [] = Inr []"
| "sum_mapM f (x # xs) = sum_bind (f x) (\<lambda>y. sum_bind (sum_mapM f xs) (\<lambda>ys. Inr (y # ys)))"

fun sum_foldM :: "('a \<Rightarrow> 's \<Rightarrow> 'e + 's) \<Rightarrow> 'a list \<Rightarrow> 's \<Rightarrow> 'e + 's" where
  "sum_foldM f [] s = Inr s"
| "sum_foldM f (x # xs) s = sum_bind (f x s) (sum_foldM f xs)"

lemma sum_bind_simps [simp]:
  "sum_bind (Inl e) f = Inl e" "sum_bind (Inr x) f = f x"
  by (simp_all add: sum_bind_def)

lemma sum_bind_Inr: "sum_bind m f = Inr y \<longleftrightarrow> (\<exists>x. m = Inr x \<and> f x = Inr y)"
  by (cases m) simp_all

lemma sum_mapM_Inr: "(\<And>x. x \<in> set xs \<Longrightarrow> f x = Inr (g x)) \<Longrightarrow> sum_mapM f xs = Inr (map g xs)"
  by (induction xs) simp_all

subsection \<open>Sorting by a key\<close>

lemma sort_key_sorted_list_of_set:
  assumes "distinct (map f xs)"
  shows "map f (sort_key f xs) = sorted_list_of_set (f ` set xs)"
proof -
  have "mset (map f (sort_key f xs)) = mset (map f xs)" by simp
  then have "distinct (map f (sort_key f xs))"
    using assms by (metis distinct_count_atmost_1 set_mset_mset)
  then show ?thesis
    by (metis set_map set_sort sorted_list_of_set.idem_if_sorted_distinct sorted_sort_key)
qed

lemma find_append: "find P (xs @ ys) = (case find P xs of None \<Rightarrow> find P ys | Some x \<Rightarrow> Some x)"
  by (induction xs) auto

subsection \<open>Sums over lists\<close>

lemma sum_list_nonneg_map: "(\<And>x. x \<in> set xs \<Longrightarrow> 0 \<le> f x) \<Longrightarrow> 0 \<le> (\<Sum>x\<leftarrow>xs. f x :: real)"
  by (induction xs) (simp_all add: add_nonneg_nonneg)

lemma sum_list_mono_map:
  "(\<And>x. x \<in> set xs \<Longrightarrow> f x \<le> g x) \<Longrightarrow> (\<Sum>x\<leftarrow>xs. f x :: real) \<le> (\<Sum>x\<leftarrow>xs. g x)"
  by (rule sum_list_mono)

lemma sum_list_filter_le:
  "(\<And>x. x \<in> set xs \<Longrightarrow> 0 \<le> f x) \<Longrightarrow> (\<Sum>x\<leftarrow>filter P xs. f x :: real) \<le> (\<Sum>x\<leftarrow>xs. f x)"
  by (induction xs) (simp_all, smt (verit) list.set_intros)

lemma sum_list_split_filter:
  "(\<Sum>x\<leftarrow>xs. f x :: real) = (\<Sum>x\<leftarrow>filter P xs. f x) + (\<Sum>x\<leftarrow>filter (\<lambda>x. \<not> P x) xs. f x)"
  by (induction xs) simp_all

lemma sum_list_add_unless:
  "(\<Sum>x\<leftarrow>xs. f x + (if P x then 0 else g x) :: real)
     = (\<Sum>x\<leftarrow>xs. f x) + (\<Sum>x\<leftarrow>filter (\<lambda>x. \<not> P x) xs. g x)"
  by (induction xs) simp_all

end
