(* ===== verification/PyValue.thy ===== *)
theory PyValue
  imports Prelude
begin

text \<open>
  The dynamic values that travel in \<open>dict[str, Any]\<close> fact bundles and evidence rows, with
  the four observations the code makes of them: \<open>is None\<close>, \<open>float(v)\<close>, \<open>str(v)\<close>
  and truth. A float carries its \<open>str()\<close>; a list or an object of a JSON column is
  \<open>VOther\<close>, of which the code only ever sees \<open>str()\<close> and truth.
\<close>

datatype pyval =
    VNone
  | VBool bool
  | VInt int
  | VFloat real string
  | VStr string
  | VOther string bool

text \<open>The result of \<open>float(...)\<close>: a finite number, an infinity or a NaN.\<close>

datatype pyfloat = Fin real | PInf | NInf | NaN

subsection \<open>Characters and strings\<close>

definition code :: "char \<Rightarrow> nat" where
  "code c = of_char c"

definition is_digit :: "char \<Rightarrow> bool" where
  "is_digit c \<longleftrightarrow> 48 \<le> code c \<and> code c \<le> 57"

text \<open>\<open>str.isspace\<close> and \<open>str.lower\<close> on code points below 256.\<close>

definition is_space :: "char \<Rightarrow> bool" where
  "is_space c \<longleftrightarrow> (9 \<le> code c \<and> code c \<le> 13) \<or> (28 \<le> code c \<and> code c \<le> 32)
     \<or> code c = 133 \<or> code c = 160"

definition lower_char :: "char \<Rightarrow> char" where
  "lower_char c =
     (if (65 \<le> code c \<and> code c \<le> 90) \<or> (192 \<le> code c \<and> code c \<le> 222 \<and> code c \<noteq> 215)
      then char_of (code c + 32) else c)"

definition py_lower :: "string \<Rightarrow> string" where
  "py_lower s = map lower_char s"

definition py_lstrip :: "string \<Rightarrow> string" where
  "py_lstrip s = dropWhile is_space s"

definition py_strip :: "string \<Rightarrow> string" where
  "py_strip s = rev (dropWhile is_space (rev (dropWhile is_space s)))"

fun starts_with :: "string \<Rightarrow> string \<Rightarrow> bool" where
  "starts_with s [] \<longleftrightarrow> True"
| "starts_with [] (p # ps) \<longleftrightarrow> False"
| "starts_with (c # cs) (p # ps) \<longleftrightarrow> c = p \<and> starts_with cs ps"

lemma starts_with_iff: "starts_with s p \<longleftrightarrow> (\<exists>t. s = p @ t)"
  by (induction s p rule: starts_with.induct) auto

subsection \<open>\<open>float(str)\<close>\<close>

text \<open>
  The grammar of CPython's \<open>float\<close> on a string: surrounding white space, an underscore
  only between two digits, an optional sign, then \<open>inf\<close>, \<open>infinity\<close>, \<open>nan\<close> or a
  decimal literal with an optional exponent. \<open>None\<close> is the ValueError.
\<close>

fun drop_underscores :: "bool \<Rightarrow> string \<Rightarrow> string option" where
  "drop_underscores prev [] = Some []"
| "drop_underscores prev (c # cs) =
     (if c = CHR ''_''
      then (if prev \<and> (case cs of [] \<Rightarrow> False | d # _ \<Rightarrow> is_digit d)
            then drop_underscores False cs else None)
      else map_option ((#) c) (drop_underscores (is_digit c) cs))"

definition digits_value :: "string \<Rightarrow> nat" where
  "digits_value ds = foldl (\<lambda>n d. 10 * n + (code d - 48)) 0 ds"

definition scale10 :: "nat \<Rightarrow> int \<Rightarrow> real" where
  "scale10 m e = (if 0 \<le> e then of_nat m * 10 ^ nat e else of_nat m / 10 ^ nat (- e))"

definition parse_exponent :: "string \<Rightarrow> int option" where
  "parse_exponent s =
     (case s of
        [] \<Rightarrow> Some 0
      | c # r \<Rightarrow>
          if c = CHR ''e'' \<or> c = CHR ''E'' then
            (let neg = (case r of [] \<Rightarrow> False | d # _ \<Rightarrow> d = CHR ''-'');
                 ds = (case r of [] \<Rightarrow> [] | d # t \<Rightarrow>
                         if d = CHR ''-'' \<or> d = CHR ''+'' then t else r)
             in if ds \<noteq> [] \<and> list_all is_digit ds
                then Some (if neg then - int (digits_value ds) else int (digits_value ds))
                else None)
          else None)"

definition parse_unsigned :: "string \<Rightarrow> real option" where
  "parse_unsigned s =
     (let ip = takeWhile is_digit s; r = dropWhile is_digit s;
          dot = (case r of [] \<Rightarrow> False | d # _ \<Rightarrow> d = CHR ''.'');
          fp = (if dot then takeWhile is_digit (tl r) else []);
          rest = (if dot then dropWhile is_digit (tl r) else r)
      in if ip @ fp = [] then None
         else map_option (\<lambda>e. scale10 (digits_value (ip @ fp)) (e - int (length fp)))
                (parse_exponent rest))"

definition float_of_string :: "string \<Rightarrow> pyfloat option" where
  "float_of_string s =
     (case drop_underscores False (py_strip s) of
        None \<Rightarrow> None
      | Some t \<Rightarrow>
          (let neg = (case t of [] \<Rightarrow> False | c # _ \<Rightarrow> c = CHR ''-'');
               u = (case t of [] \<Rightarrow> [] | c # cs \<Rightarrow>
                      if c = CHR ''-'' \<or> c = CHR ''+'' then cs else t);
               l = py_lower u
           in if l = ''inf'' \<or> l = ''infinity'' then Some (if neg then NInf else PInf)
              else if l = ''nan'' then Some NaN
              else map_option (\<lambda>x. Fin (if neg then - x else x)) (parse_unsigned u)))"

text \<open>\<open>float(v)\<close>; \<open>None\<close> is the TypeError or ValueError.\<close>

definition py_float :: "pyval \<Rightarrow> pyfloat option" where
  "py_float v =
     (case v of
        VNone \<Rightarrow> None
      | VBool b \<Rightarrow> Some (Fin (if b then 1 else 0))
      | VInt i \<Rightarrow> Some (Fin (of_int i))
      | VFloat x _ \<Rightarrow> Some (Fin x)
      | VStr s \<Rightarrow> float_of_string s
      | VOther _ _ \<Rightarrow> None)"

subsection \<open>\<open>str(v)\<close> and truth\<close>

fun show_nat_digits :: "nat \<Rightarrow> string \<Rightarrow> string" where
  "show_nat_digits n acc =
     (if n < 10 then char_of (n + 48) # acc
      else show_nat_digits (n div 10) (char_of (n mod 10 + 48) # acc))"

declare show_nat_digits.simps [simp del]

definition py_str_int :: "int \<Rightarrow> string" where
  "py_str_int i = (if i < 0 then CHR ''-'' # show_nat_digits (nat (- i)) []
                   else show_nat_digits (nat i) [])"

definition py_str :: "pyval \<Rightarrow> string" where
  "py_str v =
     (case v of
        VNone \<Rightarrow> ''None''
      | VBool b \<Rightarrow> (if b then ''True'' else ''False'')
      | VInt i \<Rightarrow> py_str_int i
      | VFloat _ r \<Rightarrow> r
      | VStr s \<Rightarrow> s
      | VOther r _ \<Rightarrow> r)"

definition truthy :: "pyval \<Rightarrow> bool" where
  "truthy v =
     (case v of
        VNone \<Rightarrow> False
      | VBool b \<Rightarrow> b
      | VInt i \<Rightarrow> i \<noteq> 0
      | VFloat x _ \<Rightarrow> x \<noteq> 0
      | VStr s \<Rightarrow> s \<noteq> []
      | VOther _ t \<Rightarrow> t)"

subsection \<open>Decimal digits\<close>

lemma show_nat_digits_append: "show_nat_digits n acc = show_nat_digits n [] @ acc"
proof (induction n arbitrary: acc rule: less_induct)
  case (less n)
  show ?case
  proof (cases "n < 10")
    case True
    then show ?thesis by (simp add: show_nat_digits.simps [of n])
  next
    case False
    then have "show_nat_digits (n div 10) xs = show_nat_digits (n div 10) [] @ xs" for xs
      by (intro less) simp
    from this [of "char_of (n mod 10 + 48) # acc"] this [of "[char_of (n mod 10 + 48)]"] False
    show ?thesis by (simp add: show_nat_digits.simps [of n])
  qed
qed

lemma show_nat_digits_step:
  "\<not> n < 10 \<Longrightarrow> show_nat_digits n [] = show_nat_digits (n div 10) [] @ [char_of (n mod 10 + 48)]"
  by (subst show_nat_digits.simps) (simp add: show_nat_digits_append [of _ "[_]"])

lemma code_digit: "d < 10 \<Longrightarrow> code (char_of (d + 48)) = d + 48"
  by (simp add: code_def)

lemma digits_value_snoc: "digits_value (ds @ [d]) = 10 * digits_value ds + (code d - 48)"
  by (simp add: digits_value_def)

lemma digits_value_show [simp]: "digits_value (show_nat_digits n []) = n"
proof (induction n rule: less_induct)
  case (less n)
  show ?case
  proof (cases "n < 10")
    case True
    then show ?thesis by (simp add: show_nat_digits.simps [of n] digits_value_def code_digit)
  next
    case False
    then show ?thesis
      using less [of "n div 10"] by (simp add: show_nat_digits_step digits_value_snoc code_digit)
  qed
qed

lemma show_nat_digits_digits: "c \<in> set (show_nat_digits n []) \<Longrightarrow> is_digit c"
proof (induction n arbitrary: c rule: less_induct)
  case (less n)
  show ?case
  proof (cases "n < 10")
    case True
    with less.prems show ?thesis by (simp add: show_nat_digits.simps [of n] is_digit_def code_digit)
  next
    case False
    with less.prems less.IH [of "n div 10" c] show ?thesis
      by (auto simp: show_nat_digits_step is_digit_def code_digit)
  qed
qed

end
