(* ===== verification/Core_Types.thy ===== *)
theory Core_Types
  imports PyValue
begin

text \<open>
  The domain types of \<open>arie.core.types\<close>: lead states, decisions, provider results,
  evidence with its staleness discount, the score breakdown and the value-of-information
  record; and the exceptions the modelled code raises, as one datatype of errors.
\<close>

datatype lead_status =
    NEW | IDENTITY_RESOLVED | SCORING | FETCHING_EVIDENCE | INTEGRATING | DECISION
  | AUTO_ROUTED | AWAITING_HUMAN | MANUAL_REVIEW | ROUTED | SYNCED | FAILED | DEAD_LETTER
  | SHADOW_EVALUATED

datatype decision = AUTO_ROUTE | ESCALATE_HUMAN | REJECT

datatype provider_status = SUCCESS | MISS | ERROR | TIMEOUT

datatype entity_type = Company | Person

text \<open>The string values of the \<open>StrEnum\<close>s, as stored in the database and in payloads.\<close>

fun lead_status_str :: "lead_status \<Rightarrow> string" where
  "lead_status_str NEW = ''NEW''"
| "lead_status_str IDENTITY_RESOLVED = ''IDENTITY_RESOLVED''"
| "lead_status_str SCORING = ''SCORING''"
| "lead_status_str FETCHING_EVIDENCE = ''FETCHING_EVIDENCE''"
| "lead_status_str INTEGRATING = ''INTEGRATING''"
| "lead_status_str DECISION = ''DECISION''"
| "lead_status_str AUTO_ROUTED = ''AUTO_ROUTED''"
| "lead_status_str AWAITING_HUMAN = ''AWAITING_HUMAN''"
| "lead_status_str MANUAL_REVIEW = ''MANUAL_REVIEW''"
| "lead_status_str ROUTED = ''ROUTED''"
| "lead_status_str SYNCED = ''SYNCED''"
| "lead_status_str FAILED = ''FAILED''"
| "lead_status_str DEAD_LETTER = ''DEAD_LETTER''"
| "lead_status_str SHADOW_EVALUATED = ''SHADOW_EVALUATED''"

fun decision_str :: "decision \<Rightarrow> string" where
  "decision_str AUTO_ROUTE = ''auto_route''"
| "decision_str ESCALATE_HUMAN = ''escalate_human''"
| "decision_str REJECT = ''reject''"

fun provider_status_str :: "provider_status \<Rightarrow> string" where
  "provider_status_str SUCCESS = ''success''"
| "provider_status_str MISS = ''miss''"
| "provider_status_str ERROR = ''error''"
| "provider_status_str TIMEOUT = ''timeout''"

lemma decision_str_inject [simp]: "decision_str d = decision_str d' \<longleftrightarrow> d = d'"
  by (cases d; cases d') simp_all

text \<open>The finite type of lead states, so that facts about all of them are decidable.\<close>

instantiation lead_status :: enum
begin

definition enum_lead_status :: "lead_status list" where
  "enum_lead_status =
     [NEW, IDENTITY_RESOLVED, SCORING, FETCHING_EVIDENCE, INTEGRATING, DECISION, AUTO_ROUTED,
      AWAITING_HUMAN, MANUAL_REVIEW, ROUTED, SYNCED, FAILED, DEAD_LETTER, SHADOW_EVALUATED]"

definition enum_all_lead_status :: "(lead_status \<Rightarrow> bool) \<Rightarrow> bool" where
  "enum_all_lead_status P \<longleftrightarrow> list_all P enum_class.enum"

definition enum_ex_lead_status :: "(lead_status \<Rightarrow> bool) \<Rightarrow> bool" where
  "enum_ex_lead_status P \<longleftrightarrow> list_ex P enum_class.enum"

instance
proof
  show univ: "(UNIV :: lead_status set) = set enum_class.enum"
    using lead_status.exhaust by (auto simp: enum_lead_status_def)
  show "distinct (enum_class.enum :: lead_status list)"
    by (simp add: enum_lead_status_def)
  show "enum_class.enum_all P \<longleftrightarrow> Ball UNIV P" for P :: "lead_status \<Rightarrow> bool"
    using univ by (auto simp: enum_all_lead_status_def list_all_iff)
  show "enum_class.enum_ex P \<longleftrightarrow> Bex UNIV P" for P :: "lead_status \<Rightarrow> bool"
    using univ by (auto simp: enum_ex_lead_status_def list_ex_iff)
qed

end

text \<open>
  The exceptions the modelled code raises. \<open>HandlerError\<close> stands for whatever a job
  handler raises beyond these.
\<close>

datatype error =
    ValueError
  | KeyError
  | IndexError
  | AssertionError
  | ZeroDivisionError
  | OptimisticConcurrencyError uuid int
  | JobOwnershipError uuid string
  | ReviewNotFoundError uuid
  | ReviewConflictError uuid
  | LiveAutonomyViolationError lead_status
  | UnknownEntityError string string
  | UnknownModelError string
  | UnsupportedLiveStrategyError string
  | CheckViolation string
  | LimitExceededError
  | IdentityConflictError
  | InvalidCompanyError
  | InvalidPersonError
  | HandlerError string

subsection \<open>Evidence and its staleness discount\<close>

record evidence =
  ev_entity_type :: entity_type
  ev_entity_id :: uuid
  ev_field :: string
  ev_value :: pyval
  ev_source :: string
  ev_confidence :: real
  ev_ttl :: int
  ev_fetched_at :: instant
  ev_signal :: "string option"
  ev_effect :: "real option"

definition age_seconds :: "evidence \<Rightarrow> instant \<Rightarrow> real" where
  "age_seconds e now = now - ev_fetched_at e"

definition is_expired :: "evidence \<Rightarrow> instant \<Rightarrow> bool" where
  "is_expired e now \<longleftrightarrow> age_seconds e now > of_int (ev_ttl e)"

definition effective_confidence :: "evidence \<Rightarrow> instant \<Rightarrow> real" where
  "effective_confidence e now =
     (if ev_ttl e \<le> 0 then 0
      else ev_confidence e * max 0 (1 - age_seconds e now / of_int (ev_ttl e)))"

lemma effective_confidence_nonneg: "0 \<le> ev_confidence e \<Longrightarrow> 0 \<le> effective_confidence e now"
  by (simp add: effective_confidence_def)

lemma effective_confidence_le:
  assumes "0 \<le> ev_confidence e" and "ev_fetched_at e \<le> now"
  shows "effective_confidence e now \<le> ev_confidence e"
proof (cases "ev_ttl e \<le> 0")
  case True
  with assms show ?thesis by (simp add: effective_confidence_def)
next
  case False
  with assms(2) have "max 0 (1 - age_seconds e now / of_int (ev_ttl e)) \<le> 1"
    by (simp add: age_seconds_def)
  from mult_left_mono [OF this assms(1)] False show ?thesis
    by (simp add: effective_confidence_def)
qed

lemma effective_confidence_antimono:
  assumes "0 \<le> ev_confidence e" and "t \<le> t'"
  shows "effective_confidence e t' \<le> effective_confidence e t"
proof (cases "ev_ttl e \<le> 0")
  case True
  then show ?thesis by (simp add: effective_confidence_def)
next
  case False
  with assms(2) have "age_seconds e t / of_int (ev_ttl e) \<le> age_seconds e t' / of_int (ev_ttl e)"
    by (simp add: age_seconds_def divide_right_mono)
  then have "max 0 (1 - age_seconds e t' / of_int (ev_ttl e))
      \<le> max 0 (1 - age_seconds e t / of_int (ev_ttl e))"
    by linarith
  from mult_left_mono [OF this assms(1)] False show ?thesis
    by (simp add: effective_confidence_def)
qed

lemma expired_effective_confidence_0: "is_expired e now \<Longrightarrow> effective_confidence e now = 0"
  by (auto simp: is_expired_def effective_confidence_def field_simps max_def)

subsection \<open>Results, scores and value of information\<close>

text \<open>
  What a provider returns. Of the \<open>raw\<close> dictionary the modelled code reads two entries:
  the matched identity audit and the error kind.
\<close>

record matched_identity =
  mi_full_name :: "string option"
  mi_email :: "string option"
  mi_employer_domain :: "string option"
  mi_organization_domain :: "string option"
  mi_employer_name :: "string option"
  mi_organization_name :: "string option"

record provider_result =
  pr_fields :: "(string \<times> pyval) list"
  pr_confidence :: real
  pr_cost :: real
  pr_latency :: real
  pr_status :: provider_status
  pr_matched :: "matched_identity option"
  pr_error_kind :: "string option"

record score_breakdown =
  total_score :: real
  components :: "(string \<times> real) list"
  model_version :: string

record voi_evaluation =
  candidate_provider :: string
  p_flips_decision :: real
  voi_business_value :: real
  voi_expected_cost :: real
  voi_latency_penalty :: real
  voi_escalation_value :: real

definition net_evoi :: "voi_evaluation \<Rightarrow> real" where
  "net_evoi v =
     p_flips_decision v * voi_business_value v + voi_escalation_value v
     - voi_expected_cost v - voi_latency_penalty v"

end
