(* ===== verification/Scoring_Rules.thy ===== *)
theory Scoring_Rules
  imports Core_Types
begin

text \<open>
  \<open>arie.scoring.rules\<close>: the point tables, the score of a fact bundle and the map from a
  score to a decision. The \<open>ScoringConfig\<close> that the code reads through a context variable
  is an explicit argument here; \<open>reference_config\<close> is the module's own default. A point
  table is the dictionary it is in the code, in insertion order. A fact bundle is a map from
  field names to values.
\<close>

record scoring_config =
  qualify_threshold :: real
  reject_threshold :: real
  size_bands :: "(int \<times> int \<times> real) list"
  industry_points :: "(string \<times> real) list"
  seniority_points :: "(string \<times> real) list"
  function_points :: "(string \<times> real) list"
  intent_max_points :: real
  trigger_points :: real
  disqualifier_enabled :: bool
  profile_id :: "uuid option"
  profile_version :: "int option"

type_synonym facts = "string \<Rightarrow> pyval option"

definition RULES_VERSION :: string where
  "RULES_VERSION = ''icp-1.0.0''"

definition QUALIFY_THRESHOLD :: real where
  "QUALIFY_THRESHOLD = 65"

definition REJECT_THRESHOLD :: real where
  "REJECT_THRESHOLD = 55"

definition SIZE_POINTS :: "(int \<times> int \<times> real) list" where
  "SIZE_POINTS =
     [(1, 10, 2), (11, 50, 10), (51, 200, 20), (201, 1000, 18), (1001, 10 ^ 9, 8)]"

definition INDUSTRY_POINTS :: "(string \<times> real) list" where
  "INDUSTRY_POINTS =
     [(''software'', 15), (''fintech'', 15), (''healthtech'', 13), (''ecommerce'', 12),
      (''logistics'', 8), (''manufacturing'', 7), (''education'', 5), (''nonprofit'', 2)]"

definition SENIORITY_POINTS :: "(string \<times> real) list" where
  "SENIORITY_POINTS =
     [(''c_level'', 20), (''vp'', 18), (''director'', 14), (''manager'', 8), (''ic'', 2)]"

definition FUNCTION_POINTS :: "(string \<times> real) list" where
  "FUNCTION_POINTS =
     [(''data'', 15), (''engineering'', 14), (''operations'', 9), (''marketing'', 5),
      (''sales'', 5), (''finance'', 4), (''other'', 2)]"

definition reference_config :: scoring_config where
  "reference_config =
     \<lparr>qualify_threshold = QUALIFY_THRESHOLD, reject_threshold = REJECT_THRESHOLD,
      size_bands = SIZE_POINTS, industry_points = INDUSTRY_POINTS,
      seniority_points = SENIORITY_POINTS, function_points = FUNCTION_POINTS,
      intent_max_points = 20, trigger_points = 10, disqualifier_enabled = True,
      profile_id = None, profile_version = None\<rparr>"

definition DISQUALIFIER_FIELD :: string where
  "DISQUALIFIER_FIELD = ''disqualifying_flag''"

definition UNKNOWN :: string where
  "UNKNOWN = ''unknown''"

definition is_unknown :: "pyval option \<Rightarrow> bool" where
  "is_unknown v \<longleftrightarrow> v = None \<or> v = Some VNone \<or> v = Some (VStr UNKNOWN)"

definition is_known :: "facts \<Rightarrow> string \<Rightarrow> bool" where
  "is_known fs name \<longleftrightarrow> \<not> is_unknown (fs name)"

definition ADDITIVE_FIELDS :: "string list" where
  "ADDITIVE_FIELDS =
     [''employee_count'', ''industry'', ''title_seniority'', ''title_function'',
      ''buying_intent'', ''recent_trigger_event'']"

definition SCORED_FIELDS :: "string list" where
  "SCORED_FIELDS =
     [''employee_count'', ''industry'', ''title_seniority'', ''title_function'',
      ''buying_intent'', ''recent_trigger_event'', DISQUALIFIER_FIELD]"

definition FIELD_TO_COMPONENT :: "(string \<times> string) list" where
  "FIELD_TO_COMPONENT =
     [(''employee_count'', ''company_size''), (''industry'', ''industry''),
      (''title_seniority'', ''seniority''), (''title_function'', ''function''),
      (''buying_intent'', ''buying_intent''), (''recent_trigger_event'', ''trigger_event'')]"

text \<open>\<open>max(values, default=0.0)\<close>\<close>

definition max_default :: "real list \<Rightarrow> real" where
  "max_default xs = (case xs of [] \<Rightarrow> 0 | y # ys \<Rightarrow> fold max ys y)"

abbreviation band_points :: "int \<times> int \<times> real \<Rightarrow> real" where
  "band_points b \<equiv> snd (snd b)"

definition max_field_points :: "scoring_config \<Rightarrow> (string \<times> real) list" where
  "max_field_points cfg =
     [(''employee_count'', max_default (map band_points (size_bands cfg))),
      (''industry'', max_default (map snd (industry_points cfg))),
      (''title_seniority'', max_default (map snd (seniority_points cfg))),
      (''title_function'', max_default (map snd (function_points cfg))),
      (''buying_intent'', intent_max_points cfg),
      (''recent_trigger_event'', trigger_points cfg)]"

definition dict_get :: "(string \<times> real) list \<Rightarrow> string \<Rightarrow> real" where
  "dict_get d k = (case map_of d k of None \<Rightarrow> 0 | Some v \<Rightarrow> v)"

definition DISQUALIFIER_COMPLETENESS_WEIGHT :: real where
  "DISQUALIFIER_COMPLETENESS_WEIGHT = 20"

definition completeness_weights :: "scoring_config \<Rightarrow> (string \<times> real) list" where
  "completeness_weights cfg =
     max_field_points cfg @ [(DISQUALIFIER_FIELD, DISQUALIFIER_COMPLETENESS_WEIGHT)]"

text \<open>The module constants \<open>MAX_FIELD_POINTS\<close>, \<open>MAX_TOTAL_SCORE\<close> and
  \<open>COMPLETENESS_WEIGHTS\<close> reflect the reference configuration only.\<close>

definition MAX_FIELD_POINTS :: "(string \<times> real) list" where
  "MAX_FIELD_POINTS = max_field_points reference_config"

definition MAX_TOTAL_SCORE :: real where
  "MAX_TOTAL_SCORE = sum_list (map snd MAX_FIELD_POINTS)"

definition COMPLETENESS_WEIGHTS :: "(string \<times> real) list" where
  "COMPLETENESS_WEIGHTS = completeness_weights reference_config"

subsection \<open>Points of a field\<close>

fun in_band :: "int \<Rightarrow> int \<Rightarrow> pyfloat \<Rightarrow> bool" where
  "in_band lo hi (Fin x) \<longleftrightarrow> of_int lo \<le> x \<and> x \<le> of_int hi"
| "in_band lo hi _ \<longleftrightarrow> False"

fun size_points :: "(int \<times> int \<times> real) list \<Rightarrow> pyfloat \<Rightarrow> real" where
  "size_points [] n = 0"
| "size_points ((lo, hi, pts) # bands) n = (if in_band lo hi n then pts else size_points bands n)"

text \<open>\<open>max(0.0, min(1.0, x))\<close>, which keeps its first argument when the comparison with a
  NaN is false.\<close>

fun clamp01 :: "pyfloat \<Rightarrow> real" where
  "clamp01 (Fin x) = max 0 (min 1 x)"
| "clamp01 PInf = 1"
| "clamp01 NInf = 0"
| "clamp01 NaN = 1"

definition field_points :: "scoring_config \<Rightarrow> string \<Rightarrow> pyval option \<Rightarrow> real" where
  "field_points cfg name value =
     (if is_unknown value then 0
      else let v = the value in
        if name = ''employee_count'' then
          (case py_float v of None \<Rightarrow> 0 | Some n \<Rightarrow> size_points (size_bands cfg) n)
        else if name = ''industry'' then dict_get (industry_points cfg) (py_str v)
        else if name = ''title_seniority'' then dict_get (seniority_points cfg) (py_str v)
        else if name = ''title_function'' then dict_get (function_points cfg) (py_str v)
        else if name = ''buying_intent'' then
          (case py_float v of None \<Rightarrow> 0 | Some n \<Rightarrow> clamp01 n * intent_max_points cfg)
        else if name = ''recent_trigger_event'' then
          (if truthy v then trigger_points cfg else 0)
        else 0)"

text \<open>\<open>max(points, key=points.get)\<close>: the first key of the dictionary with the most points.\<close>

definition best_case_value :: "scoring_config \<Rightarrow> string \<Rightarrow> pyval option" where
  "best_case_value cfg name =
     (let points =
        (if name = ''industry'' then industry_points cfg
         else if name = ''title_seniority'' then seniority_points cfg
         else if name = ''title_function'' then function_points cfg
         else [])
      in case points of
           [] \<Rightarrow> None
         | p # ps \<Rightarrow> Some (VStr (max_by (dict_get points) (fst p) (map fst ps))))"

subsection \<open>The score and the decision\<close>

definition is_disqualified :: "scoring_config \<Rightarrow> facts \<Rightarrow> bool" where
  "is_disqualified cfg fs \<longleftrightarrow>
     disqualifier_enabled cfg \<and> fs DISQUALIFIER_FIELD = Some (VBool True)"

definition score_facts :: "scoring_config \<Rightarrow> facts \<Rightarrow> score_breakdown" where
  "score_facts cfg fs =
     (let comps = map (\<lambda>(field, comp). (comp, field_points cfg field (fs field))) FIELD_TO_COMPONENT
      in if is_disqualified cfg fs
         then \<lparr>total_score = 0,
               components = map (\<lambda>(comp, _). (comp, 0)) comps @ [(''disqualified'', 0)],
               model_version = RULES_VERSION\<rparr>
         else \<lparr>total_score = sum_list (map snd comps), components = comps,
               model_version = RULES_VERSION\<rparr>)"

definition decide :: "scoring_config \<Rightarrow> real \<Rightarrow> decision" where
  "decide cfg score =
     (if score \<ge> qualify_threshold cfg then AUTO_ROUTE
      else if score < reject_threshold cfg then REJECT
      else ESCALATE_HUMAN)"

definition settled_decision :: "real \<Rightarrow> real \<Rightarrow> real \<Rightarrow> real \<Rightarrow> decision option" where
  "settled_decision lower upper qualify reject =
     (if lower \<ge> qualify then Some AUTO_ROUTE
      else if upper < reject then Some REJECT
      else if lower \<ge> reject \<and> upper < qualify then Some ESCALATE_HUMAN
      else None)"

subsection \<open>Well-formed configurations and the range of the points\<close>

text \<open>
  What the arithmetic of the scorer needs of a configuration: no negative points and
  thresholds in order. It is what \<open>validate_config\<close> of \<open>arie.icp_profiles\<close> checks
  before a profile is stored.
\<close>

definition wf_config :: "scoring_config \<Rightarrow> bool" where
  "wf_config cfg \<longleftrightarrow>
     reject_threshold cfg \<le> qualify_threshold cfg
     \<and> (\<forall>p \<in> set (map band_points (size_bands cfg)). 0 \<le> p)
     \<and> (\<forall>p \<in> set (map snd (industry_points cfg)). 0 \<le> p)
     \<and> (\<forall>p \<in> set (map snd (seniority_points cfg)). 0 \<le> p)
     \<and> (\<forall>p \<in> set (map snd (function_points cfg)). 0 \<le> p)
     \<and> 0 \<le> intent_max_points cfg \<and> 0 \<le> trigger_points cfg"

lemma wf_reference_config [simp]: "wf_config reference_config"
  by (simp add: wf_config_def reference_config_def QUALIFY_THRESHOLD_def REJECT_THRESHOLD_def
      SIZE_POINTS_def INDUSTRY_POINTS_def SENIORITY_POINTS_def FUNCTION_POINTS_def)

lemma fold_max_ge: "y \<le> fold max xs y" for y :: real
  by (induction xs arbitrary: y) (auto intro: order_trans [OF max.cobounded2])

lemma max_default_ge: "x \<in> set xs \<Longrightarrow> x \<le> max_default xs"
proof (cases xs)
  case (Cons y ys)
  assume "x \<in> set xs"
  moreover have "x \<in> set ys \<Longrightarrow> x \<le> fold max ys y"
    by (induction ys arbitrary: y) (auto intro: order_trans [OF max.cobounded1 fold_max_ge])
  ultimately show ?thesis
    using Cons by (auto simp: max_default_def fold_max_ge)
qed simp

lemma max_default_nonneg: "(\<And>x. x \<in> set xs \<Longrightarrow> 0 \<le> x) \<Longrightarrow> 0 \<le> max_default xs"
  by (cases xs) (auto simp: max_default_def intro: order_trans [OF _ fold_max_ge])

lemma dict_get_bounds:
  assumes nn: "\<forall>p \<in> set (map snd d). 0 \<le> p"
  shows "0 \<le> dict_get d k \<and> dict_get d k \<le> max_default (map snd d)"
proof (cases "map_of d k")
  case None
  from nn have "0 \<le> max_default (map snd d)"
    by (intro max_default_nonneg) blast
  with None show ?thesis by (simp add: dict_get_def)
next
  case (Some p)
  then have p: "(k, p) \<in> set d" by (rule map_of_SomeD)
  then have "p \<in> set (map snd d)" by force
  then have "p \<le> max_default (map snd d)" by (rule max_default_ge)
  moreover have "0 \<le> p" using nn \<open>p \<in> set (map snd d)\<close> by blast
  ultimately show ?thesis using Some by (simp add: dict_get_def)
qed

lemma size_points_range: "size_points bands n = 0 \<or> size_points bands n \<in> set (map band_points bands)"
  by (induction bands n rule: size_points.induct) auto

lemma size_points_bounds:
  assumes nn: "\<forall>p \<in> set (map band_points bands). 0 \<le> p"
  shows "0 \<le> size_points bands n \<and> size_points bands n \<le> max_default (map band_points bands)"
proof -
  from nn have pos: "0 \<le> x" if "x \<in> set (map band_points bands)" for x
    using that by blast
  show ?thesis
    using size_points_range [of bands n]
  proof
    assume "size_points bands n = 0"
    moreover have "0 \<le> max_default (map band_points bands)"
      by (rule max_default_nonneg) (rule pos)
    ultimately show ?thesis by simp
  next
    assume "size_points bands n \<in> set (map band_points bands)"
    with pos max_default_ge show ?thesis by blast
  qed
qed

lemma clamp01_bounds: "0 \<le> clamp01 x \<and> clamp01 x \<le> 1"
  by (cases x) auto

lemma max_field_points_simps [simp]:
  "dict_get (max_field_points cfg) ''employee_count'' = max_default (map band_points (size_bands cfg))"
  "dict_get (max_field_points cfg) ''industry'' = max_default (map snd (industry_points cfg))"
  "dict_get (max_field_points cfg) ''title_seniority'' = max_default (map snd (seniority_points cfg))"
  "dict_get (max_field_points cfg) ''title_function'' = max_default (map snd (function_points cfg))"
  "dict_get (max_field_points cfg) ''buying_intent'' = intent_max_points cfg"
  "dict_get (max_field_points cfg) ''recent_trigger_event'' = trigger_points cfg"
  by (simp_all add: dict_get_def max_field_points_def split_beta)

lemma max_field_points_nonneg: "wf_config cfg \<Longrightarrow> \<forall>p \<in> set (map snd (max_field_points cfg)). 0 \<le> p"
  unfolding wf_config_def max_field_points_def
  by (simp only: list.map list.set snd_conv ball_simps) (blast intro: max_default_nonneg)

lemma wf_config_ceiling_nonneg: "wf_config cfg \<Longrightarrow> 0 \<le> dict_get (max_field_points cfg) name"
  using dict_get_bounds [OF max_field_points_nonneg] by blast

text \<open>Points of one field at a known value, by field.\<close>

lemma field_points_simps [simp]:
  "\<not> is_unknown (Some v) \<Longrightarrow> field_points cfg ''employee_count'' (Some v) =
     (case py_float v of None \<Rightarrow> 0 | Some n \<Rightarrow> size_points (size_bands cfg) n)"
  "\<not> is_unknown (Some v) \<Longrightarrow> field_points cfg ''industry'' (Some v) =
     dict_get (industry_points cfg) (py_str v)"
  "\<not> is_unknown (Some v) \<Longrightarrow> field_points cfg ''title_seniority'' (Some v) =
     dict_get (seniority_points cfg) (py_str v)"
  "\<not> is_unknown (Some v) \<Longrightarrow> field_points cfg ''title_function'' (Some v) =
     dict_get (function_points cfg) (py_str v)"
  "\<not> is_unknown (Some v) \<Longrightarrow> field_points cfg ''buying_intent'' (Some v) =
     (case py_float v of None \<Rightarrow> 0 | Some n \<Rightarrow> clamp01 n * intent_max_points cfg)"
  "\<not> is_unknown (Some v) \<Longrightarrow> field_points cfg ''recent_trigger_event'' (Some v) =
     (if truthy v then trigger_points cfg else 0)"
  by (simp_all add: field_points_def)

lemma field_points_other: "name \<notin> set ADDITIVE_FIELDS \<Longrightarrow> field_points cfg name v = 0"
  unfolding field_points_def ADDITIVE_FIELDS_def Let_def by (simp only: list.set insert_iff de_Morgan_disj if_False if_cancel)

lemma in_set6_cases:
  "x \<in> set [a, b, c, d, e, f] \<Longrightarrow> (x = a \<Longrightarrow> P) \<Longrightarrow> (x = b \<Longrightarrow> P) \<Longrightarrow> (x = c \<Longrightarrow> P)
   \<Longrightarrow> (x = d \<Longrightarrow> P) \<Longrightarrow> (x = e \<Longrightarrow> P) \<Longrightarrow> (x = f \<Longrightarrow> P) \<Longrightarrow> P"
  by auto

lemmas additive_field_cases [consumes 1] = in_set6_cases [of name "''employee_count''" "''industry''"
  "''title_seniority''" "''title_function''" "''buying_intent''" "''recent_trigger_event''",
  folded ADDITIVE_FIELDS_def] for name

lemma field_points_range:
  assumes wf: "wf_config cfg"
  shows "0 \<le> field_points cfg name v \<and> field_points cfg name v \<le> dict_get (max_field_points cfg) name"
proof (cases "is_unknown v \<or> name \<notin> set ADDITIVE_FIELDS")
  case True
  then have "field_points cfg name v = 0"
    by (auto simp: field_points_other) (simp add: field_points_def)
  with wf_config_ceiling_nonneg [OF wf, of name] show ?thesis by simp
next
  case False
  then obtain w where v: "v = Some w" "\<not> is_unknown (Some w)"
    by (cases v) (auto simp: is_unknown_def)
  have ind: "\<forall>p \<in> set (map snd (industry_points cfg)). 0 \<le> p"
    and sen: "\<forall>p \<in> set (map snd (seniority_points cfg)). 0 \<le> p"
    and fun': "\<forall>p \<in> set (map snd (function_points cfg)). 0 \<le> p"
    and siz: "\<forall>p \<in> set (map band_points (size_bands cfg)). 0 \<le> p"
    and i: "0 \<le> intent_max_points cfg" and t: "0 \<le> trigger_points cfg"
    using wf unfolding wf_config_def by blast+
  have c: "0 \<le> clamp01 x * intent_max_points cfg \<and> clamp01 x * intent_max_points cfg \<le> intent_max_points cfg" for x
    using i clamp01_bounds [of x] by (simp add: mult_left_le_one_le)
  from False have "name \<in> set ADDITIVE_FIELDS" by simp
  then show ?thesis
  proof (cases rule: additive_field_cases)
    case 1
    with v size_points_bounds [OF siz] wf_config_ceiling_nonneg [OF wf, of "''employee_count''"]
    show ?thesis by (simp split: option.split)
  next
    case 2
    with v dict_get_bounds [OF ind] show ?thesis by simp
  next
    case 3
    with v dict_get_bounds [OF sen] show ?thesis by simp
  next
    case 4
    with v dict_get_bounds [OF fun'] show ?thesis by simp
  next
    case 5
    with v c i show ?thesis by (simp split: option.split)
  next
    case 6
    with v t show ?thesis by simp
  qed
qed

lemmas field_points_nonneg = field_points_range [THEN conjunct1]
lemmas field_points_ceiling = field_points_range [THEN conjunct2]

lemma field_points_unknown [simp]: "is_unknown v \<Longrightarrow> field_points cfg name v = 0"
  by (simp add: field_points_def)

lemma score_facts_total:
  "total_score (score_facts cfg fs) =
     (if is_disqualified cfg fs then 0
      else \<Sum>f\<leftarrow>ADDITIVE_FIELDS. field_points cfg f (fs f))"
  by (simp add: score_facts_def Let_def FIELD_TO_COMPONENT_def ADDITIVE_FIELDS_def)

end
