(* ===== verification/Provider_Catalog.thy ===== *)
theory Provider_Catalog
  imports Core_Types
begin

text \<open>
  \<open>arie.providers.catalog\<close>: the declarative catalogue of simulated providers, ordered
  cheapest first, and \<open>arie.evalgen.schema\<close>: the frozen observation of one provider for one
  lead, with the lead it belongs to.
\<close>

datatype tier = Free | Cheap | Mid | Expensive

record provider_spec =
  ps_name :: string
  ps_entity_type :: entity_type
  ps_capability :: string
  ps_provides :: "string list"
  ps_base_cost :: real
  ps_p50_latency :: int
  ps_p95_latency :: int
  ps_coverage :: real
  ps_obscurity :: real
  ps_noise :: real
  ps_cat_error :: real
  ps_failure_rate :: real
  ps_bill_on_miss :: bool
  ps_tier :: tier

definition inbound_payload :: provider_spec where
  "inbound_payload =
     \<lparr>ps_name = ''inbound_payload'', ps_entity_type = Person, ps_capability = ''submitted_data'',
      ps_provides = [''title_seniority'', ''title_function''], ps_base_cost = 0,
      ps_p50_latency = 0, ps_p95_latency = 0, ps_coverage = 1, ps_obscurity = 0, ps_noise = 0,
      ps_cat_error = 0.18, ps_failure_rate = 0, ps_bill_on_miss = False, ps_tier = Free\<rparr>"

definition internal_crm :: provider_spec where
  "internal_crm =
     \<lparr>ps_name = ''internal_crm'', ps_entity_type = Company, ps_capability = ''existing_record'',
      ps_provides = [''industry'', ''employee_count''], ps_base_cost = 0,
      ps_p50_latency = 15, ps_p95_latency = 60, ps_coverage = 0.35, ps_obscurity = 0.30,
      ps_noise = 0.25, ps_cat_error = 0.08, ps_failure_rate = 0.005, ps_bill_on_miss = False,
      ps_tier = Free\<rparr>"

definition dns_web :: provider_spec where
  "dns_web =
     \<lparr>ps_name = ''dns_web'', ps_entity_type = Company, ps_capability = ''web_presence'',
      ps_provides = [''industry''], ps_base_cost = 0.0008,
      ps_p50_latency = 250, ps_p95_latency = 1400, ps_coverage = 0.88, ps_obscurity = 0.45,
      ps_noise = 0, ps_cat_error = 0.16, ps_failure_rate = 0.03, ps_bill_on_miss = False,
      ps_tier = Cheap\<rparr>"

definition firmographics_basic :: provider_spec where
  "firmographics_basic =
     \<lparr>ps_name = ''firmographics_basic'', ps_entity_type = Company, ps_capability = ''firmographics'',
      ps_provides = [''employee_count'', ''industry''], ps_base_cost = 0.012,
      ps_p50_latency = 320, ps_p95_latency = 1100, ps_coverage = 0.82, ps_obscurity = 0.55,
      ps_noise = 0.30, ps_cat_error = 0.07, ps_failure_rate = 0.02, ps_bill_on_miss = False,
      ps_tier = Cheap\<rparr>"

definition contact_enrich :: provider_spec where
  "contact_enrich =
     \<lparr>ps_name = ''contact_enrich'', ps_entity_type = Person, ps_capability = ''person_profile'',
      ps_provides = [''title_seniority'', ''title_function''], ps_base_cost = 0.055,
      ps_p50_latency = 480, ps_p95_latency = 2200, ps_coverage = 0.74, ps_obscurity = 0.60,
      ps_noise = 0, ps_cat_error = 0.10, ps_failure_rate = 0.025, ps_bill_on_miss = False,
      ps_tier = Mid\<rparr>"

definition firmographics_premium :: provider_spec where
  "firmographics_premium =
     \<lparr>ps_name = ''firmographics_premium'', ps_entity_type = Company, ps_capability = ''firmographics'',
      ps_provides = [''employee_count'', ''industry''], ps_base_cost = 0.090,
      ps_p50_latency = 600, ps_p95_latency = 2600, ps_coverage = 0.91, ps_obscurity = 0.35,
      ps_noise = 0.12, ps_cat_error = 0.03, ps_failure_rate = 0.015, ps_bill_on_miss = False,
      ps_tier = Mid\<rparr>"

definition intent_signals :: provider_spec where
  "intent_signals =
     \<lparr>ps_name = ''intent_signals'', ps_entity_type = Company, ps_capability = ''intent'',
      ps_provides = [''buying_intent'', ''recent_trigger_event''], ps_base_cost = 0.250,
      ps_p50_latency = 1100, ps_p95_latency = 4800, ps_coverage = 0.62, ps_obscurity = 0.70,
      ps_noise = 0.22, ps_cat_error = 0.12, ps_failure_rate = 0.04, ps_bill_on_miss = True,
      ps_tier = Expensive\<rparr>"

definition deep_research :: provider_spec where
  "deep_research =
     \<lparr>ps_name = ''deep_research'', ps_entity_type = Company, ps_capability = ''deep_research'',
      ps_provides = [''buying_intent'', ''recent_trigger_event'', ''disqualifying_flag'',
                     ''employee_count'', ''industry''], ps_base_cost = 0.600,
      ps_p50_latency = 4200, ps_p95_latency = 15000, ps_coverage = 0.88, ps_obscurity = 0.40,
      ps_noise = 0.08, ps_cat_error = 0.04, ps_failure_rate = 0.05, ps_bill_on_miss = True,
      ps_tier = Expensive\<rparr>"

lemmas provider_spec_defs =
  inbound_payload_def internal_crm_def dns_web_def firmographics_basic_def contact_enrich_def
  firmographics_premium_def intent_signals_def deep_research_def

definition CATALOG :: "provider_spec list" where
  "CATALOG =
     [inbound_payload, internal_crm, dns_web, firmographics_basic, contact_enrich,
      firmographics_premium, intent_signals, deep_research]"

definition BY_NAME :: "string \<Rightarrow> provider_spec option" where
  "BY_NAME = map_of (map (\<lambda>p. (ps_name p, p)) CATALOG)"

definition CHEAP_TIER :: "string list" where
  "CHEAP_TIER = map ps_name (filter (\<lambda>p. ps_tier p = Free \<or> ps_tier p = Cheap) CATALOG)"

definition ALL_PROVIDERS :: "string list" where
  "ALL_PROVIDERS = map ps_name CATALOG"

definition total_catalog_cost :: real where
  "total_catalog_cost = sum_list (map ps_base_cost CATALOG)"

text \<open>\<open>1.0 - max(spec.categorical_error, spec.numeric_noise)\<close>: the trust in a provider.\<close>

definition precision :: "provider_spec \<Rightarrow> real" where
  "precision p = 1 - max (ps_cat_error p) (ps_noise p)"

definition spec_named :: "string \<Rightarrow> error + provider_spec" where
  "spec_named name = (case BY_NAME name of None \<Rightarrow> Inl KeyError | Some p \<Rightarrow> Inr p)"

lemma catalog_names_distinct: "distinct (map ps_name CATALOG)"
  by (simp add: CATALOG_def provider_spec_defs)

lemma BY_NAME_catalog: "p \<in> set CATALOG \<Longrightarrow> BY_NAME (ps_name p) = Some p"
  using catalog_names_distinct
  by (simp add: BY_NAME_def map_of_eq_Some_iff comp_def)

lemma catalog_cheapest_first: "sorted (map ps_base_cost CATALOG)"
  by (simp add: CATALOG_def provider_spec_defs)

lemma catalog_coverage: "p \<in> set CATALOG \<Longrightarrow> 0 \<le> ps_coverage p \<and> ps_coverage p \<le> 1"
  by (auto simp: CATALOG_def provider_spec_defs)

lemma catalog_cost_nonneg: "p \<in> set CATALOG \<Longrightarrow> 0 \<le> ps_base_cost p"
  by (auto simp: CATALOG_def provider_spec_defs)

subsection \<open>Frozen observations and benchmark leads\<close>

record observation =
  ob_provider :: string
  ob_status :: provider_status
  ob_fields :: "(string \<times> pyval) list"
  ob_latency :: real
  ob_cost :: real

datatype value_tier = Small | Medium | Large | Whale

datatype difficulty_band = Easy | Medium_Band | Hard

datatype split = Calibration | Test

record latent_company =
  lc_company_id :: string
  lc_canonical_domain :: string
  lc_legal_name :: string
  lc_employee_count :: int
  lc_industry :: string
  lc_recent_trigger_event :: "string option"
  lc_disqualifying_flag :: bool
  lc_buying_intent :: real
  lc_obscurity :: real
  lc_name_variants :: "string list"

record latent_person =
  lp_person_id :: string
  lp_company_id :: string
  lp_full_name :: string
  lp_email :: string
  lp_title_seniority :: string
  lp_title_function :: string

record eval_lead =
  el_id :: string
  el_company :: latent_company
  el_person :: latent_person
  el_observations :: "(string \<times> observation) list"
  el_oracle_decision :: decision
  el_oracle_score :: real
  el_oracle_components :: "(string \<times> real) list"
  el_difficulty_band :: difficulty_band
  el_value_tier :: value_tier
  el_split :: split
  el_cheap_misleads :: bool
  el_constructed_adversarial :: bool
  el_generator_version :: string
  el_seed :: int

end
