(* ===== verification/Scoring_Merge.thy ===== *)
theory Scoring_Merge
  imports Scoring_Rules Provider_Catalog
begin

text \<open>
  \<open>arie.scoring.merge\<close>: conflicting claims about a field are resolved to one winner, the
  highest confidence with ties broken by the source name, and the size of the disagreement
  is measured in points. A resolution dictionary is an association list in the order the
  code builds it, sorted by field name.
\<close>

definition CONFLICT_EPSILON :: real where
  "CONFLICT_EPSILON = 0.5"

record candidate =
  c_field :: string
  c_value :: pyval
  c_source :: string
  c_confidence :: real

record field_resolution =
  r_field :: string
  r_value :: pyval
  r_source :: string
  r_confidence :: real
  candidate_count :: nat
  conflict_points :: real

definition contested :: "field_resolution \<Rightarrow> bool" where
  "contested r \<longleftrightarrow> conflict_points r > CONFLICT_EPSILON"

definition compute_conflict_points :: "scoring_config \<Rightarrow> candidate list \<Rightarrow> real" where
  "compute_conflict_points cfg cs =
     (if length cs < 2 then 0
      else let points = map (\<lambda>c. field_points cfg (c_field c) (Some (c_value c))) cs
           in Max (set points) - Min (set points))"

definition usable :: "candidate \<Rightarrow> bool" where
  "usable c \<longleftrightarrow> c_field c \<in> set SCORED_FIELDS \<and> \<not> is_unknown (Some (c_value c))"

text \<open>\<open>grouped.setdefault(c.field_name, []).append(c)\<close> for every usable candidate.\<close>

definition add_to_group ::
  "(string \<times> candidate list) list \<Rightarrow> candidate \<Rightarrow> (string \<times> candidate list) list" where
  "add_to_group g c =
     (if usable c
      then AList.update (c_field c)
             ((case map_of g (c_field c) of None \<Rightarrow> [] | Some xs \<Rightarrow> xs) @ [c]) g
      else g)"

definition group_candidates :: "candidate list \<Rightarrow> (string \<times> candidate list) list" where
  "group_candidates cs = foldl add_to_group [] cs"

definition candidate_key :: "candidate \<Rightarrow> real \<times> string" where
  "candidate_key c = (c_confidence c, c_source c)"

definition resolve_field :: "scoring_config \<Rightarrow> string \<Rightarrow> candidate list \<Rightarrow> field_resolution" where
  "resolve_field cfg name grp =
     (let winner = max_by candidate_key (hd grp) (tl grp)
      in \<lparr>r_field = name, r_value = c_value winner, r_source = c_source winner,
          r_confidence = c_confidence winner, candidate_count = length grp,
          conflict_points = compute_conflict_points cfg grp\<rparr>)"

definition resolve_candidates ::
  "scoring_config \<Rightarrow> candidate list \<Rightarrow> (string \<times> field_resolution) list" where
  "resolve_candidates cfg cs =
     map (\<lambda>(name, grp). (name, resolve_field cfg name grp)) (sort_key fst (group_candidates cs))"

definition facts_from :: "(string \<times> field_resolution) list \<Rightarrow> facts" where
  "facts_from rs = map_of (map (\<lambda>(name, r). (name, r_value r)) rs)"

subsection \<open>Adapters\<close>

definition claims_of :: "string \<Rightarrow> real \<Rightarrow> (string \<times> pyval) list \<Rightarrow> candidate list" where
  "claims_of provider prec flds =
     map (\<lambda>(f, v). \<lparr>c_field = f, c_value = v, c_source = provider, c_confidence = prec\<rparr>)
       (sort_key fst flds)"

definition candidates_from_observations ::
  "(string \<times> observation) list \<Rightarrow> string set option \<Rightarrow> error + candidate list" where
  "candidates_from_observations obs allowed =
     sum_bind (sum_mapM (\<lambda>(name, ob).
         if (case allowed of None \<Rightarrow> False | Some A \<Rightarrow> name \<notin> A) then Inr []
         else if ob_status ob \<noteq> SUCCESS then Inr []
         else sum_bind (spec_named name) (\<lambda>p. Inr (claims_of name (precision p) (ob_fields ob))))
       (sort_key fst obs)) (\<lambda>css. Inr (concat css))"

definition candidates_from_evidence :: "evidence list \<Rightarrow> instant \<Rightarrow> candidate list" where
  "candidates_from_evidence items now =
     map (\<lambda>e. \<lparr>c_field = ev_field e, c_value = ev_value e, c_source = ev_source e,
                 c_confidence = effective_confidence e now\<rparr>) items"

definition merge_observations ::
  "scoring_config \<Rightarrow> (string \<times> observation) list \<Rightarrow> string set option \<Rightarrow> error + facts" where
  "merge_observations cfg obs allowed =
     sum_bind (candidates_from_observations obs allowed)
       (\<lambda>cs. Inr (facts_from (resolve_candidates cfg cs)))"

definition merged_cost :: "(string \<times> observation) list \<Rightarrow> string set option \<Rightarrow> real" where
  "merged_cost obs allowed =
     sum_list (map (\<lambda>(name, ob). ob_cost ob)
       (filter (\<lambda>(name, ob). case allowed of None \<Rightarrow> True | Some A \<Rightarrow> name \<in> A) obs))"

subsection \<open>What grouping computes\<close>

definition group_of :: "candidate list \<Rightarrow> string \<Rightarrow> candidate list" where
  "group_of cs name = filter (\<lambda>c. usable c \<and> c_field c = name) cs"

definition known_fields_of :: "candidate list \<Rightarrow> string set" where
  "known_fields_of cs = c_field ` set (filter usable cs)"

lemma group_candidates_snoc: "group_candidates (cs @ [c]) = add_to_group (group_candidates cs) c"
  by (simp add: group_candidates_def)

lemma group_candidates_inv:
  "distinct (map fst (group_candidates cs))
   \<and> set (map fst (group_candidates cs)) = known_fields_of cs
   \<and> (\<forall>name. map_of (group_candidates cs) name =
        (if name \<in> known_fields_of cs then Some (group_of cs name) else None))"
proof (induction cs rule: rev_induct)
  case Nil
  show ?case by (simp add: group_candidates_def known_fields_of_def)
next
  case (snoc c cs)
  show ?case
  proof (cases "usable c")
    case False
    with snoc.IH show ?thesis
      by (simp add: group_candidates_snoc add_to_group_def known_fields_of_def group_of_def)
  next
    case True
    have old: "map_of (group_candidates cs) name =
        (if name \<in> known_fields_of cs then Some (group_of cs name) else None)" for name
      using snoc.IH by blast
    have none: "name \<notin> known_fields_of cs \<Longrightarrow> group_of cs name = []" for name
      by (auto simp: known_fields_of_def group_of_def filter_empty_conv)
    have kf: "known_fields_of (cs @ [c]) = insert (c_field c) (known_fields_of cs)"
      using True by (simp add: known_fields_of_def)
    have gc: "group_of (cs @ [c]) name = group_of cs name @ (if name = c_field c then [c] else [])" for name
      using True by (simp add: group_of_def)
    have upd: "group_candidates (cs @ [c]) =
        AList.update (c_field c) (group_of cs (c_field c) @ [c]) (group_candidates cs)"
      using True none [of "c_field c"] by (simp add: group_candidates_snoc add_to_group_def old)
    show ?thesis
      unfolding upd kf
      using snoc.IH by (auto simp: distinct_update AList.update_conv' gc dom_update)
  qed
qed

lemmas group_candidates_distinct = group_candidates_inv [THEN conjunct1]
lemmas group_candidates_fst = group_candidates_inv [THEN conjunct2, THEN conjunct1]

lemma group_candidates_map_of:
  "map_of (group_candidates cs) name =
     (if name \<in> known_fields_of cs then Some (group_of cs name) else None)"
  using group_candidates_inv by blast

lemma group_candidates_entry:
  "(name, g) \<in> set (group_candidates cs) \<Longrightarrow> g = group_of cs name"
  using map_of_is_SomeI [OF group_candidates_distinct] group_candidates_map_of [of cs name]
  by (auto split: if_splits)

text \<open>The resolution as a function of the groups only: one entry per known field, sorted.\<close>

lemma resolve_candidates_eq:
  "resolve_candidates cfg cs =
     map (\<lambda>name. (name, resolve_field cfg name (group_of cs name)))
       (sorted_list_of_set (known_fields_of cs))"
proof -
  let ?g = "group_candidates cs"
  have names: "map fst (sort_key fst ?g) = sorted_list_of_set (known_fields_of cs)"
    using sort_key_sorted_list_of_set [OF group_candidates_distinct, of cs] group_candidates_fst [of cs]
    by simp
  have "resolve_candidates cfg cs =
      map ((\<lambda>name. (name, resolve_field cfg name (group_of cs name))) \<circ> fst) (sort_key fst ?g)"
    by (auto simp: resolve_candidates_def dest: group_candidates_entry)
  then show ?thesis
    by (simp only: map_map [symmetric] names)
qed

lemma finite_known_fields [simp]: "finite (known_fields_of cs)"
  by (simp add: known_fields_of_def)

lemma known_fields_scored: "known_fields_of cs \<subseteq> set SCORED_FIELDS"
  by (auto simp: known_fields_of_def usable_def)

lemma group_of_nonempty: "name \<in> known_fields_of cs \<Longrightarrow> group_of cs name \<noteq> []"
  by (auto simp: known_fields_of_def group_of_def filter_empty_conv)

lemma resolve_field_winner:
  assumes "grp \<noteq> []"
  shows "\<exists>w \<in> set grp. r_value (resolve_field cfg name grp) = c_value w
     \<and> r_source (resolve_field cfg name grp) = c_source w
     \<and> r_confidence (resolve_field cfg name grp) = c_confidence w
     \<and> (\<forall>c \<in> set grp. candidate_key c \<le> candidate_key w)"
proof -
  have "set grp = set (hd grp # tl grp)"
    using assms by simp
  then show ?thesis
    using max_by_in [of candidate_key "hd grp" "tl grp"] max_by_ge [of _ "hd grp" "tl grp" candidate_key]
    by (auto simp: resolve_field_def Let_def)
qed

lemma facts_from_resolve:
  "facts_from (resolve_candidates cfg cs) name =
     (if name \<in> known_fields_of cs
      then Some (r_value (resolve_field cfg name (group_of cs name))) else None)"
  by (simp add: facts_from_def resolve_candidates_eq comp_def map_of_map_restrict
      restrict_map_def split_beta)

lemma facts_from_resolve_known:
  "is_known (facts_from (resolve_candidates cfg cs)) name \<longleftrightarrow> name \<in> known_fields_of cs"
proof (cases "name \<in> known_fields_of cs")
  case True
  then obtain w where "w \<in> set (group_of cs name)"
      "r_value (resolve_field cfg name (group_of cs name)) = c_value w"
    using resolve_field_winner [OF group_of_nonempty] by blast
  with True show ?thesis
    by (auto simp: is_known_def facts_from_resolve group_of_def usable_def)
qed (simp add: is_known_def facts_from_resolve is_unknown_def)

subsection \<open>The resolution does not depend on the order of the evidence\<close>

lemma mset_filter_eq: "mset cs = mset cs' \<Longrightarrow> mset (filter P cs) = mset (filter P cs')"
  by simp

lemma resolve_field_perm:
  assumes m: "mset grp = mset grp'" and ne: "grp \<noteq> []"
    and inj: "inj_on candidate_key (set grp)"
  shows "resolve_field cfg name grp = resolve_field cfg name grp'"
proof -
  have s: "set grp = set grp'" and l: "length grp = length grp'"
    using m by (metis set_mset_mset) (metis m size_mset)
  then have ne': "grp' \<noteq> []" using ne by auto
  have "max_by candidate_key (hd grp') (tl grp') = max_by candidate_key (hd grp) (tl grp)"
    by (rule max_by_unique) (use inj ne ne' s in simp_all)
  then show ?thesis
    by (simp add: resolve_field_def compute_conflict_points_def l s image_image)
qed

definition one_claim_per_source :: "candidate list \<Rightarrow> bool" where
  "one_claim_per_source cs \<longleftrightarrow>
     distinct (map (\<lambda>c. (c_field c, c_source c)) (filter usable cs))"

lemma one_claim_inj:
  assumes "one_claim_per_source cs"
  shows "inj_on candidate_key (set (group_of cs name))"
proof (rule inj_onI)
  fix x y
  assume "x \<in> set (group_of cs name)" "y \<in> set (group_of cs name)" "candidate_key x = candidate_key y"
  moreover have "inj_on (\<lambda>c. (c_field c, c_source c)) (set (filter usable cs))"
    using assms by (simp add: one_claim_per_source_def distinct_map)
  ultimately show "x = y"
    by (auto simp: group_of_def candidate_key_def dest: inj_onD)
qed


definition claim_a :: candidate where
  "claim_a = \<lparr>c_field = ''industry'', c_value = VStr ''software'', c_source = ''dns_web'',
              c_confidence = 0.84\<rparr>"

definition claim_b :: candidate where
  "claim_b = \<lparr>c_field = ''industry'', c_value = VStr ''logistics'', c_source = ''internal_crm'',
              c_confidence = 0.84\<rparr>"

lemma usable_claims: "usable claim_a" "usable claim_b"
  by (simp_all add: usable_def claim_a_def claim_b_def SCORED_FIELDS_def is_unknown_def UNKNOWN_def)


end
