(* ===== verification/Scoring_Engine.thy ===== *)
theory Scoring_Engine
  imports Scoring_Merge
begin

text \<open>
  \<open>arie.scoring.engine\<close>: the reachable score interval of a partial fact bundle, the
  uncertainty signals, and the scorer entry points. The lemmas lead up to the claim the
  acquisition policies rest on: a settled decision is the decision of every completion of
  the facts. \<open>score_evidence\<close> drops expired rows and resolves the rest.
\<close>

record score_bounds =
  bd_current :: real
  bd_lower :: real
  bd_upper :: real

definition settled :: "scoring_config \<Rightarrow> score_bounds \<Rightarrow> decision option" where
  "settled cfg b =
     settled_decision (bd_lower b) (bd_upper b) (qualify_threshold cfg) (reject_threshold cfg)"

definition is_settled :: "scoring_config \<Rightarrow> score_bounds \<Rightarrow> bool" where
  "is_settled cfg b \<longleftrightarrow> settled cfg b \<noteq> None"

definition bounds_width :: "score_bounds \<Rightarrow> real" where
  "bounds_width b = bd_upper b - bd_lower b"

record evidence_signals =
  completeness :: real
  conflict_rate :: real
  max_conflict_points :: real
  mean_source_confidence :: real
  boundary_distance :: real
  total_candidates :: nat
  known_fields :: "string list"
  unknown_fields :: "string list"
  contested_fields :: "string list"
  stale_fields :: "string list"

record scoring_result =
  breakdown :: score_breakdown
  sr_decision :: decision
  bounds :: score_bounds
  signals :: evidence_signals
  sr_facts :: facts
  resolutions :: "(string \<times> field_resolution) list"

definition sr_total :: "scoring_result \<Rightarrow> real" where
  "sr_total r = total_score (breakdown r)"

definition unknown_scored :: "facts \<Rightarrow> string list" where
  "unknown_scored fs = filter (\<lambda>name. \<not> is_known fs name) SCORED_FIELDS"

definition compute_bounds :: "scoring_config \<Rightarrow> facts \<Rightarrow> score_bounds" where
  "compute_bounds cfg fs =
     (let current = total_score (score_facts cfg fs)
      in if is_disqualified cfg fs then \<lparr>bd_current = 0, bd_lower = 0, bd_upper = 0\<rparr>
         else
           (let unknown = unknown_scored fs;
                upper = current + sum_list (map (dict_get (max_field_points cfg)) unknown);
                lower = (if disqualifier_enabled cfg \<and> DISQUALIFIER_FIELD \<in> set unknown then 0
                         else current)
            in \<lparr>bd_current = current, bd_lower = lower, bd_upper = upper\<rparr>))"

definition compute_boundary_distance :: "scoring_config \<Rightarrow> real \<Rightarrow> real" where
  "compute_boundary_distance cfg s =
     min \<bar>s - qualify_threshold cfg\<bar> \<bar>s - reject_threshold cfg\<bar>"

definition compute_signals ::
  "scoring_config \<Rightarrow> facts \<Rightarrow> (string \<times> field_resolution) list \<Rightarrow> string list \<Rightarrow> evidence_signals" where
  "compute_signals cfg fs rs stale =
     (let known = filter (is_known fs) SCORED_FIELDS;
          unknown = filter (\<lambda>name. \<not> is_known fs name) SCORED_FIELDS;
          weights = completeness_weights cfg;
          total_weight = sum_list (map snd weights);
          known_weight = sum_list (map (dict_get weights) known);
          compl = (if total_weight \<noteq> 0 then known_weight / total_weight else 0);
          multi_source = filter (\<lambda>r. candidate_count r > 1) (map snd rs);
          contested_rs = filter contested multi_source;
          crate = (if multi_source \<noteq> [] then real (length contested_rs) / real (length multi_source)
                   else 0);
          max_conflict = max_default (map (conflict_points \<circ> snd) rs);
          confidences = map (r_confidence \<circ> snd) rs;
          mean_conf = (if confidences \<noteq> [] then sum_list confidences / real (length confidences)
                       else 0)
      in \<lparr>completeness = py_round 6 compl,
          conflict_rate = py_round 6 crate,
          max_conflict_points = py_round 6 max_conflict,
          mean_source_confidence = py_round 6 mean_conf,
          boundary_distance =
            py_round 6 (compute_boundary_distance cfg (total_score (score_facts cfg fs))),
          total_candidates = sum_list (map (candidate_count \<circ> snd) rs),
          known_fields = known,
          unknown_fields = unknown,
          contested_fields = sort (map r_field contested_rs),
          stale_fields = sort stale\<rparr>)"

definition score_resolved ::
  "scoring_config \<Rightarrow> facts \<Rightarrow> (string \<times> field_resolution) list \<Rightarrow> string list \<Rightarrow> scoring_result" where
  "score_resolved cfg fs rs stale =
     (let b = score_facts cfg fs
      in \<lparr>breakdown = b, sr_decision = decide cfg (total_score b), bounds = compute_bounds cfg fs,
          signals = compute_signals cfg fs rs stale, sr_facts = fs, resolutions = rs\<rparr>)"

text \<open>\<open>tuple(sorted({...}))\<close>: the distinct stale field names in order.\<close>

definition stale_names :: "evidence list \<Rightarrow> instant \<Rightarrow> string list" where
  "stale_names items now =
     sort (remdups (map ev_field (filter (\<lambda>e. effective_confidence e now < ev_confidence e) items)))"

definition score_evidence :: "scoring_config \<Rightarrow> evidence list \<Rightarrow> instant \<Rightarrow> scoring_result" where
  "score_evidence cfg ev now =
     (let items = filter (\<lambda>e. \<not> is_expired e now) ev;
          rs = resolve_candidates cfg (candidates_from_evidence items now)
      in score_resolved cfg (facts_from rs) rs (stale_names items now))"

lemma score_resolved_simps [simp]:
  "breakdown (score_resolved cfg fs rs st) = score_facts cfg fs"
  "sr_decision (score_resolved cfg fs rs st) = decide cfg (total_score (score_facts cfg fs))"
  "bounds (score_resolved cfg fs rs st) = compute_bounds cfg fs"
  "signals (score_resolved cfg fs rs st) = compute_signals cfg fs rs st"
  "sr_facts (score_resolved cfg fs rs st) = fs"
  "resolutions (score_resolved cfg fs rs st) = rs"
  by (simp_all add: score_resolved_def Let_def)

subsection \<open>The bounds hold for every completion\<close>

text \<open>A completion keeps every known scored field and may fill in the unknown ones.\<close>

definition completes :: "facts \<Rightarrow> facts \<Rightarrow> bool" where
  "completes fs fs' \<longleftrightarrow> (\<forall>name \<in> set SCORED_FIELDS. is_known fs name \<longrightarrow> fs' name = fs name)"

lemma completes_refl [simp]: "completes fs fs"
  by (simp add: completes_def)

lemma SCORED_FIELDS_split: "SCORED_FIELDS = ADDITIVE_FIELDS @ [DISQUALIFIER_FIELD]"
  by (simp add: SCORED_FIELDS_def ADDITIVE_FIELDS_def)

lemma dict_get_disqualifier [simp]: "dict_get (max_field_points cfg) DISQUALIFIER_FIELD = 0"
  by (simp add: dict_get_def max_field_points_def DISQUALIFIER_FIELD_def)

lemma unknown_scored_ceiling:
  "sum_list (map (dict_get (max_field_points cfg)) (unknown_scored fs)) =
     (\<Sum>f\<leftarrow>filter (\<lambda>f. \<not> is_known fs f) ADDITIVE_FIELDS. dict_get (max_field_points cfg) f)"
  by (simp add: unknown_scored_def SCORED_FIELDS_split)

lemma DISQUALIFIER_unknown_scored:
  "DISQUALIFIER_FIELD \<in> set (unknown_scored fs) \<longleftrightarrow> \<not> is_known fs DISQUALIFIER_FIELD"
  by (simp add: unknown_scored_def SCORED_FIELDS_split)

definition additive_total :: "scoring_config \<Rightarrow> facts \<Rightarrow> real" where
  "additive_total cfg fs = (\<Sum>f\<leftarrow>ADDITIVE_FIELDS. field_points cfg f (fs f))"

lemma total_score_eq:
  "total_score (score_facts cfg fs) = (if is_disqualified cfg fs then 0 else additive_total cfg fs)"
  by (simp add: score_facts_total additive_total_def)

lemma additive_total_nonneg: "wf_config cfg \<Longrightarrow> 0 \<le> additive_total cfg fs"
  unfolding additive_total_def by (rule sum_list_nonneg_map) (rule field_points_nonneg)

lemma additive_total_mono:
  assumes "wf_config cfg" and "completes fs fs'"
  shows "additive_total cfg fs \<le> additive_total cfg fs'"
  unfolding additive_total_def
proof (rule sum_list_mono_map)
  fix f assume f: "f \<in> set ADDITIVE_FIELDS"
  show "field_points cfg f (fs f) \<le> field_points cfg f (fs' f)"
  proof (cases "is_known fs f")
    case True
    with assms(2) f show ?thesis by (auto simp: completes_def SCORED_FIELDS_split)
  next
    case False
    with field_points_nonneg [OF assms(1), of f "fs' f"] show ?thesis by (simp add: is_known_def)
  qed
qed

lemma additive_total_ceiling:
  assumes "wf_config cfg" and "completes fs fs'"
  shows "additive_total cfg fs' \<le> additive_total cfg fs
     + (\<Sum>f\<leftarrow>filter (\<lambda>f. \<not> is_known fs f) ADDITIVE_FIELDS. dict_get (max_field_points cfg) f)"
proof -
  have "additive_total cfg fs' \<le>
      (\<Sum>f\<leftarrow>ADDITIVE_FIELDS. field_points cfg f (fs f)
         + (if is_known fs f then 0 else dict_get (max_field_points cfg) f))"
    unfolding additive_total_def
  proof (rule sum_list_mono_map)
    fix f assume f: "f \<in> set ADDITIVE_FIELDS"
    show "field_points cfg f (fs' f) \<le> field_points cfg f (fs f)
        + (if is_known fs f then 0 else dict_get (max_field_points cfg) f)"
    proof (cases "is_known fs f")
      case True
      with assms(2) f show ?thesis by (auto simp: completes_def SCORED_FIELDS_split)
    next
      case False
      with field_points_ceiling [OF assms(1), of f "fs' f"] field_points_nonneg [OF assms(1), of f "fs f"]
      show ?thesis by simp
    qed
  qed
  also have "\<dots> = additive_total cfg fs
      + (\<Sum>f\<leftarrow>filter (\<lambda>f. \<not> is_known fs f) ADDITIVE_FIELDS. dict_get (max_field_points cfg) f)"
    unfolding additive_total_def by (rule sum_list_add_unless)
  finally show ?thesis .
qed

lemma disqualified_known: "is_disqualified cfg fs \<Longrightarrow> is_known fs DISQUALIFIER_FIELD"
  by (simp add: is_disqualified_def is_known_def is_unknown_def)

lemma completes_disqualified:
  assumes "completes fs fs'" and "is_known fs DISQUALIFIER_FIELD"
  shows "is_disqualified cfg fs' \<longleftrightarrow> is_disqualified cfg fs"
  using assms by (auto simp: completes_def is_disqualified_def SCORED_FIELDS_split)

lemma compute_bounds_disqualified:
  "is_disqualified cfg fs \<Longrightarrow> compute_bounds cfg fs = \<lparr>bd_current = 0, bd_lower = 0, bd_upper = 0\<rparr>"
  by (simp add: compute_bounds_def)

lemma compute_bounds_open:
  assumes "\<not> is_disqualified cfg fs"
  shows "compute_bounds cfg fs =
     \<lparr>bd_current = additive_total cfg fs,
      bd_lower = (if disqualifier_enabled cfg \<and> \<not> is_known fs DISQUALIFIER_FIELD then 0
                  else additive_total cfg fs),
      bd_upper = additive_total cfg fs
        + (\<Sum>f\<leftarrow>filter (\<lambda>f. \<not> is_known fs f) ADDITIVE_FIELDS. dict_get (max_field_points cfg) f)\<rparr>"
  using assms
  by (simp add: compute_bounds_def Let_def unknown_scored_ceiling DISQUALIFIER_unknown_scored
      total_score_eq)

lemma bounds_contain_completion:
  assumes wf: "wf_config cfg" and c: "completes fs fs'"
  shows "bd_lower (compute_bounds cfg fs) \<le> total_score (score_facts cfg fs')
       \<and> total_score (score_facts cfg fs') \<le> bd_upper (compute_bounds cfg fs)"
proof (cases "is_disqualified cfg fs")
  case True
  with completes_disqualified [OF c] disqualified_known show ?thesis
    by (simp add: compute_bounds_disqualified total_score_eq)
next
  case open': False
  note b = compute_bounds_open [OF open']
  have ceil: "0 \<le> (\<Sum>f\<leftarrow>filter (\<lambda>f. \<not> is_known fs f) ADDITIVE_FIELDS. dict_get (max_field_points cfg) f)"
    by (rule sum_list_nonneg_map) (rule wf_config_ceiling_nonneg [OF wf])
  show ?thesis
  proof (cases "is_disqualified cfg fs'")
    case True
    then have "\<not> is_known fs DISQUALIFIER_FIELD" and "disqualifier_enabled cfg"
      using completes_disqualified [OF c, of cfg] open' by (auto simp: is_disqualified_def)
    with True ceil additive_total_nonneg [OF wf, of fs] show ?thesis
      by (simp add: b total_score_eq)
  next
    case False
    with additive_total_mono [OF wf c] additive_total_ceiling [OF wf c] additive_total_nonneg [OF wf, of fs']
    show ?thesis by (simp add: b total_score_eq)
  qed
qed

lemma settled_decision_decide:
  assumes "wf_config cfg" and "settled cfg b = Some d"
    and "bd_lower b \<le> s" and "s \<le> bd_upper b"
  shows "decide cfg s = d"
  using assms by (auto simp: settled_def settled_decision_def decide_def wf_config_def split: if_splits)

text \<open>
  C1. Settled means settled: when the reachable interval of a fact bundle lies on one side of
  the thresholds, every completion of the bundle, whatever values the unknown fields take,
  scores inside the interval and gets exactly the settled decision.
\<close>

theorem settled_decision_is_final:
  assumes wf: "wf_config cfg" and settled: "settled cfg (compute_bounds cfg fs) = Some d"
    and c: "completes fs fs'"
  shows "decide cfg (total_score (score_facts cfg fs')) = d"
  using settled_decision_decide [OF wf settled] bounds_contain_completion [OF wf c] by blast

definition blocked_lead :: facts where
  "blocked_lead = [''industry'' \<mapsto> VStr ''nonprofit'', ''employee_count'' \<mapsto> VInt 5,
     ''title_seniority'' \<mapsto> VStr ''ic'', ''disqualifying_flag'' \<mapsto> VBool False]"

theorem settled_decision_is_final_witness:
  "settled reference_config (compute_bounds reference_config blocked_lead) = Some REJECT
   \<and> decide reference_config (total_score (score_facts reference_config
       (blocked_lead(''buying_intent'' \<mapsto> VFloat 1 ''1.0'')))) = REJECT"
proof -
  have s: "settled reference_config (compute_bounds reference_config blocked_lead) = Some REJECT"
    by code_simp
  have "completes blocked_lead (blocked_lead(''buying_intent'' \<mapsto> VFloat 1 ''1.0''))"
    by code_simp
  with settled_decision_is_final [OF wf_reference_config s] s show ?thesis by blast
qed

end
