(* ===== verification/Confidence.thy ===== *)
theory Confidence
  imports Scoring_Engine
begin

text \<open>
  \<open>arie.confidence\<close>: the feature vector of a scored lead (\<open>features.py\<close>), the prediction of
  the calibrated model (\<open>model.py\<close>), the autonomy threshold (\<open>threshold.py\<close>) and the
  calibration report (\<open>metrics.py\<close>). The fitted scikit-learn estimators and SciPy's
  \<open>beta.ppf\<close> are third-party code: the composition of classifier and calibrator is the
  field \<open>cm_calibrated\<close> of the model record, \<open>beta_ppf\<close> an argument.
\<close>

subsection \<open>Features\<close>

definition FEATURE_NAMES :: "string list" where
  "FEATURE_NAMES =
     [''completeness'', ''evidence_density'', ''mean_source_confidence'', ''boundary_distance'',
      ''bounds_width'', ''is_settled'', ''unknown_field_ratio'', ''conflict_rate'',
      ''max_conflict_points'', ''contested_field_ratio'']"

definition DENSITY_SATURATION :: real where
  "DENSITY_SATURATION = 2"

definition extract_features :: "scoring_config \<Rightarrow> scoring_result \<Rightarrow> (string \<times> real) list" where
  "extract_features cfg r =
     (let s = signals r; b = bounds r; n = real (length SCORED_FIELDS)
      in [(''completeness'', completeness s),
          (''evidence_density'', min (real (total_candidates s) / (n * DENSITY_SATURATION)) 1),
          (''mean_source_confidence'', mean_source_confidence s),
          (''boundary_distance'', min (boundary_distance s / MAX_TOTAL_SCORE) 1),
          (''bounds_width'', min (bounds_width b / MAX_TOTAL_SCORE) 1),
          (''is_settled'', if is_settled cfg b then 1 else 0),
          (''unknown_field_ratio'', real (length (unknown_fields s)) / n),
          (''conflict_rate'', conflict_rate s),
          (''max_conflict_points'', min (max_conflict_points s / MAX_TOTAL_SCORE) 1),
          (''contested_field_ratio'', real (length (contested_fields s)) / n)])"

text \<open>Reading a key the code has put there itself.\<close>

definition feature :: "(string \<times> real) list \<Rightarrow> string \<Rightarrow> real" where
  "feature fs name = the (map_of fs name)"

definition feature_vector :: "scoring_config \<Rightarrow> scoring_result \<Rightarrow> real list" where
  "feature_vector cfg r = map (feature (extract_features cfg r)) FEATURE_NAMES"

subsection \<open>The autonomy threshold\<close>

definition REJECT_ALL_THRESHOLD :: real where
  "REJECT_ALL_THRESHOLD = 1.01"

definition DEFAULT_DELTA :: real where
  "DEFAULT_DELTA = 0.05"

definition clopper_pearson_upper ::
  "(real \<Rightarrow> real \<Rightarrow> real \<Rightarrow> real) \<Rightarrow> int \<Rightarrow> int \<Rightarrow> real \<Rightarrow> real" where
  "clopper_pearson_upper beta_ppf errors n delta =
     (if n \<le> 0 then 1
      else if errors \<ge> n then 1
      else beta_ppf (1 - delta) (of_int errors + 1) (of_int (n - errors)))"

record threshold_selection =
  ts_tau :: real
  ts_target_error_rate :: real
  ts_delta :: real
  ts_n_evaluated :: nat
  ts_n_accepted :: nat
  ts_observed_errors :: int
  ts_observed_error_rate :: real
  ts_error_rate_upper_bound :: real

definition coverage :: "threshold_selection \<Rightarrow> real" where
  "coverage t =
     (if ts_n_evaluated t \<noteq> 0 then real (ts_n_accepted t) / real (ts_n_evaluated t) else 0)"

definition guarantee_met :: "threshold_selection \<Rightarrow> bool" where
  "guarantee_met t \<longleftrightarrow>
     ts_n_accepted t > 0 \<and> ts_error_rate_upper_bound t \<le> ts_target_error_rate t"

text \<open>
  The loop over the predictions in descending order: \<open>i\<close> predictions and \<open>errors\<close> errors are
  behind, \<open>best\<close> is the last accepted operating point. A prediction followed by an equal
  one is skipped.
\<close>

fun threshold_scan ::
  "(int \<Rightarrow> int \<Rightarrow> real) \<Rightarrow> real \<Rightarrow> real \<Rightarrow> nat \<Rightarrow> nat \<Rightarrow> int \<Rightarrow> threshold_selection option
     \<Rightarrow> (real \<times> int) list \<Rightarrow> threshold_selection option" where
  "threshold_scan upper target delta n i errors best [] = best"
| "threshold_scan upper target delta n i errors best ((c, ok) # rest) =
     (let i' = i + 1; errors' = errors + (1 - ok);
          b = upper errors' (int i')
      in threshold_scan upper target delta n i' errors'
           (if rest \<noteq> [] \<and> fst (hd rest) = c then best
            else if b \<le> target then
              Some \<lparr>ts_tau = c, ts_target_error_rate = target, ts_delta = delta,
                    ts_n_evaluated = n, ts_n_accepted = i', ts_observed_errors = errors',
                    ts_observed_error_rate = py_round 6 (of_int errors' / real i'),
                    ts_error_rate_upper_bound = py_round 6 b\<rparr>
            else best)
           rest)"

text \<open>\<open>sorted(..., key=lambda pair: pair[0], reverse=True)\<close>, which is stable.\<close>

definition by_confidence :: "real list \<Rightarrow> int list \<Rightarrow> (real \<times> int) list" where
  "by_confidence confidences correct = sort_key (\<lambda>p. - fst p) (zip confidences correct)"

definition select_threshold ::
  "(real \<Rightarrow> real \<Rightarrow> real \<Rightarrow> real) \<Rightarrow> real list \<Rightarrow> int list \<Rightarrow> real \<Rightarrow> real
     \<Rightarrow> error + threshold_selection" where
  "select_threshold beta_ppf confidences correct target delta =
     (if length confidences \<noteq> length correct then Inl ValueError
      else if confidences = [] then Inl ValueError
      else
        (let n = length confidences;
             upper = (\<lambda>k m. clopper_pearson_upper beta_ppf k m delta)
         in case threshold_scan upper target delta n 0 0 None (by_confidence confidences correct) of
              Some best \<Rightarrow> Inr best
            | None \<Rightarrow> Inr \<lparr>ts_tau = REJECT_ALL_THRESHOLD, ts_target_error_rate = target,
                ts_delta = delta, ts_n_evaluated = n, ts_n_accepted = 0, ts_observed_errors = 0,
                ts_observed_error_rate = 0,
                ts_error_rate_upper_bound =
                  py_round 6 (upper (\<Sum>c\<leftarrow>correct. 1 - c) (int n))\<rparr>))"

text \<open>What the autonomy gate would accept at a threshold, and the errors among it.\<close>

definition accepted :: "real \<Rightarrow> (real \<times> int) list \<Rightarrow> (real \<times> int) list" where
  "accepted t ps = filter (\<lambda>p. t \<le> fst p) ps"

definition errors_in :: "(real \<times> int) list \<Rightarrow> int" where
  "errors_in ps = (\<Sum>p\<leftarrow>ps. 1 - snd p)"

definition defensible :: "(int \<Rightarrow> int \<Rightarrow> real) \<Rightarrow> real \<Rightarrow> (real \<times> int) list \<Rightarrow> real \<Rightarrow> bool" where
  "defensible upper target ps t \<longleftrightarrow>
     upper (errors_in (accepted t ps)) (int (length (accepted t ps))) \<le> target"

lemma errors_in_mset: "errors_in ps = (\<Sum>p\<in>#mset ps. 1 - snd p)"
  by (induction ps) (simp_all add: errors_in_def)

lemma errors_in_perm: "mset ps = mset qs \<Longrightarrow> errors_in ps = errors_in qs"
  by (simp add: errors_in_mset)

lemma accepted_perm:
  assumes "mset ps = mset qs"
  shows "errors_in (accepted t ps) = errors_in (accepted t qs)"
    and "length (accepted t ps) = length (accepted t qs)"
proof -
  have m: "mset (accepted t ps) = mset (accepted t qs)"
    using assms by (simp add: accepted_def)
  show "errors_in (accepted t ps) = errors_in (accepted t qs)"
    using m by (rule errors_in_perm)
  show "length (accepted t ps) = length (accepted t qs)"
    using m by (rule mset_eq_length)
qed

text \<open>The record the loop builds when it stops at the operating point \<open>t\<close>.\<close>

definition selection_at ::
  "(int \<Rightarrow> int \<Rightarrow> real) \<Rightarrow> real \<Rightarrow> real \<Rightarrow> nat \<Rightarrow> (real \<times> int) list \<Rightarrow> real \<Rightarrow> threshold_selection" where
  "selection_at upper target delta n ps t =
     (let k = errors_in (accepted t ps); m = length (accepted t ps)
      in \<lparr>ts_tau = t, ts_target_error_rate = target, ts_delta = delta, ts_n_evaluated = n,
          ts_n_accepted = m, ts_observed_errors = k,
          ts_observed_error_rate = py_round 6 (of_int k / real m),
          ts_error_rate_upper_bound = py_round 6 (upper k (int m))\<rparr>)"

lemma accepted_prefix:
  assumes "sorted (map (\<lambda>p. - fst p) (pre @ (c, ok) # rest))"
    and "rest = [] \<or> fst (hd rest) \<noteq> c"
  shows "accepted c (pre @ (c, ok) # rest) = pre @ [(c, ok)]"
proof -
  have "accepted c pre = pre"
    using assms(1) by (auto simp: accepted_def sorted_append filter_id_conv)
  moreover have "accepted c rest = []"
  proof (cases rest)
    case (Cons q qs)
    with assms have "- c \<le> - fst q" "fst q \<noteq> c" by (simp_all add: sorted_append)
    then have "fst q < c" by simp
    with Cons assms(1) show ?thesis
      by (fastforce simp: accepted_def sorted_append filter_empty_conv)
  qed (simp add: accepted_def)
  ultimately show ?thesis by (simp add: accepted_def)
qed

text \<open>Overwriting \<open>best\<close> with each accepted point in turn keeps the last one.\<close>

fun latest :: "('a \<Rightarrow> 'b) \<Rightarrow> 'b option \<Rightarrow> 'a list \<Rightarrow> 'b option" where
  "latest f best [] = best"
| "latest f best (x # xs) = latest f (Some (f x)) xs"

lemma latest_last: "xs \<noteq> [] \<Longrightarrow> latest f best xs = Some (f (last xs))"
  by (induction xs arbitrary: best) auto

lemma latest_filter_known:
  "x \<in> set xs \<Longrightarrow> P x \<Longrightarrow> latest f b (filter P xs) = latest f b' (filter P xs)"
  by (cases "filter P xs") (auto simp: filter_empty_conv)

lemma threshold_scan_eq:
  assumes "sorted (map (\<lambda>p. - fst p) (pre @ rest))"
  shows "threshold_scan upper target delta n (length pre) (errors_in pre) best rest =
     latest (selection_at upper target delta n (pre @ rest)) best
       (filter (defensible upper target (pre @ rest)) (map fst rest))"
  using assms
proof (induction rest arbitrary: pre best)
  case Nil
  then show ?case by simp
next
  case (Cons p rest)
  obtain c ok where p: "p = (c, ok)" by fastforce
  let ?ps = "pre @ p # rest" and ?k = "errors_in pre + (1 - ok)"
  let ?sel = "selection_at upper target delta n ?ps" and ?def = "defensible upper target ?ps"
  have e: "(pre @ [p]) @ rest = ?ps" by simp
  have k: "length (pre @ [p]) = Suc (length pre)" "errors_in (pre @ [p]) = ?k"
    by (simp_all add: errors_in_def p)
  have IH: "threshold_scan upper target delta n (Suc (length pre)) ?k b rest =
      latest ?sel b (filter ?def (map fst rest))" for b
    using Cons.IH [of "pre @ [p]" b, unfolded e k] Cons.prems by blast
  show ?case
  proof (cases "rest \<noteq> [] \<and> fst (hd rest) = c")
    case True
    then have "c \<in> set (map fst rest)" by (cases rest) auto
    then have "?def c \<Longrightarrow> latest ?sel best (filter ?def (map fst rest))
        = latest ?sel (Some (?sel c)) (filter ?def (map fst rest))"
      by (rule latest_filter_known)
    with True IH [of best] show ?thesis by (simp add: Let_def p)
  next
    case False
    then have "accepted c ?ps = pre @ [p]"
      using accepted_prefix [of pre c ok rest] Cons.prems p by auto
    then have a: "errors_in (accepted c ?ps) = ?k" "length (accepted c ?ps) = Suc (length pre)"
      by (simp_all add: k)
    have d: "?def c \<longleftrightarrow> upper ?k (int (Suc (length pre))) \<le> target"
      unfolding defensible_def a ..
    have sel: "?sel c = \<lparr>ts_tau = c, ts_target_error_rate = target, ts_delta = delta,
        ts_n_evaluated = n, ts_n_accepted = Suc (length pre), ts_observed_errors = ?k,
        ts_observed_error_rate = py_round 6 (of_int ?k / real (Suc (length pre))),
        ts_error_rate_upper_bound = py_round 6 (upper ?k (int (Suc (length pre))))\<rparr>"
      unfolding selection_at_def a Let_def ..
    show ?thesis
    proof (cases "?def c")
      case True
      with False d sel IH show ?thesis by (auto simp: p Let_def)
    next
      case nd: False
      with False d IH show ?thesis by (auto simp: p Let_def)
    qed
  qed
qed

lemma last_filter_least:
  assumes "sorted (map uminus xs)" and "filter P xs \<noteq> []" and "x \<in> set xs" and "P x"
  shows "last (filter P xs) \<le> (x :: real)"
  using assms
proof (induction xs)
  case Nil
  then show ?case by simp
next
  case (Cons y ys)
  show ?case
  proof (cases "filter P ys = []")
    case True
    with Cons.prems show ?thesis by (auto simp: filter_empty_conv)
  next
    case False
    then have l: "last (filter P ys) \<in> set ys" by (metis filter_is_subset last_in_set subsetD)
    show ?thesis
    proof (cases "x = y")
      case True
      with l Cons.prems(1) False show ?thesis by auto
    next
      case False
      with Cons \<open>filter P ys \<noteq> []\<close> show ?thesis by auto
    qed
  qed
qed

lemma defensible_perm: "mset ps = mset qs \<Longrightarrow> defensible upper target ps = defensible upper target qs"
  unfolding defensible_def fun_eq_iff by (simp add: accepted_perm [of ps qs])

lemma select_threshold_eq:
  fixes confidences correct target delta beta_ppf
  defines "ps \<equiv> zip confidences correct"
    and "upper \<equiv> \<lambda>k m. clopper_pearson_upper beta_ppf k m delta"
  assumes "length confidences = length correct" and "confidences \<noteq> []"
    and "select_threshold beta_ppf confidences correct target delta = Inr t"
  shows "(\<exists>c \<in> set confidences. defensible upper target ps c)
      \<and> t = selection_at upper target delta (length confidences) ps (ts_tau t)
      \<and> ts_tau t \<in> set confidences \<and> defensible upper target ps (ts_tau t)
      \<and> (\<forall>c \<in> set confidences. defensible upper target ps c \<longrightarrow> ts_tau t \<le> c)
    \<or> (\<forall>c \<in> set confidences. \<not> defensible upper target ps c)
      \<and> ts_tau t = REJECT_ALL_THRESHOLD \<and> ts_n_accepted t = 0"
proof -
  let ?o = "by_confidence confidences correct"
  have perm: "mset ?o = mset ps" by (simp add: by_confidence_def ps_def)
  have sorted: "sorted (map (\<lambda>p. - fst p) ?o)" by (simp add: by_confidence_def)
  have confs: "set (map fst ?o) = set confidences"
  proof -
    have "set ?o = set (zip confidences correct)" by (simp add: by_confidence_def)
    then have "set (map fst ?o) = set (map fst (zip confidences correct))" by simp
    then show ?thesis using assms(3) by simp
  qed
  have sel: "selection_at upper target delta n ?o c = selection_at upper target delta n ps c" for n c
    unfolding selection_at_def accepted_perm [OF perm] ..
  let ?f = "filter (defensible upper target ps) (map fst ?o)"
  have scan: "threshold_scan upper target delta n 0 0 None ?o =
      latest (selection_at upper target delta n ps) None ?f" for n
  proof -
    have "selection_at upper target delta n ([] @ ?o) = selection_at upper target delta n ps"
      by (simp add: sel fun_eq_iff)
    then show ?thesis
      using threshold_scan_eq [of "[]" ?o upper target delta n None] sorted
      by (simp add: errors_in_def defensible_perm [OF perm])
  qed
  show ?thesis
  proof (cases "?f = []")
    case True
    then have "\<forall>c \<in> set confidences. \<not> defensible upper target ps c"
      by (simp only: filter_empty_conv confs)
    with True scan [of "length confidences"] assms(3-5) show ?thesis
      unfolding upper_def by (auto simp: select_threshold_def Let_def)
  next
    case False
    have t: "t = selection_at upper target delta (length confidences) ps (last ?f)"
      using scan [of "length confidences"] assms(3-5) latest_last
        [OF False, of "selection_at upper target delta (length confidences) ps" None]
      unfolding upper_def by (simp add: select_threshold_def Let_def)
    then have tau: "ts_tau t = last ?f" by (simp add: selection_at_def Let_def)
    have "last ?f \<in> set ?f" using False by (rule last_in_set)
    then have in_f: "ts_tau t \<in> set confidences" "defensible upper target ps (ts_tau t)"
      unfolding tau using confs by auto
    have "ts_tau t \<le> c'" if "c' \<in> set confidences" "defensible upper target ps c'" for c'
      unfolding tau
      by (rule last_filter_least) (use that confs sorted False in \<open>auto simp: comp_def\<close>)
    with t tau in_f show ?thesis by auto
  qed
qed

text \<open>
  The autonomy threshold: when some confidence level of the sample keeps the
  Clopper-Pearson bound on the errors above it within the target, the selected threshold is the
  lowest such level, so every level that would automate more breaks the target, and the counts
  it reports are those of the predictions at or above it. When no level does, the threshold is
  above every probability and nothing is automated.
\<close>

theorem select_threshold_lowest_defensible:
  assumes "length confidences = length correct" and "confidences \<noteq> []"
    and "select_threshold beta_ppf confidences correct target delta = Inr t"
    and "upper = (\<lambda>k m. clopper_pearson_upper beta_ppf k m delta)"
    and "ps = zip confidences correct"
  shows "if \<exists>c \<in> set confidences. defensible upper target ps c
    then ts_tau t \<in> set confidences \<and> defensible upper target ps (ts_tau t)
      \<and> (\<forall>c \<in> set confidences. c < ts_tau t \<longrightarrow> \<not> defensible upper target ps c)
      \<and> ts_n_accepted t = length (accepted (ts_tau t) ps)
      \<and> ts_observed_errors t = errors_in (accepted (ts_tau t) ps)
    else ts_tau t = REJECT_ALL_THRESHOLD \<and> ts_n_accepted t = 0"
proof -
  note eq = select_threshold_eq [OF assms(1-3), folded assms(4,5)]
  show ?thesis
  proof (cases "\<exists>c \<in> set confidences. defensible upper target ps c")
    case True
    with eq have t: "t = selection_at upper target delta (length confidences) ps (ts_tau t)"
      and rest: "ts_tau t \<in> set confidences" "defensible upper target ps (ts_tau t)"
        "\<forall>c \<in> set confidences. defensible upper target ps c \<longrightarrow> ts_tau t \<le> c"
      by blast+
    have "ts_n_accepted t = length (accepted (ts_tau t) ps)"
      "ts_observed_errors t = errors_in (accepted (ts_tau t) ps)"
      by (subst t, simp add: selection_at_def Let_def)+
    with True rest show ?thesis by fastforce
  next
    case False
    with eq show ?thesis by auto
  qed
qed

text \<open>A bound that grows with the error share, in place of SciPy's, on a sample of four.\<close>

definition demo_ppf :: "real \<Rightarrow> real \<Rightarrow> real \<Rightarrow> real" where
  "demo_ppf q a b = a / (a + b)"

theorem select_threshold_lowest_defensible_witness:
  "\<exists>t. select_threshold demo_ppf [0.9, 0.4, 0.8, 0.9] [1, 0, 1, 1] 0.3 DEFAULT_DELTA = Inr t
     \<and> ts_tau t = 0.8 \<and> ts_n_accepted t = 3
     \<and> (\<forall>c \<in> set [0.9, 0.4, 0.8, 0.9]. c < ts_tau t \<longrightarrow>
          \<not> defensible (\<lambda>k m. clopper_pearson_upper demo_ppf k m DEFAULT_DELTA) 0.3
              (zip [0.9, 0.4, 0.8, 0.9] [1, 0, 1, 1]) c)"
proof -
  let ?t = "\<lparr>ts_tau = 0.8, ts_target_error_rate = 0.3, ts_delta = DEFAULT_DELTA,
    ts_n_evaluated = 4, ts_n_accepted = 3, ts_observed_errors = 0, ts_observed_error_rate = 0,
    ts_error_rate_upper_bound = 0.25\<rparr>"
  have s: "select_threshold demo_ppf [0.9, 0.4, 0.8, 0.9] [1, 0, 1, 1] 0.3 DEFAULT_DELTA = Inr ?t"
    by code_simp
  have d: "\<exists>c \<in> set [0.9, 0.4, 0.8, 0.9]. defensible
      (\<lambda>k m. clopper_pearson_upper demo_ppf k m DEFAULT_DELTA) 0.3
      (zip [0.9, 0.4, 0.8, 0.9] [1, 0, 1, 1]) c"
    by code_simp
  show ?thesis
    using select_threshold_lowest_defensible [OF _ _ s refl refl] d s by auto
qed

subsection \<open>The calibration report\<close>

record reliability_bin =
  rb_lower :: real
  rb_upper :: real
  rb_count :: nat
  rb_mean_predicted :: real
  rb_observed_frequency :: real

record calibration_report =
  cr_n_samples :: nat
  cr_ece :: real
  cr_mce :: real
  cr_brier :: real
  cr_base_rate :: real
  cr_bins :: "reliability_bin list"

definition bin_gap :: "reliability_bin \<Rightarrow> real" where
  "bin_gap b = rb_mean_predicted b - rb_observed_frequency b"

definition bin_edge :: "nat \<Rightarrow> nat \<Rightarrow> real" where
  "bin_edge n_bins i = real i / real n_bins"

text \<open>The upper edge is inclusive only in the final bin.\<close>

definition in_bin :: "nat \<Rightarrow> nat \<Rightarrow> real \<Rightarrow> bool" where
  "in_bin n_bins i p \<longleftrightarrow>
     bin_edge n_bins i \<le> p \<and> p < bin_edge n_bins (i + 1)
     \<or> i = n_bins - 1 \<and> p = bin_edge n_bins (i + 1)"

definition bin_members :: "nat \<Rightarrow> (real \<times> int) list \<Rightarrow> nat \<Rightarrow> (real \<times> int) list" where
  "bin_members n_bins ps i = filter (\<lambda>(p, _). in_bin n_bins i p) ps"

definition mean_predicted :: "(real \<times> int) list \<Rightarrow> real" where
  "mean_predicted ms = (\<Sum>m\<leftarrow>ms. fst m) / real (length ms)"

definition observed_frequency :: "(real \<times> int) list \<Rightarrow> real" where
  "observed_frequency ms = of_int (\<Sum>m\<leftarrow>ms. snd m) / real (length ms)"

definition member_gap :: "(real \<times> int) list \<Rightarrow> real" where
  "member_gap ms = \<bar>mean_predicted ms - observed_frequency ms\<bar>"

definition reliability_of :: "nat \<Rightarrow> (real \<times> int) list \<Rightarrow> nat \<Rightarrow> reliability_bin" where
  "reliability_of n_bins ps i =
     (let ms = bin_members n_bins ps i
      in if ms = [] then
           \<lparr>rb_lower = bin_edge n_bins i, rb_upper = bin_edge n_bins (i + 1), rb_count = 0,
            rb_mean_predicted = 0, rb_observed_frequency = 0\<rparr>
         else
           \<lparr>rb_lower = bin_edge n_bins i, rb_upper = bin_edge n_bins (i + 1),
            rb_count = length ms, rb_mean_predicted = py_round 6 (mean_predicted ms),
            rb_observed_frequency = py_round 6 (observed_frequency ms)\<rparr>)"

text \<open>The two accumulators of the loop, over the bins that have members.\<close>

definition occupied_bins :: "nat \<Rightarrow> (real \<times> int) list \<Rightarrow> (real \<times> int) list list" where
  "occupied_bins n_bins ps = filter (\<lambda>ms. ms \<noteq> []) (map (bin_members n_bins ps) [0..<n_bins])"

definition weighted_gap :: "nat \<Rightarrow> (real \<times> int) list \<Rightarrow> real" where
  "weighted_gap n_bins ps =
     (\<Sum>ms\<leftarrow>occupied_bins n_bins ps. real (length ms) / real (length ps) * member_gap ms)"

definition max_gap :: "nat \<Rightarrow> (real \<times> int) list \<Rightarrow> real" where
  "max_gap n_bins ps = fold max (map member_gap (occupied_bins n_bins ps)) 0"

definition calibration_report :: "real list \<Rightarrow> int list \<Rightarrow> nat \<Rightarrow> error + calibration_report" where
  "calibration_report predicted actual n_bins =
     (if length predicted \<noteq> length actual then Inl ValueError
      else if predicted = [] then Inl ValueError
      else if n_bins = 0 then Inl ZeroDivisionError
      else
        (let n = length predicted; ps = zip predicted actual
         in Inr \<lparr>cr_n_samples = n,
              cr_ece = py_round 6 (weighted_gap n_bins ps),
              cr_mce = py_round 6 (max_gap n_bins ps),
              cr_brier = py_round 6 ((\<Sum>(p, a)\<leftarrow>ps. (p - of_int a)\<^sup>2) / real n),
              cr_base_rate = py_round 6 (of_int (sum_list actual) / real n),
              cr_bins = map (reliability_of n_bins ps) [0..<n_bins]\<rparr>))"

subsection \<open>Every prediction falls into exactly one bin\<close>

lemma in_bin_unique:
  assumes "0 < n" and "0 \<le> p" and "p \<le> 1" and "i < n"
  shows "in_bin n i p \<longleftrightarrow> i = min (n - 1) (nat \<lfloor>p * real n\<rfloor>)"
proof (cases "p = 1")
  case True
  have "real i / real n < real (i + 1) / real n"
    using assms(1) by (simp add: divide_strict_right_mono)
  with True assms show ?thesis
    by (auto simp: in_bin_def bin_edge_def field_simps)
next
  case False
  with assms have p1: "p < 1" by simp
  let ?k = "nat \<lfloor>p * real n\<rfloor>"
  have pos: "0 \<le> p * real n" using assms by simp
  have kn: "p * real n < real n" using p1 assms(1) by simp
  have "?k < n"
    using pos kn by (simp add: floor_less_iff nat_less_iff)
  then have m: "min (n - 1) ?k = ?k" by simp
  have "in_bin n i p \<longleftrightarrow> real i \<le> p * real n \<and> p * real n < real i + 1"
    using assms(1) p1 by (auto simp: in_bin_def bin_edge_def field_simps)
  also have "\<dots> \<longleftrightarrow> \<lfloor>p * real n\<rfloor> = int i"
    by (simp add: floor_eq_iff)
  also have "\<dots> \<longleftrightarrow> i = ?k"
    using pos by auto
  finally show ?thesis unfolding m .
qed

lemma length_filter_single:
  "distinct is \<Longrightarrow> k \<in> set is \<Longrightarrow> length (filter (\<lambda>i. i = k) is) = 1"
  by (induction "is") (auto simp: filter_empty_conv)

lemma sum_filter_swap:
  "(\<Sum>i\<leftarrow>is. length (filter (P i) xs)) = (\<Sum>x\<leftarrow>xs. length (filter (\<lambda>i. P i x) is))"
proof (induction xs)
  case Nil
  show ?case by (induction "is") simp_all
next
  case (Cons x xs)
  have "(\<Sum>i\<leftarrow>is. length (filter (P i) (x # xs)))
      = (\<Sum>i\<leftarrow>is. length (filter (P i) xs)) + length (filter (\<lambda>i. P i x) is)"
    by (induction "is") simp_all
  with Cons show ?case by simp
qed

lemma bin_counts_total:
  assumes "0 < n_bins" and "\<And>p. p \<in> set ps \<Longrightarrow> 0 \<le> fst p \<and> fst p \<le> 1"
  shows "(\<Sum>i\<leftarrow>[0..<n_bins]. length (bin_members n_bins ps i)) = length ps"
proof -
  have one: "length (filter (\<lambda>i. in_bin n_bins i (fst p)) [0..<n_bins]) = 1" if "p \<in> set ps" for p
  proof -
    let ?k = "min (n_bins - 1) (nat \<lfloor>fst p * real n_bins\<rfloor>)"
    have "filter (\<lambda>i. in_bin n_bins i (fst p)) [0..<n_bins] = filter (\<lambda>i. i = ?k) [0..<n_bins]"
      by (rule filter_cong) (use in_bin_unique assms that in auto)
    moreover have "length (filter (\<lambda>i. i = ?k) [0..<n_bins]) = 1"
      by (rule length_filter_single) (use assms(1) in auto)
    ultimately show ?thesis by simp
  qed
  have "(\<Sum>i\<leftarrow>[0..<n_bins]. length (bin_members n_bins ps i))
      = (\<Sum>p\<leftarrow>ps. length (filter (\<lambda>i. in_bin n_bins i (fst p)) [0..<n_bins]))"
    unfolding bin_members_def split_def by (rule sum_filter_swap)
  also have "\<dots> = (\<Sum>p\<leftarrow>ps. 1)"
    using one by (intro arg_cong [where f = sum_list] map_cong) auto
  finally show ?thesis by (simp add: sum_list_triv)
qed

lemma rb_count_reliability: "rb_count (reliability_of n_bins ps i) = length (bin_members n_bins ps i)"
  by (simp add: reliability_of_def Let_def)

lemma fold_max_upper: "fold max xs y \<le> b \<longleftrightarrow> y \<le> b \<and> (\<forall>x \<in> set xs. x \<le> b)" for b :: real
  by (induction xs arbitrary: y) auto

lemma member_gap_le_max:
  "ms \<in> set (occupied_bins n_bins ps) \<Longrightarrow> member_gap ms \<le> max_gap n_bins ps"
  unfolding max_gap_def using fold_max_upper [of "map member_gap (occupied_bins n_bins ps)" 0] by auto

lemma sum_filter_nonempty:
  "f [] = (0::nat) \<Longrightarrow> (\<Sum>ms\<leftarrow>filter (\<lambda>ms. ms \<noteq> []) (map g is). f ms) = (\<Sum>i\<leftarrow>is. f (g i))"
  by (induction "is") simp_all

lemma occupied_total:
  assumes "0 < n_bins" and "\<And>p. p \<in> set ps \<Longrightarrow> 0 \<le> fst p \<and> fst p \<le> 1"
  shows "(\<Sum>ms\<leftarrow>occupied_bins n_bins ps. length ms) = length ps"
  using bin_counts_total [OF assms] sum_filter_nonempty [of length "bin_members n_bins ps"]
  by (simp add: occupied_bins_def)

lemma sum_list_length_mult:
  "(\<Sum>xs\<leftarrow>xss. real (length xs) * c) = real (\<Sum>xs\<leftarrow>xss. length xs) * c"
  by (induction xss) (simp_all add: algebra_simps)

lemma weighted_gap_le_max_gap:
  assumes "0 < n_bins" and "\<And>p. p \<in> set ps \<Longrightarrow> 0 \<le> fst p \<and> fst p \<le> 1" and "ps \<noteq> []"
  shows "weighted_gap n_bins ps \<le> max_gap n_bins ps"
proof -
  let ?o = "occupied_bins n_bins ps" and ?N = "real (length ps)" and ?m = "max_gap n_bins ps"
  have "weighted_gap n_bins ps \<le> (\<Sum>ms\<leftarrow>?o. real (length ms) * (?m / ?N))"
    unfolding weighted_gap_def
  proof (rule sum_list_mono_map)
    fix ms assume "ms \<in> set ?o"
    then have "member_gap ms \<le> ?m" by (rule member_gap_le_max)
    then have "real (length ms) / ?N * member_gap ms \<le> real (length ms) / ?N * ?m"
      by (intro mult_left_mono) simp_all
    then show "real (length ms) / ?N * member_gap ms \<le> real (length ms) * (?m / ?N)"
      by simp
  qed
  also have "\<dots> = real (\<Sum>ms\<leftarrow>?o. length ms) * (?m / ?N)"
    by (rule sum_list_length_mult)
  also have "\<dots> = ?m"
    using assms(3) by (simp only: occupied_total [OF assms(1,2)]) simp
  finally show ?thesis .
qed

lemma weighted_gap_nonneg: "0 \<le> weighted_gap n_bins ps"
  unfolding weighted_gap_def by (rule sum_list_nonneg_map) (simp add: member_gap_def)

text \<open>
  The calibration report of probabilities and outcomes: every prediction, 0 and 1 included,
  is counted in exactly one bin, and the count-weighted mean gap never exceeds the worst bin's.
\<close>

theorem calibration_report_bins_partition:
  assumes "calibration_report predicted actual n_bins = Inr r"
    and "\<And>p. p \<in> set predicted \<Longrightarrow> 0 \<le> p \<and> p \<le> 1"
  shows "(\<Sum>b\<leftarrow>cr_bins r. rb_count b) = length predicted
    \<and> 0 \<le> cr_ece r \<and> cr_ece r \<le> cr_mce r"
proof -
  let ?ps = "zip predicted actual"
  from assms(1) have len: "length predicted = length actual" and ne: "predicted \<noteq> []" and pos: "0 < n_bins"
    and r: "cr_ece r = py_round 6 (weighted_gap n_bins ?ps)"
      "cr_mce r = py_round 6 (max_gap n_bins ?ps)"
      "cr_bins r = map (reliability_of n_bins ?ps) [0..<n_bins]"
    by (auto simp: calibration_report_def Let_def split: if_splits)
  have unit: "0 \<le> fst p \<and> fst p \<le> 1" if "p \<in> set ?ps" for p
    using that assms(2) by (metis in_set_zipE prod.collapse)
  have "?ps \<noteq> []" using len ne by (cases predicted; cases actual) auto
  with weighted_gap_le_max_gap [OF pos unit] weighted_gap_nonneg [of n_bins ?ps]
  have "0 \<le> cr_ece r \<and> cr_ece r \<le> cr_mce r"
    by (simp add: r py_round_nonneg py_round_mono)
  moreover have "(\<Sum>b\<leftarrow>cr_bins r. rb_count b) = length predicted"
    using bin_counts_total [OF pos unit] len by (simp add: r rb_count_reliability comp_def)
  ultimately show ?thesis by simp
qed

theorem calibration_report_bins_partition_witness:
  "\<exists>r. calibration_report [0, 0.5, 1] [0, 1, 1] 2 = Inr r
     \<and> (\<Sum>b\<leftarrow>cr_bins r. rb_count b) = 3 \<and> 0 \<le> cr_ece r \<and> cr_ece r \<le> cr_mce r"
proof -
  obtain r where r: "calibration_report [0, 0.5, 1] [0, 1, 1] 2 = Inr r"
    by (simp add: calibration_report_def Let_def)
  have "(\<Sum>b\<leftarrow>cr_bins r. rb_count b) = length [0, 0.5, 1 :: real]
    \<and> 0 \<le> cr_ece r \<and> cr_ece r \<le> cr_mce r"
    by (rule calibration_report_bins_partition [OF r]) auto
  with r show ?thesis by auto
qed

end
