(* ===== verification/Confidence_Model.thy ===== *)
theory Confidence_Model
  imports Confidence
begin

text \<open>
  \<open>arie.confidence.model\<close>: the prediction of the calibrated model, the company-disjoint
  splits it is fitted on, and the choice between the two calibration methods. The scikit-learn
  estimators are a parameter: \<open>cm_calibrated\<close> is calibrator after classifier on one feature
  vector, and \<open>fitter\<close> stands for the fitting of both on the given leads.
\<close>

record confidence_model =
  cm_calibrated :: "real list \<Rightarrow> real"
  cm_report :: calibration_report
  cm_threshold :: threshold_selection

definition tau :: "confidence_model \<Rightarrow> real" where
  "tau m = ts_tau (cm_threshold m)"

text \<open>\<open>np.clip(x, 0.0, 1.0)\<close> of every prediction.\<close>

definition predict_many :: "confidence_model \<Rightarrow> real list list \<Rightarrow> real list" where
  "predict_many m rows = map (\<lambda>v. min (max (cm_calibrated m v) 0) 1) rows"

definition predict :: "confidence_model \<Rightarrow> scoring_config \<Rightarrow> scoring_result \<Rightarrow> real" where
  "predict m cfg r = hd (predict_many m [feature_vector cfg r])"

definition is_autonomous :: "confidence_model \<Rightarrow> scoring_config \<Rightarrow> scoring_result \<Rightarrow> bool" where
  "is_autonomous m cfg r \<longleftrightarrow> predict m cfg r \<ge> tau m"

lemma predict_bounds: "0 \<le> predict m cfg r" "predict m cfg r \<le> 1"
  by (simp_all add: predict_def predict_many_def)

definition score_at_state ::
  "scoring_config \<Rightarrow> eval_lead \<Rightarrow> string set \<Rightarrow> error + scoring_result" where
  "score_at_state cfg lead providers =
     sum_bind (candidates_from_observations (el_observations lead) (Some providers))
       (\<lambda>cs. let rs = resolve_candidates cfg cs
             in Inr (score_resolved cfg (facts_from rs) rs []))"

subsection \<open>Company-disjoint splits\<close>

definition company_of :: "eval_lead \<Rightarrow> string" where
  "company_of lead = lc_company_id (el_company lead)"

text \<open>\<open>sorted({...})\<close>: the distinct values in order.\<close>

definition sorted_unique :: "string list \<Rightarrow> string list" where
  "sorted_unique xs = sort (remdups xs)"

text \<open>Companies dealt round-robin over the folds; each fold is a list of row indices.\<close>

definition fold_of :: "string list \<Rightarrow> nat \<Rightarrow> string \<Rightarrow> nat option" where
  "fold_of unique n_folds g =
     map_of (zip unique (map (\<lambda>i. i mod n_folds) [0..<length unique])) g"

definition group_folds :: "string list \<Rightarrow> nat \<Rightarrow> nat list list" where
  "group_folds groups n_folds =
     (let unique = sorted_unique groups
      in map (\<lambda>fold. filter (\<lambda>i. fold_of unique n_folds (groups ! i) = Some fold)
                 [0..<length groups])
           [0..<n_folds])"

definition holdout_companies :: "string list \<Rightarrow> real \<Rightarrow> string list" where
  "holdout_companies companies fraction =
     (let stride = (if fraction > 0 then max 1 (round_half_even (1 / fraction))
                    else int (length companies) + 1)
      in map snd (filter (\<lambda>(i, name). int i mod stride = 0)
                    (zip [0..<length companies] companies)))"

definition split_companies :: "eval_lead list \<Rightarrow> real \<Rightarrow> eval_lead list \<times> eval_lead list" where
  "split_companies leads fraction =
     (let holdout = holdout_companies (sorted_unique (map company_of leads)) fraction
      in (filter (\<lambda>x. company_of x \<notin> set holdout) leads,
          filter (\<lambda>x. company_of x \<in> set holdout) leads))"

definition fit_one ::
  "(eval_lead list \<Rightarrow> eval_lead list \<Rightarrow> real \<Rightarrow> string \<Rightarrow> real \<Rightarrow> int \<Rightarrow> error + confidence_model)
     \<Rightarrow> eval_lead list \<Rightarrow> real \<Rightarrow> string \<Rightarrow> real \<Rightarrow> real \<Rightarrow> int \<Rightarrow> error + confidence_model" where
  "fit_one fitter leads target calibrator delta fraction seed =
     (let (fit_leads, tau_leads) = split_companies leads fraction
      in if fit_leads = [] \<or> tau_leads = [] then Inl ValueError
         else fitter fit_leads tau_leads target calibrator delta seed)"

definition model_key :: "confidence_model \<Rightarrow> bool \<times> real \<times> real" where
  "model_key m =
     (guarantee_met (cm_threshold m), coverage (cm_threshold m), - cr_ece (cm_report m))"

definition fit_confidence_model ::
  "(eval_lead list \<Rightarrow> eval_lead list \<Rightarrow> real \<Rightarrow> string \<Rightarrow> real \<Rightarrow> int \<Rightarrow> error + confidence_model)
     \<Rightarrow> eval_lead list \<Rightarrow> real \<Rightarrow> string \<Rightarrow> real \<Rightarrow> real \<Rightarrow> int \<Rightarrow> error + confidence_model" where
  "fit_confidence_model fitter leads target calibrator delta fraction seed =
     (if filter (\<lambda>x. el_split x \<noteq> Calibration) leads \<noteq> [] then Inl ValueError
      else if calibrator \<noteq> ''auto'' then fit_one fitter leads target calibrator delta fraction seed
      else sum_bind (sum_mapM (\<lambda>m. fit_one fitter leads target m delta fraction seed)
                       [''platt'', ''isotonic''])
             (\<lambda>candidates. Inr (max_by model_key (hd candidates) (tl candidates))))"

lemma split_companies_disjoint:
  assumes "split_companies leads fraction = (fits, taus)"
  shows "company_of ` set fits \<inter> company_of ` set taus = {}"
    and "mset leads = mset fits + mset taus"
proof -
  let ?h = "holdout_companies (sorted_unique (map company_of leads)) fraction"
  from assms have eq: "fits = filter (\<lambda>x. company_of x \<notin> set ?h) leads"
    "taus = filter (\<lambda>x. company_of x \<in> set ?h) leads"
    by (auto simp: split_companies_def Let_def)
  show "company_of ` set fits \<inter> company_of ` set taus = {}"
    by (auto simp: eq)
  show "mset leads = mset fits + mset taus"
    unfolding eq by (induction leads) auto
qed

lemma fit_confidence_model_method:
  assumes "fit_confidence_model fitter leads target calibrator delta fraction seed = Inr m"
  obtains k where "fit_one fitter leads target k delta fraction seed = Inr m"
    and "calibrator \<noteq> ''auto'' \<Longrightarrow> k = calibrator" and "\<forall>x \<in> set leads. el_split x = Calibration"
proof (cases "calibrator = ''auto''")
  case False
  with assms that [of calibrator] show ?thesis
    by (auto simp: fit_confidence_model_def filter_empty_conv split: if_splits)
next
  case True
  let ?fit = "\<lambda>k. fit_one fitter leads target k delta fraction seed"
  have cal: "\<forall>x \<in> set leads. el_split x = Calibration"
    using assms by (auto simp: fit_confidence_model_def filter_empty_conv split: if_splits)
  then obtain a b where ab: "?fit ''platt'' = Inr a" "?fit ''isotonic'' = Inr b"
    and m: "m = max_by model_key a [b]"
    using assms True by (auto simp: fit_confidence_model_def filter_empty_conv sum_bind_Inr)
  from m have "m = a \<or> m = b" by (simp split: if_splits)
  with ab have "?fit ''platt'' = Inr m \<or> ?fit ''isotonic'' = Inr m" by metis
  with True cal that show ?thesis by blast
qed

text \<open>
  Fitting never sees the companies the threshold is chosen on, nor any lead outside the
  calibration split: when \<open>fit_confidence_model\<close> returns a model, it is what the fitter made
  of two non-empty lead lists that partition the given leads, share no company and hold
  calibration leads only, with the requested method or, for \<open>auto\<close>, one of the two.
\<close>

theorem fit_company_disjoint:
  assumes "fit_confidence_model fitter leads target calibrator delta fraction seed = Inr m"
  shows "\<exists>fits taus k. fitter fits taus target k delta seed = Inr m
    \<and> (calibrator = ''auto'' \<or> k = calibrator)
    \<and> fits \<noteq> [] \<and> taus \<noteq> [] \<and> mset leads = mset fits + mset taus
    \<and> company_of ` set fits \<inter> company_of ` set taus = {}
    \<and> (\<forall>x \<in> set leads. el_split x = Calibration)"
proof -
  obtain k where k: "fit_one fitter leads target k delta fraction seed = Inr m"
    "calibrator \<noteq> ''auto'' \<Longrightarrow> k = calibrator" and cal: "\<forall>x \<in> set leads. el_split x = Calibration"
    using fit_confidence_model_method [OF assms] by metis
  obtain fits taus where sp: "split_companies leads fraction = (fits, taus)"
    by fastforce
  from k(1) have "fitter fits taus target k delta seed = Inr m" "fits \<noteq> []" "taus \<noteq> []"
    by (simp_all add: fit_one_def sp split: if_splits)
  with split_companies_disjoint [OF sp] cal k(2) show ?thesis by blast
qed

definition demo_lead :: "string \<Rightarrow> eval_lead" where
  "demo_lead c =
     \<lparr>el_id = c,
      el_company = \<lparr>lc_company_id = c, lc_canonical_domain = c @ ''.com'', lc_legal_name = c,
        lc_employee_count = 120, lc_industry = ''software'', lc_recent_trigger_event = None,
        lc_disqualifying_flag = False, lc_buying_intent = 0.5, lc_obscurity = 0,
        lc_name_variants = []\<rparr>,
      el_person = \<lparr>lp_person_id = c, lp_company_id = c, lp_full_name = c, lp_email = c @ ''@x'',
        lp_title_seniority = ''vp'', lp_title_function = ''data''\<rparr>,
      el_observations = [], el_oracle_decision = ESCALATE_HUMAN, el_oracle_score = 60,
      el_oracle_components = [], el_difficulty_band = Easy, el_value_tier = Small,
      el_split = Calibration, el_cheap_misleads = False, el_constructed_adversarial = False,
      el_generator_version = ''1.0.0'', el_seed = 1\<rparr>"

definition demo_model :: confidence_model where
  "demo_model =
     \<lparr>cm_calibrated = (\<lambda>_. 0.5),
      cm_report = \<lparr>cr_n_samples = 1, cr_ece = 0, cr_mce = 0, cr_brier = 0, cr_base_rate = 1,
        cr_bins = []\<rparr>,
      cm_threshold = \<lparr>ts_tau = 0.9, ts_target_error_rate = 0.05, ts_delta = DEFAULT_DELTA,
        ts_n_evaluated = 10, ts_n_accepted = 1, ts_observed_errors = 0,
        ts_observed_error_rate = 0, ts_error_rate_upper_bound = 0.05\<rparr>\<rparr>"

theorem fit_company_disjoint_witness:
  "\<exists>fits taus. company_of ` set fits \<inter> company_of ` set taus = {} \<and> fits \<noteq> [] \<and> taus \<noteq> []
     \<and> mset (map demo_lead [''a'', ''b'', ''a'']) = mset fits + mset taus"
proof -
  have "fit_confidence_model (\<lambda>_ _ _ _ _ _. Inr demo_model) (map demo_lead [''a'', ''b'', ''a''])
      0.05 ''platt'' 0.05 0.5 7 = Inr demo_model"
    by (simp add: fit_confidence_model_def fit_one_def split_companies_def sorted_unique_def
        holdout_companies_def round_half_even_def company_of_def demo_lead_def Let_def)
  from fit_company_disjoint [OF this] show ?thesis by blast
qed

end
