(* ===== verification/Policy_Base.thy ===== *)
theory Policy_Base
  imports Confidence_Model
begin

text \<open>
  \<open>arie.providers.simulated\<close>, \<open>arie.providers.base\<close>, \<open>arie.policy.base\<close> and
  \<open>arie.policy.evidence_view\<close>: the frozen observation store, the replaying provider, the
  registry, the call ledger and the cache, and the run context through which every policy
  buys evidence. A computation that may raise returns \<open>Inl\<close> of the exception. An entity is
  its type and canonical key: its UUID and attributes are read by no policy code.
\<close>

subsection \<open>Entities and the frozen observation store\<close>

record entity =
  en_type :: entity_type
  en_key :: string

definition company_entity :: "eval_lead \<Rightarrow> entity" where
  "company_entity lead = \<lparr>en_type = Company, en_key = lc_canonical_domain (el_company lead)\<rparr>"

definition person_entity :: "eval_lead \<Rightarrow> entity" where
  "person_entity lead = \<lparr>en_type = Person, en_key = lp_email (el_person lead)\<rparr>"

definition entity_for :: "eval_lead \<Rightarrow> entity_type \<Rightarrow> entity" where
  "entity_for lead t = (if t = Company then company_entity lead else person_entity lead)"

type_synonym store = "(string \<times> string) \<Rightarrow> observation option"

definition store_put :: "eval_lead \<Rightarrow> string \<times> observation \<Rightarrow> store \<Rightarrow> error + store" where
  "store_put lead po st =
     (case po of (provider, ob) \<Rightarrow>
        sum_bind (spec_named provider) (\<lambda>spec.
          let key = (if ps_entity_type spec = Company then lc_canonical_domain (el_company lead)
                     else lp_email (el_person lead))
          in case st (provider, key) of
               Some existing \<Rightarrow>
                 if existing \<noteq> ob then Inl ValueError else Inr (st((provider, key) \<mapsto> ob))
             | None \<Rightarrow> Inr (st((provider, key) \<mapsto> ob))))"

definition observation_store :: "eval_lead list \<Rightarrow> error + store" where
  "observation_store leads =
     sum_foldM (\<lambda>lead. sum_foldM (store_put lead) (el_observations lead)) leads Map.empty"

definition store_get :: "store \<Rightarrow> string \<Rightarrow> string \<Rightarrow> error + observation" where
  "store_get st provider key =
     (case st (provider, key) of
        None \<Rightarrow> Inl (UnknownEntityError provider key)
      | Some ob \<Rightarrow> Inr ob)"

subsection \<open>Simulated providers and the registry\<close>

definition simulated_confidence :: "provider_spec \<Rightarrow> provider_status \<Rightarrow> real" where
  "simulated_confidence spec st =
     (if st \<noteq> SUCCESS then 0 else py_round 4 (1 - max (ps_cat_error spec) (ps_noise spec)))"

definition simulated_fetch :: "provider_spec \<Rightarrow> store \<Rightarrow> entity \<Rightarrow> error + provider_result" where
  "simulated_fetch spec st e =
     (if en_type e \<noteq> ps_entity_type spec then Inl ValueError
      else sum_bind (store_get st (ps_name spec) (en_key e)) (\<lambda>ob.
        Inr \<lparr>pr_fields = filter (\<lambda>(name, _). name \<in> set (ps_provides spec)) (ob_fields ob),
             pr_confidence = simulated_confidence spec (ob_status ob),
             pr_cost = ob_cost ob, pr_latency = ob_latency ob, pr_status = ob_status ob,
             pr_matched = None, pr_error_kind = None\<rparr>))"

record provider =
  pv_name :: string
  pv_entity_type :: entity_type
  pv_fetch :: "entity \<Rightarrow> error + provider_result"

record registry =
  rg_by_name :: "(string \<times> provider) list"
  rg_by_capability :: "(string \<times> string list) list"

definition empty_registry :: registry where
  "empty_registry = \<lparr>rg_by_name = [], rg_by_capability = []\<rparr>"

definition registry_register :: "provider \<Rightarrow> string \<Rightarrow> registry \<Rightarrow> error + registry" where
  "registry_register p capability rg =
     (if pv_name p \<in> fst ` set (rg_by_name rg) then Inl ValueError
      else Inr \<lparr>rg_by_name = AList.update (pv_name p) p (rg_by_name rg),
                rg_by_capability = AList.update capability
                  ((case map_of (rg_by_capability rg) capability of None \<Rightarrow> [] | Some ns \<Rightarrow> ns)
                     @ [pv_name p]) (rg_by_capability rg)\<rparr>)"

definition registry_get :: "registry \<Rightarrow> string \<Rightarrow> error + provider" where
  "registry_get rg name =
     (case map_of (rg_by_name rg) name of None \<Rightarrow> Inl KeyError | Some p \<Rightarrow> Inr p)"

definition registry_for_capability :: "registry \<Rightarrow> string \<Rightarrow> error + provider list" where
  "registry_for_capability rg capability =
     sum_mapM (registry_get rg)
       (case map_of (rg_by_capability rg) capability of None \<Rightarrow> [] | Some ns \<Rightarrow> ns)"

definition registry_for_entity_type :: "registry \<Rightarrow> entity_type \<Rightarrow> provider list" where
  "registry_for_entity_type rg t = filter (\<lambda>p. pv_entity_type p = t) (map snd (rg_by_name rg))"

definition simulated_provider :: "store \<Rightarrow> provider_spec \<Rightarrow> provider" where
  "simulated_provider st spec =
     \<lparr>pv_name = ps_name spec, pv_entity_type = ps_entity_type spec,
      pv_fetch = simulated_fetch spec st\<rparr>"

definition build_registry :: "store \<Rightarrow> error + registry" where
  "build_registry st =
     sum_foldM (\<lambda>spec. registry_register (simulated_provider st spec) (ps_capability spec))
       CATALOG empty_registry"

definition build_from_leads :: "eval_lead list \<Rightarrow> error + store \<times> registry" where
  "build_from_leads leads =
     sum_bind (observation_store leads) (\<lambda>st.
       sum_bind (build_registry st) (\<lambda>rg. Inr (st, rg)))"

subsection \<open>The call ledger\<close>

record call_record =
  ca_provider :: string
  ca_key :: string
  ca_status :: provider_status
  ca_cost :: real
  ca_latency :: real
  ca_cache_hit :: bool

definition ledger_record ::
  "string \<Rightarrow> entity \<Rightarrow> provider_result \<Rightarrow> bool \<Rightarrow> call_record list \<Rightarrow> call_record list" where
  "ledger_record provider e r hit records = records @
     [\<lparr>ca_provider = provider, ca_key = en_key e, ca_status = pr_status r,
       ca_cost = (if hit then 0 else pr_cost r), ca_latency = (if hit then 0 else pr_latency r),
       ca_cache_hit = hit\<rparr>]"

definition ledger_total_cost :: "call_record list \<Rightarrow> real" where
  "ledger_total_cost rs = py_round 10 (sum_list (map ca_cost rs))"

definition ledger_total_latency :: "call_record list \<Rightarrow> real" where
  "ledger_total_latency rs = py_round 6 (sum_list (map ca_latency rs))"

definition billable_calls :: "call_record list \<Rightarrow> nat" where
  "billable_calls rs = length (filter (\<lambda>r. \<not> ca_cache_hit r) rs)"

definition ledger_cache_hits :: "call_record list \<Rightarrow> nat" where
  "ledger_cache_hits rs = length (filter ca_cache_hit rs)"

definition ledger_cache_hit_rate :: "call_record list \<Rightarrow> real" where
  "ledger_cache_hit_rate rs =
     (if rs \<noteq> [] then real (ledger_cache_hits rs) / real (length rs) else 0)"

definition by_status :: "call_record list \<Rightarrow> provider_status \<Rightarrow> nat" where
  "by_status rs st = length (filter (\<lambda>r. ca_status r = st) rs)"

fun fetch_all_loop ::
  "registry \<Rightarrow> eval_lead \<Rightarrow> string set option \<Rightarrow> provider_spec list
     \<Rightarrow> (string \<times> provider_result) list \<times> call_record list
     \<Rightarrow> error + (string \<times> provider_result) list \<times> call_record list" where
  "fetch_all_loop rg lead wanted [] acc = Inr acc"
| "fetch_all_loop rg lead wanted (spec # specs) (results, ledger) =
     (if (case wanted of None \<Rightarrow> False | Some W \<Rightarrow> ps_name spec \<notin> W)
      then fetch_all_loop rg lead wanted specs (results, ledger)
      else sum_bind (registry_get rg (ps_name spec)) (\<lambda>p.
        let e = entity_for lead (ps_entity_type spec)
        in sum_bind (pv_fetch p e) (\<lambda>r.
             fetch_all_loop rg lead wanted specs
               (AList.update (ps_name spec) r results,
                ledger_record (ps_name spec) e r False ledger))))"

definition fetch_all ::
  "registry \<Rightarrow> eval_lead \<Rightarrow> call_record list \<Rightarrow> string set option
     \<Rightarrow> error + (string \<times> provider_result) list \<times> call_record list" where
  "fetch_all rg lead ledger wanted = fetch_all_loop rg lead wanted CATALOG ([], ledger)"

subsection \<open>The run context\<close>

type_synonym cache = "(string \<times> string) \<Rightarrow> provider_result option"

record run_context =
  rc_registry :: registry
  rc_ledger :: "call_record list"
  rc_cache :: cache

fun BUSINESS_VALUE_USD :: "value_tier \<Rightarrow> real" where
  "BUSINESS_VALUE_USD Small = 5"
| "BUSINESS_VALUE_USD Medium = 20"
| "BUSINESS_VALUE_USD Large = 80"
| "BUSINESS_VALUE_USD Whale = 400"

definition business_value :: "eval_lead \<Rightarrow> real \<Rightarrow> real" where
  "business_value lead scale = BUSINESS_VALUE_USD (el_value_tier lead) * scale"

definition cache_put :: "string \<Rightarrow> string \<Rightarrow> provider_result \<Rightarrow> cache \<Rightarrow> cache" where
  "cache_put provider key r c = c((provider, key) \<mapsto> r)"

text \<open>\<open>RunContext.fetch\<close>: the result, whether it came from the cache, and the new context.\<close>

definition ctx_fetch ::
  "string \<Rightarrow> eval_lead \<Rightarrow> run_context \<Rightarrow> error + (provider_result \<times> bool) \<times> run_context" where
  "ctx_fetch name lead ctx =
     sum_bind (spec_named name) (\<lambda>spec.
       let e = entity_for lead (ps_entity_type spec)
       in case rc_cache ctx (name, en_key e) of
            Some cached \<Rightarrow>
              Inr ((cached, True),
                   ctx\<lparr>rc_ledger := ledger_record name e cached True (rc_ledger ctx)\<rparr>)
          | None \<Rightarrow>
              sum_bind (registry_get (rc_registry ctx) name) (\<lambda>p.
              sum_bind (pv_fetch p e) (\<lambda>r.
                Inr ((r, False),
                     ctx\<lparr>rc_cache := cache_put name (en_key e) r (rc_cache ctx),
                         rc_ledger := ledger_record name e r False (rc_ledger ctx)\<rparr>))))"

record policy_outcome =
  po_decision :: decision
  po_confidence :: real
  po_autonomous :: bool
  po_providers_called :: "string list"
  po_cost :: real
  po_latency :: real
  po_cache_hits :: nat
  po_stop_reason :: string
  po_scoring :: scoring_result
  po_voi_trace :: "voi_evaluation list"

definition calls_made :: "policy_outcome \<Rightarrow> nat" where
  "calls_made o' = length (po_providers_called o')"

definition collect_costs :: "run_context \<Rightarrow> nat \<Rightarrow> real \<times> real \<times> nat" where
  "collect_costs ctx marker =
     (let records = drop marker (rc_ledger ctx)
      in (py_round 10 (sum_list (map ca_cost records)),
          py_round 6 (sum_list (map ca_latency records)),
          length (filter ca_cache_hit records)))"

subsection \<open>The scored view of the results so far\<close>

definition claims_of_result :: "(string \<times> provider_result) \<Rightarrow> error + candidate list" where
  "claims_of_result nr =
     (case nr of (name, r) \<Rightarrow>
        if pr_status r \<noteq> SUCCESS then Inr []
        else sum_bind (spec_named name) (\<lambda>p. Inr (claims_of name (precision p) (pr_fields r))))"

definition candidates_from_results ::
  "(string \<times> provider_result) list \<Rightarrow> error + candidate list" where
  "candidates_from_results results =
     sum_bind (sum_mapM claims_of_result (sort_key fst results)) (\<lambda>css. Inr (concat css))"

definition score_results ::
  "scoring_config \<Rightarrow> (string \<times> provider_result) list \<Rightarrow> error + scoring_result" where
  "score_results cfg results =
     sum_bind (candidates_from_results results) (\<lambda>cs.
       let rs = resolve_candidates cfg cs
       in Inr (score_resolved cfg (facts_from rs) rs []))"

definition remaining_providers :: "string set \<Rightarrow> string list" where
  "remaining_providers called = filter (\<lambda>n. n \<notin> called) (map ps_name CATALOG)"

end
