(* ===== verification/Policy.thy ===== *)
theory Policy
  imports Policy_Base
begin

text \<open>
  \<open>arie.policy.production\<close> and \<open>arie.policy.baselines\<close>: the calibrated-bounds policy that
  ships, full enrichment and the tuned waterfall. Every policy touches the run context through
  \<open>ctx_fetch\<close> only and ends with the same bookkeeping, \<open>finish_run\<close>; the locale
  \<open>acquisition_policy\<close> is that contract, and what follows from it is proved once.
\<close>

type_synonym results = "(string \<times> provider_result) list"

text \<open>The last lines of every \<open>run\<close>: score, predict, collect the costs, report.\<close>

definition finish_run ::
  "scoring_config \<Rightarrow> confidence_model \<Rightarrow> nat \<Rightarrow> results \<times> string \<times> voi_evaluation list \<times> run_context
     \<Rightarrow> error + policy_outcome \<times> run_context" where
  "finish_run cfg m marker end_state =
     (case end_state of (results, stop_reason, trace, ctx) \<Rightarrow>
        sum_bind (score_results cfg results) (\<lambda>scoring.
          let confidence = predict m cfg scoring;
              (cost, latency, hits) = collect_costs ctx marker
          in Inr (\<lparr>po_decision = sr_decision scoring, po_confidence = confidence,
                   po_autonomous = (confidence \<ge> tau m), po_providers_called = map fst results,
                   po_cost = cost, po_latency = latency, po_cache_hits = hits,
                   po_stop_reason = stop_reason, po_scoring = scoring, po_voi_trace = trace\<rparr>,
                  ctx)))"

subsection \<open>The calibrated-bounds policy\<close>

fun bounds_loop ::
  "scoring_config \<Rightarrow> confidence_model \<Rightarrow> eval_lead \<Rightarrow> provider_spec list \<Rightarrow> results \<Rightarrow> run_context
     \<Rightarrow> error + results \<times> string \<times> voi_evaluation list \<times> run_context" where
  "bounds_loop cfg m lead [] results ctx = Inr (results, ''all_providers_called'', [], ctx)"
| "bounds_loop cfg m lead (spec # specs) results ctx =
     sum_bind (score_results cfg results) (\<lambda>scoring.
       if is_settled cfg (bounds scoring) then Inr (results, ''decision_settled'', [], ctx)
       else if results \<noteq> [] \<and> predict m cfg scoring \<ge> tau m
       then Inr (results, ''confidence_reached'', [], ctx)
       else sum_bind (ctx_fetch (ps_name spec) lead ctx) (\<lambda>((r, _), ctx').
         bounds_loop cfg m lead specs (AList.update (ps_name spec) r results) ctx'))"

definition calibrated_bounds_run ::
  "scoring_config \<Rightarrow> confidence_model \<Rightarrow> eval_lead \<Rightarrow> run_context
     \<Rightarrow> error + policy_outcome \<times> run_context" where
  "calibrated_bounds_run cfg m lead ctx =
     sum_bind (bounds_loop cfg m lead CATALOG [] ctx)
       (finish_run cfg m (length (rc_ledger ctx)))"

subsection \<open>Full enrichment\<close>

fun fetch_each ::
  "eval_lead \<Rightarrow> provider_spec list \<Rightarrow> results \<Rightarrow> run_context \<Rightarrow> error + results \<times> run_context" where
  "fetch_each lead [] results ctx = Inr (results, ctx)"
| "fetch_each lead (spec # specs) results ctx =
     sum_bind (ctx_fetch (ps_name spec) lead ctx) (\<lambda>((r, _), ctx').
       fetch_each lead specs (AList.update (ps_name spec) r results) ctx')"

definition full_enrichment_run ::
  "scoring_config \<Rightarrow> confidence_model \<Rightarrow> eval_lead \<Rightarrow> run_context
     \<Rightarrow> error + policy_outcome \<times> run_context" where
  "full_enrichment_run cfg m lead ctx =
     sum_bind (fetch_each lead CATALOG [] ctx) (\<lambda>(results, ctx').
       finish_run cfg m (length (rc_ledger ctx)) (results, ''all_providers_called'', [], ctx'))"

subsection \<open>The tuned waterfall\<close>

fun tier_str :: "tier \<Rightarrow> string" where
  "tier_str Free = ''free''"
| "tier_str Cheap = ''cheap''"
| "tier_str Mid = ''mid''"
| "tier_str Expensive = ''expensive''"

definition TIER_ORDER :: "string list" where
  "TIER_ORDER = [''free'', ''cheap'', ''mid'', ''expensive'']"

text \<open>\<open>TIER_ORDER.index(name)\<close>, a ValueError for a name that is not there.\<close>

fun list_index :: "'a \<Rightarrow> 'a list \<Rightarrow> error + nat" where
  "list_index x [] = Inl ValueError"
| "list_index x (y # ys) = (if x = y then Inr 0 else sum_bind (list_index x ys) (\<lambda>i. Inr (Suc i)))"

fun tier_index :: "tier \<Rightarrow> nat" where
  "tier_index Free = 0"
| "tier_index Cheap = 1"
| "tier_index Mid = 2"
| "tier_index Expensive = 3"

lemma tier_index_TIER_ORDER: "list_index (tier_str t) TIER_ORDER = Inr (tier_index t)"
  by (cases t) (simp_all add: TIER_ORDER_def eval_nat_numeral)

definition providers_up_to_tier :: "string \<Rightarrow> error + string list" where
  "providers_up_to_tier max_tier =
     sum_bind (list_index max_tier TIER_ORDER) (\<lambda>limit.
       Inr (map ps_name (filter (\<lambda>spec. tier_index (ps_tier spec) \<le> limit) CATALOG)))"

record waterfall =
  wf_max_tier :: string
  wf_gate_upper_bound :: real
  wf_gate_mode :: string
  wf_gate_after_tier :: string

definition gated_out :: "scoring_config \<Rightarrow> waterfall \<Rightarrow> results \<Rightarrow> error + bool" where
  "gated_out cfg w results =
     (if results = [] then Inr False
      else sum_bind (score_results cfg results) (\<lambda>scoring.
        let v = (if wf_gate_mode w = ''upper_bound'' then bd_upper (bounds scoring)
                 else sr_total scoring)
        in Inr (v < wf_gate_upper_bound w)))"

fun waterfall_loop ::
  "scoring_config \<Rightarrow> waterfall \<Rightarrow> string list \<Rightarrow> nat \<Rightarrow> eval_lead \<Rightarrow> provider_spec list \<Rightarrow> bool
     \<Rightarrow> results \<Rightarrow> run_context \<Rightarrow> error + results \<times> string \<times> voi_evaluation list \<times> run_context" where
  "waterfall_loop cfg w allowed gate_index lead [] gated results ctx =
     Inr (results, ''tier_limit'', [], ctx)"
| "waterfall_loop cfg w allowed gate_index lead (spec # specs) gated results ctx =
     (if ps_name spec \<notin> set allowed
      then waterfall_loop cfg w allowed gate_index lead specs gated results ctx
      else
        (let at_gate = (\<not> gated \<and> tier_index (ps_tier spec) > gate_index)
         in sum_bind (if at_gate then gated_out cfg w results else Inr False) (\<lambda>out.
              if out then Inr (results, ''gated_out_of_icp'', [], ctx)
              else sum_bind (ctx_fetch (ps_name spec) lead ctx) (\<lambda>((r, _), ctx').
                waterfall_loop cfg w allowed gate_index lead specs (gated \<or> at_gate)
                  (AList.update (ps_name spec) r results) ctx'))))"

definition waterfall_run ::
  "scoring_config \<Rightarrow> waterfall \<Rightarrow> confidence_model \<Rightarrow> eval_lead \<Rightarrow> run_context
     \<Rightarrow> error + policy_outcome \<times> run_context" where
  "waterfall_run cfg w m lead ctx =
     sum_bind (providers_up_to_tier (wf_max_tier w)) (\<lambda>allowed.
     sum_bind (list_index (wf_gate_after_tier w) TIER_ORDER) (\<lambda>gate_index.
     sum_bind (waterfall_loop cfg w allowed gate_index lead CATALOG False [] ctx)
       (finish_run cfg m (length (rc_ledger ctx)))))"

subsection \<open>What a sequence of fetches does to the context\<close>

text \<open>
  \<open>fetches lead calls ctx ctx'\<close>: the context after fetching the providers of \<open>calls\<close> in
  this order, each with the result it gave.
\<close>

inductive fetches :: "eval_lead \<Rightarrow> results \<Rightarrow> run_context \<Rightarrow> run_context \<Rightarrow> bool" for lead where
  none: "fetches lead [] ctx ctx"
| snoc: "fetches lead calls ctx ctx' \<Longrightarrow> ctx_fetch name lead ctx' = Inr ((r, hit), ctx'')
    \<Longrightarrow> fetches lead (calls @ [(name, r)]) ctx ctx''"

lemma ctx_fetch_cases:
  assumes "ctx_fetch name lead ctx = Inr ((r, hit), ctx')"
  obtains (hit) spec where "BY_NAME name = Some spec" "hit"
      "rc_cache ctx (name, en_key (entity_for lead (ps_entity_type spec))) = Some r"
      "ctx' = ctx\<lparr>rc_ledger := ledger_record name (entity_for lead (ps_entity_type spec)) r True
         (rc_ledger ctx)\<rparr>"
    | (miss) spec p where "BY_NAME name = Some spec" "\<not> hit"
      "rc_cache ctx (name, en_key (entity_for lead (ps_entity_type spec))) = None"
      "registry_get (rc_registry ctx) name = Inr p"
      "pv_fetch p (entity_for lead (ps_entity_type spec)) = Inr r"
      "ctx' = ctx\<lparr>rc_cache := (rc_cache ctx)((name, en_key (entity_for lead (ps_entity_type spec))) \<mapsto> r),
         rc_ledger := ledger_record name (entity_for lead (ps_entity_type spec)) r False
         (rc_ledger ctx)\<rparr>"
  using assms
  by (auto simp: ctx_fetch_def spec_named_def sum_bind_Inr Let_def cache_put_def
      split: option.splits)

text \<open>The billed calls of a ledger, by provider and entity, and the invariant that every one
  of them is in the cache and none occurs twice.\<close>

definition billed :: "call_record list \<Rightarrow> (string \<times> string) list" where
  "billed rs = map (\<lambda>r. (ca_provider r, ca_key r)) (filter (\<lambda>r. \<not> ca_cache_hit r) rs)"

definition billed_once :: "run_context \<Rightarrow> bool" where
  "billed_once ctx \<longleftrightarrow>
     distinct (billed (rc_ledger ctx)) \<and> set (billed (rc_ledger ctx)) \<subseteq> dom (rc_cache ctx)
     \<and> (\<forall>r \<in> set (rc_ledger ctx). ca_cache_hit r \<longrightarrow> ca_cost r = 0)"

lemma ctx_fetch_billed_once:
  assumes "ctx_fetch name lead ctx = Inr (rh, ctx')" and "billed_once ctx"
  shows "billed_once ctx'"
proof -
  obtain r hit where rh: "rh = (r, hit)" by fastforce
  from assms(1)[unfolded rh] assms(2) show ?thesis
  proof (cases rule: ctx_fetch_cases)
    case (hit spec)
    with assms(2) show ?thesis
      by (auto simp: billed_once_def billed_def ledger_record_def)
  next
    case (miss spec p)
    then have "(name, en_key (entity_for lead (ps_entity_type spec))) \<notin> set (billed (rc_ledger ctx))"
      using assms(2) by (auto simp: billed_once_def dom_def)
    with miss assms(2) show ?thesis
      by (auto simp: billed_once_def billed_def ledger_record_def)
  qed
qed

lemma fetches_billed_once: "fetches lead calls ctx ctx' \<Longrightarrow> billed_once ctx \<Longrightarrow> billed_once ctx'"
  by (induction rule: fetches.induct) (auto intro: ctx_fetch_billed_once)

lemma ctx_fetch_ledger:
  "ctx_fetch name lead ctx = Inr ((r, hit), ctx') \<Longrightarrow>
     \<exists>c. rc_ledger ctx' = rc_ledger ctx @ [c] \<and> ca_provider c = name \<and> ca_cache_hit c = hit"
  by (erule ctx_fetch_cases) (auto simp: ledger_record_def)

lemma fetches_ledger:
  "fetches lead calls ctx ctx' \<Longrightarrow>
     \<exists>rs. rc_ledger ctx' = rc_ledger ctx @ rs \<and> map ca_provider rs = map fst calls"
proof (induction rule: fetches.induct)
  case (snoc calls ctx ctx' name r hit ctx'')
  then show ?case using ctx_fetch_ledger [OF snoc.hyps(2)] by fastforce
qed simp

lemma update_fresh: "k \<notin> fst ` set xs \<Longrightarrow> AList.update k v xs = xs @ [(k, v)]"
  by (induction xs) auto

lemma catalog_names: "map ps_name CATALOG = ALL_PROVIDERS"
  by (simp add: ALL_PROVIDERS_def)

lemma ALL_PROVIDERS_distinct: "distinct ALL_PROVIDERS"
  using catalog_names_distinct by (simp add: catalog_names)

lemma finish_run_Inr:
  assumes "finish_run cfg m marker (results, stop, trace, ctx) = Inr (out, ctx')"
  shows "ctx' = ctx \<and> score_results cfg results = Inr (po_scoring out)
    \<and> po_decision out = sr_decision (po_scoring out)
    \<and> po_confidence out = predict m cfg (po_scoring out)
    \<and> (po_autonomous out \<longleftrightarrow> tau m \<le> predict m cfg (po_scoring out))
    \<and> po_providers_called out = map fst results \<and> po_stop_reason out = stop
    \<and> collect_costs ctx marker = (po_cost out, po_latency out, po_cache_hits out)
    \<and> po_voi_trace out = trace"
proof -
  obtain c l h where c: "collect_costs ctx marker = (c, l, h)" by (metis prod.exhaust)
  with assms show ?thesis by (auto simp: finish_run_def sum_bind_Inr Let_def)
qed

lemma score_results_scored:
  assumes "score_results cfg results = Inr s"
  shows "sr_decision s = decide cfg (sr_total s)" and "bounds s = compute_bounds cfg (sr_facts s)"
    and "sr_total s = total_score (score_facts cfg (sr_facts s))"
  using assms by (auto simp: score_results_def sum_bind_Inr Let_def sr_total_def)

subsection \<open>The contract of a policy\<close>

locale acquisition_policy =
  fixes cfg :: scoring_config and m :: confidence_model
    and run :: "eval_lead \<Rightarrow> run_context \<Rightarrow> error + policy_outcome \<times> run_context"
  assumes run_shape: "run lead ctx = Inr (out, ctx') \<Longrightarrow>
    \<exists>results stop trace. fetches lead results ctx ctx' \<and> distinct (map fst results)
      \<and> set (map fst results) \<subseteq> set ALL_PROVIDERS
      \<and> finish_run cfg m (length (rc_ledger ctx)) (results, stop, trace, ctx') = Inr (out, ctx')"
begin

lemma ledger_reconciles:
  assumes "run lead ctx = Inr (out, ctx')"
  shows "\<exists>rs. rc_ledger ctx' = rc_ledger ctx @ rs \<and> map ca_provider rs = po_providers_called out
     \<and> po_cost out = ledger_total_cost rs \<and> po_latency out = ledger_total_latency rs
     \<and> po_cache_hits out = ledger_cache_hits rs"
proof -
  from run_shape [OF assms] obtain results stop trace
    where f: "fetches lead results ctx ctx'"
      and fin: "finish_run cfg m (length (rc_ledger ctx)) (results, stop, trace, ctx') = Inr (out, ctx')"
    by blast
  obtain rs where rs: "rc_ledger ctx' = rc_ledger ctx @ rs" "map ca_provider rs = map fst results"
    using fetches_ledger [OF f] by blast
  from finish_run_Inr [OF fin] rs show ?thesis
    by (auto simp: collect_costs_def ledger_total_cost_def ledger_total_latency_def
        ledger_cache_hits_def)
qed

lemma no_double_billing: "run lead ctx = Inr (out, ctx') \<Longrightarrow> billed_once ctx \<Longrightarrow> billed_once ctx'"
  using run_shape fetches_billed_once by blast

lemma calls_catalogue_once:
  assumes "run lead ctx = Inr (out, ctx')"
  shows "distinct (po_providers_called out) \<and> set (po_providers_called out) \<subseteq> set ALL_PROVIDERS"
proof -
  from run_shape [OF assms] obtain results stop trace
    where "distinct (map fst results)" "set (map fst results) \<subseteq> set ALL_PROVIDERS"
      and fin: "finish_run cfg m (length (rc_ledger ctx)) (results, stop, trace, ctx') = Inr (out, ctx')"
    by blast
  with finish_run_Inr [OF fin] show ?thesis by simp
qed

lemma decision_of_score:
  assumes "run lead ctx = Inr (out, ctx')"
  shows "po_decision out = decide cfg (sr_total (po_scoring out))
    \<and> (po_autonomous out \<longleftrightarrow> tau m \<le> po_confidence out)
    \<and> 0 \<le> po_confidence out \<and> po_confidence out \<le> 1"
proof -
  from run_shape [OF assms] obtain results stop trace
    where fin: "finish_run cfg m (length (rc_ledger ctx)) (results, stop, trace, ctx') = Inr (out, ctx')"
    by blast
  from finish_run_Inr [OF this] show ?thesis
    by (auto simp: score_results_scored predict_bounds)
qed

lemma settled_outcome_final:
  assumes "run lead ctx = Inr (out, ctx')" and "wf_config cfg"
    and "is_settled cfg (bounds (po_scoring out))" and "completes (sr_facts (po_scoring out)) fs"
  shows "decide cfg (total_score (score_facts cfg fs)) = po_decision out"
proof -
  let ?s = "po_scoring out"
  from run_shape [OF assms(1)] obtain results stop trace
    where fin: "finish_run cfg m (length (rc_ledger ctx)) (results, stop, trace, ctx') = Inr (out, ctx')"
    by blast
  have s: "score_results cfg results = Inr ?s" using finish_run_Inr [OF fin] by blast
  note sc = score_results_scored [OF s]
  obtain d where d: "settled cfg (compute_bounds cfg (sr_facts ?s)) = Some d"
    using assms(3) by (auto simp: is_settled_def sc(2))
  have "decide cfg (total_score (score_facts cfg fs')) = d" if "completes (sr_facts ?s) fs'" for fs'
    using settled_decision_decide [OF assms(2) d] bounds_contain_completion [OF assms(2) that] by blast
  then show ?thesis
    using assms(4) decision_of_score [OF assms(1)] by (metis completes_refl sc(3))
qed

end

subsection \<open>The loops meet the contract\<close>

lemma snoc_fetch:
  assumes "fetches lead results ctx0 ctx" and "ctx_fetch name lead ctx = Inr ((r, hit), ctx')"
    and "name \<notin> fst ` set results"
  shows "fetches lead (AList.update name r results) ctx0 ctx'"
  using fetches.snoc [OF assms(1,2)] assms(3) by (simp add: update_fresh)

definition stops_before :: "scoring_config \<Rightarrow> confidence_model \<Rightarrow> results \<Rightarrow> bool" where
  "stops_before cfg m results \<longleftrightarrow>
     (\<exists>s. score_results cfg results = Inr s
        \<and> (is_settled cfg (bounds s) \<or> results \<noteq> [] \<and> tau m \<le> predict m cfg s))"

text \<open>Why a walk that holds \<open>results\<close> and has called \<open>n\<close> of the \<open>len\<close> providers
  ahead of it stopped.\<close>

definition stop_justified ::
  "scoring_config \<Rightarrow> confidence_model \<Rightarrow> results \<Rightarrow> string \<Rightarrow> bool \<Rightarrow> bool" where
  "stop_justified cfg m results stop exhausted \<longleftrightarrow>
     stop = ''all_providers_called'' \<and> exhausted
     \<or> stop = ''decision_settled''
         \<and> (\<exists>s. score_results cfg results = Inr s \<and> is_settled cfg (bounds s))
     \<or> stop = ''confidence_reached'' \<and> results \<noteq> []
         \<and> (\<exists>s. score_results cfg results = Inr s \<and> tau m \<le> predict m cfg s)"

lemma bounds_loop_Cons:
  assumes "bounds_loop cfg m lead (spec # specs) results ctx = Inr (R, stop, tr, C)"
    and "ps_name spec \<notin> fst ` set results"
  shows "R = results \<and> C = ctx \<and> tr = [] \<and> stop_justified cfg m results stop False
    \<or> \<not> stops_before cfg m results \<and> (\<exists>r hit ctx1. ctx_fetch (ps_name spec) lead ctx = Inr ((r, hit), ctx1)
        \<and> bounds_loop cfg m lead specs (results @ [(ps_name spec, r)]) ctx1 = Inr (R, stop, tr, C))"
proof -
  from assms(1) obtain s where s: "score_results cfg results = Inr s"
    by (auto simp: sum_bind_Inr)
  show ?thesis
  proof (cases "stops_before cfg m results")
    case True
    with assms(1) s show ?thesis
      by (auto simp: stops_before_def stop_justified_def split: if_splits)
  next
    case False
    with assms s show ?thesis
      by (auto simp: stops_before_def sum_bind_Inr update_fresh split: if_splits)
  qed
qed

lemma bounds_loop_walk:
  assumes "bounds_loop cfg m lead specs results ctx = Inr (R, stop, tr, C)"
    and "fetches lead results ctx0 ctx" and "distinct (map fst results @ map ps_name specs)"
  shows "fetches lead R ctx0 C \<and> tr = []
    \<and> (\<exists>more. R = results @ more \<and> map fst more = take (length more) (map ps_name specs)
        \<and> stop_justified cfg m R stop (length more = length specs)
        \<and> (\<forall>k < length more. \<not> stops_before cfg m (results @ take k more)))"
  using assms
proof (induction specs arbitrary: results ctx)
  case Nil
  then show ?case by (auto simp: stop_justified_def)
next
  case (Cons spec specs)
  let ?n = "ps_name spec"
  have fresh: "?n \<notin> fst ` set results" using Cons.prems(3) by auto
  from bounds_loop_Cons [OF Cons.prems(1) fresh] show ?case
  proof
    assume "R = results \<and> C = ctx \<and> tr = [] \<and> stop_justified cfg m results stop False"
    with Cons.prems(2) show ?thesis
      by (auto intro!: exI [of _ "[]"] simp: stop_justified_def)
  next
    assume "\<not> stops_before cfg m results \<and> (\<exists>r hit ctx1. ctx_fetch ?n lead ctx = Inr ((r, hit), ctx1)
        \<and> bounds_loop cfg m lead specs (results @ [(?n, r)]) ctx1 = Inr (R, stop, tr, C))"
    then obtain r hit ctx1 where go: "\<not> stops_before cfg m results"
      and f: "ctx_fetch ?n lead ctx = Inr ((r, hit), ctx1)"
      and l: "bounds_loop cfg m lead specs (results @ [(?n, r)]) ctx1 = Inr (R, stop, tr, C)"
      by blast
    have d: "distinct (map fst (results @ [(?n, r)]) @ map ps_name specs)"
      using Cons.prems(3) by auto
    from Cons.IH [OF l fetches.snoc [OF Cons.prems(2) f] d] obtain more
      where more: "R = results @ (?n, r) # more" "map fst more = take (length more) (map ps_name specs)"
        "stop_justified cfg m R stop (length more = length specs)"
        "\<forall>k < length more. \<not> stops_before cfg m (results @ (?n, r) # take k more)"
        and fin: "fetches lead R ctx0 C" "tr = []"
      by auto
    have "\<not> stops_before cfg m (results @ take k ((?n, r) # more))" if "k < Suc (length more)" for k
      using that go more(4) by (cases k) auto
    with more(1-3) fin show ?thesis
      by (intro conjI exI [of _ "(?n, r) # more"]) simp_all
  qed
qed

lemma fetch_each_walk:
  assumes "fetch_each lead specs results ctx = Inr (R, C)"
    and "fetches lead results ctx0 ctx" and "distinct (map fst results @ map ps_name specs)"
  shows "fetches lead R ctx0 C \<and> map fst R = map fst results @ map ps_name specs"
  using assms
proof (induction specs arbitrary: results ctx)
  case (Cons spec specs)
  then obtain r hit ctx1 where f: "ctx_fetch (ps_name spec) lead ctx = Inr ((r, hit), ctx1)"
    and l: "fetch_each lead specs (results @ [(ps_name spec, r)]) ctx1 = Inr (R, C)"
    by (auto simp: sum_bind_Inr update_fresh)
  from Cons.IH [OF l fetches.snoc [OF Cons.prems(2) f]] Cons.prems(3) show ?case by auto
qed simp

lemma waterfall_loop_walk:
  assumes "waterfall_loop cfg w allowed g lead specs gated results ctx = Inr (R, stop, tr, C)"
    and "fetches lead results ctx0 ctx" and "distinct (map fst results @ map ps_name specs)"
  shows "fetches lead R ctx0 C \<and> distinct (map fst R)
    \<and> set (map fst R) \<subseteq> set (map fst results) \<union> (set (map ps_name specs) \<inter> set allowed)"
  using assms
proof (induction specs arbitrary: gated results ctx)
  case (Cons spec specs)
  show ?case
  proof (cases "ps_name spec \<in> set allowed")
    case False
    with Cons.IH [of gated results ctx] Cons.prems show ?thesis by auto
  next
    case True
    from Cons.prems True consider "R = results" "C = ctx"
      | r hit ctx1 gated' where "ctx_fetch (ps_name spec) lead ctx = Inr ((r, hit), ctx1)"
        "waterfall_loop cfg w allowed g lead specs gated' (results @ [(ps_name spec, r)]) ctx1
          = Inr (R, stop, tr, C)"
      by (auto simp: sum_bind_Inr update_fresh Let_def split: if_splits)
    then show ?thesis
    proof cases
      case 1
      with Cons.prems show ?thesis by auto
    next
      case 2
      from Cons.IH [OF 2(2) fetches.snoc [OF Cons.prems(2) 2(1)]] Cons.prems(3) True
      show ?thesis by auto
    qed
  qed
qed auto

interpretation calibrated: acquisition_policy cfg m "calibrated_bounds_run cfg m" for cfg m
proof
  fix lead ctx out ctx'
  assume "calibrated_bounds_run cfg m lead ctx = Inr (out, ctx')"
  then obtain R stop tr C where l: "bounds_loop cfg m lead CATALOG [] ctx = Inr (R, stop, tr, C)"
    and fin: "finish_run cfg m (length (rc_ledger ctx)) (R, stop, tr, C) = Inr (out, ctx')"
    by (auto simp: calibrated_bounds_run_def sum_bind_Inr)
  have d: "distinct (map fst ([] :: results) @ map ps_name CATALOG)"
    using catalog_names_distinct by simp
  from bounds_loop_walk [OF l fetches.none d] obtain n
    where "fetches lead R ctx C" and R: "map fst R = take n ALL_PROVIDERS"
    by (auto simp: catalog_names)
  moreover have "set (map fst R) \<subseteq> set ALL_PROVIDERS"
    unfolding R by (rule set_take_subset)
  moreover have "C = ctx'" using finish_run_Inr [OF fin] by blast
  ultimately show "\<exists>results stop trace. fetches lead results ctx ctx' \<and> distinct (map fst results)
      \<and> set (map fst results) \<subseteq> set ALL_PROVIDERS
      \<and> finish_run cfg m (length (rc_ledger ctx)) (results, stop, trace, ctx') = Inr (out, ctx')"
    using fin R ALL_PROVIDERS_distinct by (metis distinct_take)
qed

interpretation full: acquisition_policy cfg m "full_enrichment_run cfg m" for cfg m
proof
  fix lead ctx out ctx'
  assume "full_enrichment_run cfg m lead ctx = Inr (out, ctx')"
  then obtain R C where l: "fetch_each lead CATALOG [] ctx = Inr (R, C)"
    and fin: "finish_run cfg m (length (rc_ledger ctx)) (R, ''all_providers_called'', [], C) = Inr (out, ctx')"
    by (auto simp: full_enrichment_run_def sum_bind_Inr)
  have d: "distinct (map fst ([] :: results) @ map ps_name CATALOG)"
    using catalog_names_distinct by simp
  from fetch_each_walk [OF l fetches.none d]
  have "fetches lead R ctx C" "map fst R = ALL_PROVIDERS"
    by (auto simp: catalog_names)
  moreover have "C = ctx'" using finish_run_Inr [OF fin] by blast
  ultimately show "\<exists>results stop trace. fetches lead results ctx ctx' \<and> distinct (map fst results)
      \<and> set (map fst results) \<subseteq> set ALL_PROVIDERS
      \<and> finish_run cfg m (length (rc_ledger ctx)) (results, stop, trace, ctx') = Inr (out, ctx')"
    using fin ALL_PROVIDERS_distinct by (metis order_refl)
qed

interpretation waterfall: acquisition_policy cfg m "waterfall_run cfg w m" for cfg w m
proof
  fix lead ctx out ctx'
  assume "waterfall_run cfg w m lead ctx = Inr (out, ctx')"
  then obtain allowed g R stop tr C
    where l: "waterfall_loop cfg w allowed g lead CATALOG False [] ctx = Inr (R, stop, tr, C)"
      and fin: "finish_run cfg m (length (rc_ledger ctx)) (R, stop, tr, C) = Inr (out, ctx')"
    by (auto simp: waterfall_run_def sum_bind_Inr)
  have d: "distinct (map fst ([] :: results) @ map ps_name CATALOG)"
    using catalog_names_distinct by simp
  from waterfall_loop_walk [OF l fetches.none d]
  have "fetches lead R ctx C" "distinct (map fst R)" "set (map fst R) \<subseteq> set ALL_PROVIDERS"
    unfolding catalog_names by auto
  moreover have "C = ctx'" using finish_run_Inr [OF fin] by blast
  ultimately show "\<exists>results stop trace. fetches lead results ctx ctx' \<and> distinct (map fst results)
      \<and> set (map fst results) \<subseteq> set ALL_PROVIDERS
      \<and> finish_run cfg m (length (rc_ledger ctx)) (results, stop, trace, ctx') = Inr (out, ctx')"
    using fin by blast
qed

subsection \<open>Runs do not raise\<close>

text \<open>A registry that knows every catalogue provider, and whose providers answer about the lead.\<close>

definition registry_serves :: "registry \<Rightarrow> eval_lead \<Rightarrow> bool" where
  "registry_serves rg lead \<longleftrightarrow>
     (\<forall>spec \<in> set CATALOG. \<exists>p r. registry_get rg (ps_name spec) = Inr p
        \<and> pv_fetch p (entity_for lead (ps_entity_type spec)) = Inr r)"

lemma spec_named_catalog: "spec \<in> set CATALOG \<Longrightarrow> spec_named (ps_name spec) = Inr spec"
  using BY_NAME_catalog by (fastforce simp: spec_named_def)

lemma spec_named_known: "name \<in> set ALL_PROVIDERS \<Longrightarrow> \<exists>spec. spec_named name = Inr spec"
  using spec_named_catalog by (fastforce simp: ALL_PROVIDERS_def)

lemma ctx_fetch_total:
  assumes "registry_serves (rc_registry ctx) lead" and "name \<in> set ALL_PROVIDERS"
  shows "\<exists>r hit ctx'. ctx_fetch name lead ctx = Inr ((r, hit), ctx') \<and> rc_registry ctx' = rc_registry ctx"
proof -
  obtain spec where cat: "spec \<in> set CATALOG" "name = ps_name spec"
    using assms(2) by (auto simp: ALL_PROVIDERS_def)
  then have spec: "spec_named name = Inr spec" by (simp add: spec_named_catalog)
  let ?e = "entity_for lead (ps_entity_type spec)"
  show ?thesis
  proof (cases "rc_cache ctx (name, en_key ?e)")
    case None
    obtain p r where "registry_get (rc_registry ctx) name = Inr p" "pv_fetch p ?e = Inr r"
      using assms(1) cat unfolding registry_serves_def by blast
    with None spec show ?thesis by (simp add: ctx_fetch_def Let_def) blast
  next
    case (Some r)
    with spec show ?thesis by (simp add: ctx_fetch_def Let_def) blast
  qed
qed

lemma sum_mapM_total: "(\<And>x. x \<in> set xs \<Longrightarrow> \<exists>y. f x = Inr y) \<Longrightarrow> \<exists>ys. sum_mapM f xs = Inr ys"
  by (induction xs) (auto, metis sum_bind_simps(2))

lemma score_results_total:
  assumes "set (map fst results) \<subseteq> set ALL_PROVIDERS"
  shows "\<exists>s. score_results cfg results = Inr s"
proof -
  have "\<exists>y. claims_of_result nr = Inr y" if "nr \<in> set results" for nr
  proof -
    obtain name r where nr: "nr = (name, r)" by fastforce
    with that assms have "name \<in> set ALL_PROVIDERS" by force
    then obtain spec where "spec_named name = Inr spec" using spec_named_known by blast
    then show ?thesis by (simp add: nr claims_of_result_def)
  qed
  then obtain css where "sum_mapM claims_of_result (sort_key fst results) = Inr css"
    using sum_mapM_total [of "sort_key fst results" claims_of_result] by auto
  then show ?thesis by (simp add: score_results_def candidates_from_results_def Let_def)
qed

lemma finish_run_total:
  "set (map fst R) \<subseteq> set ALL_PROVIDERS \<Longrightarrow> \<exists>out. finish_run cfg m marker (R, stop, tr, C) = Inr out"
  using score_results_total [of R cfg] by (auto simp: finish_run_def Let_def split: prod.splits)

lemma fst_update: "fst ` set (AList.update k v xs) = insert k (fst ` set xs)"
  by (simp add: dom_update)

lemma bounds_loop_total:
  assumes "registry_serves (rc_registry ctx) lead" and "set (map fst results) \<subseteq> set ALL_PROVIDERS"
    and "set (map ps_name specs) \<subseteq> set ALL_PROVIDERS"
  shows "\<exists>R stop tr C. bounds_loop cfg m lead specs results ctx = Inr (R, stop, tr, C)
    \<and> set (map fst R) \<subseteq> set ALL_PROVIDERS"
  using assms
proof (induction specs arbitrary: results ctx)
  case (Cons spec specs)
  obtain s where s: "score_results cfg results = Inr s"
    using score_results_total [OF Cons.prems(2)] ..
  obtain r hit ctx' where f: "ctx_fetch (ps_name spec) lead ctx = Inr ((r, hit), ctx')"
    "rc_registry ctx' = rc_registry ctx"
    using ctx_fetch_total [OF Cons.prems(1)] Cons.prems(3) by force
  have "\<exists>R stop tr C. bounds_loop cfg m lead specs (AList.update (ps_name spec) r results) ctx'
      = Inr (R, stop, tr, C) \<and> set (map fst R) \<subseteq> set ALL_PROVIDERS"
    by (rule Cons.IH) (use f(2) Cons.prems in \<open>auto simp: fst_update\<close>)
  with s f Cons.prems(2) show ?case by auto
qed simp

lemma fetch_each_total:
  assumes "registry_serves (rc_registry ctx) lead" and "set (map fst results) \<subseteq> set ALL_PROVIDERS"
    and "set (map ps_name specs) \<subseteq> set ALL_PROVIDERS"
  shows "\<exists>R C. fetch_each lead specs results ctx = Inr (R, C) \<and> set (map fst R) \<subseteq> set ALL_PROVIDERS"
  using assms
proof (induction specs arbitrary: results ctx)
  case (Cons spec specs)
  obtain r hit ctx' where f: "ctx_fetch (ps_name spec) lead ctx = Inr ((r, hit), ctx')"
    "rc_registry ctx' = rc_registry ctx"
    using ctx_fetch_total [OF Cons.prems(1)] Cons.prems(3) by force
  have "\<exists>R C. fetch_each lead specs (AList.update (ps_name spec) r results) ctx' = Inr (R, C)
      \<and> set (map fst R) \<subseteq> set ALL_PROVIDERS"
    by (rule Cons.IH) (use f(2) Cons.prems in \<open>auto simp: fst_update\<close>)
  with f show ?case by auto
qed simp

lemma waterfall_loop_total:
  assumes "registry_serves (rc_registry ctx) lead" and "set (map fst results) \<subseteq> set ALL_PROVIDERS"
    and "set (map ps_name specs) \<subseteq> set ALL_PROVIDERS"
  shows "\<exists>R stop tr C. waterfall_loop cfg w allowed g lead specs gated results ctx = Inr (R, stop, tr, C)
    \<and> set (map fst R) \<subseteq> set ALL_PROVIDERS"
  using assms
proof (induction specs arbitrary: gated results ctx)
  case (Cons spec specs)
  have skip: "\<exists>R stop tr C. waterfall_loop cfg w allowed g lead specs gated results ctx
      = Inr (R, stop, tr, C) \<and> set (map fst R) \<subseteq> set ALL_PROVIDERS"
    by (rule Cons.IH) (use Cons.prems in auto)
  obtain r hit ctx' where f: "ctx_fetch (ps_name spec) lead ctx = Inr ((r, hit), ctx')"
    "rc_registry ctx' = rc_registry ctx"
    using ctx_fetch_total [OF Cons.prems(1)] Cons.prems(3) by force
  have go: "\<exists>R stop tr C. waterfall_loop cfg w allowed g lead specs gated'
      (AList.update (ps_name spec) r results) ctx' = Inr (R, stop, tr, C)
      \<and> set (map fst R) \<subseteq> set ALL_PROVIDERS" for gated'
    by (rule Cons.IH) (use f(2) Cons.prems in \<open>auto simp: fst_update\<close>)
  obtain s where "score_results cfg results = Inr s"
    using score_results_total [OF Cons.prems(2)] ..
  then have "\<exists>out. gated_out cfg w results = Inr out"
    by (simp add: gated_out_def Let_def) blast
  then obtain out where "gated_out cfg w results = Inr out" ..
  with skip f go Cons.prems(2) show ?case by (auto simp: Let_def)
qed simp

lemma catalog_names_known: "set (map ps_name CATALOG) \<subseteq> set ALL_PROVIDERS"
  by (simp add: ALL_PROVIDERS_def)

lemma no_results_known: "set (map fst ([] :: results)) \<subseteq> set ALL_PROVIDERS"
  by simp

lemma calibrated_bounds_total:
  assumes "registry_serves (rc_registry ctx) lead"
  shows "\<exists>res. calibrated_bounds_run cfg m lead ctx = Inr res"
proof -
  obtain R stop tr C where l: "bounds_loop cfg m lead CATALOG [] ctx = Inr (R, stop, tr, C)"
    "set (map fst R) \<subseteq> set ALL_PROVIDERS"
    using bounds_loop_total [OF assms no_results_known catalog_names_known] by blast
  then show ?thesis using finish_run_total [OF l(2)] by (simp add: calibrated_bounds_run_def)
qed

lemma full_enrichment_total:
  assumes "registry_serves (rc_registry ctx) lead"
  shows "\<exists>res. full_enrichment_run cfg m lead ctx = Inr res"
proof -
  obtain R C where l: "fetch_each lead CATALOG [] ctx = Inr (R, C)"
    "set (map fst R) \<subseteq> set ALL_PROVIDERS"
    using fetch_each_total [OF assms no_results_known catalog_names_known] by blast
  then show ?thesis using finish_run_total [OF l(2)] by (simp add: full_enrichment_run_def)
qed

lemma list_index_total: "x \<in> set xs \<Longrightarrow> \<exists>i. list_index x xs = Inr i"
  by (induction xs) auto

lemma waterfall_total:
  assumes "registry_serves (rc_registry ctx) lead"
    and "wf_max_tier w \<in> set TIER_ORDER" and "wf_gate_after_tier w \<in> set TIER_ORDER"
  shows "\<exists>res. waterfall_run cfg w m lead ctx = Inr res"
proof -
  obtain i g where ig: "list_index (wf_max_tier w) TIER_ORDER = Inr i"
    "list_index (wf_gate_after_tier w) TIER_ORDER = Inr g"
    using list_index_total assms(2,3) by metis
  then obtain allowed where a: "providers_up_to_tier (wf_max_tier w) = Inr allowed"
    by (simp add: providers_up_to_tier_def)
  obtain R stop tr C where l:
    "waterfall_loop cfg w allowed g lead CATALOG False [] ctx = Inr (R, stop, tr, C)"
    "set (map fst R) \<subseteq> set ALL_PROVIDERS"
    using waterfall_loop_total [OF assms(1) no_results_known catalog_names_known] by blast
  with a ig show ?thesis using finish_run_total [OF l(2)] by (simp add: waterfall_run_def)
qed

subsection \<open>The specification of the calibrated-bounds policy\<close>

text \<open>
  C7. The shipped policy buys a prefix of the catalogue, cheapest first, and is exactly as long
  as its two stop rules say: before every bought call neither rule held on the evidence so far,
  and the reported stop reason is true of the evidence it ends with. Its decision, its
  confidence and its autonomy flag are those of that evidence.
\<close>

theorem calibrated_bounds_spec:
  assumes "calibrated_bounds_run cfg m lead ctx = Inr (out, ctx')"
  shows "\<exists>results. fetches lead results ctx ctx'
    \<and> po_providers_called out = map fst results
    \<and> map fst results = take (length results) ALL_PROVIDERS
    \<and> (\<forall>k < length results. \<not> stops_before cfg m (take k results))
    \<and> stop_justified cfg m results (po_stop_reason out) (length results = length ALL_PROVIDERS)
    \<and> score_results cfg results = Inr (po_scoring out)
    \<and> po_decision out = decide cfg (sr_total (po_scoring out))
    \<and> (po_autonomous out \<longleftrightarrow> tau m \<le> predict m cfg (po_scoring out))"
proof -
  from assms obtain R stop tr C where l: "bounds_loop cfg m lead CATALOG [] ctx = Inr (R, stop, tr, C)"
    and fin: "finish_run cfg m (length (rc_ledger ctx)) (R, stop, tr, C) = Inr (out, ctx')"
    by (auto simp: calibrated_bounds_run_def sum_bind_Inr)
  have d: "distinct (map fst ([] :: results) @ map ps_name CATALOG)"
    using catalog_names_distinct by simp
  have len: "length CATALOG = length ALL_PROVIDERS" by (simp add: ALL_PROVIDERS_def)
  from bounds_loop_walk [OF l fetches.none d]
  have "fetches lead R ctx C" "map fst R = take (length R) ALL_PROVIDERS"
    "stop_justified cfg m R stop (length R = length ALL_PROVIDERS)"
    "\<forall>k < length R. \<not> stops_before cfg m (take k R)"
    by (auto simp: catalog_names len)
  with finish_run_Inr [OF fin] calibrated.decision_of_score [OF assms] show ?thesis
    by (intro exI [of _ R]) auto
qed

definition settling_lead :: eval_lead where
  "settling_lead = (demo_lead ''acme'')\<lparr>el_observations :=
     [(''inbound_payload'', \<lparr>ob_provider = ''inbound_payload'', ob_status = SUCCESS,
         ob_fields = [(''title_seniority'', VStr ''ic'')], ob_latency = 0, ob_cost = 0\<rparr>),
      (''internal_crm'', \<lparr>ob_provider = ''internal_crm'', ob_status = SUCCESS,
         ob_fields = [(''industry'', VStr ''nonprofit''), (''employee_count'', VInt 5)],
         ob_latency = 15, ob_cost = 0\<rparr>)]\<rparr>"

definition settling_context :: run_context where
  "settling_context =
     \<lparr>rc_registry = (case build_from_leads [settling_lead] of Inr (_, rg) \<Rightarrow> rg | Inl _ \<Rightarrow> empty_registry),
      rc_ledger = [], rc_cache = Map.empty\<rparr>"

definition settling_outcome :: "error + policy_outcome \<times> run_context" where
  "settling_outcome = calibrated_bounds_run reference_config demo_model settling_lead settling_context"

lemma settling_outcome_eval:
  "(case settling_outcome of Inl _ \<Rightarrow> False
    | Inr (out, ctx) \<Rightarrow> po_providers_called out = [''inbound_payload'', ''internal_crm'']
        \<and> po_stop_reason out = ''decision_settled'' \<and> po_decision out = REJECT)"
  by code_simp

theorem calibrated_bounds_spec_witness:
  "\<exists>out ctx'. calibrated_bounds_run reference_config demo_model settling_lead settling_context = Inr (out, ctx')
     \<and> po_providers_called out = [''inbound_payload'', ''internal_crm'']
     \<and> (\<exists>results. map fst results = take (length results) ALL_PROVIDERS
          \<and> stop_justified reference_config demo_model results (po_stop_reason out)
              (length results = length ALL_PROVIDERS))"
proof -
  obtain out ctx' where run:
    "calibrated_bounds_run reference_config demo_model settling_lead settling_context = Inr (out, ctx')"
    and out: "po_providers_called out = [''inbound_payload'', ''internal_crm'']"
    using settling_outcome_eval unfolding settling_outcome_def by (auto split: sum.splits)
  from calibrated_bounds_spec [OF run] run out show ?thesis by blast
qed

end
