(* ===== verification/Policy_EVoI.thy ===== *)
theory Policy_EVoI
  imports Policy
begin

text \<open>
  \<open>arie.policy.adaptive\<close> and \<open>arie.policy.escalation_aware\<close>: the policies that buy the
  provider with the best expected value of information. The lemmas show that the flip
  probability is one, that nothing is bought for a known field, that the budget holds, and that
  the escalation-aware policy with review priced at zero is the adaptive one.
\<close>

subsection \<open>Probability that a call flips the decision\<close>

definition decision_measure :: "real \<Rightarrow> real \<Rightarrow> decision \<Rightarrow> real" where
  "decision_measure lo hi d =
     (if hi \<le> lo then 0
      else if d = AUTO_ROUTE then max 0 (hi - max lo QUALIFY_THRESHOLD)
      else if d = REJECT then max 0 (min hi REJECT_THRESHOLD - lo)
      else max 0 (min hi QUALIFY_THRESHOLD - max lo REJECT_THRESHOLD))"

text \<open>\<open>facts.get(name) is None\<close>\<close>

definition missing :: "facts \<Rightarrow> string \<Rightarrow> bool" where
  "missing fs name \<longleftrightarrow> fs name = None \<or> fs name = Some VNone"

definition marginal_flip_probability :: "scoring_config \<Rightarrow> facts \<Rightarrow> provider_spec \<Rightarrow> real \<Rightarrow> real" where
  "marginal_flip_probability cfg fs spec disqualifier_rate =
     (let unknown = filter (missing fs) (ps_provides spec)
      in if unknown = [] then 0
         else
           (let current = bd_current (compute_bounds cfg fs);
                current_decision = decide cfg current;
                disqualifier_flip =
                  (if DISQUALIFIER_FIELD \<in> set unknown \<and> current_decision \<noteq> REJECT
                   then disqualifier_rate else 0);
                gain = sum_list (map (dict_get MAX_FIELD_POINTS) unknown);
                additive_flip =
                  (if gain > 0
                   then (let lo = current; hi = current + gain;
                             same = decision_measure lo hi current_decision
                         in max 0 (((hi - lo) - same) / (hi - lo)))
                   else 0)
            in min 1 (disqualifier_flip + (1 - disqualifier_flip) * additive_flip)))"

definition information_share :: "facts \<Rightarrow> provider_spec \<Rightarrow> real" where
  "information_share fs spec =
     (let unknown = filter (missing fs) SCORED_FIELDS
      in if unknown = [] then 0
         else
           (let outstanding = sum_list (map (dict_get COMPLETENESS_WEIGHTS) unknown)
            in if outstanding \<le> 0 then 0
               else
                 (let supplied = sum_list (map (dict_get COMPLETENESS_WEIGHTS)
                        (filter (\<lambda>name. name \<in> set unknown) (ps_provides spec)))
                  in ps_coverage spec * supplied / outstanding)))"

definition estimate_flip_probability ::
  "scoring_config \<Rightarrow> facts \<Rightarrow> provider_spec \<Rightarrow> real \<Rightarrow> real \<Rightarrow> real" where
  "estimate_flip_probability cfg fs spec disqualifier_rate decision_wrong_probability =
     (let share = information_share fs spec;
          combined = decision_wrong_probability * share;
          marginal = marginal_flip_probability cfg fs spec disqualifier_rate
      in min 1 (max combined marginal))"

definition expected_cost :: "provider_spec \<Rightarrow> real" where
  "expected_cost spec =
     (if ps_bill_on_miss spec then ps_base_cost spec else ps_base_cost spec * ps_coverage spec)"

text \<open>The dictionary keeps the flag of the last lead of each company.\<close>

definition company_flags :: "eval_lead list \<Rightarrow> (string \<times> bool) list" where
  "company_flags leads =
     fold (\<lambda>x. AList.update (company_of x) (lc_disqualifying_flag (el_company x))) leads []"

definition estimate_disqualifier_rate :: "eval_lead list \<Rightarrow> real" where
  "estimate_disqualifier_rate leads =
     (if leads = [] then 0
      else let companies = company_flags leads
           in real (length (filter snd companies)) / real (length companies))"

subsection \<open>The adaptive policy\<close>

record adaptive =
  av_model :: confidence_model
  av_disqualifier_rate :: real
  av_budget_usd_cap :: real
  av_latency_penalty :: real
  av_value_scale :: real
  av_max_steps :: nat
  av_human_review_usd :: real

text \<open>The dataclass defaults; \<open>human_review_usd\<close> is the field \<open>EscalationAwareVoI\<close> adds.\<close>

definition adaptive_defaults :: "confidence_model \<Rightarrow> real \<Rightarrow> adaptive" where
  "adaptive_defaults m rate =
     \<lparr>av_model = m, av_disqualifier_rate = rate, av_budget_usd_cap = 0.5,
      av_latency_penalty = 0.01, av_value_scale = 1, av_max_steps = 8, av_human_review_usd = 0\<rparr>"

definition latency_penalty_of :: "adaptive \<Rightarrow> provider_spec \<Rightarrow> real" where
  "latency_penalty_of a spec = of_int (ps_p50_latency spec) / 1000 * av_latency_penalty a"

text \<open>\<open>BY_NAME[name]\<close> for a name that came out of \<open>remaining_providers\<close>.\<close>

definition catalog_spec :: "string \<Rightarrow> provider_spec" where
  "catalog_spec name = the (BY_NAME name)"

definition evaluate_candidates ::
  "scoring_config \<Rightarrow> adaptive \<Rightarrow> facts \<Rightarrow> string set \<Rightarrow> real \<Rightarrow> real \<Rightarrow> voi_evaluation list" where
  "evaluate_candidates cfg a fs called v wrong =
     map (\<lambda>name. \<lparr>candidate_provider = name,
            p_flips_decision =
              estimate_flip_probability cfg fs (catalog_spec name) (av_disqualifier_rate a) wrong,
            voi_business_value = v,
            voi_expected_cost = expected_cost (catalog_spec name),
            voi_latency_penalty = latency_penalty_of a (catalog_spec name),
            voi_escalation_value = 0\<rparr>)
       (remaining_providers called)"

definition affordable_candidates :: "adaptive \<Rightarrow> real \<Rightarrow> voi_evaluation list \<Rightarrow> voi_evaluation list" where
  "affordable_candidates a spent cs =
     filter (\<lambda>e. spent + ps_base_cost (catalog_spec (candidate_provider e)) \<le> av_budget_usd_cap a) cs"

definition voi_key :: "voi_evaluation \<Rightarrow> real \<times> real" where
  "voi_key e = (net_evoi e, - ps_base_cost (catalog_spec (candidate_provider e)))"

text \<open>The rest of an iteration once the candidates are known: why to stop, or what to buy.\<close>

definition choose_candidate ::
  "adaptive \<Rightarrow> real \<Rightarrow> voi_evaluation list \<Rightarrow> string + voi_evaluation" where
  "choose_candidate a spent cs =
     (case affordable_candidates a spent cs of
        [] \<Rightarrow> Inl ''budget_exhausted''
      | e # es \<Rightarrow>
          (let best = max_by voi_key e es
           in if net_evoi best \<le> 0 then Inl ''no_positive_evoi'' else Inr best))"

fun adaptive_loop ::
  "scoring_config \<Rightarrow> adaptive \<Rightarrow> real \<Rightarrow> eval_lead \<Rightarrow> nat \<Rightarrow> results \<Rightarrow> real \<Rightarrow> voi_evaluation list
     \<Rightarrow> run_context \<Rightarrow> error + results \<times> string \<times> voi_evaluation list \<times> run_context" where
  "adaptive_loop cfg a v lead 0 results spent trace ctx = Inr (results, ''max_steps'', trace, ctx)"
| "adaptive_loop cfg a v lead (Suc n) results spent trace ctx =
     sum_bind (score_results cfg results) (\<lambda>scoring.
       if is_settled cfg (bounds scoring) then Inr (results, ''decision_settled'', trace, ctx)
       else
         (let confidence = predict (av_model a) cfg scoring
          in if results \<noteq> [] \<and> confidence \<ge> tau (av_model a)
             then Inr (results, ''confidence_reached'', trace, ctx)
             else
               (let cs = evaluate_candidates cfg a (sr_facts scoring) (set (map fst results)) v
                           (1 - confidence)
                in if cs = [] then Inr (results, ''all_providers_called'', trace, ctx)
                   else
                     (case choose_candidate a spent cs of
                        Inl reason \<Rightarrow> Inr (results, reason, trace @ cs, ctx)
                      | Inr best \<Rightarrow>
                          sum_bind (ctx_fetch (candidate_provider best) lead ctx)
                            (\<lambda>((r, cached), ctx').
                              adaptive_loop cfg a v lead n
                                (AList.update (candidate_provider best) r results)
                                (if cached then spent else spent + pr_cost r)
                                (trace @ cs) ctx')))))"

definition adaptive_run ::
  "scoring_config \<Rightarrow> adaptive \<Rightarrow> eval_lead \<Rightarrow> run_context \<Rightarrow> error + policy_outcome \<times> run_context" where
  "adaptive_run cfg a lead ctx =
     sum_bind (adaptive_loop cfg a (business_value lead (av_value_scale a)) lead (av_max_steps a)
                 [] 0 [] ctx)
       (finish_run cfg (av_model a) (length (rc_ledger ctx)))"

subsection \<open>The escalation-aware policy\<close>

text \<open>\<open>features[name] = value\<close> for a name that is there.\<close>

definition set_feature ::
  "string \<Rightarrow> real \<Rightarrow> (string \<times> real) list \<Rightarrow> (string \<times> real) list" where
  "set_feature name x fs = AList.update name x fs"

definition project_features_after ::
  "scoring_config \<Rightarrow> scoring_result \<Rightarrow> provider_spec \<Rightarrow> real list" where
  "project_features_after cfg r spec =
     (let features = extract_features cfg r;
          unknown = filter (missing (sr_facts r)) SCORED_FIELDS;
          supplied = filter (\<lambda>name. name \<in> set unknown) (ps_provides spec)
      in if supplied = [] then map (feature features) FEATURE_NAMES
         else
           (let total_weight = sum_list (map snd COMPLETENESS_WEIGHTS);
                added_weight = sum_list (map (dict_get COMPLETENESS_WEIGHTS) supplied);
                resolved_gain = sum_list (map (dict_get MAX_FIELD_POINTS) supplied);
                n = real (length supplied); fields = real (length SCORED_FIELDS);
                f1 = set_feature ''completeness''
                       (min 1 (feature features ''completeness'' + added_weight / total_weight)) features;
                f2 = set_feature ''unknown_field_ratio''
                       (max 0 (feature f1 ''unknown_field_ratio'' - n / fields)) f1;
                f3 = set_feature ''evidence_density''
                       (min 1 (feature f2 ''evidence_density'' + n / (fields * 2))) f2;
                f4 = set_feature ''bounds_width''
                       (max 0 (feature f3 ''bounds_width'' - resolved_gain / MAX_TOTAL_SCORE)) f3
            in map (feature f4) FEATURE_NAMES))"

definition escalation_values ::
  "scoring_config \<Rightarrow> adaptive \<Rightarrow> scoring_result \<Rightarrow> real \<Rightarrow> string list \<Rightarrow> (string \<times> real) list" where
  "escalation_values cfg a scoring confidence candidates =
     (if av_human_review_usd a \<le> 0 \<or> confidence \<ge> tau (av_model a)
      then map (\<lambda>name. (name, 0)) candidates
      else
        (let gap = tau (av_model a) - confidence
         in if gap \<le> 0 then map (\<lambda>name. (name, 0)) candidates
            else
              (let projected = map (\<lambda>name. project_features_after cfg scoring (catalog_spec name)) candidates;
                   confidences = predict_many (av_model a) projected
               in map (\<lambda>(name, pc).
                    (name, ps_coverage (catalog_spec name)
                             * max 0 (min 1 ((pc - confidence) / gap)) * av_human_review_usd a))
                    (zip candidates confidences))))"

definition evaluate_candidates_with_escalation ::
  "scoring_config \<Rightarrow> adaptive \<Rightarrow> scoring_result \<Rightarrow> string set \<Rightarrow> real \<Rightarrow> real \<Rightarrow> voi_evaluation list" where
  "evaluate_candidates_with_escalation cfg a scoring called v confidence =
     (let candidates = remaining_providers called;
          escalation = escalation_values cfg a scoring confidence candidates
      in map (\<lambda>name. \<lparr>candidate_provider = name,
            p_flips_decision =
              estimate_flip_probability cfg (sr_facts scoring) (catalog_spec name)
                (av_disqualifier_rate a) (1 - confidence),
            voi_business_value = v,
            voi_expected_cost = expected_cost (catalog_spec name),
            voi_latency_penalty = latency_penalty_of a (catalog_spec name),
            voi_escalation_value = the (map_of escalation name)\<rparr>) candidates)"

fun escalation_loop ::
  "scoring_config \<Rightarrow> adaptive \<Rightarrow> real \<Rightarrow> eval_lead \<Rightarrow> nat \<Rightarrow> results \<Rightarrow> real \<Rightarrow> voi_evaluation list
     \<Rightarrow> run_context \<Rightarrow> error + results \<times> string \<times> voi_evaluation list \<times> run_context" where
  "escalation_loop cfg a v lead 0 results spent trace ctx = Inr (results, ''max_steps'', trace, ctx)"
| "escalation_loop cfg a v lead (Suc n) results spent trace ctx =
     sum_bind (score_results cfg results) (\<lambda>scoring.
       let confidence = predict (av_model a) cfg scoring
       in if results \<noteq> [] \<and> confidence \<ge> tau (av_model a)
          then Inr (results, ''confidence_reached'', trace, ctx)
          else if is_settled cfg (bounds scoring) \<and> av_human_review_usd a \<le> 0
          then Inr (results, ''decision_settled'', trace, ctx)
          else
            (let cs = evaluate_candidates_with_escalation cfg a scoring (set (map fst results)) v
                        confidence
             in if cs = [] then Inr (results, ''all_providers_called'', trace, ctx)
                else
                  (case choose_candidate a spent cs of
                     Inl reason \<Rightarrow> Inr (results, reason, trace @ cs, ctx)
                   | Inr best \<Rightarrow>
                       sum_bind (ctx_fetch (candidate_provider best) lead ctx)
                         (\<lambda>((r, cached), ctx').
                           escalation_loop cfg a v lead n
                             (AList.update (candidate_provider best) r results)
                             (if cached then spent else spent + pr_cost r)
                             (trace @ cs) ctx'))))"

definition escalation_aware_run ::
  "scoring_config \<Rightarrow> adaptive \<Rightarrow> eval_lead \<Rightarrow> run_context \<Rightarrow> error + policy_outcome \<times> run_context" where
  "escalation_aware_run cfg a lead ctx =
     sum_bind (escalation_loop cfg a (business_value lead (av_value_scale a)) lead (av_max_steps a)
                 [] 0 [] ctx)
       (finish_run cfg (av_model a) (length (rc_ledger ctx)))"

subsection \<open>The flip probability is a probability\<close>

lemma decision_measure_nonneg: "0 \<le> decision_measure lo hi d"
  by (simp add: decision_measure_def)

lemma weights_nonneg: "0 \<le> dict_get COMPLETENESS_WEIGHTS f"
proof -
  have "\<forall>p \<in> set (map snd COMPLETENESS_WEIGHTS). 0 \<le> p" by code_simp
  then show ?thesis using dict_get_bounds by blast
qed

lemma marginal_flip_probability_bounds:
  assumes "0 \<le> rate" and "rate \<le> 1"
  shows "0 \<le> marginal_flip_probability cfg fs spec rate"
    and "marginal_flip_probability cfg fs spec rate \<le> 1"
proof -
  have add: "0 \<le> (if g > 0 then max 0 (((c + g - c) - decision_measure c (c + g) d) / (c + g - c)) else 0)
      \<and> (if g > 0 then max 0 (((c + g - c) - decision_measure c (c + g) d) / (c + g - c)) else 0) \<le> 1"
    for g c d using decision_measure_nonneg [of c "c + g" d] by (simp add: field_simps)
  have mix: "0 \<le> x + (1 - x) * y" if "0 \<le> x" "x \<le> 1" "0 \<le> y" for x y :: real
    using that by simp
  show "0 \<le> marginal_flip_probability cfg fs spec rate"
    unfolding marginal_flip_probability_def Let_def
    using assms add by (auto intro!: mix add_nonneg_nonneg mult_nonneg_nonneg split: if_splits)
  show "marginal_flip_probability cfg fs spec rate \<le> 1"
    by (simp add: marginal_flip_probability_def Let_def)
qed

lemma information_share_nonneg:
  assumes "0 \<le> ps_coverage spec"
  shows "0 \<le> information_share fs spec"
proof -
  have "0 \<le> sum_list (map (dict_get COMPLETENESS_WEIGHTS) xs)" for xs
    using weights_nonneg by (intro sum_list_nonneg) auto
  with assms show ?thesis by (simp add: information_share_def Let_def)
qed

lemma nothing_missing_no_flip:
  assumes "\<forall>f \<in> set (ps_provides spec). \<not> missing fs f"
  shows "marginal_flip_probability cfg fs spec rate = 0" and "information_share fs spec = 0"
proof -
  have "filter (missing fs) (ps_provides spec) = []"
    using assms by (simp add: filter_empty_conv)
  then show "marginal_flip_probability cfg fs spec rate = 0"
    by (simp add: marginal_flip_probability_def)
  have "filter (\<lambda>name. name \<in> set (filter (missing fs) SCORED_FIELDS)) (ps_provides spec) = []"
    using assms by (auto simp: filter_empty_conv)
  then show "information_share fs spec = 0"
    unfolding information_share_def Let_def by simp
qed

text \<open>
  The estimated flip probability of a catalogue provider is a probability, is never below the
  chance that this one call settles the question, and is zero for a provider all of whose fields
  are already known.
\<close>

theorem flip_probability_bounds:
  assumes "spec \<in> set CATALOG" and "0 \<le> rate" and "rate \<le> 1" and "0 \<le> wrong"
  shows "0 \<le> estimate_flip_probability cfg fs spec rate wrong
    \<and> estimate_flip_probability cfg fs spec rate wrong \<le> 1
    \<and> marginal_flip_probability cfg fs spec rate \<le> estimate_flip_probability cfg fs spec rate wrong
    \<and> ((\<forall>f \<in> set (ps_provides spec). \<not> missing fs f) \<longrightarrow>
         estimate_flip_probability cfg fs spec rate wrong = 0)"
proof -
  have "0 \<le> wrong * information_share fs spec"
    using assms(1,4) catalog_coverage information_share_nonneg by (intro mult_nonneg_nonneg) auto
  with marginal_flip_probability_bounds [OF assms(2,3), of cfg fs spec] nothing_missing_no_flip [of spec fs]
  show ?thesis by (auto simp: estimate_flip_probability_def Let_def)
qed

theorem flip_probability_bounds_witness:
  "estimate_flip_probability reference_config blocked_lead inbound_payload 0.1 0.3 \<le> 1
   \<and> 0 \<le> estimate_flip_probability reference_config blocked_lead deep_research 0.1 0.3"
proof -
  have "inbound_payload \<in> set CATALOG" "deep_research \<in> set CATALOG" by (simp_all add: CATALOG_def)
  from flip_probability_bounds [OF this(1), of "0.1" "0.3" reference_config blocked_lead]
    flip_probability_bounds [OF this(2), of "0.1" "0.3" reference_config blocked_lead]
  show ?thesis by simp
qed

subsection \<open>What is bought\<close>

lemma choose_candidate_Inr:
  assumes "choose_candidate a spent cs = Inr best"
  shows "best \<in> set (affordable_candidates a spent cs) \<and> 0 < net_evoi best
    \<and> (\<forall>e \<in> set (affordable_candidates a spent cs). net_evoi e \<le> net_evoi best)"
proof (cases "affordable_candidates a spent cs")
  case Nil
  with assms show ?thesis by (simp add: choose_candidate_def)
next
  case (Cons e es)
  with assms have best: "best = max_by voi_key e es" and pos: "0 < net_evoi best"
    by (auto simp: choose_candidate_def Let_def split: if_splits)
  have "voi_key x \<le> voi_key best" if "x \<in> set (e # es)" for x
    unfolding best using that by (rule max_by_ge)
  then have "net_evoi x \<le> net_evoi best" if "x \<in> set (e # es)" for x
    using that by (fastforce simp: voi_key_def less_eq_prod_def)
  with pos Cons max_by_in [of voi_key e es] best show ?thesis by simp
qed

lemma remaining_in_catalog:
  assumes "name \<in> set (remaining_providers called)"
  shows "catalog_spec name \<in> set CATALOG" and "ps_name (catalog_spec name) = name"
    and "name \<notin> called"
proof -
  from assms obtain p where "p \<in> set CATALOG" "ps_name p = name" "name \<notin> called"
    by (auto simp: remaining_providers_def)
  with BY_NAME_catalog show "catalog_spec name \<in> set CATALOG" "ps_name (catalog_spec name) = name"
    "name \<notin> called"
    by (auto simp: catalog_spec_def)
qed

text \<open>
  The adaptive policy never pays for what it knows: the candidate it buys supplies a field
  that is still missing, was not called before, fits the rest of the budget, has a positive net
  expected value, and no affordable candidate has a larger one.
\<close>

theorem adaptive_buys_missing_information:
  assumes "choose_candidate a spent (evaluate_candidates cfg a fs called v wrong) = Inr best"
    and "0 \<le> av_disqualifier_rate a" and "av_disqualifier_rate a \<le> 1" and "0 \<le> wrong"
    and "0 \<le> v" and "0 \<le> av_latency_penalty a"
  shows "(\<exists>f \<in> set (ps_provides (catalog_spec (candidate_provider best))). missing fs f)
    \<and> candidate_provider best \<notin> called
    \<and> spent + ps_base_cost (catalog_spec (candidate_provider best)) \<le> av_budget_usd_cap a
    \<and> 0 < net_evoi best
    \<and> (\<forall>e \<in> set (affordable_candidates a spent (evaluate_candidates cfg a fs called v wrong)).
         net_evoi e \<le> net_evoi best)"
proof -
  let ?name = "candidate_provider best"
  let ?spec = "catalog_spec ?name"
  note ch = choose_candidate_Inr [OF assms(1)]
  then have mem: "?name \<in> set (remaining_providers called)"
    and eq: "p_flips_decision best = estimate_flip_probability cfg fs ?spec (av_disqualifier_rate a) wrong"
      "voi_business_value best = v" "voi_expected_cost best = expected_cost ?spec"
      "voi_latency_penalty best = latency_penalty_of a ?spec" "voi_escalation_value best = 0"
    by (auto simp: affordable_candidates_def evaluate_candidates_def)
  have cat: "?spec \<in> set CATALOG" by (rule remaining_in_catalog [OF mem])
  have "0 \<le> ps_p50_latency p" if "p \<in> set CATALOG" for p
    using that by (auto simp: CATALOG_def provider_spec_defs)
  with cat have "0 \<le> latency_penalty_of a ?spec"
    using assms(6) by (simp add: latency_penalty_of_def)
  moreover have "0 \<le> expected_cost ?spec"
    using cat catalog_cost_nonneg catalog_coverage by (simp add: expected_cost_def)
  ultimately have flip: "p_flips_decision best \<noteq> 0"
    using ch by (auto simp: net_evoi_def eq)
  have "\<exists>f \<in> set (ps_provides ?spec). missing fs f"
  proof (rule ccontr)
    assume "\<not> ?thesis"
    then have "p_flips_decision best = 0"
      unfolding eq estimate_flip_probability_def by (simp add: nothing_missing_no_flip)
    with flip show False by simp
  qed
  with ch remaining_in_catalog(3) [OF mem] show ?thesis
    by (auto simp: affordable_candidates_def)
qed

definition demo_adaptive :: adaptive where
  "demo_adaptive = adaptive_defaults demo_model 0.1"

theorem adaptive_buys_missing_information_witness:
  "\<exists>best. choose_candidate demo_adaptive 0
       (evaluate_candidates reference_config demo_adaptive Map.empty (set (tl ALL_PROVIDERS)) 20 0.5) = Inr best
     \<and> (\<exists>f \<in> set (ps_provides (catalog_spec (candidate_provider best))). missing Map.empty f)"
proof -
  have "\<not> isl (choose_candidate demo_adaptive 0
      (evaluate_candidates reference_config demo_adaptive Map.empty (set (tl ALL_PROVIDERS)) 20 0.5))"
    by code_simp
  then obtain best where b: "choose_candidate demo_adaptive 0
      (evaluate_candidates reference_config demo_adaptive Map.empty (set (tl ALL_PROVIDERS)) 20 0.5) = Inr best"
    by (cases "choose_candidate demo_adaptive 0
      (evaluate_candidates reference_config demo_adaptive Map.empty (set (tl ALL_PROVIDERS)) 20 0.5)") auto
  from adaptive_buys_missing_information [OF b] b show ?thesis
    by (auto simp: demo_adaptive_def adaptive_defaults_def)
qed

subsection \<open>The purchases of a run\<close>

text \<open>
  What both loops do to the evidence, the money spent and the context, whatever they base
  their choice on: fetch a provider that was not called and that the budget still covers.
\<close>

inductive buys ::
  "adaptive \<Rightarrow> eval_lead \<Rightarrow> results \<Rightarrow> real \<Rightarrow> run_context \<Rightarrow> results \<Rightarrow> real \<Rightarrow> run_context \<Rightarrow> bool"
  for a lead where
  stop: "buys a lead results spent ctx results spent ctx"
| buy: "name \<in> set (remaining_providers (set (map fst results)))
    \<Longrightarrow> spent + ps_base_cost (catalog_spec name) \<le> av_budget_usd_cap a
    \<Longrightarrow> ctx_fetch name lead ctx = Inr ((r, hit), ctx1)
    \<Longrightarrow> buys a lead (results @ [(name, r)]) (if hit then spent else spent + pr_cost r) ctx1 R s C
    \<Longrightarrow> buys a lead results spent ctx R s C"

lemma chosen_is_affordable:
  assumes "choose_candidate a spent cs = Inr best"
    and "map candidate_provider cs = remaining_providers called"
  shows "candidate_provider best \<in> set (remaining_providers called)"
    and "spent + ps_base_cost (catalog_spec (candidate_provider best)) \<le> av_budget_usd_cap a"
    and "candidate_provider best \<notin> called"
proof -
  from choose_candidate_Inr [OF assms(1)] have b: "best \<in> set cs"
    and c: "spent + ps_base_cost (catalog_spec (candidate_provider best)) \<le> av_budget_usd_cap a"
    by (auto simp: affordable_candidates_def)
  from b assms(2) have m: "candidate_provider best \<in> set (remaining_providers called)"
    by (metis image_eqI set_map)
  with c remaining_in_catalog(3) show "candidate_provider best \<in> set (remaining_providers called)"
    "spent + ps_base_cost (catalog_spec (candidate_provider best)) \<le> av_budget_usd_cap a"
    "candidate_provider best \<notin> called"
    by blast+
qed

lemma candidates_of_evaluate:
  "map candidate_provider (evaluate_candidates cfg a fs called v wrong) = remaining_providers called"
  "map candidate_provider (evaluate_candidates_with_escalation cfg a sc called v c)
     = remaining_providers called"
  by (simp_all add: evaluate_candidates_def evaluate_candidates_with_escalation_def Let_def comp_def)

lemma buy_step:
  assumes "choose_candidate a spent cs = Inr best"
    and "map candidate_provider cs = remaining_providers (set (map fst results))"
    and "ctx_fetch (candidate_provider best) lead ctx = Inr ((r, hit), ctx1)"
    and "buys a lead (AList.update (candidate_provider best) r results)
           (if hit then spent else spent + pr_cost r) ctx1 R s C"
  shows "buys a lead results spent ctx R s C"
proof -
  note c = chosen_is_affordable [OF assms(1,2)]
  from assms(4) c(3) show ?thesis
    by (intro buys.buy [OF c(1,2) assms(3)]) (simp add: update_fresh)
qed

lemma adaptive_loop_buys:
  "adaptive_loop cfg a v lead n results spent trace ctx = Inr (R, stop, tr, C)
     \<Longrightarrow> \<exists>s. buys a lead results spent ctx R s C"
proof (induction n arbitrary: results spent trace ctx)
  case 0
  then show ?case by (auto intro: buys.stop)
next
  case (Suc n)
  obtain s where s: "score_results cfg results = Inr s"
    using Suc.prems by (cases "score_results cfg results") simp_all
  let ?cs = "evaluate_candidates cfg a (sr_facts s) (set (map fst results)) v
    (1 - predict (av_model a) cfg s)"
  show ?case
  proof (cases "R = results \<and> C = ctx")
    case True
    then show ?thesis by (auto intro: buys.stop)
  next
    case False
    then obtain best where best: "choose_candidate a spent ?cs = Inr best"
      using Suc.prems s by (cases "choose_candidate a spent ?cs") (auto simp: Let_def split: if_splits)
    then obtain r hit ctx1 where f: "ctx_fetch (candidate_provider best) lead ctx = Inr ((r, hit), ctx1)"
      and l: "adaptive_loop cfg a v lead n (AList.update (candidate_provider best) r results)
         (if hit then spent else spent + pr_cost r) (trace @ ?cs) ctx1 = Inr (R, stop, tr, C)"
      using Suc.prems s False
      by (cases "ctx_fetch (candidate_provider best) lead ctx") (auto simp: Let_def split: if_splits)
    from Suc.IH [OF l] buy_step [OF best candidates_of_evaluate(1) f] show ?thesis by blast
  qed
qed

lemma escalation_loop_buys:
  "escalation_loop cfg a v lead n results spent trace ctx = Inr (R, stop, tr, C)
     \<Longrightarrow> \<exists>s. buys a lead results spent ctx R s C"
proof (induction n arbitrary: results spent trace ctx)
  case 0
  then show ?case by (auto intro: buys.stop)
next
  case (Suc n)
  obtain s where s: "score_results cfg results = Inr s"
    using Suc.prems by (cases "score_results cfg results") simp_all
  let ?cs = "evaluate_candidates_with_escalation cfg a s (set (map fst results)) v
    (predict (av_model a) cfg s)"
  show ?case
  proof (cases "R = results \<and> C = ctx")
    case True
    then show ?thesis by (auto intro: buys.stop)
  next
    case False
    then obtain best where best: "choose_candidate a spent ?cs = Inr best"
      using Suc.prems s by (cases "choose_candidate a spent ?cs") (auto simp: Let_def split: if_splits)
    then obtain r hit ctx1 where f: "ctx_fetch (candidate_provider best) lead ctx = Inr ((r, hit), ctx1)"
      and l: "escalation_loop cfg a v lead n (AList.update (candidate_provider best) r results)
         (if hit then spent else spent + pr_cost r) (trace @ ?cs) ctx1 = Inr (R, stop, tr, C)"
      using Suc.prems s False
      by (cases "ctx_fetch (candidate_provider best) lead ctx") (auto simp: Let_def split: if_splits)
    from Suc.IH [OF l] buy_step [OF best candidates_of_evaluate(2) f] show ?thesis by blast
  qed
qed

lemma buys_fetches:
  assumes "buys a lead results spent ctx R s C"
  shows "fetches lead results ctx0 ctx \<Longrightarrow> distinct (map fst results)
    \<Longrightarrow> set (map fst results) \<subseteq> set ALL_PROVIDERS
    \<Longrightarrow> fetches lead R ctx0 C \<and> distinct (map fst R) \<and> set (map fst R) \<subseteq> set ALL_PROVIDERS"
  using assms
proof (induction rule: buys.induct)
  case (buy name results spent ctx r hit ctx1 R s C)
  from buy.hyps(1) have "name \<in> set ALL_PROVIDERS" "name \<notin> set (map fst results)"
    by (auto simp: remaining_providers_def ALL_PROVIDERS_def)
  with buy.prems have "distinct (map fst (results @ [(name, r)]))"
    "set (map fst (results @ [(name, r)])) \<subseteq> set ALL_PROVIDERS"
    by auto
  with buy.IH fetches.snoc [OF buy.prems(1) buy.hyps(3)] show ?case by blast
qed simp

lemma buys_contract:
  assumes "buys a lead [] 0 ctx R s C"
    and "finish_run cfg m (length (rc_ledger ctx)) (R, stop, tr, C) = Inr (out, ctx')"
  shows "\<exists>results stop trace. fetches lead results ctx ctx' \<and> distinct (map fst results)
      \<and> set (map fst results) \<subseteq> set ALL_PROVIDERS
      \<and> finish_run cfg m (length (rc_ledger ctx)) (results, stop, trace, ctx') = Inr (out, ctx')"
proof -
  have "C = ctx'" using finish_run_Inr [OF assms(2)] by blast
  moreover have "fetches lead R ctx C \<and> distinct (map fst R) \<and> set (map fst R) \<subseteq> set ALL_PROVIDERS"
    by (rule buys_fetches [OF assms(1)]) (auto intro: fetches.none)
  ultimately show ?thesis using assms(2) by blast
qed

interpretation evoi: acquisition_policy cfg "av_model a" "adaptive_run cfg a" for cfg a
proof
  fix lead ctx out ctx'
  assume "adaptive_run cfg a lead ctx = Inr (out, ctx')"
  then obtain R stop tr C v where
    l: "adaptive_loop cfg a v lead (av_max_steps a) [] 0 [] ctx = Inr (R, stop, tr, C)"
    and fin: "finish_run cfg (av_model a) (length (rc_ledger ctx)) (R, stop, tr, C) = Inr (out, ctx')"
    by (auto simp: adaptive_run_def sum_bind_Inr)
  from adaptive_loop_buys [OF l] buys_contract [OF _ fin]
  show "\<exists>results stop trace. fetches lead results ctx ctx' \<and> distinct (map fst results)
      \<and> set (map fst results) \<subseteq> set ALL_PROVIDERS
      \<and> finish_run cfg (av_model a) (length (rc_ledger ctx)) (results, stop, trace, ctx') = Inr (out, ctx')"
    by blast
qed

interpretation escalation: acquisition_policy cfg "av_model a" "escalation_aware_run cfg a" for cfg a
proof
  fix lead ctx out ctx'
  assume "escalation_aware_run cfg a lead ctx = Inr (out, ctx')"
  then obtain R stop tr C v where
    l: "escalation_loop cfg a v lead (av_max_steps a) [] 0 [] ctx = Inr (R, stop, tr, C)"
    and fin: "finish_run cfg (av_model a) (length (rc_ledger ctx)) (R, stop, tr, C) = Inr (out, ctx')"
    by (auto simp: escalation_aware_run_def sum_bind_Inr)
  from escalation_loop_buys [OF l] buys_contract [OF _ fin]
  show "\<exists>results stop trace. fetches lead results ctx ctx' \<and> distinct (map fst results)
      \<and> set (map fst results) \<subseteq> set ALL_PROVIDERS
      \<and> finish_run cfg (av_model a) (length (rc_ledger ctx)) (results, stop, trace, ctx') = Inr (out, ctx')"
    by blast
qed

subsection \<open>The budget\<close>

text \<open>No provider of the registry charges more than its catalogue price.\<close>

definition prices_respected :: "registry \<Rightarrow> bool" where
  "prices_respected rg \<longleftrightarrow>
     (\<forall>name p e r. registry_get rg name = Inr p \<longrightarrow> pv_fetch p e = Inr r
        \<longrightarrow> pr_cost r \<le> ps_base_cost (catalog_spec name))"

lemma ctx_fetch_cost:
  assumes "ctx_fetch name lead ctx = Inr ((r, hit), ctx1)"
  shows "rc_registry ctx1 = rc_registry ctx"
    and "\<exists>c. rc_ledger ctx1 = rc_ledger ctx @ [c] \<and> ca_cost c = (if hit then 0 else pr_cost r)"
    and "prices_respected (rc_registry ctx) \<Longrightarrow> \<not> hit \<Longrightarrow> pr_cost r \<le> ps_base_cost (catalog_spec name)"
  using assms by (auto elim!: ctx_fetch_cases simp: ledger_record_def prices_respected_def)

lemma buys_budget:
  assumes "buys a lead results spent ctx R s C"
  shows "prices_respected (rc_registry ctx) \<Longrightarrow> spent \<le> av_budget_usd_cap a
    \<Longrightarrow> s \<le> av_budget_usd_cap a
      \<and> (\<exists>rs. rc_ledger C = rc_ledger ctx @ rs \<and> s = spent + sum_list (map ca_cost rs))"
  using assms
proof (induction rule: buys.induct)
  case (stop results spent ctx)
  then show ?case by simp
next
  case (buy name results spent ctx r hit ctx1 R s C)
  note f = ctx_fetch_cost [OF buy.hyps(3)]
  obtain c where c: "rc_ledger ctx1 = rc_ledger ctx @ [c]" "ca_cost c = (if hit then 0 else pr_cost r)"
    using f(2) by blast
  have "(if hit then spent else spent + pr_cost r) \<le> av_budget_usd_cap a"
    using f(3) buy.hyps(2) buy.prems by (cases hit) fastforce+
  with buy.IH buy.prems(1) f(1) obtain rs where "s \<le> av_budget_usd_cap a"
    "rc_ledger C = rc_ledger ctx1 @ rs"
    "s = (if hit then spent else spent + pr_cost r) + sum_list (map ca_cost rs)"
    by auto
  with c show ?case by (auto intro!: exI [of _ "c # rs"])
qed

lemma evoi_run_buys:
  assumes "adaptive_run cfg a lead ctx = Inr (out, ctx') \<or> escalation_aware_run cfg a lead ctx = Inr (out, ctx')"
  shows "\<exists>R stop tr C s. buys a lead [] 0 ctx R s C
    \<and> finish_run cfg (av_model a) (length (rc_ledger ctx)) (R, stop, tr, C) = Inr (out, ctx')"
proof -
  let ?v = "business_value lead (av_value_scale a)"
  from assms obtain R stop tr C where
    fin: "finish_run cfg (av_model a) (length (rc_ledger ctx)) (R, stop, tr, C) = Inr (out, ctx')"
    and l: "adaptive_loop cfg a ?v lead (av_max_steps a) [] 0 [] ctx = Inr (R, stop, tr, C)
      \<or> escalation_loop cfg a ?v lead (av_max_steps a) [] 0 [] ctx = Inr (R, stop, tr, C)"
    by (auto simp: adaptive_run_def escalation_aware_run_def sum_bind_Inr)
  from l have "\<exists>s. buys a lead [] 0 ctx R s C"
    using adaptive_loop_buys escalation_loop_buys by metis
  with fin show ?thesis by blast
qed

text \<open>
  C23. The hard budget cap holds: when providers charge no more than their catalogue price, an
  adaptive or escalation-aware run adds calls to the ledger whose total cost is at most
  \<open>budget_usd_cap\<close>, whatever the model, the configuration and the cache say.
\<close>

theorem adaptive_budget_respected:
  assumes "adaptive_run cfg a lead ctx = Inr (out, ctx') \<or> escalation_aware_run cfg a lead ctx = Inr (out, ctx')"
    and "prices_respected (rc_registry ctx)" and "0 \<le> av_budget_usd_cap a"
  shows "\<exists>rs. rc_ledger ctx' = rc_ledger ctx @ rs
    \<and> sum_list (map ca_cost rs) \<le> av_budget_usd_cap a"
proof -
  note evoi_run_buys [OF assms(1)]
  then obtain R stop tr C s where b: "buys a lead [] 0 ctx R s C"
    and fin: "finish_run cfg (av_model a) (length (rc_ledger ctx)) (R, stop, tr, C) = Inr (out, ctx')"
    by blast
  have "C = ctx'" using finish_run_Inr [OF fin] by blast
  with buys_budget [OF b assms(2,3)] show ?thesis by auto
qed

subsection \<open>The EVoI loops return\<close>

lemma chosen_known:
  "choose_candidate a spent cs = Inr best \<Longrightarrow> map candidate_provider cs = remaining_providers called
     \<Longrightarrow> candidate_provider best \<in> set ALL_PROVIDERS"
  using chosen_is_affordable(1) by (fastforce simp: remaining_providers_def ALL_PROVIDERS_def)

lemma adaptive_loop_total:
  assumes "registry_serves (rc_registry ctx) lead" and "set (map fst results) \<subseteq> set ALL_PROVIDERS"
  shows "\<exists>R stop tr C. adaptive_loop cfg a v lead n results spent trace ctx = Inr (R, stop, tr, C)
    \<and> set (map fst R) \<subseteq> set ALL_PROVIDERS"
  using assms
proof (induction n arbitrary: results spent trace ctx)
  case (Suc n)
  obtain s where s: "score_results cfg results = Inr s"
    using score_results_total [OF Suc.prems(2)] ..
  let ?cs = "evaluate_candidates cfg a (sr_facts s) (set (map fst results)) v
    (1 - predict (av_model a) cfg s)"
  show ?case
  proof (cases "choose_candidate a spent ?cs")
    case (Inl reason)
    with s Suc.prems(2) show ?thesis by (auto simp: Let_def)
  next
    case (Inr best)
    let ?n = "candidate_provider best"
    have known: "?n \<in> set ALL_PROVIDERS"
      using chosen_known [OF Inr candidates_of_evaluate(1)] .
    obtain r hit ctx' where f: "ctx_fetch ?n lead ctx = Inr ((r, hit), ctx')"
      "rc_registry ctx' = rc_registry ctx"
      using ctx_fetch_total [OF Suc.prems(1) known] by blast
    have "\<exists>R stop tr C. adaptive_loop cfg a v lead n (AList.update ?n r results)
        (if hit then spent else spent + pr_cost r) (trace @ ?cs) ctx' = Inr (R, stop, tr, C)
        \<and> set (map fst R) \<subseteq> set ALL_PROVIDERS"
      by (rule Suc.IH) (use f(2) Suc.prems known in \<open>simp_all add: fst_update\<close>)
    with s f Inr Suc.prems(2) show ?thesis by (auto simp: Let_def)
  qed
qed simp

lemma escalation_loop_total:
  assumes "registry_serves (rc_registry ctx) lead" and "set (map fst results) \<subseteq> set ALL_PROVIDERS"
  shows "\<exists>R stop tr C. escalation_loop cfg a v lead n results spent trace ctx = Inr (R, stop, tr, C)
    \<and> set (map fst R) \<subseteq> set ALL_PROVIDERS"
  using assms
proof (induction n arbitrary: results spent trace ctx)
  case (Suc n)
  obtain s where s: "score_results cfg results = Inr s"
    using score_results_total [OF Suc.prems(2)] ..
  let ?cs = "evaluate_candidates_with_escalation cfg a s (set (map fst results)) v
    (predict (av_model a) cfg s)"
  show ?case
  proof (cases "choose_candidate a spent ?cs")
    case (Inl reason)
    with s Suc.prems(2) show ?thesis by (auto simp: Let_def)
  next
    case (Inr best)
    let ?n = "candidate_provider best"
    have known: "?n \<in> set ALL_PROVIDERS"
      using chosen_known [OF Inr candidates_of_evaluate(2)] .
    obtain r hit ctx' where f: "ctx_fetch ?n lead ctx = Inr ((r, hit), ctx')"
      "rc_registry ctx' = rc_registry ctx"
      using ctx_fetch_total [OF Suc.prems(1) known] by blast
    have "\<exists>R stop tr C. escalation_loop cfg a v lead n (AList.update ?n r results)
        (if hit then spent else spent + pr_cost r) (trace @ ?cs) ctx' = Inr (R, stop, tr, C)
        \<and> set (map fst R) \<subseteq> set ALL_PROVIDERS"
      by (rule Suc.IH) (use f(2) Suc.prems known in \<open>simp_all add: fst_update\<close>)
    with s f Inr Suc.prems(2) show ?thesis by (auto simp: Let_def)
  qed
qed simp

lemma adaptive_total:
  assumes "registry_serves (rc_registry ctx) lead"
  shows "\<exists>res. adaptive_run cfg a lead ctx = Inr res"
proof -
  obtain R stop tr C where l: "adaptive_loop cfg a (business_value lead (av_value_scale a)) lead
      (av_max_steps a) [] 0 [] ctx = Inr (R, stop, tr, C)" "set (map fst R) \<subseteq> set ALL_PROVIDERS"
    using adaptive_loop_total [OF assms no_results_known] by blast
  then show ?thesis using finish_run_total [OF l(2)] by (simp add: adaptive_run_def)
qed

lemma escalation_aware_total:
  assumes "registry_serves (rc_registry ctx) lead"
  shows "\<exists>res. escalation_aware_run cfg a lead ctx = Inr res"
proof -
  obtain R stop tr C where l: "escalation_loop cfg a (business_value lead (av_value_scale a)) lead
      (av_max_steps a) [] 0 [] ctx = Inr (R, stop, tr, C)" "set (map fst R) \<subseteq> set ALL_PROVIDERS"
    using escalation_loop_total [OF assms no_results_known] by blast
  then show ?thesis using finish_run_total [OF l(2)] by (simp add: escalation_aware_run_def)
qed

text \<open>A registry whose providers answer nothing and charge the list price.\<close>

definition list_price_provider :: "provider_spec \<Rightarrow> provider" where
  "list_price_provider spec =
     \<lparr>pv_name = ps_name spec, pv_entity_type = ps_entity_type spec,
      pv_fetch = (\<lambda>_. Inr \<lparr>pr_fields = [], pr_confidence = 0, pr_cost = ps_base_cost spec,
        pr_latency = 0, pr_status = MISS, pr_matched = None, pr_error_kind = None\<rparr>)\<rparr>"

definition list_price_context :: run_context where
  "list_price_context =
     \<lparr>rc_registry = \<lparr>rg_by_name = map (\<lambda>p. (ps_name p, list_price_provider p)) CATALOG,
        rg_by_capability = []\<rparr>, rc_ledger = [], rc_cache = Map.empty\<rparr>"

lemma list_price_get:
  "registry_get (rc_registry list_price_context) name = Inr p \<longleftrightarrow>
     (\<exists>spec. BY_NAME name = Some spec \<and> p = list_price_provider spec)"
proof -
  have "map_of (map (\<lambda>p. (ps_name p, list_price_provider p)) xs) name
      = map_option list_price_provider (map_of (map (\<lambda>p. (ps_name p, p)) xs) name)" for xs
    by (induction xs) auto
  then show ?thesis
    by (auto simp: registry_get_def list_price_context_def BY_NAME_def split: option.splits)
qed

lemma list_prices_respected: "prices_respected (rc_registry list_price_context)"
  by (auto simp: prices_respected_def list_price_get list_price_provider_def catalog_spec_def)

lemma list_price_serves: "registry_serves (rc_registry list_price_context) lead"
  using BY_NAME_catalog
  by (fastforce simp: registry_serves_def list_price_get list_price_provider_def ALL_PROVIDERS_def)

theorem adaptive_budget_respected_witness:
  "\<exists>out ctx' rs. adaptive_run reference_config demo_adaptive settling_lead list_price_context
       = Inr (out, ctx')
     \<and> rc_ledger ctx' = rc_ledger list_price_context @ rs \<and> sum_list (map ca_cost rs) \<le> 0.5"
proof -
  obtain out ctx' where
    r: "adaptive_run reference_config demo_adaptive settling_lead list_price_context = Inr (out, ctx')"
    using adaptive_total [OF list_price_serves] by (metis surj_pair)
  have cap: "av_budget_usd_cap demo_adaptive = 0.5"
    by (simp add: demo_adaptive_def adaptive_defaults_def)
  from adaptive_budget_respected [OF disjI1 [OF r] list_prices_respected] r show ?thesis
    unfolding cap by auto
qed



subsection \<open>Every policy reconciles with its ledger\<close>

text \<open>
  Whatever policy runs, its report is the ledger's: the calls it names are, in order, those
  of the records it appended, each a catalogue provider and none twice; its cost, latency and
  cache hits are those records' totals. No call is ever billed twice for one entity, cached
  answers cost nothing, and the decision is the scorer's on the evidence gathered.
\<close>

theorem policies_reconcile:
  assumes "run \<in> {calibrated_bounds_run cfg m, full_enrichment_run cfg m, waterfall_run cfg w m,
      adaptive_run cfg a, escalation_aware_run cfg a}"
    and "run lead ctx = Inr (out, ctx')" and "billed_once ctx"
  shows "\<exists>rs. rc_ledger ctx' = rc_ledger ctx @ rs \<and> map ca_provider rs = po_providers_called out
    \<and> distinct (po_providers_called out) \<and> set (po_providers_called out) \<subseteq> set ALL_PROVIDERS
    \<and> po_cost out = ledger_total_cost rs \<and> po_latency out = ledger_total_latency rs
    \<and> po_cache_hits out = ledger_cache_hits rs \<and> billed_once ctx'
    \<and> po_decision out = decide cfg (sr_total (po_scoring out))"
proof -
  have contract: ?thesis if "acquisition_policy cfg m' run" for m'
    using acquisition_policy.ledger_reconciles [OF that assms(2)]
      acquisition_policy.no_double_billing [OF that assms(2,3)]
      acquisition_policy.calls_catalogue_once [OF that assms(2)]
      acquisition_policy.decision_of_score [OF that assms(2)]
    by blast
  from assms(1) show ?thesis
    using contract calibrated.acquisition_policy_axioms full.acquisition_policy_axioms
      waterfall.acquisition_policy_axioms evoi.acquisition_policy_axioms
      escalation.acquisition_policy_axioms
    by blast
qed

theorem policies_reconcile_witness:
  "\<exists>out ctx' rs. full_enrichment_run reference_config demo_model settling_lead list_price_context
       = Inr (out, ctx')
     \<and> rc_ledger ctx' = rs \<and> po_cost out = ledger_total_cost rs \<and> billed_once ctx'"
proof -
  obtain out ctx' where
    r: "full_enrichment_run reference_config demo_model settling_lead list_price_context = Inr (out, ctx')"
    using full_enrichment_total [OF list_price_serves] by (metis surj_pair)
  have "billed_once list_price_context"
    by (simp add: billed_once_def billed_def list_price_context_def)
  from policies_reconcile [where run = "full_enrichment_run reference_config demo_model"
      and cfg = reference_config and m = demo_model, OF _ r this] r show ?thesis
    by (auto simp: list_price_context_def)
qed

subsection \<open>Review priced at zero\<close>

lemma evaluate_without_escalation:
  assumes "av_human_review_usd a \<le> 0"
  shows "evaluate_candidates_with_escalation cfg a sc called v c
    = evaluate_candidates cfg a (sr_facts sc) called v (1 - c)"
proof -
  have "map_of (map (\<lambda>name. (name, 0 :: real)) xs) n = Some 0" if "n \<in> set xs" for xs and n :: string
    using that by (induction xs) auto
  with assms show ?thesis
    by (simp add: evaluate_candidates_with_escalation_def evaluate_candidates_def
        escalation_values_def Let_def)
qed

definition forget_reason ::
  "error + results \<times> string \<times> voi_evaluation list \<times> run_context
     \<Rightarrow> error + results \<times> voi_evaluation list \<times> run_context" where
  "forget_reason = map_sum id (\<lambda>(R, _, tr, C). (R, tr, C))"

lemma forget_reason_simps [simp]:
  "forget_reason (Inl e) = Inl e" "forget_reason (Inr (R, stop, tr, C)) = Inr (R, tr, C)"
  by (simp_all add: forget_reason_def)

lemma forget_reason_bind:
  "(\<And>x. forget_reason (f x) = forget_reason (g x))
     \<Longrightarrow> forget_reason (sum_bind x f) = forget_reason (sum_bind x g)"
  by (cases x) simp_all

lemma loops_agree_at_zero:
  assumes "av_human_review_usd a \<le> 0"
  shows "forget_reason (escalation_loop cfg a v lead n results spent trace ctx)
    = forget_reason (adaptive_loop cfg a v lead n results spent trace ctx)"
proof (induction n arbitrary: results spent trace ctx)
  case (Suc n)
  show ?case
  proof (cases "score_results cfg results")
    case (Inr s)
    have step: "forget_reason (sum_bind x (\<lambda>((r, cached), ctx').
          escalation_loop cfg a v lead n (f r) (g r cached) tr ctx'))
      = forget_reason (sum_bind x (\<lambda>((r, cached), ctx').
          adaptive_loop cfg a v lead n (f r) (g r cached) tr ctx'))" for x f g tr
      by (rule forget_reason_bind) (simp add: Suc split: prod.split)
    let ?cs = "evaluate_candidates cfg a (sr_facts s) (set (map fst results)) v
      (1 - predict (av_model a) cfg s)"
    from Inr assms show ?thesis
      by (cases "choose_candidate a spent ?cs")
        (auto simp: Let_def evaluate_without_escalation step)
  qed simp
qed simp

text \<open>The report of a run without its stop reason.\<close>

definition but_for_reason ::
  "error + policy_outcome \<times> run_context \<Rightarrow> error + policy_outcome \<times> run_context" where
  "but_for_reason = map_sum id (\<lambda>(out, ctx). (out\<lparr>po_stop_reason := []\<rparr>, ctx))"

lemma but_for_reason_finish:
  "but_for_reason (sum_bind x (finish_run cfg m k))
     = sum_bind (forget_reason x) (\<lambda>(R, tr, C). but_for_reason (finish_run cfg m k (R, [], tr, C)))"
proof (cases x)
  case (Inr y)
  obtain R stop tr C where y: "y = (R, stop, tr, C)" by (metis prod.exhaust)
  show ?thesis
    by (cases "score_results cfg R")
      (auto simp: Inr y finish_run_def but_for_reason_def Let_def split: prod.splits)
qed (simp add: but_for_reason_def)

text \<open>
  With human review priced at zero or below, the escalation-aware policy is the adaptive
  policy: the same calls, evaluations, decision, confidence and costs, the same exception if one
  is raised, and the same context afterwards. Only the reported stop reason may differ, because
  the two test their stop rules in opposite order.
\<close>

theorem escalation_free_is_adaptive:
  assumes "av_human_review_usd a \<le> 0"
  shows "but_for_reason (escalation_aware_run cfg a lead ctx) = but_for_reason (adaptive_run cfg a lead ctx)"
  unfolding escalation_aware_run_def adaptive_run_def but_for_reason_finish
    loops_agree_at_zero [OF assms] ..

theorem escalation_free_is_adaptive_witness:
  "but_for_reason (escalation_aware_run reference_config demo_adaptive settling_lead list_price_context)
     = but_for_reason (adaptive_run reference_config demo_adaptive settling_lead list_price_context)"
  by (rule escalation_free_is_adaptive) (simp add: demo_adaptive_def adaptive_defaults_def)

subsection \<open>Running out of steps and running out of providers\<close>

lemma remaining_nonempty:
  assumes "length results < 8"
  shows "remaining_providers (set (map fst results)) \<noteq> []"
proof
  assume "remaining_providers (set (map fst results)) = []"
  then have "set ALL_PROVIDERS \<subseteq> set (map fst results)"
    by (auto simp: remaining_providers_def ALL_PROVIDERS_def filter_empty_conv)
  then have "card (set ALL_PROVIDERS) \<le> card (set (map fst results))"
    by (intro card_mono) simp_all
  also have "\<dots> \<le> length results" using card_length [of "map fst results"] by simp
  also have "card (set ALL_PROVIDERS) = 8"
    using ALL_PROVIDERS_distinct distinct_card by (fastforce simp: ALL_PROVIDERS_def CATALOG_def)
  finally show False using assms by simp
qed

lemma choose_reason:
  "choose_candidate a spent cs = Inl reason \<Longrightarrow> reason = ''budget_exhausted'' \<or> reason = ''no_positive_evoi''"
  by (auto simp: choose_candidate_def Let_def split: list.splits if_splits)

lemma adaptive_loop_reason:
  assumes "adaptive_loop cfg a v lead n results spent trace ctx = Inr (R, stop, tr, C)"
    and "length results + n \<le> 8"
  shows "stop \<noteq> ''all_providers_called''"
  using assms
proof (induction n arbitrary: results spent trace ctx)
  case (Suc n)
  obtain s where s: "score_results cfg results = Inr s"
    using Suc.prems by (cases "score_results cfg results") simp_all
  let ?cs = "evaluate_candidates cfg a (sr_facts s) (set (map fst results)) v
    (1 - predict (av_model a) cfg s)"
  have cs: "?cs \<noteq> []"
    using remaining_nonempty [of results] Suc.prems(2) by (simp add: evaluate_candidates_def)
  show ?case
  proof (cases "choose_candidate a spent ?cs")
    case (Inl reason)
    with s cs Suc.prems(1) choose_reason [OF Inl] show ?thesis
      by (auto simp: Let_def split: if_splits)
  next
    case (Inr best)
    have len: "length (AList.update k r results) \<le> Suc (length results)" for k r
      by (induction results) auto
    show ?thesis
    proof (cases "ctx_fetch (candidate_provider best) lead ctx")
      case (Inr x)
      obtain r hit ctx' where x: "x = ((r, hit), ctx')" by (metis prod.exhaust)
      have "length (AList.update (candidate_provider best) r results) + n \<le> 8"
        using len [of "candidate_provider best" r] Suc.prems(2) by simp
      with s cs Suc.prems(1) \<open>choose_candidate a spent ?cs = Inr best\<close> Inr x Suc.IH show ?thesis
        by (auto simp: Let_def split: if_splits)
    qed (use s cs Suc.prems(1) \<open>choose_candidate a spent ?cs = Inr best\<close> in
        \<open>auto simp: Let_def split: if_splits\<close>)
  qed
qed auto

text \<open>
  The adaptive policy never reports that it called all providers under its default step
  limit: the limit equals the size of the catalogue, so a run that buys all eight ends with the
  reason \<open>max_steps\<close> before it could notice that nothing is left.
\<close>

theorem adaptive_never_reports_all_called:
  assumes "adaptive_run cfg a lead ctx = Inr (out, ctx')" and "av_max_steps a \<le> 8"
  shows "po_stop_reason out \<noteq> ''all_providers_called''"
proof -
  obtain R stop tr C where
    l: "adaptive_loop cfg a (business_value lead (av_value_scale a)) lead (av_max_steps a) [] 0 [] ctx
      = Inr (R, stop, tr, C)"
    and fin: "finish_run cfg (av_model a) (length (rc_ledger ctx)) (R, stop, tr, C) = Inr (out, ctx')"
    using assms(1) by (auto simp: adaptive_run_def sum_bind_Inr)
  from adaptive_loop_reason [OF l] assms(2) finish_run_Inr [OF fin] show ?thesis by simp
qed

theorem adaptive_never_reports_all_called_witness:
  "\<exists>out ctx'. adaptive_run reference_config demo_adaptive settling_lead list_price_context = Inr (out, ctx')
     \<and> po_stop_reason out \<noteq> ''all_providers_called''"
proof -
  obtain out ctx' where
    r: "adaptive_run reference_config demo_adaptive settling_lead list_price_context = Inr (out, ctx')"
    using adaptive_total [OF list_price_serves] by (metis surj_pair)
  from adaptive_never_reports_all_called [OF r] r show ?thesis
    by (simp add: demo_adaptive_def adaptive_defaults_def)
qed

end
