(* ===== verification/State_Machine.thy ===== *)
theory State_Machine
  imports Core_Types
begin

text \<open>
  \<open>arie.statemachine\<close>: the lead state graph (\<open>transitions.py\<close>) and the one function that
  writes \<open>leads.status\<close> (\<open>apply.py\<close>), an UPDATE guarded by the lead's version. The
  database of a work transaction is the record \<open>db\<close>, extended by the components that own
  further tables; \<open>clock\<close> is \<open>now()\<close> of the running transaction.
\<close>

subsection \<open>The state graph\<close>

record transition =
  tr_job_type :: string
  tr_on_success :: lead_status

fun TRANSITIONS :: "lead_status \<Rightarrow> transition option" where
  "TRANSITIONS NEW = Some \<lparr>tr_job_type = ''compute_score'', tr_on_success = SCORING\<rparr>"
| "TRANSITIONS SCORING =
     Some \<lparr>tr_job_type = ''fetch_evidence'', tr_on_success = FETCHING_EVIDENCE\<rparr>"
| "TRANSITIONS FETCHING_EVIDENCE =
     Some \<lparr>tr_job_type = ''integrate_evidence'', tr_on_success = INTEGRATING\<rparr>"
| "TRANSITIONS INTEGRATING =
     Some \<lparr>tr_job_type = ''finalize_decision'', tr_on_success = DECISION\<rparr>"
| "TRANSITIONS _ = None"

definition DECISION_OUTCOMES :: "(string \<times> lead_status) list" where
  "DECISION_OUTCOMES =
     [(''auto_route'', AUTO_ROUTED), (''escalate_human'', AWAITING_HUMAN), (''reject'', SYNCED)]"

definition HUMAN_REVIEW_OUTCOMES :: "(string \<times> lead_status) list" where
  "HUMAN_REVIEW_OUTCOMES =
     [(''auto_route'', AUTO_ROUTED), (''reject'', SYNCED), (''manual_review'', MANUAL_REVIEW)]"

definition TERMINAL :: "lead_status set" where
  "TERMINAL = {ROUTED, SYNCED, FAILED, DEAD_LETTER, SHADOW_EVALUATED}"

definition QUALIFIED :: "lead_status set" where
  "QUALIFIED = {AUTO_ROUTED, ROUTED, MANUAL_REVIEW}"

definition REJECTED :: "lead_status set" where
  "REJECTED = {SYNCED}"

definition AWAITING_REVIEW :: "lead_status set" where
  "AWAITING_REVIEW = {AWAITING_HUMAN}"

definition FAILURE :: "lead_status set" where
  "FAILURE = {FAILED, DEAD_LETTER}"

definition FINALIZED :: "lead_status set" where
  "FINALIZED = QUALIFIED \<union> REJECTED"

definition job_type_for :: "lead_status \<Rightarrow> string option" where
  "job_type_for s = map_option tr_job_type (TRANSITIONS s)"

definition next_status ::
  "lead_status \<Rightarrow> string option \<Rightarrow> error + lead_status option" where
  "next_status current outcome =
     (if current = DECISION then
        (case Option.bind outcome (map_of DECISION_OUTCOMES) of
           None \<Rightarrow> Inl ValueError
         | Some s \<Rightarrow> Inr (Some s))
      else if current = AWAITING_HUMAN then
        (case Option.bind outcome (map_of HUMAN_REVIEW_OUTCOMES) of
           None \<Rightarrow> Inl ValueError
         | Some s \<Rightarrow> Inr (Some s))
      else if current \<in> TERMINAL then Inr None
      else Inr (map_option tr_on_success (TRANSITIONS current)))"

lemmas status_group_defs =
  TERMINAL_def QUALIFIED_def REJECTED_def AWAITING_REVIEW_def FAILURE_def FINALIZED_def

text \<open>One move of a lead through the graph, whatever the outcome supplied.\<close>

inductive advance :: "lead_status \<Rightarrow> lead_status \<Rightarrow> bool" where
  "next_status s outcome = Inr (Some t) \<Longrightarrow> advance s t"

inductive_cases advance_cases: "advance s t"

lemma next_status_DECISION:
  "next_status DECISION outcome = Inr (Some t) \<longleftrightarrow>
     outcome = Some ''auto_route'' \<and> t = AUTO_ROUTED
     \<or> outcome = Some ''escalate_human'' \<and> t = AWAITING_HUMAN
     \<or> outcome = Some ''reject'' \<and> t = SYNCED"
  by (cases outcome) (auto simp: next_status_def DECISION_OUTCOMES_def)

lemma next_status_AWAITING_HUMAN:
  "next_status AWAITING_HUMAN outcome = Inr (Some t) \<longleftrightarrow>
     outcome = Some ''auto_route'' \<and> t = AUTO_ROUTED
     \<or> outcome = Some ''reject'' \<and> t = SYNCED
     \<or> outcome = Some ''manual_review'' \<and> t = MANUAL_REVIEW"
  by (cases outcome) (auto simp: next_status_def HUMAN_REVIEW_OUTCOMES_def)

lemma next_status_linear [simp]:
  "next_status NEW outcome = Inr (Some SCORING)"
  "next_status SCORING outcome = Inr (Some FETCHING_EVIDENCE)"
  "next_status FETCHING_EVIDENCE outcome = Inr (Some INTEGRATING)"
  "next_status INTEGRATING outcome = Inr (Some DECISION)"
  by (simp_all add: next_status_def TERMINAL_def)

lemma next_status_stuck [simp]:
  "next_status IDENTITY_RESOLVED outcome = Inr None"
  "next_status AUTO_ROUTED outcome = Inr None"
  "next_status MANUAL_REVIEW outcome = Inr None"
  "s \<in> TERMINAL \<Longrightarrow> next_status s outcome = Inr None"
  by (auto simp: next_status_def TERMINAL_def)

definition edges :: "(lead_status \<times> lead_status) list" where
  "edges =
     [(NEW, SCORING), (SCORING, FETCHING_EVIDENCE), (FETCHING_EVIDENCE, INTEGRATING),
      (INTEGRATING, DECISION), (DECISION, AUTO_ROUTED), (DECISION, AWAITING_HUMAN),
      (DECISION, SYNCED), (AWAITING_HUMAN, AUTO_ROUTED), (AWAITING_HUMAN, SYNCED),
      (AWAITING_HUMAN, MANUAL_REVIEW)]"

lemma advance_iff: "advance s t \<longleftrightarrow> (s, t) \<in> set edges"
proof
  assume "advance s t"
  then obtain outcome where n: "next_status s outcome = Inr (Some t)"
    by (rule advance_cases)
  show "(s, t) \<in> set edges"
  proof (cases s)
    case DECISION
    with n show ?thesis by (auto simp: next_status_DECISION edges_def)
  next
    case AWAITING_HUMAN
    with n show ?thesis by (auto simp: next_status_AWAITING_HUMAN edges_def)
  qed (use n in \<open>simp_all add: edges_def TERMINAL_def next_status_def\<close>)
next
  assume "(s, t) \<in> set edges"
  then have "\<exists>outcome. next_status s outcome = Inr (Some t)"
    by (auto simp: edges_def next_status_DECISION next_status_AWAITING_HUMAN)
  then show "advance s t"
    by (auto intro: advance.intros)
qed

text \<open>The longest path still ahead of a lead: every advance makes it shorter.\<close>

fun steps_left :: "lead_status \<Rightarrow> nat" where
  "steps_left NEW = 6"
| "steps_left SCORING = 5"
| "steps_left FETCHING_EVIDENCE = 4"
| "steps_left INTEGRATING = 3"
| "steps_left DECISION = 2"
| "steps_left AWAITING_HUMAN = 1"
| "steps_left _ = 0"

lemma advance_steps_left: "advance s t \<Longrightarrow> steps_left t < steps_left s"
  by (auto simp: advance_iff edges_def)

inductive advances :: "lead_status \<Rightarrow> nat \<Rightarrow> lead_status \<Rightarrow> bool" where
  start: "advances s 0 s"
| more: "advances s n t \<Longrightarrow> advance t u \<Longrightarrow> advances s (Suc n) u"

lemma advances_steps_left: "advances s n t \<Longrightarrow> n + steps_left t \<le> steps_left s"
  by (induction rule: advances.induct) (auto dest: advance_steps_left)

definition reachable_statuses :: "lead_status set" where
  "reachable_statuses =
     {NEW, SCORING, FETCHING_EVIDENCE, INTEGRATING, DECISION, AUTO_ROUTED, AWAITING_HUMAN,
      SYNCED, MANUAL_REVIEW}"

lemma advance_reachable: "advance s t \<Longrightarrow> s \<in> reachable_statuses \<Longrightarrow> t \<in> reachable_statuses"
  by (auto simp: advance_iff edges_def reachable_statuses_def)

lemma advances_reachable:
  "advances s n t \<Longrightarrow> s \<in> reachable_statuses \<Longrightarrow> t \<in> reachable_statuses"
  by (induction rule: advances.induct) (auto intro: advance_reachable)

lemma NEW_reachable [simp]: "NEW \<in> reachable_statuses"
  by (simp add: reachable_statuses_def)

lemma advances_NEW_resting:
  assumes "advances NEW n t" and "\<nexists>u. advance t u"
  shows "t \<in> FINALIZED"
proof -
  from assms(1) NEW_reachable have "t \<in> reachable_statuses" by (rule advances_reachable)
  with assms(2) show ?thesis
    by (auto simp: reachable_statuses_def advance_iff edges_def FINALIZED_def QUALIFIED_def
        REJECTED_def)
qed

text \<open>
  C12. A lead that the state graph drives from NEW moves at most six times, never leaves the
  nine states of the graph, and where no move is left it is finalized (qualified or
  rejected): the graph has no cycle and no dead end short of a business outcome.
\<close>

theorem lead_run_terminates:
  assumes "advances NEW n t"
  shows "n \<le> 6 \<and> t \<in> reachable_statuses \<and> ((\<nexists>u. advance t u) \<longrightarrow> t \<in> FINALIZED)"
  using advances_steps_left [OF assms] advances_reachable [OF assms NEW_reachable] advances_NEW_resting [OF assms]
  by simp

theorem lead_run_terminates_witness:
  "advances NEW 5 SYNCED \<and> (5::nat) \<le> 6 \<and> SYNCED \<in> reachable_statuses \<and> SYNCED \<in> FINALIZED"
proof -
  have e: "advance NEW SCORING" "advance SCORING FETCHING_EVIDENCE"
    "advance FETCHING_EVIDENCE INTEGRATING" "advance INTEGRATING DECISION" "advance DECISION SYNCED"
    by (simp_all add: advance_iff edges_def)
  have "advances NEW (Suc (Suc (Suc (Suc (Suc 0))))) SYNCED"
    using advances.more [OF advances.more [OF advances.more [OF advances.more [OF advances.more
      [OF advances.start e(1)] e(2)] e(3)] e(4)] e(5)] .
  then have run: "advances NEW 5 SYNCED"
    by (simp add: eval_nat_numeral)
  have "\<nexists>u. advance SYNCED u"
    by (simp add: advance_iff edges_def)
  with lead_run_terminates [OF run] run show ?thesis by simp
qed

subsection \<open>The lead table\<close>

record lead_row =
  status :: lead_status
  version :: int
  organization_id :: uuid
  updated_at :: instant

type_synonym payload = "(string \<times> pyval) list"

record lead_event =
  le_lead_id :: uuid
  le_type :: string
  le_payload :: payload

record db =
  clock :: instant
  leads :: "uuid \<Rightarrow> lead_row option"
  lead_events :: "lead_event list"

text \<open>
  \<open>UPDATE leads SET status, version + 1, updated_at WHERE lead_id AND version RETURNING
  version\<close>: no row comes back when the lead is missing or at another version.
\<close>

definition update_lead_status ::
  "uuid \<Rightarrow> int \<Rightarrow> lead_status \<Rightarrow> 'a db_scheme \<Rightarrow> ('a db_scheme \<times> int) option" where
  "update_lead_status lead_id expected s d =
     (case leads d lead_id of
        None \<Rightarrow> None
      | Some row \<Rightarrow>
          if version row = expected
          then Some (d\<lparr>leads := (leads d)(lead_id \<mapsto>
                 row\<lparr>status := s, version := version row + 1, updated_at := clock d\<rparr>)\<rparr>,
               version row + 1)
          else None)"

definition insert_lead_event :: "uuid \<Rightarrow> string \<Rightarrow> payload \<Rightarrow> 'a db_scheme \<Rightarrow> 'a db_scheme" where
  "insert_lead_event lead_id event_type pl d =
     d\<lparr>lead_events := lead_events d @
         [\<lparr>le_lead_id = lead_id, le_type = event_type, le_payload = pl\<rparr>]\<rparr>"

definition apply_transition ::
  "uuid \<Rightarrow> int \<Rightarrow> lead_status \<Rightarrow> string \<Rightarrow> payload \<Rightarrow> 'a db_scheme
     \<Rightarrow> error + 'a db_scheme \<times> int" where
  "apply_transition lead_id expected s event_type pl d =
     (case update_lead_status lead_id expected s d of
        None \<Rightarrow> Inl (OptimisticConcurrencyError lead_id expected)
      | Some (d', v) \<Rightarrow> Inr (insert_lead_event lead_id event_type pl d', v))"

definition lead_version :: "'a db_scheme \<Rightarrow> uuid \<Rightarrow> int option" where
  "lead_version d lead_id = map_option version (leads d lead_id)"

definition lead_status_of :: "'a db_scheme \<Rightarrow> uuid \<Rightarrow> lead_status option" where
  "lead_status_of d lead_id = map_option status (leads d lead_id)"

lemma apply_transition_ok [transition_simps]:
  "apply_transition i v s ty pl d = Inr (d', v') \<longleftrightarrow>
     (\<exists>row. leads d i = Some row \<and> version row = v \<and> v' = v + 1 \<and>
        d' = d\<lparr>leads := (leads d)(i \<mapsto> row\<lparr>status := s, version := v + 1, updated_at := clock d\<rparr>),
               lead_events := lead_events d @ [\<lparr>le_lead_id = i, le_type = ty, le_payload = pl\<rparr>]\<rparr>)"
  by (auto simp: apply_transition_def update_lead_status_def insert_lead_event_def
      split: option.splits if_splits)

lemma apply_transition_stale [transition_simps]:
  "apply_transition i v s ty pl d = Inl e \<longleftrightarrow>
     lead_version d i \<noteq> Some v \<and> e = OptimisticConcurrencyError i v"
  by (auto simp: apply_transition_def update_lead_status_def insert_lead_event_def lead_version_def
      split: option.splits if_splits)

subsection \<open>Optimistic concurrency as an interface\<close>

text \<open>
  A store whose writes carry the version their caller read. Every writer of a lead relies on
  these three laws: a write at the current version succeeds and moves the version by one, a
  write at any other version fails, and nobody else's row moves.
\<close>

locale versioned_store =
  fixes version_in :: "'s \<Rightarrow> 'k \<Rightarrow> int option"
    and store_at :: "'k \<Rightarrow> int \<Rightarrow> 'c \<Rightarrow> 's \<Rightarrow> 'e + 's \<times> int"
  assumes write_current:
      "version_in s k = Some v \<Longrightarrow> \<exists>s'. store_at k v c s = Inr (s', v + 1) \<and> version_in s' k = Some (v + 1)"
    and write_stale: "version_in s k \<noteq> Some v \<Longrightarrow> \<exists>e. store_at k v c s = Inl e"
    and write_frame: "store_at k v c s = Inr (s', v') \<Longrightarrow> j \<noteq> k \<Longrightarrow> version_in s' j = version_in s j"
begin

lemma write_Inr_version:
  assumes "store_at k v c s = Inr (s', v')"
  shows "version_in s k = Some v \<and> v' = v + 1 \<and> version_in s' k = Some (v + 1)"
proof -
  have cur: "version_in s k = Some v"
    using assms write_stale [of s k v c] by force
  with write_current [OF cur, of c] assms show ?thesis by auto
qed

lemma one_writer_wins:
  assumes "store_at k v c s = Inr (s', v')"
  shows "\<exists>e. store_at k v c' s' = Inl e"
  by (rule write_stale) (use write_Inr_version [OF assms] in auto)

lemma second_writer_reads_again:
  assumes "store_at k v c s = Inr (s', v')"
  shows "\<exists>s''. store_at k v' c' s' = Inr (s'', v' + 1)"
  using write_Inr_version [OF assms] write_current [of s' k v' c'] by auto

end

interpretation lead_store: versioned_store
  lead_version "\<lambda>i v (s, ty, pl). apply_transition i v s ty pl"
proof
  fix d :: "'a db_scheme" and i v and c :: "lead_status \<times> string \<times> payload"
  assume cur: "lead_version d i = Some v"
  then obtain row where row: "leads d i = Some row" "version row = v"
    by (auto simp: lead_version_def)
  then show "\<exists>d'. (case c of (s, ty, pl) \<Rightarrow> apply_transition i v s ty pl) d = Inr (d', v + 1)
      \<and> lead_version d' i = Some (v + 1)"
    by (cases c) (auto simp: transition_simps lead_version_def)
next
  fix d :: "'a db_scheme" and i v and c :: "lead_status \<times> string \<times> payload"
  assume "lead_version d i \<noteq> Some v"
  then show "\<exists>e. (case c of (s, ty, pl) \<Rightarrow> apply_transition i v s ty pl) d = Inl e"
    by (cases c) (auto simp: transition_simps)
next
  fix d d' :: "'a db_scheme" and i j v v' and c :: "lead_status \<times> string \<times> payload"
  assume "(case c of (s, ty, pl) \<Rightarrow> apply_transition i v s ty pl) d = Inr (d', v')" "j \<noteq> i"
  then show "lead_version d' j = lead_version d j"
    by (cases c) (auto simp: transition_simps lead_version_def)
qed

text \<open>
  C10. Of two writers that both read a lead at the same version, the one that commits second
  is refused with OptimisticConcurrencyError, whatever status either wants to write; after
  re-reading the version it succeeds. A successful transition appends exactly one event, and
  moves no other lead.
\<close>

theorem transition_single_winner:
  assumes "apply_transition i v s ty pl d = Inr (d', v')"
  shows "apply_transition i v s2 ty2 pl2 d' = Inl (OptimisticConcurrencyError i v)
    \<and> (\<exists>d2. apply_transition i v' s2 ty2 pl2 d' = Inr (d2, v' + 1))
    \<and> v' = v + 1 \<and> lead_status_of d' i = Some s
    \<and> lead_events d' = lead_events d @ [\<lparr>le_lead_id = i, le_type = ty, le_payload = pl\<rparr>]
    \<and> (\<forall>j. j \<noteq> i \<longrightarrow> leads d' j = leads d j)"
proof -
  have w: "(case (s, ty, pl) of (s, ty, pl) \<Rightarrow> apply_transition i v s ty pl) d = Inr (d', v')"
    using assms by simp
  have "\<exists>e. apply_transition i v s2 ty2 pl2 d' = Inl e"
    using lead_store.one_writer_wins [OF w, of "(s2, ty2, pl2)"] by simp
  then have "apply_transition i v s2 ty2 pl2 d' = Inl (OptimisticConcurrencyError i v)"
    by (auto simp: apply_transition_stale)
  moreover have "\<exists>d2. apply_transition i v' s2 ty2 pl2 d' = Inr (d2, v' + 1)"
    using lead_store.second_writer_reads_again [OF w, of "(s2, ty2, pl2)"] by simp
  ultimately show ?thesis
    using assms by (auto simp: apply_transition_ok lead_status_of_def)
qed

definition demo_db :: db where
  "demo_db = \<lparr>clock = 100, leads = [7 \<mapsto> \<lparr>status = NEW, version = 1, organization_id = 3,
     updated_at = 0\<rparr>], lead_events = []\<rparr>"

theorem transition_single_winner_witness:
  "\<exists>d'. apply_transition 7 1 SCORING ''job:x'' [] demo_db = Inr (d', 2)
     \<and> apply_transition 7 1 DEAD_LETTER ''y'' [] d' = Inl (OptimisticConcurrencyError 7 1)"
proof -
  have "\<exists>d'. apply_transition 7 1 SCORING ''job:x'' [] demo_db = Inr (d', 2)"
    by (simp add: apply_transition_ok demo_db_def)
  then obtain d' where d': "apply_transition 7 1 SCORING ''job:x'' [] demo_db = Inr (d', 2)" ..
  with transition_single_winner [OF d', of DEAD_LETTER "''y''" "[]"] show ?thesis by blast
qed

end
