(* ===== verification/Job_Queue.thy ===== *)
theory Job_Queue
  imports State_Machine
begin

text \<open>
  \<open>arie.jobs.queue\<close> and \<open>arie.jobs.backoff\<close>: the job table and the four operations on it,
  each SQL statement a function on the list of rows. \<open>clock\<close> is the transaction's \<open>now()\<close>;
  the code also reads the worker's own clock, \<open>py_now\<close> here. \<open>skip\<close> holds the rows
  that \<open>FOR UPDATE SKIP LOCKED\<close> passes over because another open transaction has locked
  them, and a fresh UUID or a random draw is an argument.
\<close>

subsection \<open>Retry backoff\<close>

definition DEFAULT_BASE_SECONDS :: real where
  "DEFAULT_BASE_SECONDS = 2"

definition DEFAULT_CAP_SECONDS :: real where
  "DEFAULT_CAP_SECONDS = 300"

definition backoff_cap :: "int \<Rightarrow> real \<Rightarrow> real \<Rightarrow> error + real" where
  "backoff_cap attempt base_seconds cap_seconds =
     (if attempt < 1 then Inl ValueError
      else Inr (min cap_seconds (base_seconds * 2 ^ nat (attempt - 1))))"

text \<open>\<open>random.uniform(0.0, cap)\<close> is \<open>0.0 + (cap - 0.0) * u\<close> for the draw \<open>u\<close> of
  \<open>random()\<close>, which lies in the half-open unit interval.\<close>

definition compute_backoff :: "int \<Rightarrow> real \<Rightarrow> real \<Rightarrow> real \<Rightarrow> error + real" where
  "compute_backoff attempt base_seconds cap_seconds u =
     sum_bind (backoff_cap attempt base_seconds cap_seconds) (\<lambda>cap. Inr (0 + (cap - 0) * u))"

lemma backoff_cap_ok: "1 \<le> attempt \<Longrightarrow> \<exists>c. backoff_cap attempt b m = Inr c \<and> c \<le> m"
  by (simp add: backoff_cap_def)

subsection \<open>The job table\<close>

datatype job_status = PENDING | PROCESSING | DONE | JOB_FAILED | JOB_DEAD_LETTER

record job_row =
  jb_id :: uuid
  jb_lead_id :: "uuid option"
  jb_type :: string
  jb_status :: job_status
  jb_attempts :: int
  jb_next_retry :: instant
  jb_locked_by :: "string option"
  jb_locked_at :: "instant option"
  jb_last_error :: "string option"
  jb_key :: "string option"
  jb_trace :: "(string \<times> string) list option"

record queue_db = db +
  jobs :: "job_row list"

record enqueued_job =
  ej_job_id :: uuid
  ej_created :: bool
  ej_requeued :: bool

record claimed_job =
  cj_job_id :: uuid
  cj_lead_id :: "uuid option"
  cj_job_type :: string
  cj_attempt_count :: int
  cj_key :: "string option"
  cj_trace :: "(string \<times> string) list option"

record fail_outcome =
  fo_status :: job_status
  fo_next_retry_at :: "instant option"
  fo_attempt_count :: int

subsection \<open>Enqueue\<close>

definition same_key :: "string option \<Rightarrow> job_row \<Rightarrow> bool" where
  "same_key key r \<longleftrightarrow> key \<noteq> None \<and> jb_key r = key"

text \<open>The \<open>DO UPDATE\<close> branch: a dead-lettered row starts over, any other is kept.\<close>

definition requeue_row :: "instant \<Rightarrow> job_row \<Rightarrow> job_row" where
  "requeue_row now r =
     (if jb_status r = JOB_DEAD_LETTER
      then r\<lparr>jb_status := PENDING, jb_attempts := 0, jb_next_retry := now, jb_locked_by := None,
             jb_locked_at := None\<rparr>
      else r)"

definition new_job ::
  "uuid \<Rightarrow> uuid option \<Rightarrow> string \<Rightarrow> string option \<Rightarrow> (string \<times> string) list option \<Rightarrow> instant \<Rightarrow> job_row" where
  "new_job job_id lead_id job_type key trace now =
     \<lparr>jb_id = job_id, jb_lead_id = lead_id, jb_type = job_type, jb_status = PENDING, jb_attempts = 0,
      jb_next_retry = now, jb_locked_by = None, jb_locked_at = None, jb_last_error = None,
      jb_key = key, jb_trace = trace\<rparr>"

text \<open>An empty trace dictionary is stored as NULL.\<close>

definition stored_trace :: "(string \<times> string) list option \<Rightarrow> (string \<times> string) list option" where
  "stored_trace t = (if t = Some [] then None else t)"

definition enqueue_in ::
  "uuid \<Rightarrow> uuid option \<Rightarrow> string \<Rightarrow> string option \<Rightarrow> (string \<times> string) list option
     \<Rightarrow> 'a queue_db_scheme \<Rightarrow> 'a queue_db_scheme \<times> enqueued_job" where
  "enqueue_in fresh lead_id job_type key trace d =
     (case find (same_key key) (jobs d) of
        None \<Rightarrow>
          (d\<lparr>jobs := jobs d @ [new_job fresh lead_id job_type key (stored_trace trace) (clock d)]\<rparr>,
           \<lparr>ej_job_id = fresh, ej_created = True, ej_requeued = False\<rparr>)
      | Some r \<Rightarrow>
          (d\<lparr>jobs := map (\<lambda>x. if same_key key x then requeue_row (clock d) x else x) (jobs d)\<rparr>,
           \<lparr>ej_job_id = jb_id r, ej_created = False, ej_requeued = (jb_status r = JOB_DEAD_LETTER)\<rparr>))"

subsection \<open>Claim\<close>

definition lease_expired :: "instant \<Rightarrow> job_row \<Rightarrow> bool" where
  "lease_expired cutoff r \<longleftrightarrow>
     jb_status r = PROCESSING \<and> (\<exists>t. jb_locked_at r = Some t \<and> t < cutoff)"

lemma lease_expired_code [code]:
  "lease_expired cutoff r \<longleftrightarrow>
     jb_status r = PROCESSING \<and> (case jb_locked_at r of None \<Rightarrow> False | Some t \<Rightarrow> t < cutoff)"
  by (auto simp: lease_expired_def split: option.splits)

definition LEASE_EXPIRED_ERROR :: string where
  "LEASE_EXPIRED_ERROR =
     ''lease expired: worker did not report completion within the lease window''"

definition reclaim_row :: "int \<Rightarrow> instant \<Rightarrow> instant \<Rightarrow> job_row \<Rightarrow> job_row" where
  "reclaim_row max_attempts cutoff now r =
     (if lease_expired cutoff r
      then r\<lparr>jb_status := (if jb_attempts r + 1 \<ge> max_attempts then JOB_DEAD_LETTER else PENDING),
             jb_attempts := jb_attempts r + 1, jb_next_retry := now, jb_locked_by := None,
             jb_locked_at := None, jb_last_error := Some LEASE_EXPIRED_ERROR\<rparr>
      else r)"

definition claimable :: "string list option \<Rightarrow> uuid set \<Rightarrow> instant \<Rightarrow> job_row \<Rightarrow> bool" where
  "claimable job_types skip now r \<longleftrightarrow>
     jb_status r = PENDING \<and> jb_next_retry r \<le> now
     \<and> (case job_types of None \<Rightarrow> True | Some ts \<Rightarrow> jb_type r \<in> set ts) \<and> jb_id r \<notin> skip"

definition claim_select :: "string list option \<Rightarrow> nat \<Rightarrow> uuid set \<Rightarrow> instant \<Rightarrow> job_row list \<Rightarrow> job_row list" where
  "claim_select job_types limit skip now rows =
     take limit (sort_key jb_next_retry (filter (claimable job_types skip now) rows))"

definition claim_update :: "string \<Rightarrow> uuid list \<Rightarrow> instant \<Rightarrow> job_row \<Rightarrow> job_row" where
  "claim_update worker_id ids now r =
     (if jb_id r \<in> set ids
      then r\<lparr>jb_status := PROCESSING, jb_locked_by := Some worker_id, jb_locked_at := Some now\<rparr>
      else r)"

definition claimed_of :: "job_row \<Rightarrow> claimed_job" where
  "claimed_of r =
     \<lparr>cj_job_id = jb_id r, cj_lead_id = jb_lead_id r, cj_job_type = jb_type r,
      cj_attempt_count = jb_attempts r, cj_key = jb_key r, cj_trace = jb_trace r\<rparr>"

record claim_request =
  cr_worker_id :: string
  cr_job_types :: "string list option"
  cr_limit :: nat
  cr_lease_seconds :: real
  cr_max_attempts :: int

definition claim ::
  "claim_request \<Rightarrow> instant \<Rightarrow> uuid set \<Rightarrow> 'a queue_db_scheme \<Rightarrow> 'a queue_db_scheme \<times> claimed_job list" where
  "claim q py_now skip d =
     (let cutoff = py_now - cr_lease_seconds q;
          reclaimed = map (reclaim_row (cr_max_attempts q) cutoff (clock d)) (jobs d);
          rows = claim_select (cr_job_types q) (cr_limit q) skip (clock d) reclaimed
      in (d\<lparr>jobs := map (claim_update (cr_worker_id q) (map jb_id rows) (clock d)) reclaimed\<rparr>,
          map claimed_of rows))"

subsection \<open>Complete and fail\<close>

definition holds_lease :: "string \<Rightarrow> uuid \<Rightarrow> job_row \<Rightarrow> bool" where
  "holds_lease worker_id job_id r \<longleftrightarrow>
     jb_id r = job_id \<and> jb_status r = PROCESSING \<and> jb_locked_by r = Some worker_id"

definition update_job :: "(job_row \<Rightarrow> bool) \<Rightarrow> (job_row \<Rightarrow> job_row) \<Rightarrow> job_row list \<Rightarrow> job_row list" where
  "update_job P f rows = map (\<lambda>r. if P r then f r else r) rows"

definition complete_job ::
  "string \<Rightarrow> uuid \<Rightarrow> 'a queue_db_scheme \<Rightarrow> error + 'a queue_db_scheme" where
  "complete_job worker_id job_id d =
     (if filter (holds_lease worker_id job_id) (jobs d) = []
      then Inl (JobOwnershipError job_id worker_id)
      else Inr (d\<lparr>jobs := update_job (holds_lease worker_id job_id) (jb_status_update (\<lambda>_. DONE)) (jobs d)\<rparr>))"

definition fail_job ::
  "string \<Rightarrow> uuid \<Rightarrow> string \<Rightarrow> int \<Rightarrow> instant \<Rightarrow> real \<Rightarrow> 'a queue_db_scheme
     \<Rightarrow> error + 'a queue_db_scheme \<times> fail_outcome" where
  "fail_job worker_id job_id error max_attempts py_now u d =
     (case filter (holds_lease worker_id job_id) (jobs d) of
        [] \<Rightarrow> Inl (JobOwnershipError job_id worker_id)
      | row # _ \<Rightarrow>
          (let attempt_count = jb_attempts row + 1
           in if attempt_count \<ge> max_attempts
              then Inr (d\<lparr>jobs := update_job (holds_lease worker_id job_id)
                       (\<lambda>r. r\<lparr>jb_status := JOB_DEAD_LETTER, jb_attempts := attempt_count,
                                jb_last_error := Some error\<rparr>) (jobs d)\<rparr>,
                     \<lparr>fo_status = JOB_DEAD_LETTER, fo_next_retry_at = None,
                      fo_attempt_count = attempt_count\<rparr>)
              else sum_bind (compute_backoff attempt_count DEFAULT_BASE_SECONDS DEFAULT_CAP_SECONDS u)
                (\<lambda>delay. let next_retry_at = py_now + delay
                  in Inr (d\<lparr>jobs := update_job (holds_lease worker_id job_id)
                       (\<lambda>r. r\<lparr>jb_status := PENDING, jb_attempts := attempt_count,
                                jb_next_retry := next_retry_at, jb_last_error := Some error,
                                jb_locked_by := None, jb_locked_at := None\<rparr>) (jobs d)\<rparr>,
                     \<lparr>fo_status = PENDING, fo_next_retry_at = Some next_retry_at,
                      fo_attempt_count = attempt_count\<rparr>))))"

subsection \<open>The invariant of the job table\<close>

definition row_ok :: "int \<Rightarrow> job_row \<Rightarrow> bool" where
  "row_ok M r \<longleftrightarrow>
     0 \<le> jb_attempts r
     \<and> (jb_status r = PROCESSING \<longrightarrow> jb_locked_by r \<noteq> None \<and> jb_locked_at r \<noteq> None)
     \<and> (jb_status r = PENDING \<longrightarrow> jb_locked_by r = None \<and> jb_locked_at r = None)
     \<and> (jb_status r = PENDING \<or> jb_status r = PROCESSING \<longrightarrow> jb_attempts r < M)"

definition keys_of :: "job_row list \<Rightarrow> string list" where
  "keys_of rows = List.map_filter jb_key rows"

text \<open>Unique ids, unique idempotency keys (NULLs apart), and every row within its budget.\<close>

definition jobs_ok :: "int \<Rightarrow> job_row list \<Rightarrow> bool" where
  "jobs_ok M rows \<longleftrightarrow>
     distinct (map jb_id rows) \<and> distinct (keys_of rows) \<and> (\<forall>r \<in> set rows. row_ok M r)"

lemma keys_of_simps [simp]:
  "keys_of [] = []"
  "keys_of (r # rows) = (case jb_key r of None \<Rightarrow> keys_of rows | Some k \<Rightarrow> k # keys_of rows)"
  "keys_of (rows @ rows') = keys_of rows @ keys_of rows'"
  by (simp_all add: keys_of_def List.map_filter_def split: option.splits)

lemma keys_of_map: "(\<And>r. jb_key (f r) = jb_key r) \<Longrightarrow> keys_of (map f rows) = keys_of rows"
  by (induction rows) (simp_all split: option.splits)

lemma in_keys_of: "k \<in> set (keys_of rows) \<longleftrightarrow> (\<exists>r \<in> set rows. jb_key r = Some k)"
  by (induction rows) (auto split: option.splits)

lemma jobs_ok_map:
  assumes "jobs_ok M rows" and "\<And>r. jb_id (f r) = jb_id r" and "\<And>r. jb_key (f r) = jb_key r"
    and "\<And>r. r \<in> set rows \<Longrightarrow> row_ok M r \<Longrightarrow> row_ok M (f r)"
  shows "jobs_ok M (map f rows)"
  using assms by (auto simp: jobs_ok_def keys_of_map comp_def)

lemma jobs_ok_same_row:
  assumes "jobs_ok M rows" and "r \<in> set rows" and "r' \<in> set rows" and "jb_id r = jb_id r'"
  shows "r = r'"
  using assms by (auto simp: jobs_ok_def distinct_map dest: inj_onD)

lemma jobs_ok_same_key:
  assumes "jobs_ok M rows" and "r \<in> set rows" and "r' \<in> set rows" and "jb_key r = Some k" and "jb_key r' = Some k"
  shows "r = r'"
proof -
  have "distinct (keys_of rows) \<Longrightarrow> r \<in> set rows \<Longrightarrow> r' \<in> set rows \<Longrightarrow> r = r'"
    using assms(4,5) by (induction rows) (auto simp: in_keys_of split: option.splits if_splits)
  with assms(1-3) show ?thesis by (simp add: jobs_ok_def)
qed

lemma requeue_row_ok: "0 < M \<Longrightarrow> row_ok M r \<Longrightarrow> row_ok M (requeue_row now r)"
  by (auto simp: requeue_row_def row_ok_def)

lemma enqueue_ok:
  assumes "jobs_ok M (jobs d)" and "0 < M" and "fresh \<notin> jb_id ` set (jobs d)"
    and "enqueue_in fresh lead_id job_type key trace d = (d', e)"
  shows "jobs_ok M (jobs d')"
proof (cases "find (same_key key) (jobs d)")
  case None
  then have "\<forall>r \<in> set (jobs d). \<not> same_key key r" by (auto simp: find_None_iff)
  with None assms show ?thesis
    by (auto simp: enqueue_in_def jobs_ok_def new_job_def row_ok_def in_keys_of same_key_def
        split: option.splits)
next
  case (Some r)
  have "jobs_ok M (map (\<lambda>x. if same_key key x then requeue_row (clock d) x else x) (jobs d))"
    by (rule jobs_ok_map [OF assms(1)])
      (auto intro: requeue_row_ok assms(2), auto simp: requeue_row_def)
  with Some assms(4) show ?thesis by (auto simp: enqueue_in_def)
qed

lemma reclaim_row_ok: "row_ok M r \<Longrightarrow> row_ok M (reclaim_row M cutoff now r)"
  by (auto simp: reclaim_row_def row_ok_def lease_expired_def)

lemma claim_select_claimable:
  "r \<in> set (claim_select ts n skip now rows) \<Longrightarrow> r \<in> set rows \<and> claimable ts skip now r"
  by (auto simp: claim_select_def dest: in_set_takeD)

lemma claim_ok:
  assumes "jobs_ok M (jobs d)" and "cr_max_attempts q = M" and "claim q py_now skip d = (d', cs)"
  shows "jobs_ok M (jobs d')"
proof -
  let ?re = "map (reclaim_row M (py_now - cr_lease_seconds q) (clock d)) (jobs d)"
  let ?rows = "claim_select (cr_job_types q) (cr_limit q) skip (clock d) ?re"
  have re: "jobs_ok M ?re"
    by (rule jobs_ok_map [OF assms(1)]) (auto intro: reclaim_row_ok, auto simp: reclaim_row_def)
  have "jobs_ok M (map (claim_update (cr_worker_id q) (map jb_id ?rows) (clock d)) ?re)"
  proof (rule jobs_ok_map [OF re])
    fix r assume r: "r \<in> set ?re" and ok: "row_ok M r"
    have "jb_status r = PENDING" if "jb_id r \<in> set (map jb_id ?rows)"
    proof -
      from that obtain r' where "r' \<in> set ?rows" "jb_id r' = jb_id r" by auto
      with claim_select_claimable jobs_ok_same_row [OF re r, of r'] show ?thesis
        by (fastforce simp: claimable_def)
    qed
    with ok show "row_ok M (claim_update (cr_worker_id q) (map jb_id ?rows) (clock d) r)"
      by (auto simp: claim_update_def row_ok_def)
  qed (simp_all add: claim_update_def)
  with assms(2,3) show ?thesis by (auto simp: claim_def Let_def)
qed

lemma complete_ok:
  assumes "jobs_ok M (jobs d)" and "complete_job w j d = Inr d'"
  shows "jobs_ok M (jobs d')"
proof -
  have "jobs_ok M (update_job (holds_lease w j) (jb_status_update (\<lambda>_. DONE)) (jobs d))"
    unfolding update_job_def
    by (rule jobs_ok_map [OF assms(1)]) (auto simp: row_ok_def)
  with assms(2) show ?thesis by (auto simp: complete_job_def split: if_splits)
qed

lemma fail_job_Inr:
  assumes "fail_job w j err M py_now u d = Inr (d', out)"
  obtains row delay where "row \<in> set (jobs d)" "holds_lease w j row"
    "fo_attempt_count out = jb_attempts row + 1"
    "jobs d' = update_job (holds_lease w j) (\<lambda>r. if jb_attempts row + 1 \<ge> M
       then r\<lparr>jb_status := JOB_DEAD_LETTER, jb_attempts := jb_attempts row + 1,
                jb_last_error := Some err\<rparr>
       else r\<lparr>jb_status := PENDING, jb_attempts := jb_attempts row + 1,
                jb_next_retry := py_now + delay, jb_last_error := Some err,
                jb_locked_by := None, jb_locked_at := None\<rparr>) (jobs d)"
    "fo_status out = (if jb_attempts row + 1 \<ge> M then JOB_DEAD_LETTER else PENDING)"
    "d' = d\<lparr>jobs := jobs d'\<rparr>"
    "jb_attempts row + 1 < M \<Longrightarrow> compute_backoff (jb_attempts row + 1) DEFAULT_BASE_SECONDS
       DEFAULT_CAP_SECONDS u = Inr delay"
proof -
  obtain row rest where f: "filter (holds_lease w j) (jobs d) = row # rest"
    using assms by (auto simp: fail_job_def split: list.splits)
  have "row \<in> set (filter (holds_lease w j) (jobs d))" by (simp add: f)
  then have row: "row \<in> set (jobs d)" "holds_lease w j row" by simp_all
  show ?thesis
  proof (cases "jb_attempts row + 1 \<ge> M")
    case True
    with assms f row that [of row] show ?thesis
      by (auto simp: fail_job_def Let_def update_job_def)
  next
    case False
    then obtain delay where "compute_backoff (jb_attempts row + 1) DEFAULT_BASE_SECONDS
        DEFAULT_CAP_SECONDS u = Inr delay"
      using assms f by (auto simp: fail_job_def Let_def sum_bind_Inr)
    with assms f row False that [of row delay] show ?thesis
      by (auto simp: fail_job_def Let_def update_job_def)
  qed
qed

lemma fail_ok:
  assumes "jobs_ok M (jobs d)" and "fail_job w j err M py_now u d = Inr (d', out)"
  shows "jobs_ok M (jobs d')"
  using assms(2)
proof (rule fail_job_Inr)
  fix row delay
  assume row: "row \<in> set (jobs d)" "holds_lease w j row"
    and j: "jobs d' = update_job (holds_lease w j) (\<lambda>r. if jb_attempts row + 1 \<ge> M
       then r\<lparr>jb_status := JOB_DEAD_LETTER, jb_attempts := jb_attempts row + 1,
                jb_last_error := Some err\<rparr>
       else r\<lparr>jb_status := PENDING, jb_attempts := jb_attempts row + 1,
                jb_next_retry := py_now + delay, jb_last_error := Some err,
                jb_locked_by := None, jb_locked_at := None\<rparr>) (jobs d)"
  have "0 \<le> jb_attempts row" using assms(1) row(1) by (auto simp: jobs_ok_def row_ok_def)
  then show ?thesis
    unfolding j update_job_def
    by (intro jobs_ok_map [OF assms(1)]) (auto simp: row_ok_def)
qed

subsection \<open>Every history of the table\<close>

text \<open>One committed transaction on the job table, or the passing of time.\<close>

inductive queue_step :: "int \<Rightarrow> 'a queue_db_scheme \<Rightarrow> 'a queue_db_scheme \<Rightarrow> bool" for M where
  enqueued: "fresh \<notin> jb_id ` set (jobs d) \<Longrightarrow> enqueue_in fresh lead_id job_type key trace d = (d', e)
    \<Longrightarrow> queue_step M d d'"
| claimed: "cr_max_attempts q = M \<Longrightarrow> claim q py_now skip d = (d', cs) \<Longrightarrow> queue_step M d d'"
| completed: "complete_job w j d = Inr d' \<Longrightarrow> queue_step M d d'"
| failed: "fail_job w j err M py_now u d = Inr (d', out) \<Longrightarrow> queue_step M d d'"
| time: "clock d \<le> t \<Longrightarrow> queue_step M d (d\<lparr>clock := t\<rparr>)"

inductive queue_run :: "int \<Rightarrow> 'a queue_db_scheme \<Rightarrow> 'a queue_db_scheme \<Rightarrow> bool" for M where
  start: "queue_run M d d"
| more: "queue_run M d d' \<Longrightarrow> queue_step M d' d'' \<Longrightarrow> queue_run M d d''"

inductive_cases queue_step_cases: "queue_step M d d'"

lemma queue_step_ok: "queue_step M d d' \<Longrightarrow> 0 < M \<Longrightarrow> jobs_ok M (jobs d) \<Longrightarrow> jobs_ok M (jobs d')"
  by (induction rule: queue_step.induct) (auto intro: enqueue_ok claim_ok complete_ok fail_ok)

lemma queue_run_ok: "queue_run M d d' \<Longrightarrow> 0 < M \<Longrightarrow> jobs_ok M (jobs d) \<Longrightarrow> jobs_ok M (jobs d')"
  by (induction rule: queue_run.induct) (auto intro: queue_step_ok)


definition empty_queue :: queue_db where
  "empty_queue = \<lparr>clock = 100, leads = Map.empty, lead_events = [], jobs = []\<rparr>"


subsection \<open>Leases\<close>

definition holder :: "'a queue_db_scheme \<Rightarrow> uuid \<Rightarrow> string \<Rightarrow> bool" where
  "holder d j w \<longleftrightarrow> (\<exists>r \<in> set (jobs d). holds_lease w j r)"

text \<open>
  What a worker relies on: a job has at most one holder, the holder can report on it once, by
  finishing or abandoning it, and a report takes the lease away from nobody else.
\<close>

locale lease_queue =
  fixes inv :: "'s \<Rightarrow> bool" and holds :: "'s \<Rightarrow> 'j \<Rightarrow> 'w \<Rightarrow> bool"
    and finish :: "'w \<Rightarrow> 'j \<Rightarrow> 's \<Rightarrow> 'e + 's"
    and abandon :: "'x \<Rightarrow> 'w \<Rightarrow> 'j \<Rightarrow> 's \<Rightarrow> 'e + 's"
  assumes holder_unique: "inv s \<Longrightarrow> holds s j w \<Longrightarrow> holds s j v \<Longrightarrow> v = w"
    and finish_held: "inv s \<Longrightarrow> holds s j w \<Longrightarrow> \<exists>s'. finish w j s = Inr s'"
    and abandon_held: "inv s \<Longrightarrow> holds s j w \<Longrightarrow> \<exists>s'. abandon x w j s = Inr s'"
    and finish_fenced: "\<not> holds s j w \<Longrightarrow> \<exists>e. finish w j s = Inl e"
    and abandon_fenced: "\<not> holds s j w \<Longrightarrow> \<exists>e. abandon x w j s = Inl e"
    and finish_effect: "inv s \<Longrightarrow> finish w j s = Inr s' \<Longrightarrow>
      inv s' \<and> (\<forall>k v. holds s' k v \<longleftrightarrow> holds s k v \<and> k \<noteq> j)"
    and abandon_effect: "inv s \<Longrightarrow> abandon x w j s = Inr s' \<Longrightarrow>
      inv s' \<and> (\<forall>k v. holds s' k v \<longleftrightarrow> holds s k v \<and> k \<noteq> j)"
begin

lemma finish_iff: "inv s \<Longrightarrow> (\<exists>s'. finish w j s = Inr s') \<longleftrightarrow> holds s j w"
  using finish_held finish_fenced by (metis sum.distinct(1))

lemma abandon_iff: "inv s \<Longrightarrow> (\<exists>s'. abandon x w j s = Inr s') \<longleftrightarrow> holds s j w"
  using abandon_held abandon_fenced by (metis sum.distinct(1))

lemma report_once:
  assumes "inv s" and "finish w j s = Inr s' \<or> abandon x w j s = Inr s'"
  shows "\<exists>e. finish v j s' = Inl e" and "\<exists>e. abandon y v j s' = Inl e"
  using assms finish_effect abandon_effect finish_fenced abandon_fenced by metis+

lemma others_can_report:
  assumes "inv s" and "finish w j s = Inr s' \<or> abandon x w j s = Inr s'"
    and "holds s k v" and "k \<noteq> j"
  shows "\<exists>s''. finish v k s' = Inr s''" and "\<exists>s''. abandon y v k s' = Inr s''"
  using assms finish_effect abandon_effect finish_held abandon_held by metis+

lemma intruder_fenced:
  assumes "inv s" and "holds s j w" and "v \<noteq> w"
  shows "\<exists>e. finish v j s = Inl e" and "\<exists>e. abandon x v j s = Inl e"
  using assms holder_unique finish_fenced abandon_fenced by metis+

end

definition abandon_job ::
  "string \<times> int \<times> instant \<times> real \<Rightarrow> string \<Rightarrow> uuid \<Rightarrow> 'a queue_db_scheme \<Rightarrow> error + 'a queue_db_scheme" where
  "abandon_job x w j d =
     (case x of (err, M, py_now, u) \<Rightarrow> sum_bind (fail_job w j err M py_now u d) (\<lambda>(d', _). Inr d'))"

lemma holder_fold: "filter (holds_lease w j) (jobs d) = [] \<longleftrightarrow> \<not> holder d j w"
  by (auto simp: holder_def filter_empty_conv)

lemma holder_after_update:
  assumes "jobs_ok M (jobs d)" and "holder d j w"
    and "\<And>r. jb_id (f r) = jb_id r" and "\<And>r. jb_status (f r) \<noteq> PROCESSING"
    and "jobs d' = update_job (holds_lease w j) f (jobs d)"
  shows "holder d' k v \<longleftrightarrow> holder d k v \<and> k \<noteq> j"
proof -
  from assms(2) obtain row where row: "row \<in> set (jobs d)" "holds_lease w j row"
    by (auto simp: holder_def)
  have same: "r = row" if "r \<in> set (jobs d)" "jb_id r = j" for r
    using jobs_ok_same_row [OF assms(1) that(1) row(1)] that(2) row(2) by (simp add: holds_lease_def)
  have "holder d' k v \<longleftrightarrow> (\<exists>r \<in> set (jobs d). holds_lease v k r \<and> \<not> holds_lease w j r)"
    using assms(3,4) unfolding holder_def assms(5) update_job_def
    by (auto simp: holds_lease_def)
  also have "\<dots> \<longleftrightarrow> holder d k v \<and> k \<noteq> j"
    using same row unfolding holder_def holds_lease_def by (metis (full_types))
  finally show ?thesis .
qed

lemma complete_holder:
  "complete_job w j d = Inr d' \<longleftrightarrow> holder d j w
     \<and> d' = d\<lparr>jobs := update_job (holds_lease w j) (jb_status_update (\<lambda>_. DONE)) (jobs d)\<rparr>"
  by (auto simp: complete_job_def holder_fold)

lemma fail_fenced: "\<not> holder d j w \<Longrightarrow> fail_job w j err M py_now u d = Inl (JobOwnershipError j w)"
  by (simp add: fail_job_def flip: holder_fold)

lemma fail_held:
  assumes "jobs_ok M (jobs d)" and "holder d j w"
  shows "\<exists>d' out. fail_job w j err M' py_now u d = Inr (d', out)"
proof -
  obtain row rest where f: "filter (holds_lease w j) (jobs d) = row # rest"
    using assms(2) holder_fold by (metis list.exhaust)
  then have "row \<in> set (filter (holds_lease w j) (jobs d))" by simp
  then have "0 \<le> jb_attempts row" using assms(1) by (auto simp: jobs_ok_def row_ok_def)
  then have "\<exists>delay. compute_backoff (jb_attempts row + 1) DEFAULT_BASE_SECONDS
      DEFAULT_CAP_SECONDS u = Inr delay"
    by (simp add: compute_backoff_def backoff_cap_def)
  with f show ?thesis by (auto simp: fail_job_def Let_def)
qed

lemma fail_holder_effect:
  assumes "jobs_ok M (jobs d)" and "fail_job w j err M' py_now u d = Inr (d', out)"
  shows "holder d' k v \<longleftrightarrow> holder d k v \<and> k \<noteq> j"
  using assms(2)
proof (rule fail_job_Inr)
  fix row delay
  assume "row \<in> set (jobs d)" "holds_lease w j row"
  then have "holder d j w" by (auto simp: holder_def)
  moreover assume "jobs d' = update_job (holds_lease w j) (\<lambda>r. if jb_attempts row + 1 \<ge> M'
       then r\<lparr>jb_status := JOB_DEAD_LETTER, jb_attempts := jb_attempts row + 1,
                jb_last_error := Some err\<rparr>
       else r\<lparr>jb_status := PENDING, jb_attempts := jb_attempts row + 1,
                jb_next_retry := py_now + delay, jb_last_error := Some err,
                jb_locked_by := None, jb_locked_at := None\<rparr>) (jobs d)"
  ultimately show ?thesis
    by (intro holder_after_update [OF assms(1)]) (auto split: if_splits)
qed

interpretation jq: lease_queue "\<lambda>d :: 'a queue_db_scheme. jobs_ok M (jobs d)" holder complete_job
  "\<lambda>(err, py_now, u). abandon_job (err, M, py_now, u)" for M
proof
  fix d d' :: "'a queue_db_scheme" and j w v and x :: "string \<times> instant \<times> real"
  obtain err py_now u where x: "x = (err, py_now, u)" by (metis prod.exhaust)
  show "holder d j w \<Longrightarrow> holder d j v \<Longrightarrow> v = w" if "jobs_ok M (jobs d)"
    using that jobs_ok_same_row by (fastforce simp: holder_def holds_lease_def)
  show "\<exists>d'. complete_job w j d = Inr d'" if "holder d j w"
    using that by (simp add: complete_holder)
  show "\<exists>d'. (case x of (err, py_now, u) \<Rightarrow> abandon_job (err, M, py_now, u)) w j d = Inr d'"
    if "jobs_ok M (jobs d)" "holder d j w"
    using fail_held [OF that] by (auto simp: x abandon_job_def sum_bind_Inr)
  show "\<exists>e. complete_job w j d = Inl e" if "\<not> holder d j w"
    using that by (simp add: complete_job_def holder_fold)
  show "\<exists>e. (case x of (err, py_now, u) \<Rightarrow> abandon_job (err, M, py_now, u)) w j d = Inl e"
    if "\<not> holder d j w"
    using that by (simp add: x abandon_job_def fail_fenced)
  show "jobs_ok M (jobs d') \<and> (\<forall>k v. holder d' k v \<longleftrightarrow> holder d k v \<and> k \<noteq> j)"
    if "jobs_ok M (jobs d)" "complete_job w j d = Inr d'"
  proof -
    from that(2) have h: "holder d j w"
      and j: "jobs d' = update_job (holds_lease w j) (jb_status_update (\<lambda>_. DONE)) (jobs d)"
      by (auto simp: complete_holder)
    have "holder d' k v \<longleftrightarrow> holder d k v \<and> k \<noteq> j" for k v
      by (rule holder_after_update [OF that(1) h _ _ j]) simp_all
    with complete_ok [OF that] show ?thesis by blast
  qed
  show "jobs_ok M (jobs d') \<and> (\<forall>k v. holder d' k v \<longleftrightarrow> holder d k v \<and> k \<noteq> j)"
    if "jobs_ok M (jobs d)"
      "(case x of (err, py_now, u) \<Rightarrow> abandon_job (err, M, py_now, u)) w j d = Inr d'"
    using that fail_ok [OF that(1)] fail_holder_effect [OF that(1)]
    by (auto simp: x abandon_job_def sum_bind_Inr)
qed

text \<open>
  One report per lease: after a worker completed or failed a job, every further report on
  it, by that worker or a stale one, is refused with JobOwnershipError until the job is claimed
  again; and while a worker holds the lease every other worker's report is refused.
\<close>

theorem lease_reported_once:
  assumes "jobs_ok M (jobs d)" and "holder d j w"
  shows "(v \<noteq> w \<longrightarrow> complete_job v j d = Inl (JobOwnershipError j v)
      \<and> fail_job v j err M py_now u d = Inl (JobOwnershipError j v))
    \<and> (\<exists>d'. complete_job w j d = Inr d' \<and> complete_job v j d' = Inl (JobOwnershipError j v)
      \<and> fail_job v j err M py_now u d' = Inl (JobOwnershipError j v))
    \<and> (\<exists>d' out. fail_job w j err M py_now u d = Inr (d', out)
      \<and> complete_job v j d' = Inl (JobOwnershipError j v)
      \<and> fail_job v j err M py_now u d' = Inl (JobOwnershipError j v))"
proof -
  have refused: "complete_job v j d' = Inl (JobOwnershipError j v)
      \<and> fail_job v j err M py_now u d' = Inl (JobOwnershipError j v)" if "\<not> holder d' j v" for d'
    using that by (simp add: complete_job_def holder_fold fail_fenced)
  obtain d1 where c: "complete_job w j d = Inr d1" using jq.finish_held [OF assms] by blast
  obtain d2 out where f: "fail_job w j err M py_now u d = Inr (d2, out)"
    using fail_held [OF assms] by blast
  have "\<not> holder d1 j v" using jq.finish_effect [OF assms(1) c] by blast
  moreover have "\<not> holder d2 j v" using fail_holder_effect [OF assms(1) f] by blast
  moreover have "v \<noteq> w \<Longrightarrow> \<not> holder d j v" using jq.holder_unique [OF assms] by blast
  ultimately show ?thesis using refused c f by blast
qed

definition leased_row :: job_row where
  "leased_row =
     \<lparr>jb_id = 5, jb_lead_id = None, jb_type = ''compute_score'', jb_status = PROCESSING,
      jb_attempts = 3, jb_next_retry = 90, jb_locked_by = Some ''w1'', jb_locked_at = Some 95,
      jb_last_error = None, jb_key = Some ''k'', jb_trace = None\<rparr>"

definition leased_queue :: queue_db where
  "leased_queue = \<lparr>clock = 100, leads = Map.empty, lead_events = [], jobs = [leased_row]\<rparr>"

lemma leased_queue_ok: "jobs_ok 4 (jobs leased_queue)" "holder leased_queue 5 ''w1''"
  by (simp_all add: jobs_ok_def row_ok_def leased_queue_def leased_row_def holder_def holds_lease_def)

theorem lease_reported_once_witness:
  "complete_job ''w2'' 5 leased_queue = Inl (JobOwnershipError 5 ''w2'')
   \<and> (\<exists>d'. complete_job ''w1'' 5 leased_queue = Inr d'
        \<and> complete_job ''w1'' 5 d' = Inl (JobOwnershipError 5 ''w1''))"
  using lease_reported_once [OF leased_queue_ok, of "''w1''" "[]" 0 0]
    lease_reported_once [OF leased_queue_ok, of "''w2''" "[]" 0 0]
  by auto

subsection \<open>What a claim takes\<close>

lemma map_fixed_mem: "x \<in> set xs \<Longrightarrow> f x = x \<Longrightarrow> x \<in> set (map f xs)"
  by force

lemma claim_select_ids:
  assumes "jobs_ok M rows"
  shows "distinct (map jb_id (claim_select ts n skip now rows))"
proof -
  have "distinct (map jb_id (filter (claimable ts skip now) rows))"
    using assms by (auto simp: jobs_ok_def distinct_map_filter)
  then have "distinct (map jb_id (sort_key jb_next_retry (filter (claimable ts skip now) rows)))"
    by (metis distinct_map distinct_sort set_sort)
  then show ?thesis by (simp add: claim_select_def distinct_take flip: take_map)
qed

lemma sorted_take_drop_le:
  assumes "sorted (map f xs)" and "x \<in> set (take n xs)" and "y \<in> set (drop n xs)"
  shows "f x \<le> (f y :: real)"
proof -
  have "sorted (map f (take n xs) @ map f (drop n xs))"
    using assms(1) by (metis append_take_drop_id map_append)
  with assms(2,3) show ?thesis by (auto simp: sorted_append)
qed

lemma claim_select_spec:
  assumes "r \<in> set rows" and "claimable ts skip now r"
  shows "r \<in> set (claim_select ts n skip now rows)
    \<or> length (claim_select ts n skip now rows) = n
      \<and> (\<forall>x \<in> set (claim_select ts n skip now rows). jb_next_retry x \<le> jb_next_retry r)"
proof -
  let ?s = "sort_key jb_next_retry (filter (claimable ts skip now) rows)"
  have r: "r \<in> set ?s" using assms by simp
  show ?thesis
  proof (cases "r \<in> set (take n ?s)")
    case True
    then show ?thesis by (simp add: claim_select_def)
  next
    case False
    then have d: "r \<in> set (drop n ?s)"
      using r by (metis UnE append_take_drop_id set_append)
    then have "n < length ?s" by (cases "n < length ?s") auto
    moreover have "jb_next_retry x \<le> jb_next_retry r" if "x \<in> set (take n ?s)" for x
      by (rule sorted_take_drop_le [OF _ that d]) simp
    ultimately show ?thesis by (simp add: claim_select_def)
  qed
qed

lemma reclaimed_ok: "jobs_ok M rows \<Longrightarrow> jobs_ok M (map (reclaim_row M cutoff now) rows)"
  by (rule jobs_ok_map) (auto intro: reclaim_row_ok, auto simp: reclaim_row_def)

lemma claim_holds:
  assumes "jobs_ok M (jobs d)" and "cr_max_attempts q = M" and "claim q py_now skip d = (d1, cs)"
  shows "distinct (map cj_job_id cs)
    \<and> (\<forall>c \<in> set cs. \<exists>r \<in> set (jobs d1). holds_lease (cr_worker_id q) (cj_job_id c) r
        \<and> jb_locked_at r = Some (clock d))"
proof -
  let ?re = "map (reclaim_row M (py_now - cr_lease_seconds q) (clock d)) (jobs d)"
  let ?rows = "claim_select (cr_job_types q) (cr_limit q) skip (clock d) ?re"
  let ?up = "claim_update (cr_worker_id q) (map jb_id ?rows) (clock d)"
  have j1: "jobs d1 = map ?up ?re" and cs: "cs = map claimed_of ?rows"
    using assms(2,3) by (auto simp: claim_def Let_def)
  have "\<exists>x \<in> set (jobs d1). holds_lease (cr_worker_id q) (jb_id r) x \<and> jb_locked_at x = Some (clock d)"
    if r: "r \<in> set ?rows" for r
  proof -
    have "?up r \<in> set (jobs d1)"
      unfolding j1 set_map [of ?up] by (intro imageI) (use claim_select_claimable [OF r] in simp)
    moreover have "jb_id r \<in> set (map jb_id ?rows)" using r by simp
    then have "holds_lease (cr_worker_id q) (jb_id r) (?up r) \<and> jb_locked_at (?up r) = Some (clock d)"
      by (simp add: claim_update_def holds_lease_def)
    ultimately show ?thesis by blast
  qed
  moreover have "distinct (map cj_job_id cs)"
    using claim_select_ids [OF reclaimed_ok [OF assms(1)]] by (simp add: cs claimed_of_def comp_def)
  ultimately show ?thesis by (auto simp: cs claimed_of_def)
qed

text \<open>A row that a lease holds is left alone by every claim whose cutoff is not past the lease.\<close>

lemma claim_spares_lease:
  assumes "jobs_ok M (jobs d)" and "cr_max_attempts q = M" and "claim q py_now skip d = (d', cs)"
    and "r \<in> set (jobs d)" and "holds_lease w j r" and "jb_locked_at r = Some t"
    and "py_now - cr_lease_seconds q \<le> t"
  shows "j \<notin> cj_job_id ` set cs \<and> holder d' j w"
proof -
  let ?reclaim = "reclaim_row M (py_now - cr_lease_seconds q) (clock d)"
  let ?re = "map ?reclaim (jobs d)"
  let ?rows = "claim_select (cr_job_types q) (cr_limit q) skip (clock d) ?re"
  let ?up = "claim_update (cr_worker_id q) (map jb_id ?rows) (clock d)"
  have j': "jobs d' = map ?up ?re" and cs: "cs = map claimed_of ?rows"
    using assms(2,3) by (auto simp: claim_def Let_def)
  have "?reclaim r = r" using assms(6,7) by (simp add: reclaim_row_def lease_expired_def)
  with assms(4) have re: "r \<in> set ?re" by (rule map_fixed_mem)
  have out: "j \<notin> set (map jb_id ?rows)"
  proof
    assume "j \<in> set (map jb_id ?rows)"
    then obtain x where x: "x \<in> set ?rows" "jb_id x = j" by auto
    then have "x \<in> set ?re" "claimable (cr_job_types q) skip (clock d) x"
      using claim_select_claimable by blast+
    moreover have "x = r" if "x \<in> set ?re"
      using jobs_ok_same_row [OF reclaimed_ok [OF assms(1)] that re] x(2) assms(5)
      by (simp add: holds_lease_def)
    ultimately show False using assms(5) by (simp add: claimable_def holds_lease_def)
  qed
  then have "?up r = r" using assms(5) by (simp add: claim_update_def holds_lease_def)
  with re have "r \<in> set (jobs d')" unfolding j' by (rule map_fixed_mem)
  moreover have "cj_job_id ` set cs = set (map jb_id ?rows)"
    by (auto simp: cs claimed_of_def image_iff)
  ultimately show ?thesis using out assms(5) by (auto simp: holder_def)
qed

text \<open>
  C6. Two workers never process one job at a time. The jobs a claim returns are distinct and
  held by the claiming worker from that moment; and no later claim takes one of them, whoever
  asks, as long as its cutoff is not past that moment and the holder has not reported, because
  the lease is then not yet expired.
\<close>

theorem claim_exclusive:
  assumes "jobs_ok M (jobs d)" and "cr_max_attempts q = M" and "claim q py_now skip d = (d1, cs)"
    and "py_now2 - cr_lease_seconds q2 \<le> clock d" and "cr_max_attempts q2 = M"
    and "claim q2 py_now2 skip2 (d1\<lparr>clock := t2\<rparr>) = (d2, cs2)"
  shows "distinct (map cj_job_id cs) \<and> (\<forall>c \<in> set cs. holder d1 (cj_job_id c) (cr_worker_id q))
    \<and> cj_job_id ` set cs \<inter> cj_job_id ` set cs2 = {}
    \<and> (\<forall>c \<in> set cs. holder d2 (cj_job_id c) (cr_worker_id q))"
proof -
  have ok1: "jobs_ok M (jobs (d1\<lparr>clock := t2\<rparr>))" using claim_ok [OF assms(1-3)] by simp
  note held = claim_holds [OF assms(1-3)]
  have "cj_job_id c \<notin> cj_job_id ` set cs2 \<and> holder d2 (cj_job_id c) (cr_worker_id q)"
    if "c \<in> set cs" for c
  proof -
    from held that obtain r where r: "r \<in> set (jobs (d1\<lparr>clock := t2\<rparr>))"
      "holds_lease (cr_worker_id q) (cj_job_id c) r" "jb_locked_at r = Some (clock d)"
      by auto
    then show ?thesis by (rule claim_spares_lease [OF ok1 assms(5,6) _ _ _ assms(4)])
  qed
  with held show ?thesis by (auto simp: holder_def)
qed

definition demo_request :: "string \<Rightarrow> claim_request" where
  "demo_request w =
     \<lparr>cr_worker_id = w, cr_job_types = None, cr_limit = 2, cr_lease_seconds = 300, cr_max_attempts = 4\<rparr>"

definition pending_queue :: queue_db where
  "pending_queue =
     \<lparr>clock = 100, leads = Map.empty, lead_events = [],
      jobs = [leased_row\<lparr>jb_id := 6, jb_status := PENDING, jb_locked_by := None,
                jb_locked_at := None, jb_key := None\<rparr>, leased_row\<lparr>jb_status := DONE\<rparr>]\<rparr>"

lemma pending_queue_ok: "jobs_ok 4 (jobs pending_queue)"
  by (simp add: jobs_ok_def row_ok_def pending_queue_def leased_row_def)

theorem claim_exclusive_witness:
  "\<exists>d1 c d2 cs2. claim (demo_request ''w1'') 101 {} pending_queue = (d1, [c])
     \<and> claim (demo_request ''w2'') 200 {} (d1\<lparr>clock := 200\<rparr>) = (d2, cs2)
     \<and> cj_job_id c \<notin> cj_job_id ` set cs2 \<and> holder d2 (cj_job_id c) ''w1''"
proof -
  let ?q1 = "demo_request ''w1''" and ?q2 = "demo_request ''w2''"
  obtain d1 cs where c1: "claim ?q1 101 {} pending_queue = (d1, cs)" by fastforce
  obtain d2 cs2 where c2: "claim ?q2 200 {} (d1\<lparr>clock := 200\<rparr>) = (d2, cs2)" by fastforce
  have "length (snd (claim ?q1 101 {} pending_queue)) = 1" by code_simp
  then obtain c where cs: "cs = [c]" using c1 by (auto simp: length_Suc_conv)
  have "cj_job_id ` set cs \<inter> cj_job_id ` set cs2 = {} \<and> (\<forall>c \<in> set cs. holder d2 (cj_job_id c) ''w1'')"
    using claim_exclusive [OF pending_queue_ok _ c1 _ _ c2] by (simp add: demo_request_def pending_queue_def)
  with c1 c2 cs show ?thesis by auto
qed

text \<open>
  A claim is fair and complete: a due job of a requested type that no other transaction has
  locked is either taken, or the claim is full and every job it took was due no later. What is
  taken was due, and what had used up its attempts or was finished is never taken.
\<close>

theorem claim_takes_oldest_due:
  assumes "claim q py_now skip d = (d', cs)"
    and "re = map (reclaim_row (cr_max_attempts q) (py_now - cr_lease_seconds q) (clock d)) (jobs d)"
  shows "(\<forall>r \<in> set re. claimable (cr_job_types q) skip (clock d) r \<longrightarrow>
      claimed_of r \<in> set cs
      \<or> length cs = cr_limit q
        \<and> (\<forall>c \<in> set cs. \<exists>x \<in> set re. claimed_of x = c \<and> jb_next_retry x \<le> jb_next_retry r))
    \<and> length cs \<le> cr_limit q
    \<and> (\<forall>c \<in> set cs. \<exists>r \<in> set re. claimed_of r = c \<and> claimable (cr_job_types q) skip (clock d) r)"
proof -
  let ?rows = "claim_select (cr_job_types q) (cr_limit q) skip (clock d) re"
  have cs: "cs = map claimed_of ?rows"
    using assms by (auto simp: claim_def Let_def)
  have "claimed_of r \<in> set cs \<or> length cs = cr_limit q
        \<and> (\<forall>c \<in> set cs. \<exists>x \<in> set re. claimed_of x = c \<and> jb_next_retry x \<le> jb_next_retry r)"
    if "r \<in> set re" "claimable (cr_job_types q) skip (clock d) r" for r
    using claim_select_spec [OF that, of "cr_limit q"] claim_select_claimable unfolding cs by fastforce
  moreover have "length cs \<le> cr_limit q"
    unfolding cs by (simp add: claim_select_def)
  moreover have "\<exists>r \<in> set re. claimed_of r = c \<and> claimable (cr_job_types q) skip (clock d) r"
    if "c \<in> set cs" for c
    using that claim_select_claimable unfolding cs by fastforce
  ultimately show ?thesis by blast
qed

theorem claim_takes_oldest_due_witness:
  "\<exists>d' cs. claim (demo_request ''w1'') 101 {} pending_queue = (d', cs) \<and> length cs \<le> 2
     \<and> (\<forall>c \<in> set cs. \<exists>r. claimed_of r = c \<and> claimable None {} 100 r)"
proof -
  obtain d1 cs where c1: "claim (demo_request ''w1'') 101 {} pending_queue = (d1, cs)" by fastforce
  from claim_takes_oldest_due [OF c1 refl] c1 show ?thesis
    by (auto simp: demo_request_def pending_queue_def)
qed

subsection \<open>Idempotent enqueueing\<close>

lemma find_same_key:
  assumes "jobs_ok M rows" and "r \<in> set rows" and "jb_key r = Some k"
  shows "find (same_key (Some k)) rows = Some r"
proof (cases "find (same_key (Some k)) rows")
  case None
  with assms(2,3) show ?thesis by (auto simp: find_None_iff same_key_def)
next
  case (Some x)
  then have "x \<in> set rows" "jb_key x = Some k"
    by (auto simp: find_Some_iff same_key_def)
  with Some assms jobs_ok_same_key show ?thesis by metis
qed

text \<open>
  Enqueueing under an idempotency key a second time schedules nothing new: the existing
  job's id comes back, and the table is unchanged unless that job was dead-lettered, in which
  case it alone becomes pending again, due now, with a fresh attempt budget and no lease.
\<close>

theorem enqueue_idempotent:
  assumes "jobs_ok M (jobs d)" and "r \<in> set (jobs d)" and "jb_key r = Some k"
    and "enqueue_in fresh lead_id job_type (Some k) trace d = (d', e)"
  shows "ej_job_id e = jb_id r \<and> \<not> ej_created e
    \<and> (ej_requeued e \<longleftrightarrow> jb_status r = JOB_DEAD_LETTER)
    \<and> (jb_status r \<noteq> JOB_DEAD_LETTER \<longrightarrow> d' = d)
    \<and> (jb_status r = JOB_DEAD_LETTER \<longrightarrow>
         d' = d\<lparr>jobs := map (\<lambda>x. if x = r then r\<lparr>jb_status := PENDING, jb_attempts := 0,
                  jb_next_retry := clock d, jb_locked_by := None, jb_locked_at := None\<rparr> else x) (jobs d)\<rparr>)"
proof -
  note f = find_same_key [OF assms(1-3)]
  have only: "same_key (Some k) x \<longleftrightarrow> x = r" if "x \<in> set (jobs d)" for x
    using jobs_ok_same_key [OF assms(1) that assms(2) _ assms(3)] assms(3) by (auto simp: same_key_def)
  have rows: "map (\<lambda>x. if same_key (Some k) x then requeue_row (clock d) x else x) (jobs d)
      = map (\<lambda>x. if x = r then requeue_row (clock d) r else x) (jobs d)"
    using only by (auto intro!: map_cong)
  have d': "d' = d\<lparr>jobs := map (\<lambda>x. if x = r then requeue_row (clock d) r else x) (jobs d)\<rparr>"
    and e: "e = \<lparr>ej_job_id = jb_id r, ej_created = False, ej_requeued = (jb_status r = JOB_DEAD_LETTER)\<rparr>"
    using assms(4) f unfolding enqueue_in_def by (auto simp: rows)
  have same: "d' = d" if "jb_status r \<noteq> JOB_DEAD_LETTER"
  proof -
    have "map (\<lambda>x. if x = r then requeue_row (clock d) r else x) (jobs d) = jobs d"
      using that by (intro map_idI) (simp add: requeue_row_def)
    then show ?thesis by (simp add: d')
  qed
  have again: "requeue_row (clock d) r = r\<lparr>jb_status := PENDING, jb_attempts := 0,
      jb_next_retry := clock d, jb_locked_by := None, jb_locked_at := None\<rparr>" if "jb_status r = JOB_DEAD_LETTER"
    using that by (simp add: requeue_row_def)
  show ?thesis
    using same again d' by (cases "jb_status r = JOB_DEAD_LETTER") (simp_all add: e)
qed

theorem enqueue_idempotent_witness:
  "\<exists>d' e. enqueue_in 9 None ''compute_score'' (Some ''k'') None leased_queue = (d', e)
     \<and> ej_job_id e = 5 \<and> \<not> ej_created e \<and> d' = leased_queue"
proof -
  obtain d' e where e: "enqueue_in 9 None ''compute_score'' (Some ''k'') None leased_queue = (d', e)"
    by fastforce
  have r: "leased_row \<in> set (jobs leased_queue)" "jb_key leased_row = Some ''k''"
    by (simp_all add: leased_queue_def leased_row_def)
  from enqueue_idempotent [OF leased_queue_ok(1) r e] e show ?thesis by (auto simp: leased_row_def)
qed

end
