(* ===== verification/Worker.thy ===== *)
theory Worker
  imports Job_Queue
begin

text \<open>
  \<open>arie.jobs.worker\<close>: claiming a batch and processing each job in a transaction of its own.
  A handler is a parameter: a function from its context and the database inside the work
  transaction to an exception or the new database and the transition it wants. A transaction
  that raises leaves the database it began with. Tracing, heartbeats, signals and the
  best-effort review notification after a commit are not modelled.
\<close>

record job_context =
  jc_job :: claimed_job
  jc_lead_status :: "lead_status option"
  jc_lead_version :: "int option"

type_synonym 'a handler =
  "job_context \<Rightarrow> 'a queue_db_scheme \<Rightarrow> error + 'a queue_db_scheme \<times> lead_status option"

datatype cycle_outcome = Job_Done | Job_Retry | Job_Dead_Letter | Lost_Lease

record cycle_result =
  cy_job_id :: uuid
  cy_job_type :: string
  cy_outcome :: cycle_outcome
  cy_detail :: "string option"

definition select_lead_state :: "uuid \<Rightarrow> 'a db_scheme \<Rightarrow> (lead_status \<times> int) option" where
  "select_lead_state i d = map_option (\<lambda>r. (status r, version r)) (leads d i)"

definition context_of :: "claimed_job \<Rightarrow> 'a db_scheme \<Rightarrow> job_context" where
  "context_of job d =
     (case Option.bind (cj_lead_id job) (\<lambda>i. select_lead_state i d) of
        None \<Rightarrow> \<lparr>jc_job = job, jc_lead_status = None, jc_lead_version = None\<rparr>
      | Some (s, v) \<Rightarrow> \<lparr>jc_job = job, jc_lead_status = Some s, jc_lead_version = Some v\<rparr>)"

text \<open>The body of the work transaction, up to its commit.\<close>

definition work :: "'a handler \<Rightarrow> claimed_job \<Rightarrow> string \<Rightarrow> 'a queue_db_scheme \<Rightarrow> error + 'a queue_db_scheme" where
  "work h job w d =
     (let ctx = context_of job d
      in sum_bind (h ctx d) (\<lambda>(d1, new_status).
         sum_bind (complete_job w (cj_job_id job) d1) (\<lambda>d2.
           case new_status of
             None \<Rightarrow> Inr d2
           | Some s \<Rightarrow>
               (case (cj_lead_id job, jc_lead_version ctx) of
                  (Some i, Some v) \<Rightarrow>
                    sum_bind (apply_transition i v s (''job:'' @ cj_job_type job)
                        [(''job_id'', VStr (py_str_int (int (cj_job_id job))))] d2)
                      (\<lambda>(d3, _). Inr d3)
                | _ \<Rightarrow> Inl ValueError))))"

text \<open>\<open>contextlib.suppress(OptimisticConcurrencyError)\<close> around the transition.\<close>

definition mark_lead_dead_lettered ::
  "uuid \<Rightarrow> claimed_job \<Rightarrow> string \<Rightarrow> 'a queue_db_scheme \<Rightarrow> error + 'a queue_db_scheme" where
  "mark_lead_dead_lettered i job err d =
     (case select_lead_state i d of
        None \<Rightarrow> Inr d
      | Some (s, v) \<Rightarrow>
          if job_type_for s = None then Inr d
          else
            (case apply_transition i v DEAD_LETTER ''job:dead_letter''
                [(''job_id'', VStr (py_str_int (int (cj_job_id job)))),
                 (''job_type'', VStr (cj_job_type job)), (''error'', VStr (take 500 err))] d of
               Inr (d', _) \<Rightarrow> Inr d'
             | Inl (OptimisticConcurrencyError _ _) \<Rightarrow> Inr d
             | Inl e \<Rightarrow> Inl e))"

text \<open>The recovering transaction, up to its commit.\<close>

definition fail_transaction ::
  "claimed_job \<Rightarrow> string \<Rightarrow> int \<Rightarrow> string \<Rightarrow> instant \<Rightarrow> real \<Rightarrow> 'a queue_db_scheme
     \<Rightarrow> error + 'a queue_db_scheme \<times> fail_outcome" where
  "fail_transaction job w max_attempts err py_now u d =
     sum_bind (fail_job w (cj_job_id job) err max_attempts py_now u d) (\<lambda>(d1, outcome).
       case (fo_status outcome, cj_lead_id job) of
         (JOB_DEAD_LETTER, Some i) \<Rightarrow>
           sum_bind (mark_lead_dead_lettered i job err d1) (\<lambda>d2. Inr (d2, outcome))
       | _ \<Rightarrow> Inr (d1, outcome))"

definition result_of :: "claimed_job \<Rightarrow> cycle_outcome \<Rightarrow> string option \<Rightarrow> cycle_result" where
  "result_of job outcome detail =
     \<lparr>cy_job_id = cj_job_id job, cy_job_type = cj_job_type job, cy_outcome = outcome,
      cy_detail = detail\<rparr>"

fun is_ownership_error :: "error \<Rightarrow> bool" where
  "is_ownership_error (JobOwnershipError _ _) = True"
| "is_ownership_error _ = False"

text \<open>The instants and the random draw one processing attempt sees, and \<open>str(exc)\<close>.\<close>

record attempt_env =
  ae_work_now :: instant
  ae_fail_now :: instant
  ae_py_now :: instant
  ae_draw :: real
  ae_str :: "error \<Rightarrow> string"

definition fail_job_cycle ::
  "claimed_job \<Rightarrow> string \<Rightarrow> int \<Rightarrow> attempt_env \<Rightarrow> string \<Rightarrow> 'a queue_db_scheme
     \<Rightarrow> error + 'a queue_db_scheme \<times> cycle_result" where
  "fail_job_cycle job w max_attempts env err d =
     (let d0 = d\<lparr>clock := ae_fail_now env\<rparr>
      in case fail_transaction job w max_attempts err (ae_py_now env) (ae_draw env) d0 of
           Inr (d', outcome) \<Rightarrow>
             Inr (d', result_of job (if fo_status outcome = JOB_DEAD_LETTER then Job_Dead_Letter
                                     else Job_Retry) (Some err))
         | Inl e \<Rightarrow>
             if is_ownership_error e then Inr (d0, result_of job Lost_Lease (Some (ae_str env e)))
             else Inl e)"

definition process_one ::
  "(string \<times> 'a handler) list \<Rightarrow> claimed_job \<Rightarrow> string \<Rightarrow> int \<Rightarrow> attempt_env \<Rightarrow> 'a queue_db_scheme
     \<Rightarrow> error + 'a queue_db_scheme \<times> cycle_result" where
  "process_one handlers job w max_attempts env d =
     (case map_of handlers (cj_job_type job) of
        None \<Rightarrow>
          fail_job_cycle job w max_attempts env
            (''no handler registered for job_type '' @ [CHR 0x27] @ cj_job_type job @ [CHR 0x27]) d
      | Some h \<Rightarrow>
          (let d0 = d\<lparr>clock := ae_work_now env\<rparr>
           in case work h job w d0 of
                Inr d' \<Rightarrow> Inr (d', result_of job Job_Done None)
              | Inl e \<Rightarrow>
                  if is_ownership_error e then Inr (d0, result_of job Lost_Lease (Some (ae_str env e)))
                  else fail_job_cycle job w max_attempts env (ae_str env e) d))"

fun process_all ::
  "(string \<times> 'a handler) list \<Rightarrow> string \<Rightarrow> int \<Rightarrow> (nat \<Rightarrow> attempt_env) \<Rightarrow> nat \<Rightarrow> claimed_job list
     \<Rightarrow> 'a queue_db_scheme \<Rightarrow> error + 'a queue_db_scheme \<times> cycle_result list" where
  "process_all handlers w M env k [] d = Inr (d, [])"
| "process_all handlers w M env k (job # rest) d =
     sum_bind (process_one handlers job w M (env k) d) (\<lambda>(d1, r).
     sum_bind (process_all handlers w M env (Suc k) rest d1) (\<lambda>(d2, rs). Inr (d2, r # rs)))"

definition run_worker_cycle ::
  "(string \<times> 'a handler) list \<Rightarrow> claim_request \<Rightarrow> instant \<Rightarrow> uuid set \<Rightarrow> (nat \<Rightarrow> attempt_env)
     \<Rightarrow> 'a queue_db_scheme \<Rightarrow> error + 'a queue_db_scheme \<times> cycle_result list" where
  "run_worker_cycle handlers q py_now skip env d =
     (let (d', claimed) = claim q py_now skip d
      in process_all handlers (cr_worker_id q) (cr_max_attempts q) env 0 claimed d')"

subsection \<open>What an attempt leaves behind\<close>

text \<open>The database apart from the clock.\<close>

definition same_data :: "'a db_scheme \<Rightarrow> 'a db_scheme \<Rightarrow> bool" where
  "same_data d d' \<longleftrightarrow> d'\<lparr>clock := clock d\<rparr> = d"

lemma same_data_clock [simp]: "same_data d (d\<lparr>clock := t\<rparr>)"
  by (simp add: same_data_def)

text \<open>A handler leaves the job table to the worker, and raises the ownership error only to
  report a lost lease.\<close>

definition handler_ok :: "'a handler \<Rightarrow> bool" where
  "handler_ok h \<longleftrightarrow>
     (\<forall>ctx d d1 s. h ctx d = Inr (d1, s) \<longrightarrow> jobs d1 = jobs d)
     \<and> (\<forall>ctx d e. h ctx d = Inl e \<longrightarrow> \<not> is_ownership_error e)"

text \<open>The rows of every job but one are the same.\<close>

definition other_jobs_same :: "uuid \<Rightarrow> 'a queue_db_scheme \<Rightarrow> 'a queue_db_scheme \<Rightarrow> bool" where
  "other_jobs_same j d d' \<longleftrightarrow>
     filter (\<lambda>r. jb_id r \<noteq> j) (jobs d') = filter (\<lambda>r. jb_id r \<noteq> j) (jobs d)"

definition job_with :: "uuid \<Rightarrow> 'a queue_db_scheme \<Rightarrow> (job_row \<Rightarrow> bool) \<Rightarrow> bool" where
  "job_with j d P \<longleftrightarrow> (\<exists>r \<in> set (jobs d). jb_id r = j \<and> P r)"

lemma update_job_others:
  assumes "\<And>r. jb_id (f r) = jb_id r"
  shows "filter (\<lambda>r. jb_id r \<noteq> j) (update_job (holds_lease w j) f rows) = filter (\<lambda>r. jb_id r \<noteq> j) rows"
  using assms by (induction rows) (auto simp: update_job_def holds_lease_def)

lemma complete_job_leaves:
  assumes "complete_job w j d = Inr d'"
  shows "other_jobs_same j d d' \<and> job_with j d' (\<lambda>r. jb_status r = DONE)
    \<and> leads d' = leads d \<and> lead_events d' = lead_events d \<and> clock d' = clock d"
proof -
  from assms have h: "holder d j w"
    and d': "d' = d\<lparr>jobs := update_job (holds_lease w j) (jb_status_update (\<lambda>_. DONE)) (jobs d)\<rparr>"
    by (auto simp: complete_holder)
  from h obtain r where "r \<in> set (jobs d)" "holds_lease w j r" by (auto simp: holder_def)
  then have "r\<lparr>jb_status := DONE\<rparr> \<in> set (jobs d')" "jb_id r = j"
    by (auto simp: d' update_job_def holds_lease_def image_iff)
  then have "job_with j d' (\<lambda>r. jb_status r = DONE)"
    unfolding job_with_def by (intro bexI [of _ "r\<lparr>jb_status := DONE\<rparr>"]) simp_all
  then show ?thesis
    by (simp add: d' other_jobs_same_def update_job_others)
qed

lemma fail_job_leaves:
  assumes "fail_job w j err M py_now u d = Inr (d', out)"
  shows "other_jobs_same j d d' \<and> leads d' = leads d \<and> lead_events d' = lead_events d
    \<and> job_with j d' (\<lambda>r. jb_status r = fo_status out \<and> jb_attempts r = fo_attempt_count out
        \<and> jb_last_error r = Some err)
    \<and> fo_status out = (if fo_attempt_count out \<ge> M then JOB_DEAD_LETTER else PENDING)"
  using assms
proof (rule fail_job_Inr)
  fix row :: job_row and delay :: real
  let ?f = "\<lambda>r. if jb_attempts row + 1 \<ge> M
       then r\<lparr>jb_status := JOB_DEAD_LETTER, jb_attempts := jb_attempts row + 1,
                jb_last_error := Some err\<rparr>
       else r\<lparr>jb_status := PENDING, jb_attempts := jb_attempts row + 1,
                jb_next_retry := py_now + delay, jb_last_error := Some err,
                jb_locked_by := None, jb_locked_at := None\<rparr>"
  assume row: "row \<in> set (jobs d)" "holds_lease w j row"
    and out: "fo_attempt_count out = jb_attempts row + 1"
      "fo_status out = (if jb_attempts row + 1 \<ge> M then JOB_DEAD_LETTER else PENDING)"
    and j: "jobs d' = update_job (holds_lease w j) ?f (jobs d)" and d': "d' = d\<lparr>jobs := jobs d'\<rparr>"
  have "leads d' = leads d" "lead_events d' = lead_events d"
    by (subst d', simp)+
  moreover have "other_jobs_same j d d'"
    unfolding other_jobs_same_def j by (rule update_job_others) simp
  moreover have "?f row \<in> set (jobs d')"
    unfolding j update_job_def using row by force
  then have "job_with j d' (\<lambda>r. jb_status r = fo_status out \<and> jb_attempts r = fo_attempt_count out
        \<and> jb_last_error r = Some err)"
    using row(2) out by (auto simp: job_with_def holds_lease_def intro!: bexI [of _ "?f row"])
  ultimately show ?thesis using out by simp
qed


lemma work_Inr:
  assumes "work h job w d = Inr d'" and "handler_ok h"
  shows "other_jobs_same (cj_job_id job) d d' \<and> job_with (cj_job_id job) d' (\<lambda>r. jb_status r = DONE)
    \<and> holder d (cj_job_id job) w \<and> (jobs_ok M (jobs d) \<longrightarrow> jobs_ok M (jobs d'))
    \<and> (\<exists>d1 asked. h (context_of job d) d = Inr (d1, asked)
        \<and> (asked = None \<longrightarrow> leads d' = leads d1 \<and> lead_events d' = lead_events d1)
        \<and> (\<forall>s. asked = Some s \<longrightarrow> (\<exists>i v. cj_lead_id job = Some i \<and> lead_version d i = Some v
              \<and> lead_version d1 i = Some v \<and> lead_version d' i = Some (v + 1)
              \<and> lead_status_of d' i = Some s)))"
proof -
  let ?ctx = "context_of job d"
  from assms(1) obtain d1 asked d2 where h: "h ?ctx d = Inr (d1, asked)"
    and c: "complete_job w (cj_job_id job) d1 = Inr d2"
    and rest: "(case asked of None \<Rightarrow> Inr d2
           | Some s \<Rightarrow>
               (case (cj_lead_id job, jc_lead_version ?ctx) of
                  (Some i, Some v) \<Rightarrow>
                    sum_bind (apply_transition i v s (''job:'' @ cj_job_type job)
                        [(''job_id'', VStr (py_str_int (int (cj_job_id job))))] d2)
                      (\<lambda>(d3, _). Inr d3)
                | _ \<Rightarrow> Inl ValueError)) = Inr d'"
    by (auto simp: work_def Let_def sum_bind_Inr)
  have j1: "jobs d1 = jobs d" using assms(2) h by (auto simp: handler_ok_def)
  note c2 = complete_job_leaves [OF c]
  have hold: "holder d (cj_job_id job) w"
    using c by (simp add: complete_holder holder_def j1)
  have ok: "jobs_ok M (jobs d) \<longrightarrow> jobs_ok M (jobs d2)"
    using complete_ok [OF _ c] j1 by simp
  show ?thesis
  proof (cases asked)
    case None
    with rest have "d' = d2" by simp
    with c2 j1 h hold ok None show ?thesis by (simp add: other_jobs_same_def)
  next
    case (Some s)
    with rest obtain i v d3 v' where iv: "cj_lead_id job = Some i" "jc_lead_version ?ctx = Some v"
      and t: "apply_transition i v s (''job:'' @ cj_job_type job)
                        [(''job_id'', VStr (py_str_int (int (cj_job_id job))))] d2 = Inr (d3, v')"
      and d': "d' = d3"
      by (auto simp: sum_bind_Inr split: option.splits)
    have v0: "lead_version d i = Some v"
      using iv by (auto simp: context_of_def select_lead_state_def lead_version_def split: option.splits)
    from t obtain row where row: "leads d2 i = Some row" "version row = v"
      and d3: "d3 = d2\<lparr>leads := (leads d2)(i \<mapsto> row\<lparr>status := s, version := v + 1, updated_at := clock d2\<rparr>),
          lead_events := lead_events d3\<rparr>"
      by (auto simp: apply_transition_ok)
    have "lead_version d1 i = Some v" using row c2 by (simp add: lead_version_def)
    moreover have "lead_version d3 i = Some (v + 1)" "lead_status_of d3 i = Some s" "jobs d3 = jobs d2"
      by (subst d3, simp add: lead_version_def lead_status_of_def)+
    ultimately show ?thesis
      using c2 j1 h iv v0 d' hold ok Some by (simp add: other_jobs_same_def job_with_def)
  qed
qed

lemma sum_bind_Inl: "sum_bind m f = Inl e \<longleftrightarrow> m = Inl e \<or> (\<exists>x. m = Inr x \<and> f x = Inl e)"
  by (cases m) auto

lemma work_Inl_ownership:
  assumes "work h job w d = Inl e" and "is_ownership_error e" and "handler_ok h"
  shows "\<not> holder d (cj_job_id job) w"
proof -
  from assms obtain d1 asked where h: "h (context_of job d) d = Inr (d1, asked)"
    by (cases "h (context_of job d) d") (auto simp: work_def Let_def handler_ok_def)
  have "complete_job w (cj_job_id job) d1 = Inl e"
  proof (cases "complete_job w (cj_job_id job) d1")
    case (Inr d2)
    with assms(1) h have "\<not> is_ownership_error e"
      by (auto simp: work_def Let_def sum_bind_Inl apply_transition_stale split: option.splits)
    with assms(2) show ?thesis by simp
  qed (use assms(1) h in \<open>simp add: work_def Let_def\<close>)
  moreover have "jobs d1 = jobs d" using assms(3) h by (auto simp: handler_ok_def)
  ultimately show ?thesis
    by (auto simp: complete_job_def holder_fold holder_def split: if_splits)
qed

subsection \<open>A failed attempt\<close>

text \<open>The status of every lead after \<open>job\<close> has been dead-lettered.\<close>

definition stranded_lead_settled :: "claimed_job \<Rightarrow> 'a db_scheme \<Rightarrow> 'a db_scheme \<Rightarrow> bool" where
  "stranded_lead_settled job d d' \<longleftrightarrow>
     (\<forall>i. lead_status_of d' i =
        (if cj_lead_id job = Some i
            \<and> (\<exists>s. lead_status_of d i = Some s \<and> job_type_for s \<noteq> None)
         then Some DEAD_LETTER else lead_status_of d i))"

lemma mark_lead_dead_lettered_ok:
  "\<exists>d'. mark_lead_dead_lettered i job err d = Inr d' \<and> jobs d' = jobs d
     \<and> (\<forall>k. lead_status_of d' k =
          (if k = i \<and> (\<exists>s. lead_status_of d i = Some s \<and> job_type_for s \<noteq> None)
           then Some DEAD_LETTER else lead_status_of d k))"
proof (cases "leads d i")
  case None
  then show ?thesis
    by (simp add: mark_lead_dead_lettered_def select_lead_state_def lead_status_of_def)
next
  case (Some row)
  show ?thesis
  proof (cases "job_type_for (status row) = None")
    case True
    with Some show ?thesis
      by (simp add: mark_lead_dead_lettered_def select_lead_state_def lead_status_of_def)
  next
    case False
    with Some show ?thesis
      by (auto simp: mark_lead_dead_lettered_def select_lead_state_def lead_status_of_def
          apply_transition_def update_lead_status_def insert_lead_event_def)
  qed
qed

lemma fail_transaction_cases:
  assumes "jobs_ok M (jobs d)"
  shows "(\<not> holder d (cj_job_id job) w
        \<and> fail_transaction job w M err py_now u d = Inl (JobOwnershipError (cj_job_id job) w))
    \<or> (holder d (cj_job_id job) w
        \<and> (\<exists>d' out. fail_transaction job w M err py_now u d = Inr (d', out)
            \<and> other_jobs_same (cj_job_id job) d d' \<and> jobs_ok M (jobs d')
            \<and> job_with (cj_job_id job) d' (\<lambda>r. jb_status r = fo_status out
                \<and> jb_attempts r = fo_attempt_count out \<and> jb_last_error r = Some err)
            \<and> fo_status out = (if fo_attempt_count out \<ge> M then JOB_DEAD_LETTER else PENDING)
            \<and> (fo_status out = PENDING \<longrightarrow> leads d' = leads d \<and> lead_events d' = lead_events d)
            \<and> (fo_status out = JOB_DEAD_LETTER \<longrightarrow> stranded_lead_settled job d d')))"
proof (cases "holder d (cj_job_id job) w")
  case False
  then show ?thesis by (simp add: fail_transaction_def fail_fenced)
next
  case True
  obtain d1 out where f: "fail_job w (cj_job_id job) err M py_now u d = Inr (d1, out)"
    using fail_held [OF assms True] by blast
  note l = fail_job_leaves [OF f] and ok = fail_ok [OF assms f]
  show ?thesis
  proof (cases "fo_status out = JOB_DEAD_LETTER \<and> cj_lead_id job \<noteq> None")
    case dead: True
    then obtain i where i: "cj_lead_id job = Some i" by auto
    obtain d2 where m: "mark_lead_dead_lettered i job err d1 = Inr d2" "jobs d2 = jobs d1"
      "\<forall>k. lead_status_of d2 k =
          (if k = i \<and> (\<exists>s. lead_status_of d1 i = Some s \<and> job_type_for s \<noteq> None)
           then Some DEAD_LETTER else lead_status_of d1 k)"
      using mark_lead_dead_lettered_ok by blast
    have "lead_status_of d1 k = lead_status_of d k" for k using l by (simp add: lead_status_of_def)
    then have "stranded_lead_settled job d d2"
      using m(3) i by (auto simp: stranded_lead_settled_def)
    moreover have "fail_transaction job w M err py_now u d = Inr (d2, out)"
      using f dead i m(1) by (simp add: fail_transaction_def)
    moreover have "fo_status out \<noteq> PENDING" using dead by simp
    ultimately show ?thesis
      using True l ok m(2) by (auto simp: other_jobs_same_def job_with_def)
  next
    case False
    then have "fail_transaction job w M err py_now u d = Inr (d1, out)"
      using f by (auto simp: fail_transaction_def split: option.splits job_status.splits)
    moreover have "cj_lead_id job = None" if "fo_status out = JOB_DEAD_LETTER"
      using False that by simp
    moreover have "stranded_lead_settled job d d1" if "cj_lead_id job = None"
      using that l by (simp add: stranded_lead_settled_def lead_status_of_def)
    ultimately show ?thesis using True l ok by blast
  qed
qed


subsection \<open>One attempt\<close>

lemma clock_irrelevant [simp]:
  "holder (d\<lparr>clock := t\<rparr>) j w = holder d j w"
  "other_jobs_same j (d\<lparr>clock := t\<rparr>) d' = other_jobs_same j d d'"
  "stranded_lead_settled job (d\<lparr>clock := t\<rparr>) d' = stranded_lead_settled job d d'"
  "lead_version (d\<lparr>clock := t\<rparr>) i = lead_version d i"
  by (simp_all add: holder_def other_jobs_same_def stranded_lead_settled_def lead_status_of_def
      lead_version_def)

lemma settled_leases:
  assumes "other_jobs_same j d d'" and "job_with j d' P" and "jobs_ok M (jobs d')"
    and "\<And>r. P r \<Longrightarrow> jb_status r \<noteq> PROCESSING"
  shows "holder d' k v \<longleftrightarrow> holder d k v \<and> k \<noteq> j"
proof (cases "k = j")
  case True
  from assms(2) obtain r where r: "r \<in> set (jobs d')" "jb_id r = j" "P r" by (auto simp: job_with_def)
  have "\<not> holds_lease v j x" if "x \<in> set (jobs d')" for x
    using jobs_ok_same_row [OF assms(3) that r(1)] r assms(4) by (auto simp: holds_lease_def)
  with True show ?thesis by (auto simp: holder_def)
next
  case False
  have "set (filter (\<lambda>r. jb_id r \<noteq> j) (jobs d')) = set (filter (\<lambda>r. jb_id r \<noteq> j) (jobs d))"
    using assms(1) by (simp add: other_jobs_same_def)
  then have "r \<in> set (jobs d') \<longleftrightarrow> r \<in> set (jobs d)" if "jb_id r = k" for r
    using that False by (auto simp: set_eq_iff)
  with False show ?thesis by (auto simp: holder_def holds_lease_def)
qed

text \<open>What one attempt leaves behind, by its outcome.\<close>

definition attempt_effect ::
  "int \<Rightarrow> claimed_job \<Rightarrow> 'a queue_db_scheme \<Rightarrow> 'a queue_db_scheme \<Rightarrow> cycle_outcome \<Rightarrow> bool" where
  "attempt_effect M job d d' outcome \<longleftrightarrow>
     (case outcome of
        Lost_Lease \<Rightarrow> same_data d d'
      | Job_Done \<Rightarrow> job_with (cj_job_id job) d' (\<lambda>r. jb_status r = DONE)
      | Job_Retry \<Rightarrow>
          job_with (cj_job_id job) d' (\<lambda>r. jb_status r = PENDING \<and> jb_attempts r < M)
          \<and> leads d' = leads d \<and> lead_events d' = lead_events d
      | Job_Dead_Letter \<Rightarrow>
          job_with (cj_job_id job) d' (\<lambda>r. jb_status r = JOB_DEAD_LETTER \<and> M \<le> jb_attempts r)
          \<and> stranded_lead_settled job d d')"

lemma job_with_mono: "job_with j d P \<Longrightarrow> (\<And>r. P r \<Longrightarrow> Q r) \<Longrightarrow> job_with j d Q"
  by (auto simp: job_with_def)

lemma attempt_released:
  assumes "attempt_effect M job d d' outcome" and "outcome \<noteq> Lost_Lease"
    and "other_jobs_same (cj_job_id job) d d'" and "jobs_ok M (jobs d')"
  shows "holder d' k v \<longleftrightarrow> holder d k v \<and> k \<noteq> cj_job_id job"
proof -
  have "job_with (cj_job_id job) d' (\<lambda>r. jb_status r \<noteq> PROCESSING)"
    using assms(1,2)
    by (cases outcome) (auto simp: attempt_effect_def elim!: job_with_mono)
  from settled_leases [OF assms(3) this assms(4)] show ?thesis by simp
qed

lemma fail_job_cycle_spec:
  assumes "jobs_ok M (jobs d)"
  shows "\<exists>d' r. fail_job_cycle job w M env err d = Inr (d', r) \<and> cy_job_id r = cj_job_id job
    \<and> (cy_outcome r = Lost_Lease \<longleftrightarrow> \<not> holder d (cj_job_id job) w)
    \<and> cy_outcome r \<noteq> Job_Done
    \<and> attempt_effect M job d d' (cy_outcome r)
    \<and> other_jobs_same (cj_job_id job) d d' \<and> jobs_ok M (jobs d')"
proof -
  let ?d0 = "d\<lparr>clock := ae_fail_now env\<rparr>"
  have "jobs_ok M (jobs ?d0)" using assms by simp
  from fail_transaction_cases [OF this, of job w err "ae_py_now env" "ae_draw env"]
  show ?thesis
  proof
    assume "\<not> holder ?d0 (cj_job_id job) w
        \<and> fail_transaction job w M err (ae_py_now env) (ae_draw env) ?d0
            = Inl (JobOwnershipError (cj_job_id job) w)"
    then show ?thesis
      using assms by (simp add: fail_job_cycle_def result_of_def attempt_effect_def other_jobs_same_def)
  next
    assume "holder ?d0 (cj_job_id job) w
        \<and> (\<exists>d' out. fail_transaction job w M err (ae_py_now env) (ae_draw env) ?d0 = Inr (d', out)
            \<and> other_jobs_same (cj_job_id job) ?d0 d' \<and> jobs_ok M (jobs d')
            \<and> job_with (cj_job_id job) d' (\<lambda>r. jb_status r = fo_status out
                \<and> jb_attempts r = fo_attempt_count out \<and> jb_last_error r = Some err)
            \<and> fo_status out = (if fo_attempt_count out \<ge> M then JOB_DEAD_LETTER else PENDING)
            \<and> (fo_status out = PENDING \<longrightarrow> leads d' = leads ?d0 \<and> lead_events d' = lead_events ?d0)
            \<and> (fo_status out = JOB_DEAD_LETTER \<longrightarrow> stranded_lead_settled job ?d0 d'))"
    then obtain d' out where h: "holder d (cj_job_id job) w"
      and f: "fail_transaction job w M err (ae_py_now env) (ae_draw env) ?d0 = Inr (d', out)"
      and same: "other_jobs_same (cj_job_id job) d d'" "jobs_ok M (jobs d')"
      and row: "job_with (cj_job_id job) d' (\<lambda>r. jb_status r = fo_status out
                \<and> jb_attempts r = fo_attempt_count out \<and> jb_last_error r = Some err)"
      and st: "fo_status out = (if fo_attempt_count out \<ge> M then JOB_DEAD_LETTER else PENDING)"
      and pend: "fo_status out = PENDING \<longrightarrow> leads d' = leads d \<and> lead_events d' = lead_events d"
      and dead: "fo_status out = JOB_DEAD_LETTER \<longrightarrow> stranded_lead_settled job d d'"
      by auto
    let ?o = "if fo_status out = JOB_DEAD_LETTER then Job_Dead_Letter else Job_Retry"
    have "attempt_effect M job d d' ?o"
      using row st pend dead
      by (cases "fo_attempt_count out \<ge> M") (auto simp: attempt_effect_def elim!: job_with_mono)
    then show ?thesis using h f same by (simp add: fail_job_cycle_def result_of_def)
  qed
qed


lemma process_one_spec:
  assumes "\<forall>h \<in> snd ` set handlers. handler_ok h" and "jobs_ok M (jobs d)"
  shows "\<exists>d' r. process_one handlers job w M env d = Inr (d', r) \<and> cy_job_id r = cj_job_id job
    \<and> (cy_outcome r = Lost_Lease \<longleftrightarrow> \<not> holder d (cj_job_id job) w)
    \<and> attempt_effect M job d d' (cy_outcome r)
    \<and> other_jobs_same (cj_job_id job) d d' \<and> jobs_ok M (jobs d')"
proof (cases "map_of handlers (cj_job_type job)")
  case None
  with fail_job_cycle_spec [OF assms(2)] show ?thesis by (simp add: process_one_def) metis
next
  case (Some h)
  then have h: "handler_ok h"
    using assms(1) by (auto dest!: map_of_SomeD)
  let ?d0 = "d\<lparr>clock := ae_work_now env\<rparr>"
  show ?thesis
  proof (cases "work h job w ?d0")
    case (Inr d')
    have "jobs_ok M (jobs ?d0)" using assms(2) by simp
    with work_Inr [OF Inr h, of M] Some Inr show ?thesis
      by (simp add: process_one_def result_of_def attempt_effect_def)
  next
    case (Inl e)
    show ?thesis
    proof (cases "is_ownership_error e")
      case True
      with work_Inl_ownership [OF Inl True h] Some Inl assms(2) show ?thesis
        by (simp add: process_one_def result_of_def attempt_effect_def other_jobs_same_def)
    next
      case False
      with fail_job_cycle_spec [OF assms(2), of job w env "ae_str env e"] Some Inl show ?thesis
        by (simp add: process_one_def) metis
    qed
  qed
qed

text \<open>
  C4. One attempt at a job always ends in one of its four outcomes, and the database is in the
  state the outcome names: a job reported done is DONE; a job to be retried is PENDING below its
  attempt budget and no lead has moved; a dead-lettered job has spent its budget and its lead, if
  the queue still owned it, is DEAD_LETTER while every other lead is as it was; and the lease is
  reported lost exactly when the worker no longer holds it, in which case nothing at all has
  changed. No other job is ever touched, and the lease is released.
\<close>

theorem attempt_settles_job:
  assumes "\<forall>h \<in> snd ` set handlers. handler_ok h" and "jobs_ok M (jobs d)"
  shows "\<exists>d' r. process_one handlers job w M env d = Inr (d', r) \<and> cy_job_id r = cj_job_id job
    \<and> (cy_outcome r = Lost_Lease \<longleftrightarrow> \<not> holder d (cj_job_id job) w)
    \<and> attempt_effect M job d d' (cy_outcome r)
    \<and> other_jobs_same (cj_job_id job) d d' \<and> \<not> holder d' (cj_job_id job) w"
proof -
  obtain d' r where p: "process_one handlers job w M env d = Inr (d', r)" "cy_job_id r = cj_job_id job"
    "cy_outcome r = Lost_Lease \<longleftrightarrow> \<not> holder d (cj_job_id job) w"
    "attempt_effect M job d d' (cy_outcome r)"
    "other_jobs_same (cj_job_id job) d d'" "jobs_ok M (jobs d')"
    using process_one_spec [OF assms] by blast
  have "\<not> holder d' (cj_job_id job) w"
  proof (cases "cy_outcome r = Lost_Lease")
    case True
    with p(4) have "d'\<lparr>clock := clock d\<rparr> = d" by (simp add: attempt_effect_def same_data_def)
    with clock_irrelevant(1) [of "clock d" d'] p(3) True show ?thesis by metis
  qed (use attempt_released [OF p(4) _ p(5,6)] in simp)
  with p show ?thesis by blast
qed

definition idle_handler :: "'a handler" where
  "idle_handler ctx d = (if jc_lead_status ctx = None then Inr (d, None) else Inl ValueError)"

lemma idle_handler_ok: "handler_ok idle_handler"
  by (auto simp: handler_ok_def idle_handler_def split: if_splits)

definition demo_job :: claimed_job where
  "demo_job = claimed_of leased_row"

definition demo_env :: attempt_env where
  "demo_env = \<lparr>ae_work_now = 101, ae_fail_now = 102, ae_py_now = 102, ae_draw = 0.5, ae_str = (\<lambda>_. ''e'')\<rparr>"

theorem attempt_settles_job_witness:
  "\<exists>d' r. process_one [(''compute_score'', idle_handler)] demo_job ''w1'' 4 demo_env leased_queue
     = Inr (d', r) \<and> cy_job_id r = 5 \<and> cy_outcome r \<noteq> Lost_Lease"
proof -
  have "\<forall>h \<in> snd ` set [(''compute_score'', idle_handler)]. handler_ok h"
    by (simp add: idle_handler_ok)
  from attempt_settles_job [OF this leased_queue_ok(1), of demo_job "''w1''" demo_env]
  show ?thesis using leased_queue_ok(2) by (auto simp: demo_job_def claimed_of_def leased_row_def)
qed


text \<open>
  A job is reported done only together with the lead move its handler asked for: the
  handler ran on the lead's state as the transaction read it, and if it asked for a status then
  the lead is in that status, one version on from the version that was read and that the handler
  left in place; if it asked for none, the leads are as the handler left them. A failing
  transition is never committed with the job done.
\<close>

theorem done_moves_lead_as_asked:
  assumes "process_one handlers job w M env d = Inr (d', r)" and "cy_outcome r = Job_Done"
    and "\<forall>h \<in> snd ` set handlers. handler_ok h" and "jobs_ok M (jobs d)"
  shows "\<exists>h d1 asked. map_of handlers (cj_job_type job) = Some h
    \<and> h (context_of job d) (d\<lparr>clock := ae_work_now env\<rparr>) = Inr (d1, asked)
    \<and> (asked = None \<longrightarrow> leads d' = leads d1 \<and> lead_events d' = lead_events d1)
    \<and> (\<forall>s. asked = Some s \<longrightarrow> (\<exists>i v. cj_lead_id job = Some i \<and> lead_version d i = Some v
          \<and> lead_version d1 i = Some v \<and> lead_version d' i = Some (v + 1)
          \<and> lead_status_of d' i = Some s))"
proof -
  have no_fail: "fail_job_cycle job w M env err d \<noteq> Inr (d', r)" for err
    using fail_job_cycle_spec [OF assms(4), of job w env err] assms(2) by auto
  with assms(1) obtain h where h: "map_of handlers (cj_job_type job) = Some h"
    by (auto simp: process_one_def split: option.splits)
  with no_fail assms(1,2) have w: "work h job w (d\<lparr>clock := ae_work_now env\<rparr>) = Inr d'"
    by (auto simp: process_one_def result_of_def Let_def split: sum.splits if_splits)
  have "handler_ok h" using assms(3) h by (auto dest!: map_of_SomeD)
  moreover have "context_of job (d\<lparr>clock := ae_work_now env\<rparr>) = context_of job d"
    by (simp add: context_of_def select_lead_state_def)
  ultimately show ?thesis using work_Inr [OF w, of M] h by auto
qed

definition scoring_handler :: "'a handler" where
  "scoring_handler ctx d = Inr (d, Some SCORING)"

definition leased_lead_queue :: queue_db where
  "leased_lead_queue = leased_queue\<lparr>leads := [7 \<mapsto> \<lparr>status = NEW, version = 1, organization_id = 3,
     updated_at = 0\<rparr>], jobs := [leased_row\<lparr>jb_lead_id := Some 7\<rparr>]\<rparr>"

theorem done_moves_lead_as_asked_witness:
  "\<exists>d' r. process_one [(''compute_score'', scoring_handler)]
      (claimed_of (leased_row\<lparr>jb_lead_id := Some 7\<rparr>)) ''w1'' 4 demo_env leased_lead_queue
      = Inr (d', r) \<and> lead_status_of d' 7 = Some SCORING \<and> lead_version d' 7 = Some 2"
proof -
  let ?job = "claimed_of (leased_row\<lparr>jb_lead_id := Some 7\<rparr>)"
  have ok: "handler_ok scoring_handler" by (simp add: handler_ok_def scoring_handler_def)
  have jo: "jobs_ok 4 (jobs leased_lead_queue)"
    by (simp add: jobs_ok_def row_ok_def leased_lead_queue_def leased_row_def)
  have "\<exists>d' r. process_one [(''compute_score'', scoring_handler)] ?job ''w1'' 4 demo_env
      leased_lead_queue = Inr (d', r) \<and> cy_outcome r = Job_Done"
    by (simp add: process_one_def work_def context_of_def select_lead_state_def scoring_handler_def
        claimed_of_def leased_row_def leased_lead_queue_def leased_queue_def complete_job_def
        holds_lease_def apply_transition_def update_lead_status_def result_of_def)
  then obtain d' r where p: "process_one [(''compute_score'', scoring_handler)] ?job ''w1'' 4 demo_env
      leased_lead_queue = Inr (d', r)" and o: "cy_outcome r = Job_Done" by blast
  have all: "\<forall>h \<in> snd ` set [(''compute_score'', scoring_handler)]. handler_ok h" using ok by simp
  have "lead_version leased_lead_queue 7 = Some 1"
    by (simp add: leased_lead_queue_def lead_version_def)
  with done_moves_lead_as_asked [OF p o all jo]
  have "lead_status_of d' 7 = Some SCORING \<and> lead_version d' 7 = Some 2"
    by (auto simp: scoring_handler_def claimed_of_def leased_row_def)
  with p show ?thesis by blast
qed

subsection \<open>A whole cycle\<close>

text \<open>The results a cycle returns for the jobs it claimed, each with what became of its job.\<close>

lemma process_all_spec:
  assumes "\<forall>h \<in> snd ` set handlers. handler_ok h" and "jobs_ok M (jobs d)"
    and "distinct (map cj_job_id js)" and "\<forall>c \<in> set js. holder d (cj_job_id c) w"
  shows "\<exists>d' rs. process_all handlers w M env k js d = Inr (d', rs)
    \<and> map cy_job_id rs = map cj_job_id js \<and> (\<forall>r \<in> set rs. cy_outcome r \<noteq> Lost_Lease)
    \<and> jobs_ok M (jobs d')
    \<and> (\<forall>j v. holder d' j v \<longleftrightarrow> holder d j v \<and> j \<notin> cj_job_id ` set js)"
  using assms(2-4)
proof (induction js arbitrary: d k)
  case Nil
  then show ?case by simp
next
  case (Cons c js)
  from process_one_spec [OF assms(1) Cons.prems(1), of c w "env k"]
  obtain d1 r where p: "process_one handlers c w M (env k) d = Inr (d1, r)" "cy_job_id r = cj_job_id c"
    and held: "cy_outcome r \<noteq> Lost_Lease" and eff: "attempt_effect M c d d1 (cy_outcome r)"
    and same: "other_jobs_same (cj_job_id c) d d1" and ok: "jobs_ok M (jobs d1)"
    using Cons.prems(3) by auto
  note rel = attempt_released [OF eff held same ok]
  have "\<forall>c' \<in> set js. holder d1 (cj_job_id c') w"
    using Cons.prems(2,3) unfolding rel by (auto simp: image_iff)
  from Cons.IH [OF ok _ this, of "Suc k"] Cons.prems(2)
  obtain d2 rs where rest: "process_all handlers w M env (Suc k) js d1 = Inr (d2, rs)"
    "map cy_job_id rs = map cj_job_id js" "\<forall>r \<in> set rs. cy_outcome r \<noteq> Lost_Lease"
    "jobs_ok M (jobs d2)" "\<forall>j v. holder d2 j v \<longleftrightarrow> holder d1 j v \<and> j \<notin> cj_job_id ` set js"
    by auto
  with p held show ?case by (auto simp: rel)
qed

text \<open>
  A worker cycle that no other worker interrupts settles everything it claimed: it returns
  exactly one result per claimed job, in the order of the claim, none of them a lost lease, and
  at its end the worker holds no lease that it did not hold before.
\<close>

theorem worker_cycle_settles_claims:
  assumes "\<forall>h \<in> snd ` set handlers. handler_ok h"
    and "jobs_ok (cr_max_attempts q) (jobs d)" and "claim q py_now skip d = (d1, cs)"
  shows "\<exists>d' rs. run_worker_cycle handlers q py_now skip env d = Inr (d', rs)
    \<and> map cy_job_id rs = map cj_job_id cs \<and> (\<forall>r \<in> set rs. cy_outcome r \<noteq> Lost_Lease)
    \<and> jobs_ok (cr_max_attempts q) (jobs d')
    \<and> (\<forall>c \<in> set cs. \<not> holder d' (cj_job_id c) (cr_worker_id q))"
proof -
  have ok1: "jobs_ok (cr_max_attempts q) (jobs d1)" by (rule claim_ok [OF assms(2) refl assms(3)])
  have "distinct (map cj_job_id cs)" "\<forall>c \<in> set cs. holder d1 (cj_job_id c) (cr_worker_id q)"
    using claim_holds [OF assms(2) refl assms(3)] by (auto simp: holder_def)
  from process_all_spec [OF assms(1) ok1 this, of env 0] assms(3)
  show ?thesis by (auto simp: run_worker_cycle_def)
qed

theorem worker_cycle_settles_claims_witness:
  "\<exists>d' rs. run_worker_cycle [(''compute_score'', idle_handler)] (demo_request ''w1'') 100 {} (\<lambda>_. demo_env)
      pending_queue = Inr (d', rs) \<and> (\<forall>r \<in> set rs. cy_outcome r \<noteq> Lost_Lease)"
proof -
  have h: "\<forall>h \<in> snd ` set [(''compute_score'', idle_handler)]. handler_ok h"
    by (simp add: idle_handler_ok)
  have j: "jobs_ok (cr_max_attempts (demo_request ''w1'')) (jobs pending_queue)"
    by (simp add: demo_request_def pending_queue_ok)
  obtain d1 cs where c: "claim (demo_request ''w1'') 100 {} pending_queue = (d1, cs)"
    by (metis surj_pair)
  from worker_cycle_settles_claims [OF h j c] show ?thesis by blast
qed

end
