(* ===== verification/Review.thy ===== *)
theory Review
  imports Job_Queue
begin

text \<open>
  \<open>arie.approval.workflow\<close>: opening a human review together with the lead's escalation, and
  answering it. The table is a list of rows; its partial unique index (at most one pending
  review per lead, migration 0006) is the arbiter of the insert. Both functions run inside the
  caller's transaction: an exception leaves nothing behind.
\<close>

datatype review_action = Approve | Reject_Lead | Edit

fun review_action_str :: "review_action \<Rightarrow> string" where
  "review_action_str Approve = ''approve''"
| "review_action_str Reject_Lead = ''reject''"
| "review_action_str Edit = ''edit''"

fun FINAL_DECISION :: "review_action \<Rightarrow> string" where
  "FINAL_DECISION Approve = ''auto_route''"
| "FINAL_DECISION Reject_Lead = ''reject''"
| "FINAL_DECISION Edit = ''manual_review''"

record review_row =
  rv_id :: uuid
  rv_organization_id :: uuid
  rv_lead_id :: uuid
  rv_requested_at :: instant
  rv_reviewer :: "string option"
  rv_original_decision :: "string option"
  rv_final_decision :: "string option"
  rv_notes :: "string option"
  rv_responded_at :: "instant option"

record review_db = queue_db +
  reviews :: "review_row list"

record pending_review =
  pv_review_id :: uuid
  pv_created :: bool

record review_record =
  rr_row :: review_row
  rr_lead_status :: lead_status
  rr_lead_version :: int

record decision_result =
  dr_review_id :: uuid
  dr_lead_id :: uuid
  dr_action :: review_action
  dr_final_decision :: string
  dr_reviewer :: string
  dr_notes :: "string option"
  dr_responded_at :: instant
  dr_lead_status :: lead_status
  dr_lead_version :: int
  dr_already_applied :: bool

definition pending :: "review_row \<Rightarrow> bool" where
  "pending r \<longleftrightarrow> rv_responded_at r = None"

definition opt_val :: "string option \<Rightarrow> pyval" where
  "opt_val x = (case x of None \<Rightarrow> VNone | Some s \<Rightarrow> VStr s)"

text \<open>\<open>str(u)\<close> of a UUID, here of the number it is.\<close>

definition uuid_val :: "uuid \<Rightarrow> pyval" where
  "uuid_val u = VStr (py_str_int (int u))"

subsection \<open>Opening a review\<close>

definition insert_review ::
  "uuid \<Rightarrow> uuid \<Rightarrow> uuid \<Rightarrow> string option \<Rightarrow> string option \<Rightarrow> 'a review_db_scheme
     \<Rightarrow> 'a review_db_scheme \<times> pending_review" where
  "insert_review fresh org lead_id reviewer original d =
     (case find (\<lambda>r. rv_lead_id r = lead_id \<and> pending r) (reviews d) of
        Some r \<Rightarrow> (d, \<lparr>pv_review_id = rv_id r, pv_created = False\<rparr>)
      | None \<Rightarrow>
          (d\<lparr>reviews := reviews d @
               [\<lparr>rv_id = fresh, rv_organization_id = org, rv_lead_id = lead_id,
                 rv_requested_at = clock d, rv_reviewer = reviewer, rv_original_decision = original,
                 rv_final_decision = None, rv_notes = None, rv_responded_at = None\<rparr>]\<rparr>,
           \<lparr>pv_review_id = fresh, pv_created = True\<rparr>))"

definition request_review ::
  "uuid \<Rightarrow> uuid \<Rightarrow> uuid \<Rightarrow> int \<Rightarrow> string option \<Rightarrow> string option \<Rightarrow> string option
     \<Rightarrow> 'a review_db_scheme \<Rightarrow> error + 'a review_db_scheme \<times> pending_review" where
  "request_review fresh lead_id org expected original reviewer reason d =
     sum_bind (apply_transition lead_id expected AWAITING_HUMAN ''lead:escalated''
         ((''original_decision'', opt_val original)
            # (case reason of None \<Rightarrow> [] | Some x \<Rightarrow> [(''reason'', VStr x)])) d)
       (\<lambda>(d', _). Inr (insert_review fresh org lead_id reviewer original d'))"

subsection \<open>Reading and answering a review\<close>

definition get_review :: "uuid \<Rightarrow> uuid \<Rightarrow> 'a review_db_scheme \<Rightarrow> review_record option" where
  "get_review review_id org d =
     (case find (\<lambda>r. rv_id r = review_id \<and> rv_organization_id r = org \<and> leads d (rv_lead_id r) \<noteq> None)
             (reviews d) of
        None \<Rightarrow> None
      | Some r \<Rightarrow>
          (case leads d (rv_lead_id r) of
             None \<Rightarrow> None
           | Some l \<Rightarrow> Some \<lparr>rr_row = r, rr_lead_status = status l, rr_lead_version = version l\<rparr>))"

text \<open>\<open>UPDATE human_reviews ... WHERE review_id AND organization_id AND responded_at IS NULL
  RETURNING lead_id, responded_at\<close>\<close>

definition answerable :: "uuid \<Rightarrow> uuid \<Rightarrow> review_row \<Rightarrow> bool" where
  "answerable review_id org r \<longleftrightarrow> rv_id r = review_id \<and> rv_organization_id r = org \<and> pending r"

definition complete_review ::
  "uuid \<Rightarrow> uuid \<Rightarrow> string \<Rightarrow> string \<Rightarrow> string option \<Rightarrow> 'a review_db_scheme
     \<Rightarrow> ('a review_db_scheme \<times> uuid \<times> instant) option" where
  "complete_review review_id org reviewer final notes d =
     (case find (answerable review_id org) (reviews d) of
        None \<Rightarrow> None
      | Some r \<Rightarrow>
          Some (d\<lparr>reviews := map (\<lambda>x. if answerable review_id org x
                   then x\<lparr>rv_reviewer := Some reviewer, rv_final_decision := Some final,
                          rv_notes := notes, rv_responded_at := Some (clock d)\<rparr>
                   else x) (reviews d)\<rparr>, rv_lead_id r, clock d))"

definition apply_winning_decision ::
  "uuid \<Rightarrow> uuid \<Rightarrow> instant \<Rightarrow> review_action \<Rightarrow> string \<Rightarrow> string \<Rightarrow> string option \<Rightarrow> int
     \<Rightarrow> 'a review_db_scheme \<Rightarrow> error + 'a review_db_scheme \<times> decision_result" where
  "apply_winning_decision review_id lead_id responded_at action final reviewer notes expected d =
     sum_bind (next_status AWAITING_HUMAN (Some final)) (\<lambda>next.
       case next of
         None \<Rightarrow> Inl AssertionError
       | Some new_status \<Rightarrow>
           sum_bind (apply_transition lead_id expected new_status ''human_review:decided''
               [(''review_id'', uuid_val review_id), (''action'', VStr (review_action_str action)),
                (''reviewer'', VStr reviewer)] d)
             (\<lambda>(d', new_version).
               Inr (d', \<lparr>dr_review_id = review_id, dr_lead_id = lead_id, dr_action = action,
                         dr_final_decision = final, dr_reviewer = reviewer, dr_notes = notes,
                         dr_responded_at = responded_at, dr_lead_status = new_status,
                         dr_lead_version = new_version, dr_already_applied = False\<rparr>)))"

definition resolve_lost_race ::
  "uuid \<Rightarrow> uuid \<Rightarrow> review_action \<Rightarrow> string \<Rightarrow> string \<Rightarrow> string option \<Rightarrow> 'a review_db_scheme
     \<Rightarrow> error + decision_result" where
  "resolve_lost_race review_id org action final reviewer notes d =
     (case get_review review_id org d of
        None \<Rightarrow> Inl (ReviewNotFoundError review_id)
      | Some existing \<Rightarrow>
          (case rv_responded_at (rr_row existing) of
             None \<Rightarrow> Inl AssertionError
           | Some answered \<Rightarrow>
               if rv_final_decision (rr_row existing) \<noteq> Some final
                  \<or> rv_reviewer (rr_row existing) \<noteq> Some reviewer
                  \<or> rv_notes (rr_row existing) \<noteq> notes
               then Inl (ReviewConflictError review_id)
               else Inr \<lparr>dr_review_id = review_id, dr_lead_id = rv_lead_id (rr_row existing),
                         dr_action = action, dr_final_decision = final, dr_reviewer = reviewer,
                         dr_notes = notes, dr_responded_at = answered,
                         dr_lead_status = rr_lead_status existing,
                         dr_lead_version = rr_lead_version existing, dr_already_applied = True\<rparr>))"

definition submit_decision ::
  "uuid \<Rightarrow> uuid \<Rightarrow> review_action \<Rightarrow> string \<Rightarrow> string option \<Rightarrow> int \<Rightarrow> 'a review_db_scheme
     \<Rightarrow> error + 'a review_db_scheme \<times> decision_result" where
  "submit_decision review_id org action reviewer notes expected d =
     (let final = FINAL_DECISION action
      in case complete_review review_id org reviewer final notes d of
           None \<Rightarrow> sum_bind (resolve_lost_race review_id org action final reviewer notes d)
                     (\<lambda>res. Inr (d, res))
         | Some (d', lead_id, responded_at) \<Rightarrow>
             apply_winning_decision review_id lead_id responded_at action final reviewer notes
               expected d')"

subsection \<open>The invariant of the review table\<close>

definition reviews_ok :: "review_row list \<Rightarrow> bool" where
  "reviews_ok rows \<longleftrightarrow>
     distinct (map rv_id rows) \<and> distinct (map rv_lead_id (filter pending rows))"

lemma reviews_ok_unique:
  "reviews_ok rows \<Longrightarrow> r \<in> set rows \<Longrightarrow> r' \<in> set rows \<Longrightarrow> rv_id r = rv_id r' \<Longrightarrow> r = r'"
  by (auto simp: reviews_ok_def distinct_map dest: inj_onD)

lemma insert_review_ok:
  assumes "reviews_ok (reviews d)" and "fresh \<notin> rv_id ` set (reviews d)"
    and "insert_review fresh org lead_id reviewer original d = (d', pv)"
  shows "reviews_ok (reviews d')"
proof (cases "find (\<lambda>r. rv_lead_id r = lead_id \<and> pending r) (reviews d)")
  case None
  then have no: "\<forall>r \<in> set (reviews d). \<not> (rv_lead_id r = lead_id \<and> pending r)"
    by (auto simp: find_None_iff)
  obtain r where "reviews d' = reviews d @ [r]" "rv_id r = fresh" "rv_lead_id r = lead_id"
    using None assms(3) by (auto simp: insert_review_def)
  with assms(1,2) no show ?thesis by (auto simp: reviews_ok_def)
next
  case (Some r)
  with assms show ?thesis by (simp add: insert_review_def)
qed

lemma request_review_ok:
  assumes "reviews_ok (reviews d)" and "fresh \<notin> rv_id ` set (reviews d)"
    and "request_review fresh lead_id org expected original reviewer reason d = Inr (d', pv)"
  shows "reviews_ok (reviews d')"
proof -
  obtain d1 v where t: "apply_transition lead_id expected AWAITING_HUMAN ''lead:escalated''
      ((''original_decision'', opt_val original)
         # (case reason of None \<Rightarrow> [] | Some x \<Rightarrow> [(''reason'', VStr x)])) d = Inr (d1, v)"
    and i: "insert_review fresh org lead_id reviewer original d1 = (d', pv)"
    using assms(3) by (auto simp: request_review_def sum_bind_Inr)
  have "reviews d1 = reviews d" using t by (auto simp: apply_transition_ok)
  with insert_review_ok [OF _ _ i] assms(1,2) show ?thesis by simp
qed

lemma distinct_map_filter_sub:
  "distinct (map f (filter P xs)) \<Longrightarrow> (\<And>x. x \<in> set xs \<Longrightarrow> f (g x) = f x)
    \<Longrightarrow> (\<And>x. x \<in> set xs \<Longrightarrow> Q (g x) \<Longrightarrow> P x) \<Longrightarrow> distinct (map f (filter Q (map g xs)))"
proof (induction xs)
  case (Cons x xs)
  have "f ` {y \<in> g ` set xs. Q y} \<subseteq> f ` {y \<in> set xs. P y}"
    using Cons.prems(2,3) by auto
  with Cons show ?case by (auto split: if_splits)
qed simp

lemma complete_review_ok:
  assumes "reviews_ok (reviews d)" and "complete_review i org w f n d = Some (d', l, t)"
  shows "reviews_ok (reviews d')"
proof -
  let ?g = "\<lambda>x. if answerable i org x then x\<lparr>rv_reviewer := Some w, rv_final_decision := Some f,
    rv_notes := n, rv_responded_at := Some (clock d)\<rparr> else x"
  have "distinct (map rv_lead_id (filter pending (map ?g (reviews d))))"
    using assms(1) unfolding reviews_ok_def
    by (elim conjE, intro distinct_map_filter_sub [where P = pending]) (auto simp: pending_def split: if_splits)
  moreover have "map rv_id (map ?g (reviews d)) = map rv_id (reviews d)" by simp
  ultimately have "reviews_ok (map ?g (reviews d))"
    using assms(1) unfolding reviews_ok_def by metis
  with assms(2) show ?thesis by (auto simp: complete_review_def split: option.splits)
qed

subsection \<open>Answering once\<close>

lemma complete_review_Some:
  assumes "reviews_ok (reviews d)" and "complete_review i org w f n d = Some (d', l, t)"
  obtains r where "r \<in> set (reviews d)" "answerable i org r" "l = rv_lead_id r" "t = clock d"
    "r\<lparr>rv_reviewer := Some w, rv_final_decision := Some f, rv_notes := n,
       rv_responded_at := Some (clock d)\<rparr> \<in> set (reviews d')"
    "clock d' = clock d" "leads d' = leads d" "lead_events d' = lead_events d" "jobs d' = jobs d"
proof -
  obtain r where r: "find (answerable i org) (reviews d) = Some r"
    using assms(2) by (auto simp: complete_review_def split: option.splits)
  then have mem: "r \<in> set (reviews d)" "answerable i org r" by (auto simp: find_Some_iff)
  let ?g = "\<lambda>x. if answerable i org x then x\<lparr>rv_reviewer := Some w, rv_final_decision := Some f,
    rv_notes := n, rv_responded_at := Some (clock d)\<rparr> else x"
  from assms(2) r have d': "d' = d\<lparr>reviews := map ?g (reviews d)\<rparr>" "l = rv_lead_id r" "t = clock d"
    by (simp_all add: complete_review_def)
  have "?g r \<in> set (map ?g (reviews d))" using mem(1) by simp
  with mem(2) have "r\<lparr>rv_reviewer := Some w, rv_final_decision := Some f, rv_notes := n,
       rv_responded_at := Some (clock d)\<rparr> \<in> set (reviews d')"
    by (simp add: d')
  then show ?thesis by (rule that [OF mem d'(2,3)]) (simp_all add: d')
qed

lemma find_unique_id:
  assumes "reviews_ok rows" and "r \<in> set rows" and "P r" and "\<And>x. P x \<Longrightarrow> rv_id x = rv_id r"
  shows "find P rows = Some r"
proof (cases "find P rows")
  case None
  with assms(2,3) show ?thesis by (auto simp: find_None_iff)
next
  case (Some x)
  then have "x \<in> set rows" "P x" by (auto simp: find_Some_iff)
  with Some assms reviews_ok_unique show ?thesis by metis
qed

lemma get_review_find:
  assumes "reviews_ok (reviews d)" and "r \<in> set (reviews d)" and "rv_id r = i"
    and "rv_organization_id r = org" and "leads d (rv_lead_id r) = Some lead"
  shows "get_review i org d = Some \<lparr>rr_row = r, rr_lead_status = status lead, rr_lead_version = version lead\<rparr>"
proof -
  have "find (\<lambda>r. rv_id r = i \<and> rv_organization_id r = org \<and> leads d (rv_lead_id r) \<noteq> None) (reviews d)
      = Some r"
    by (rule find_unique_id [OF assms(1,2)]) (use assms in auto)
  with assms(5) show ?thesis by (simp add: get_review_def)
qed

lemma answered_not_answerable:
  assumes "reviews_ok (reviews d)" and "r \<in> set (reviews d)" and "rv_id r = i" and "\<not> pending r"
  shows "complete_review i org w f n d = None"
proof -
  have "\<not> answerable i org x" if "x \<in> set (reviews d)" for x
    using assms reviews_ok_unique [OF assms(1) that assms(2)] by (auto simp: answerable_def)
  then have "find (answerable i org) (reviews d) = None" by (simp add: find_None_iff)
  then show ?thesis by (simp add: complete_review_def)
qed

text \<open>What an accepted answer did, from the state before to the state after.\<close>

lemma submit_decision_won:
  assumes "reviews_ok (reviews d)" and "submit_decision i org action w n expected d = Inr (d', res)"
    and "\<not> dr_already_applied res"
  obtains r where "r \<in> set (reviews d)" "answerable i org r"
    "r\<lparr>rv_reviewer := Some w, rv_final_decision := Some (FINAL_DECISION action), rv_notes := n,
       rv_responded_at := Some (clock d)\<rparr> \<in> set (reviews d')"
    "reviews_ok (reviews d')" "clock d' = clock d"
    "next_status AWAITING_HUMAN (Some (FINAL_DECISION action)) = Inr (Some (dr_lead_status res))"
    "lead_version d (rv_lead_id r) = Some expected"
    "lead_version d' (rv_lead_id r) = Some (expected + 1)"
    "lead_status_of d' (rv_lead_id r) = Some (dr_lead_status res)"
    "length (lead_events d') = Suc (length (lead_events d))"
    "\<forall>j. j \<noteq> rv_lead_id r \<longrightarrow> leads d' j = leads d j"
    "res = \<lparr>dr_review_id = i, dr_lead_id = rv_lead_id r, dr_action = action,
       dr_final_decision = FINAL_DECISION action, dr_reviewer = w, dr_notes = n,
       dr_responded_at = clock d, dr_lead_status = dr_lead_status res,
       dr_lead_version = expected + 1, dr_already_applied = False\<rparr>"
proof (cases "complete_review i org w (FINAL_DECISION action) n d")
  case None
  with assms(2,3) show ?thesis
    by (auto simp: submit_decision_def Let_def sum_bind_Inr resolve_lost_race_def
        split: option.splits if_splits)
next
  case (Some x)
  obtain d1 l t where x: "x = (d1, l, t)" by (metis prod.exhaust)
  note c = Some [unfolded x]
  have ok1: "reviews_ok (reviews d1)" by (rule complete_review_ok [OF assms(1) c])
  obtain r where r: "r \<in> set (reviews d)" "answerable i org r" "l = rv_lead_id r" "t = clock d"
    "r\<lparr>rv_reviewer := Some w, rv_final_decision := Some (FINAL_DECISION action), rv_notes := n,
       rv_responded_at := Some (clock d)\<rparr> \<in> set (reviews d1)"
    "clock d1 = clock d" "leads d1 = leads d" "lead_events d1 = lead_events d"
    using complete_review_Some [OF assms(1) c] by metis
  from assms(2) c r obtain st pl where
    st: "next_status AWAITING_HUMAN (Some (FINAL_DECISION action)) = Inr (Some st)"
    and t: "apply_transition (rv_lead_id r) expected st ''human_review:decided'' pl d1
      = Inr (d', dr_lead_version res)"
    and res: "res = \<lparr>dr_review_id = i, dr_lead_id = rv_lead_id r, dr_action = action,
       dr_final_decision = FINAL_DECISION action, dr_reviewer = w, dr_notes = n,
       dr_responded_at = clock d, dr_lead_status = st,
       dr_lead_version = dr_lead_version res, dr_already_applied = False\<rparr>"
    by (auto simp: submit_decision_def Let_def apply_winning_decision_def sum_bind_Inr
        split: option.splits)
  from t r ok1 show ?thesis
    by (intro that [OF r(1,2)])
      (subst res | use st res in \<open>auto simp: apply_transition_ok lead_version_def lead_status_of_def\<close>)+
qed

lemma resolve_recorded:
  assumes "reviews_ok (reviews d)" and "r \<in> set (reviews d)" and "rv_id r = i"
    and "rv_organization_id r = org" and "rv_responded_at r = Some t"
    and "leads d (rv_lead_id r) = Some lead"
  shows "submit_decision i org action w n v d =
    (if rv_final_decision r = Some (FINAL_DECISION action) \<and> rv_reviewer r = Some w \<and> rv_notes r = n
     then Inr (d, \<lparr>dr_review_id = i, dr_lead_id = rv_lead_id r, dr_action = action,
       dr_final_decision = FINAL_DECISION action, dr_reviewer = w, dr_notes = n,
       dr_responded_at = t, dr_lead_status = status lead, dr_lead_version = version lead,
       dr_already_applied = True\<rparr>)
     else Inl (ReviewConflictError i))"
proof -
  have "complete_review i org w (FINAL_DECISION action) n d = None"
    by (rule answered_not_answerable [OF assms(1-3)]) (simp add: pending_def assms(5))
  with get_review_find [OF assms(1-4,6)] assms(5) show ?thesis
    by (simp add: submit_decision_def resolve_lost_race_def Let_def)
qed

lemma FINAL_DECISION_inject [simp]: "FINAL_DECISION a = FINAL_DECISION b \<longleftrightarrow> a = b"
  by (cases a; cases b) simp_all

text \<open>
  C8. A review is answered once. After an answer was applied, submitting the same answer again,
  with whatever lead version, returns the same result marked as already applied and changes
  nothing; submitting any other answer is refused with ReviewConflictError.
\<close>

theorem review_answered_once:
  assumes "reviews_ok (reviews d)" and "submit_decision i org action w n expected d = Inr (d', res)"
    and "\<not> dr_already_applied res"
  shows "submit_decision i org action w n v d' = Inr (d', res\<lparr>dr_already_applied := True\<rparr>)
    \<and> ((action', w', n') \<noteq> (action, w, n) \<longrightarrow>
        submit_decision i org action' w' n' v d' = Inl (ReviewConflictError i))"
  using assms
proof (rule submit_decision_won)
  fix r :: review_row
  let ?r = "r\<lparr>rv_reviewer := Some w, rv_final_decision := Some (FINAL_DECISION action), rv_notes := n,
       rv_responded_at := Some (clock d)\<rparr>"
  assume mem: "?r \<in> set (reviews d')" and ok: "reviews_ok (reviews d')" and ans: "answerable i org r"
    and v: "lead_version d' (rv_lead_id r) = Some (expected + 1)"
    and st: "lead_status_of d' (rv_lead_id r) = Some (dr_lead_status res)"
    and res: "res = \<lparr>dr_review_id = i, dr_lead_id = rv_lead_id r, dr_action = action,
       dr_final_decision = FINAL_DECISION action, dr_reviewer = w, dr_notes = n,
       dr_responded_at = clock d, dr_lead_status = dr_lead_status res,
       dr_lead_version = expected + 1, dr_already_applied = False\<rparr>"
  obtain lead where lead: "leads d' (rv_lead_id ?r) = Some lead" "version lead = expected + 1"
    "status lead = dr_lead_status res"
    using v st by (auto simp: lead_version_def lead_status_of_def)
  have ids: "rv_id ?r = i" "rv_organization_id ?r = org" "rv_responded_at ?r = Some (clock d)"
    using ans by (simp_all add: answerable_def)
  have again: "res\<lparr>dr_already_applied := True\<rparr> = \<lparr>dr_review_id = i, dr_lead_id = rv_lead_id r,
       dr_action = action, dr_final_decision = FINAL_DECISION action, dr_reviewer = w, dr_notes = n,
       dr_responded_at = clock d, dr_lead_status = status lead,
       dr_lead_version = version lead, dr_already_applied = True\<rparr>"
    by (subst res) (simp add: lead)
  show ?thesis
    unfolding resolve_recorded [OF ok mem ids lead(1)] again by auto
qed

definition review_demo :: review_db where
  "review_demo =
     \<lparr>clock = 100, leads = [7 \<mapsto> \<lparr>status = AWAITING_HUMAN, version = 6, organization_id = 3,
        updated_at = 90\<rparr>], lead_events = [], jobs = [],
      reviews = [\<lparr>rv_id = 1, rv_organization_id = 3, rv_lead_id = 7, rv_requested_at = 90,
        rv_reviewer = None, rv_original_decision = Some ''auto_route'', rv_final_decision = None,
        rv_notes = None, rv_responded_at = None\<rparr>]\<rparr>"

lemma review_demo_ok: "reviews_ok (reviews review_demo)"
  by (simp add: reviews_ok_def review_demo_def pending_def)

lemma review_demo_submit:
  "\<exists>d' res. submit_decision 1 3 Approve ''ana'' None 6 review_demo = Inr (d', res)
     \<and> \<not> dr_already_applied res \<and> dr_lead_status res = AUTO_ROUTED"
  by (simp add: submit_decision_def complete_review_def answerable_def pending_def review_demo_def
      apply_winning_decision_def next_status_AWAITING_HUMAN [THEN iffD2] apply_transition_def
      update_lead_status_def insert_lead_event_def Let_def)

theorem review_answered_once_witness:
  "\<exists>d' res. submit_decision 1 3 Approve ''ana'' None 6 review_demo = Inr (d', res)
     \<and> submit_decision 1 3 Approve ''ana'' None 0 d' = Inr (d', res\<lparr>dr_already_applied := True\<rparr>)
     \<and> submit_decision 1 3 Reject_Lead ''ana'' None 0 d' = Inl (ReviewConflictError 1)"
proof -
  obtain d' res where r: "submit_decision 1 3 Approve ''ana'' None 6 review_demo = Inr (d', res)"
    "\<not> dr_already_applied res" using review_demo_submit by blast
  from review_answered_once [OF review_demo_ok r, of 0 Reject_Lead "''ana''" None] r show ?thesis by auto
qed

text \<open>
  What an answer does to the lead: it is applied only when the lead is at the version the
  reviewer saw, it moves exactly that lead, by one version, to the state its action stands for,
  with one event, whatever the other leads are; at any other version it is refused and, the
  transaction being rolled back, the review stays open.
\<close>

theorem review_moves_its_lead:
  assumes "reviews_ok (reviews d)" and "r \<in> set (reviews d)" and "rv_id r = i"
    and "rv_organization_id r = org" and "pending r"
  shows "case submit_decision i org action w n expected d of
      Inl e \<Rightarrow> lead_version d (rv_lead_id r) \<noteq> Some expected
        \<and> e = OptimisticConcurrencyError (rv_lead_id r) expected
    | Inr (d', res) \<Rightarrow> lead_version d (rv_lead_id r) = Some expected
        \<and> lead_version d' (rv_lead_id r) = Some (expected + 1)
        \<and> lead_status_of d' (rv_lead_id r) =
            Some (case action of Approve \<Rightarrow> AUTO_ROUTED | Reject_Lead \<Rightarrow> SYNCED | Edit \<Rightarrow> MANUAL_REVIEW)
        \<and> length (lead_events d') = Suc (length (lead_events d))
        \<and> (\<forall>j. j \<noteq> rv_lead_id r \<longrightarrow> leads d' j = leads d j)"
proof -
  have "find (answerable i org) (reviews d) = Some r"
    by (rule find_unique_id [OF assms(1,2)]) (use assms in \<open>auto simp: answerable_def\<close>)
  then obtain d1 where c: "complete_review i org w (FINAL_DECISION action) n d = Some (d1, rv_lead_id r, clock d)"
    and d1: "leads d1 = leads d" "lead_events d1 = lead_events d"
    by (auto simp: complete_review_def)
  let ?st = "case action of Approve \<Rightarrow> AUTO_ROUTED | Reject_Lead \<Rightarrow> SYNCED | Edit \<Rightarrow> MANUAL_REVIEW"
  have st: "next_status AWAITING_HUMAN (Some (FINAL_DECISION action)) = Inr (Some ?st)"
    by (cases action) (simp_all add: next_status_AWAITING_HUMAN)
  let ?pl = "[(''review_id'', uuid_val i), (''action'', VStr (review_action_str action)),
    (''reviewer'', VStr w)]"
  show ?thesis
  proof (cases "apply_transition (rv_lead_id r) expected ?st ''human_review:decided'' ?pl d1")
    case (Inl e)
    then have "submit_decision i org action w n expected d = Inl e"
      using c st by (simp add: submit_decision_def apply_winning_decision_def Let_def)
    with Inl d1 show ?thesis by (auto simp: apply_transition_stale lead_version_def)
  next
    case (Inr x)
    obtain d' v where x: "x = (d', v)" by fastforce
    then obtain res where "submit_decision i org action w n expected d = Inr (d', res)"
      using c st Inr by (simp add: submit_decision_def apply_winning_decision_def Let_def)
    with Inr x d1 show ?thesis
      by (auto simp: apply_transition_ok lead_version_def lead_status_of_def)
  qed
qed

theorem review_moves_its_lead_witness:
  "case submit_decision 1 3 Edit ''ana'' None 5 review_demo of
      Inl e \<Rightarrow> e = OptimisticConcurrencyError 7 5 | Inr _ \<Rightarrow> False"
proof -
  obtain r where r: "r \<in> set (reviews review_demo)" "rv_id r = 1" "rv_organization_id r = 3" "pending r"
    "rv_lead_id r = 7" by (simp add: review_demo_def pending_def)
  have "lead_version review_demo 7 = Some 6" by (simp add: lead_version_def review_demo_def)
  with review_moves_its_lead [OF review_demo_ok r(1-4), where action = Edit
      and w = "''ana''" and n = None and expected = 5] r(5) show ?thesis
    by (auto split: sum.splits)
qed

text \<open>
  Tenant isolation: a review that no row of the caller's organization carries can be neither
  read nor answered. Reading gives nothing and answering is refused as not found, exactly as for
  an id that does not exist, and the database is unchanged.
\<close>

theorem review_tenant_isolation:
  assumes "\<forall>r \<in> set (reviews d). rv_id r = i \<longrightarrow> rv_organization_id r \<noteq> org"
  shows "get_review i org d = None
    \<and> submit_decision i org action w n expected d = Inl (ReviewNotFoundError i)"
proof -
  have "find (\<lambda>r. rv_id r = i \<and> rv_organization_id r = org \<and> leads d (rv_lead_id r) \<noteq> None)
      (reviews d) = None"
    using assms by (auto simp: find_None_iff)
  then have g: "get_review i org d = None" by (simp add: get_review_def)
  have "find (answerable i org) (reviews d) = None"
    using assms by (auto simp: find_None_iff answerable_def)
  with g show ?thesis
    by (simp add: submit_decision_def complete_review_def resolve_lost_race_def Let_def)
qed

theorem review_tenant_isolation_witness:
  "get_review 1 4 review_demo = None
   \<and> submit_decision 1 4 Approve ''eve'' None 6 review_demo = Inl (ReviewNotFoundError 1)"
  by (rule review_tenant_isolation) (simp add: review_demo_def)

subsection \<open>One pending review per lead\<close>

inductive review_step :: "'a review_db_scheme \<Rightarrow> 'a review_db_scheme \<Rightarrow> bool" where
  requested: "fresh \<notin> rv_id ` set (reviews d)
    \<Longrightarrow> request_review fresh lead_id org expected original reviewer reason d = Inr (d', pv)
    \<Longrightarrow> review_step d d'"
| submitted: "submit_decision i org action w n expected d = Inr (d', res) \<Longrightarrow> review_step d d'"

lemma submit_decision_ok:
  assumes "reviews_ok (reviews d)" and "submit_decision i org action w n expected d = Inr (d', res)"
  shows "reviews_ok (reviews d')"
proof (cases "dr_already_applied res")
  case False
  from assms this show ?thesis by (rule submit_decision_won) simp
next
  case True
  with assms show ?thesis
    by (auto simp: submit_decision_def Let_def apply_winning_decision_def sum_bind_Inr
        split: option.splits)
qed

lemma review_step_ok: "review_step d d' \<Longrightarrow> reviews_ok (reviews d) \<Longrightarrow> reviews_ok (reviews d')"
  by (induction rule: review_step.induct) (auto intro: request_review_ok submit_decision_ok)

inductive_simps review_step_iff: "review_step d d'"

inductive review_run :: "'a review_db_scheme \<Rightarrow> 'a review_db_scheme \<Rightarrow> bool" where
  begun: "review_run d d"
| continued: "review_run d d' \<Longrightarrow> review_step d' d'' \<Longrightarrow> review_run d d''"

lemma review_run_ok: "review_run d d' \<Longrightarrow> reviews_ok (reviews d) \<Longrightarrow> reviews_ok (reviews d')"
  by (induction rule: review_run.induct) (auto intro: review_step_ok)

text \<open>
  Whatever sequence of escalations and answers ran, a lead never has two open reviews, and
  review ids stay unique; an escalation that finds one open returns that one.
\<close>

theorem one_pending_review_per_lead:
  assumes "review_run d d'" and "reviews d = []"
    and "r \<in> set (reviews d')" and "r' \<in> set (reviews d')"
    and "pending r" and "pending r'" and "rv_lead_id r = rv_lead_id r'"
  shows "r = r'"
proof -
  have "distinct (map rv_lead_id (filter pending (reviews d')))"
    using review_run_ok [OF assms(1)] assms(2) by (simp add: reviews_ok_def)
  with assms(3-7) show ?thesis by (auto simp: distinct_map dest: inj_onD)
qed

definition escalation_demo :: review_db where
  "escalation_demo = review_demo\<lparr>leads := [7 \<mapsto> \<lparr>status = DECISION, version = 5,
     organization_id = 3, updated_at = 90\<rparr>], reviews := []\<rparr>"

theorem one_pending_review_per_lead_witness:
  "\<exists>d' r. review_run escalation_demo d' \<and> r \<in> set (reviews d') \<and> pending r
     \<and> (\<forall>r' \<in> set (reviews d'). pending r' \<and> rv_lead_id r' = rv_lead_id r \<longrightarrow> r' = r)"
proof -
  have "\<exists>d' pv. request_review 1 7 3 5 (Some ''reject'') None None escalation_demo = Inr (d', pv)
      \<and> (\<exists>r \<in> set (reviews d'). pending r)"
    by (simp add: request_review_def apply_transition_def update_lead_status_def
        insert_lead_event_def insert_review_def escalation_demo_def review_demo_def pending_def)
  then obtain d' pv r where rq: "request_review 1 7 3 5 (Some ''reject'') None None escalation_demo = Inr (d', pv)"
    and r: "r \<in> set (reviews d')" "pending r" by blast
  have e: "reviews escalation_demo = []" by (simp add: escalation_demo_def)
  have "review_step escalation_demo d'"
    by (rule review_step.requested [OF _ rq]) (simp add: e)
  then have run: "review_run escalation_demo d'"
    by (rule review_run.continued [OF review_run.begun])
  have "r' = r" if "r' \<in> set (reviews d')" "pending r'" "rv_lead_id r' = rv_lead_id r" for r'
    by (rule one_pending_review_per_lead [OF run e that(1) r(1) that(2) r(2) that(3)])
  with run r show ?thesis by blast
qed

end
