(* ===== verification/Live_Safety.thy ===== *)
theory Live_Safety
  imports Review Policy
begin

text \<open>
  \<open>arie.live.safety\<close>, and the decision end of \<open>arie.jobs.handlers\<close>: the walk of a new lead
  through the scaffold states, the branch of the DECISION node (shadow, guarded, routed), and
  the simulated \<open>compute_score\<close> handler that joins them to the shipped policy. The decision
  receipt's JSON snapshot and the tracing spans are not modelled.
\<close>

subsection \<open>The live autonomy guard\<close>

definition LIVE_AUTONOMY_ENABLED :: bool where
  "LIVE_AUTONOMY_ENABLED = False"

definition LIVE_GUARD_REASON :: string where
  "LIVE_GUARD_REASON = ''live_autonomy_not_validated''"

definition AUTONOMY_SUPPRESSED_ROUTE :: string where
  "AUTONOMY_SUPPRESSED_ROUTE = ''escalate_human''"

definition PERMITTED_LIVE_STATUSES :: "lead_status set" where
  "PERMITTED_LIVE_STATUSES = {AWAITING_HUMAN, SHADOW_EVALUATED}"

definition FORBIDDEN_LIVE_STATUSES :: "lead_status set" where
  "FORBIDDEN_LIVE_STATUSES = {AUTO_ROUTED, ROUTED, SYNCED, MANUAL_REVIEW}"

definition autonomy_allowed_for :: "string \<Rightarrow> bool" where
  "autonomy_allowed_for provider_mode =
     (if provider_mode = ''simulated'' then True else LIVE_AUTONOMY_ENABLED)"

definition guarded_route :: "decision \<Rightarrow> bool \<Rightarrow> bool \<Rightarrow> string" where
  "guarded_route d autonomous autonomy_allowed =
     (if \<not> autonomy_allowed then AUTONOMY_SUPPRESSED_ROUTE
      else if \<not> autonomous \<or> d = ESCALATE_HUMAN then AUTONOMY_SUPPRESSED_ROUTE
      else decision_str d)"

definition verify_live_status :: "lead_status \<Rightarrow> error + lead_status" where
  "verify_live_status s =
     (if s \<in> FORBIDDEN_LIVE_STATUSES then Inl (LiveAutonomyViolationError s) else Inr s)"

definition decision_route :: "decision \<Rightarrow> bool \<Rightarrow> string" where
  "decision_route d autonomous = guarded_route d autonomous True"

subsection \<open>The scaffold walk and the DECISION branch\<close>

text \<open>
  Advance to DECISION, one audited transition per hop; \<open>payloads\<close> gives the event payload of
  the state entered (\<open>\<lambda>_. []\<close> in \<open>_walk_to_decision\<close>).
\<close>

function walk_to_decision ::
  "(lead_status \<Rightarrow> payload) \<Rightarrow> uuid \<Rightarrow> lead_status \<Rightarrow> int \<Rightarrow> 'a db_scheme \<Rightarrow> error + 'a db_scheme \<times> int" where
  "walk_to_decision payloads lead_id s v d =
     (if s = DECISION then Inr (d, v)
      else
        (case next_status s None of
           Inl e \<Rightarrow> Inl e
         | Inr None \<Rightarrow> Inl AssertionError
         | Inr (Some t) \<Rightarrow>
             (case apply_transition lead_id v t (''policy:'' @ py_lower (lead_status_str t)) (payloads t) d of
                Inl e \<Rightarrow> Inl e
              | Inr (d', v') \<Rightarrow> walk_to_decision payloads lead_id t v' d')))"
  by pat_completeness auto
termination
  by (relation "measure (\<lambda>(_, _, s, _). steps_left s)")
    (auto intro: advance_steps_left advance.intros)

declare walk_to_decision.simps [simp del]

definition finalize_decision ::
  "uuid \<Rightarrow> uuid \<Rightarrow> uuid \<Rightarrow> int \<Rightarrow> decision \<Rightarrow> bool \<Rightarrow> bool \<Rightarrow> bool
     \<Rightarrow> 'a review_db_scheme \<Rightarrow> error + 'a review_db_scheme \<times> lead_status" where
  "finalize_decision fresh lead_id org v dec autonomous is_shadow autonomy_allowed d =
     (if is_shadow then
        sum_bind (apply_transition lead_id v SHADOW_EVALUATED ''policy:shadow_evaluated''
            [(''decision'', VStr (decision_str dec)), (''autonomous'', VBool autonomous),
             (''autonomy_allowed'', VBool autonomy_allowed)] d)
          (\<lambda>(d', _). Inr (d', SHADOW_EVALUATED))
      else
        (let route = guarded_route dec autonomous autonomy_allowed
         in if route = ''escalate_human'' then
              sum_bind (request_review fresh lead_id org v (Some (decision_str dec)) None
                  (if autonomy_allowed then None else Some LIVE_GUARD_REASON) d)
                (\<lambda>(d', _). Inr (d', AWAITING_HUMAN))
            else
              sum_bind (next_status DECISION (Some route)) (\<lambda>final.
                case final of
                  None \<Rightarrow> Inl AssertionError
                | Some s \<Rightarrow>
                    sum_bind (apply_transition lead_id v s ''policy:decided''
                        [(''decision'', VStr (decision_str dec)), (''route'', VStr route)] d)
                      (\<lambda>(d', _). Inr (d', s)))))"

subsection \<open>The simulated handler\<close>

record score_row =
  sc_organization_id :: uuid
  sc_lead_id :: uuid
  sc_total_score :: real
  sc_confidence :: real
  sc_breakdown :: "(string \<times> real) list"
  sc_model_version :: string

record receipt_row =
  rc_organization_id :: uuid
  rc_lead_id :: uuid
  rc_decision :: string
  rc_autonomous :: bool
  rc_confidence :: real
  rc_tau :: real
  rc_score_value :: real
  rc_score_lower :: real
  rc_score_upper :: real
  rc_stop_reason :: string
  rc_policy_name :: string
  rc_scorer_version :: string
  rc_icp_profile_id :: "uuid option"
  rc_icp_profile_version :: "int option"

record decision_db = review_db +
  scores :: "score_row list"
  receipts :: "receipt_row list"

record lead_identity =
  li_person_id :: uuid
  li_company_id :: uuid
  li_organization_id :: uuid
  li_email :: string
  li_domain :: "string option"
  li_is_shadow :: bool

text \<open>A list of provider names as a Python value, printed the way \<open>str\<close> prints it. The
  printed form of a float in an event payload is left empty: nothing reads it.\<close>

fun quoted_names :: "string list \<Rightarrow> string" where
  "quoted_names [] = []"
| "quoted_names [x] = [CHR 0x27] @ x @ [CHR 0x27]"
| "quoted_names (x # xs) = [CHR 0x27] @ x @ [CHR 0x27] @ '', '' @ quoted_names xs"

definition names_val :: "string list \<Rightarrow> pyval" where
  "names_val xs = VOther (''['' @ quoted_names xs @ '']'') (xs \<noteq> [])"

definition scaffold_payloads :: "policy_outcome \<Rightarrow> real \<Rightarrow> lead_status \<Rightarrow> payload" where
  "scaffold_payloads out t s =
     (case s of
        SCORING \<Rightarrow> [(''model_version'', VStr (model_version (breakdown (po_scoring out))))]
      | FETCHING_EVIDENCE \<Rightarrow>
          [(''providers_called'', names_val (po_providers_called out)),
           (''cost_usd'', VFloat (po_cost out) []), (''cache_hits'', VInt (int (po_cache_hits out)))]
      | INTEGRATING \<Rightarrow> [(''stop_reason'', VStr (po_stop_reason out))]
      | DECISION \<Rightarrow>
          [(''decision'', VStr (decision_str (po_decision out))),
           (''confidence'', VFloat (po_confidence out) []), (''tau'', VFloat t []),
           (''autonomous'', VBool (po_autonomous out))]
      | _ \<Rightarrow> [])"

definition record_decision ::
  "lead_identity \<Rightarrow> uuid \<Rightarrow> scoring_config \<Rightarrow> real \<Rightarrow> policy_outcome
     \<Rightarrow> 'a decision_db_scheme \<Rightarrow> 'a decision_db_scheme" where
  "record_decision idn lead_id cfg t out d =
     d\<lparr>scores := scores d @
         [\<lparr>sc_organization_id = li_organization_id idn, sc_lead_id = lead_id,
           sc_total_score = sr_total (po_scoring out), sc_confidence = po_confidence out,
           sc_breakdown = components (breakdown (po_scoring out)),
           sc_model_version = model_version (breakdown (po_scoring out))\<rparr>],
       receipts := receipts d @
         [\<lparr>rc_organization_id = li_organization_id idn, rc_lead_id = lead_id,
           rc_decision = decision_str (po_decision out), rc_autonomous = po_autonomous out,
           rc_confidence = po_confidence out, rc_tau = t,
           rc_score_value = bd_current (bounds (po_scoring out)),
           rc_score_lower = bd_lower (bounds (po_scoring out)),
           rc_score_upper = bd_upper (bounds (po_scoring out)),
           rc_stop_reason = po_stop_reason out, rc_policy_name = ''calibrated_bounds'',
           rc_scorer_version = model_version (breakdown (po_scoring out)),
           rc_icp_profile_id = profile_id cfg, rc_icp_profile_version = profile_version cfg\<rparr>]\<rparr>"

definition run_simulated_acquisition ::
  "uuid \<Rightarrow> lead_identity \<Rightarrow> eval_lead \<Rightarrow> scoring_config \<Rightarrow> confidence_model \<Rightarrow> uuid \<Rightarrow> int
     \<Rightarrow> run_context \<Rightarrow> 'a decision_db_scheme
     \<Rightarrow> error + 'a decision_db_scheme \<times> lead_status \<times> policy_outcome" where
  "run_simulated_acquisition fresh idn corpus_lead cfg m lead_id v rc d =
     sum_bind (calibrated_bounds_run cfg m corpus_lead rc) (\<lambda>(out, rc').
     sum_bind (walk_to_decision (scaffold_payloads out (tau m)) lead_id NEW v d) (\<lambda>(d1, v1).
     sum_bind (finalize_decision fresh lead_id (li_organization_id idn) v1 (po_decision out)
                 (po_autonomous out) (li_is_shadow idn) True
                 (record_decision idn lead_id cfg (tau m) out d1)) (\<lambda>(d2, final).
     Inr (d2, final, out))))"

text \<open>\<open>compute_score\<close>: only a NEW lead is processed.\<close>

definition compute_score_simulated ::
  "uuid \<Rightarrow> lead_identity \<Rightarrow> eval_lead \<Rightarrow> scoring_config \<Rightarrow> confidence_model
     \<Rightarrow> uuid option \<Rightarrow> lead_status option \<Rightarrow> int option \<Rightarrow> run_context \<Rightarrow> 'a decision_db_scheme
     \<Rightarrow> error + 'a decision_db_scheme \<times> lead_status \<times> policy_outcome" where
  "compute_score_simulated fresh idn corpus_lead cfg m lead_id st v rc d =
     (case lead_id of
        None \<Rightarrow> Inl ValueError
      | Some i \<Rightarrow>
          (case (st, v) of
             (Some NEW, Some ver) \<Rightarrow>
               run_simulated_acquisition fresh idn corpus_lead cfg m i ver rc d
           | _ \<Rightarrow> Inl ValueError))"

subsection \<open>Where a decided lead lands\<close>

lemma apply_transition_step:
  assumes "leads d i = Some row" and "version row = v"
  shows "apply_transition i v s ty pl d =
    Inr (d\<lparr>leads := (leads d)(i \<mapsto> row\<lparr>status := s, version := v + 1, updated_at := clock d\<rparr>),
           lead_events := lead_events d @ [\<lparr>le_lead_id = i, le_type = ty, le_payload = pl\<rparr>]\<rparr>, v + 1)"
  using assms by (auto simp: apply_transition_ok)

text \<open>The lead's place in the graph, and what a sequence of transitions of one lead leaves alone.\<close>

definition lead_at :: "'a db_scheme \<Rightarrow> uuid \<Rightarrow> int \<Rightarrow> lead_status \<Rightarrow> bool" where
  "lead_at d i v s \<longleftrightarrow> (\<exists>row. leads d i = Some row \<and> version row = v \<and> status row = s)"

definition moved :: "uuid \<Rightarrow> string list \<Rightarrow> 'a db_scheme \<Rightarrow> 'a db_scheme \<Rightarrow> bool" where
  "moved i types d d' \<longleftrightarrow>
     (\<forall>j. j \<noteq> i \<longrightarrow> leads d' j = leads d j)
     \<and> map le_type (lead_events d') = map le_type (lead_events d) @ types
     \<and> db.more d' = db.more d \<and> clock d' = clock d"

lemma moved_trans: "moved i xs d d' \<Longrightarrow> moved i ys d' d'' \<Longrightarrow> moved i (xs @ ys) d d''"
  by (simp add: moved_def)

lemma transition_moves:
  assumes "lead_at d i v s"
  shows "\<exists>d'. apply_transition i v t ty pl d = Inr (d', v + 1) \<and> lead_at d' i (v + 1) t \<and> moved i [ty] d d'"
  using assms by (auto simp: lead_at_def apply_transition_step moved_def)

lemma walk_hop:
  assumes "lead_at d i v s" and "s \<noteq> DECISION" and "next_status s None = Inr (Some t)" and "w = v + 1"
  shows "\<exists>d'. walk_to_decision pl i s v d = walk_to_decision pl i t w d' \<and> lead_at d' i w t
    \<and> moved i [''policy:'' @ py_lower (lead_status_str t)] d d'"
proof -
  from transition_moves [OF assms(1)] obtain d' where
    "apply_transition i v t (''policy:'' @ py_lower (lead_status_str t)) (pl t) d = Inr (d', v + 1)"
    "lead_at d' i (v + 1) t" "moved i [''policy:'' @ py_lower (lead_status_str t)] d d'"
    by blast
  then show ?thesis
    by (intro exI [of _ d']) (subst walk_to_decision.simps, simp add: assms(2-4))
qed

lemma walk_from_NEW:
  assumes "lead_at d i v NEW"
  shows "\<exists>d'. walk_to_decision pl i NEW v d = Inr (d', v + 4) \<and> lead_at d' i (v + 4) DECISION
    \<and> moved i [''policy:scoring'', ''policy:fetching_evidence'', ''policy:integrating'',
         ''policy:decision''] d d'"
proof -
  from walk_hop [OF assms, of SCORING "v + 1" pl] obtain d1 where
    1: "walk_to_decision pl i NEW v d = walk_to_decision pl i SCORING (v + 1) d1"
    "lead_at d1 i (v + 1) SCORING" "moved i [''policy:'' @ py_lower ''SCORING''] d d1" by auto
  from walk_hop [OF 1(2), of FETCHING_EVIDENCE "v + 2" pl] obtain d2 where
    2: "walk_to_decision pl i SCORING (v + 1) d1 = walk_to_decision pl i FETCHING_EVIDENCE (v + 2) d2"
    "lead_at d2 i (v + 2) FETCHING_EVIDENCE" "moved i [''policy:'' @ py_lower ''FETCHING_EVIDENCE''] d1 d2"
    by auto
  from walk_hop [OF 2(2), of INTEGRATING "v + 3" pl] obtain d3 where
    3: "walk_to_decision pl i FETCHING_EVIDENCE (v + 2) d2 = walk_to_decision pl i INTEGRATING (v + 3) d3"
    "lead_at d3 i (v + 3) INTEGRATING" "moved i [''policy:'' @ py_lower ''INTEGRATING''] d2 d3"
    by auto
  from walk_hop [OF 3(2), of DECISION "v + 4" pl] obtain d4 where
    4: "walk_to_decision pl i INTEGRATING (v + 3) d3 = walk_to_decision pl i DECISION (v + 4) d4"
    "lead_at d4 i (v + 4) DECISION" "moved i [''policy:'' @ py_lower ''DECISION''] d3 d4"
    by auto
  have low: "py_lower ''SCORING'' = ''scoring''" "py_lower ''FETCHING_EVIDENCE'' = ''fetching_evidence''"
    "py_lower ''INTEGRATING'' = ''integrating''" "py_lower ''DECISION'' = ''decision''"
    by code_simp+
  from moved_trans [OF 1(3) moved_trans [OF 2(3) moved_trans [OF 3(3) 4(3)]]]
  have "moved i [''policy:scoring'', ''policy:fetching_evidence'', ''policy:integrating'',
         ''policy:decision''] d d4"
    by (simp add: low)
  moreover have "walk_to_decision pl i DECISION (v + 4) d4 = Inr (d4, v + 4)"
    by (simp add: walk_to_decision.simps)
  ultimately show ?thesis using 1(1) 2(1) 3(1) 4(1,2) by auto
qed

text \<open>The status the DECISION branch gives a lead.\<close>

definition final_status :: "decision \<Rightarrow> bool \<Rightarrow> bool \<Rightarrow> bool \<Rightarrow> lead_status" where
  "final_status dec autonomous is_shadow autonomy_allowed =
     (if is_shadow then SHADOW_EVALUATED
      else if \<not> autonomy_allowed \<or> \<not> autonomous then AWAITING_HUMAN
      else (case dec of AUTO_ROUTE \<Rightarrow> AUTO_ROUTED | REJECT \<Rightarrow> SYNCED | ESCALATE_HUMAN \<Rightarrow> AWAITING_HUMAN))"

lemma guarded_route_escalates:
  "guarded_route dec autonomous allowed = ''escalate_human'' \<longleftrightarrow>
     \<not> allowed \<or> \<not> autonomous \<or> dec = ESCALATE_HUMAN"
  by (cases dec) (simp_all add: guarded_route_def AUTONOMY_SUPPRESSED_ROUTE_def)

lemma finalize_decision_lands:
  assumes "lead_at d i v s"
  shows "\<exists>d'. finalize_decision fresh i org v dec autonomous is_shadow allowed d
      = Inr (d', final_status dec autonomous is_shadow allowed)
    \<and> lead_at d' i (v + 1) (final_status dec autonomous is_shadow allowed)
    \<and> (\<forall>j. j \<noteq> i \<longrightarrow> leads d' j = leads d j)
    \<and> (final_status dec autonomous is_shadow allowed = AWAITING_HUMAN
         \<longrightarrow> (\<exists>r \<in> set (reviews d'). rv_lead_id r = i \<and> pending r))
    \<and> (final_status dec autonomous is_shadow allowed \<noteq> AWAITING_HUMAN \<longrightarrow> reviews d' = reviews d)"
proof -
  consider "is_shadow" | "\<not> is_shadow" "\<not> allowed \<or> \<not> autonomous \<or> dec = ESCALATE_HUMAN"
    | "\<not> is_shadow" "allowed" "autonomous" "dec \<noteq> ESCALATE_HUMAN" by blast
  then show ?thesis
  proof cases
    case 1
    with assms show ?thesis
      by (auto simp: finalize_decision_def final_status_def lead_at_def apply_transition_step)
  next
    case 2
    then have esc: "guarded_route dec autonomous allowed = ''escalate_human''"
      using guarded_route_escalates by blast
    have fin: "final_status dec autonomous is_shadow allowed = AWAITING_HUMAN"
      using 2 by (auto simp: final_status_def)
    from assms obtain row where row: "leads d i = Some row" "version row = v"
      by (auto simp: lead_at_def)
    show ?thesis
    proof (cases "find (\<lambda>r. rv_lead_id r = i \<and> pending r) (reviews d)")
      case None
      with 2(1) row show ?thesis unfolding fin
        by (auto simp: finalize_decision_def esc request_review_def apply_transition_step lead_at_def
            insert_review_def pending_def)
    next
      case (Some r)
      then have "r \<in> set (reviews d)" "rv_lead_id r = i" "pending r" by (auto simp: find_Some_iff)
      with Some 2(1) row show ?thesis unfolding fin
        by (auto simp: finalize_decision_def esc request_review_def apply_transition_step lead_at_def
            insert_review_def)
    qed
  next
    case 3
    then have "guarded_route dec autonomous allowed = decision_str dec"
      by (simp add: guarded_route_def)
    moreover have "next_status DECISION (Some (decision_str dec)) = Inr (Some (final_status dec autonomous is_shadow allowed))"
      using 3 by (cases dec) (auto simp: next_status_DECISION final_status_def)
    moreover have "decision_str dec \<noteq> ''escalate_human''" using 3(4) by (cases dec) simp_all
    moreover have "final_status dec autonomous is_shadow allowed \<noteq> AWAITING_HUMAN"
      using 3 by (cases dec) (auto simp: final_status_def)
    ultimately show ?thesis
      using 3(1) assms
      by (auto simp: finalize_decision_def Let_def lead_at_def apply_transition_step)
  qed
qed

text \<open>
  The live autonomy guard: in every provider mode but the simulated one, whatever the policy
  recommended and however confident it was, the DECISION branch leaves the lead awaiting a human,
  or shadow-evaluated if it was ingested as shadow, and never in an authoritative state. The
  second check agrees, a review is open for every lead that is not a shadow, and none is opened
  for a shadow.
\<close>

theorem live_leads_never_act_alone:
  assumes "provider_mode \<noteq> ''simulated''" and "lead_at d i v s"
  shows "\<exists>d' final. finalize_decision fresh i org v dec autonomous is_shadow
        (autonomy_allowed_for provider_mode) d = Inr (d', final)
    \<and> lead_status_of d' i = Some final \<and> final \<in> PERMITTED_LIVE_STATUSES
    \<and> final \<notin> FORBIDDEN_LIVE_STATUSES \<and> verify_live_status final = Inr final
    \<and> (\<not> is_shadow \<longrightarrow> (\<exists>r \<in> set (reviews d'). rv_lead_id r = i \<and> pending r))
    \<and> (is_shadow \<longrightarrow> reviews d' = reviews d)"
proof -
  have off: "\<not> autonomy_allowed_for provider_mode"
    using assms(1) by (simp add: autonomy_allowed_for_def LIVE_AUTONOMY_ENABLED_def)
  have fin: "final_status dec autonomous is_shadow (autonomy_allowed_for provider_mode)
      = (if is_shadow then SHADOW_EVALUATED else AWAITING_HUMAN)"
    using off by (simp add: final_status_def)
  from finalize_decision_lands [OF assms(2), of fresh org dec autonomous is_shadow
      "autonomy_allowed_for provider_mode", unfolded fin]
  show ?thesis
    by (auto simp: lead_at_def lead_status_of_def PERMITTED_LIVE_STATUSES_def
        FORBIDDEN_LIVE_STATUSES_def verify_live_status_def split: if_splits)
qed

definition decided_demo :: review_db where
  "decided_demo = escalation_demo"

theorem live_leads_never_act_alone_witness:
  "\<exists>d' final. finalize_decision 1 7 3 5 AUTO_ROUTE True False (autonomy_allowed_for ''live'') decided_demo
        = Inr (d', final)
     \<and> final \<in> PERMITTED_LIVE_STATUSES \<and> (\<exists>r \<in> set (reviews d'). rv_lead_id r = 7 \<and> pending r)"
proof -
  have "lead_at decided_demo 7 5 DECISION"
    by (simp add: lead_at_def decided_demo_def escalation_demo_def)
  from live_leads_never_act_alone [OF _ this, of "''live''" 1 3 AUTO_ROUTE True False]
  show ?thesis by auto
qed

lemma decision_db_frame:
  fixes d d' :: "'a decision_db_scheme"
  assumes "db.more d' = db.more d"
  shows "scores d' = scores d" and "receipts d' = receipts d" and "reviews d' = reviews d"
    and "jobs d' = jobs d"
  using assms by (cases d; cases d'; simp)+

lemma insert_review_frame:
  fixes d d' :: "'a decision_db_scheme"
  assumes "insert_review fresh org i reviewer original d = (d', pv)"
  shows "scores d' = scores d \<and> receipts d' = receipts d \<and> jobs d' = jobs d"
  using assms
  by (cases "find (\<lambda>r. rv_lead_id r = i \<and> pending r) (reviews d)") (auto simp: insert_review_def)

lemma request_review_frame:
  fixes d d' :: "'a decision_db_scheme"
  assumes "request_review fresh i org v original reviewer reason d = Inr (d', pv)"
  shows "scores d' = scores d \<and> receipts d' = receipts d \<and> jobs d' = jobs d"
proof -
  obtain d1 ty pl w where "apply_transition i v AWAITING_HUMAN ty pl d = Inr (d1, w)"
    and ins: "insert_review fresh org i reviewer original d1 = (d', pv)"
    using assms by (auto simp: request_review_def sum_bind_Inr)
  then have "scores d1 = scores d" "receipts d1 = receipts d" "jobs d1 = jobs d"
    by (auto simp: apply_transition_ok)
  with insert_review_frame [OF ins] show ?thesis by simp
qed

lemma finalize_decision_frame:
  fixes d d' :: "'a decision_db_scheme"
  assumes "finalize_decision fresh i org v dec autonomous is_shadow allowed d = Inr (d', final)"
  shows "scores d' = scores d \<and> receipts d' = receipts d \<and> jobs d' = jobs d"
proof (cases is_shadow)
  case True
  with assms show ?thesis by (auto simp: finalize_decision_def sum_bind_Inr apply_transition_ok)
next
  case ns: False
  show ?thesis
  proof (cases "guarded_route dec autonomous allowed = ''escalate_human''")
    case True
    with assms ns obtain d1 pv where "request_review fresh i org v (Some (decision_str dec)) None
        (if allowed then None else Some LIVE_GUARD_REASON) d = Inr (d', pv)"
      by (auto simp: finalize_decision_def Let_def sum_bind_Inr)
    then show ?thesis by (rule request_review_frame)
  next
    case False
    with assms ns obtain s pl w where "apply_transition i v s ''policy:decided'' pl d = Inr (d', w)"
      by (auto simp: finalize_decision_def Let_def sum_bind_Inr split: option.splits)
    then show ?thesis by (auto simp: apply_transition_ok)
  qed
qed

text \<open>
  The simulated handler, end to end: with a registry that serves the catalogue, a NEW lead is
  decided in one job. It moves five versions to the state its decision stands for, with one score
  row and one receipt that carry the policy's decision, confidence and threshold, and no other
  lead moves. It is routed or rejected without a human only if the confidence reached the
  threshold and the lead is no shadow; in every other case it awaits a human or is
  shadow-evaluated, and a lead that awaits a human has an open review.
\<close>

lemma simulated_lead_decided:
  fixes d :: "'a decision_db_scheme"
  assumes "lead_at d i v NEW" and "registry_serves (rc_registry rc) corpus"
  shows "\<exists>d' final out. compute_score_simulated fresh idn corpus cfg m (Some i) (Some NEW) (Some v) rc d
        = Inr (d', final, out)
    \<and> lead_at d' i (v + 5) final \<and> (\<forall>j. j \<noteq> i \<longrightarrow> leads d' j = leads d j)
    \<and> final = final_status (po_decision out) (po_autonomous out) (li_is_shadow idn) True
    \<and> (final \<in> {AUTO_ROUTED, SYNCED} \<longrightarrow> tau m \<le> po_confidence out \<and> \<not> li_is_shadow idn)
    \<and> (final = AWAITING_HUMAN \<longrightarrow> (\<exists>r \<in> set (reviews d'). rv_lead_id r = i \<and> pending r))
    \<and> length (scores d') = Suc (length (scores d))
    \<and> (\<exists>row. receipts d' = receipts d @ [row] \<and> rc_lead_id row = i
        \<and> rc_decision row = decision_str (po_decision out) \<and> rc_confidence row = po_confidence out
        \<and> rc_tau row = tau m \<and> rc_icp_profile_version row = profile_version cfg)
    \<and> po_decision out = decide cfg (sr_total (po_scoring out))"
proof -
  obtain out rc' where run: "calibrated_bounds_run cfg m corpus rc = Inr (out, rc')"
    using calibrated_bounds_total [OF assms(2)] by (metis surj_pair)
  obtain d1 where walk: "walk_to_decision (scaffold_payloads out (tau m)) i NEW v d = Inr (d1, v + 4)"
    "lead_at d1 i (v + 4) DECISION" and mv: "\<forall>j. j \<noteq> i \<longrightarrow> leads d1 j = leads d j" "db.more d1 = db.more d"
    using walk_from_NEW [OF assms(1)] unfolding moved_def by blast
  let ?r = "record_decision idn i cfg (tau m) out d1"
  let ?fin = "final_status (po_decision out) (po_autonomous out) (li_is_shadow idn) True"
  have at: "lead_at ?r i (v + 4) DECISION"
    using walk(2) by (simp add: lead_at_def record_decision_def)
  obtain d2 where fd: "finalize_decision fresh i (li_organization_id idn) (v + 4) (po_decision out)
      (po_autonomous out) (li_is_shadow idn) True ?r = Inr (d2, ?fin)"
    and d2: "lead_at d2 i (v + 4 + 1) ?fin" "\<forall>j. j \<noteq> i \<longrightarrow> leads d2 j = leads ?r j"
      "?fin = AWAITING_HUMAN \<longrightarrow> (\<exists>r \<in> set (reviews d2). rv_lead_id r = i \<and> pending r)"
    using finalize_decision_lands [OF at, of fresh "li_organization_id idn" "po_decision out"
        "po_autonomous out" "li_is_shadow idn" True] by blast
  have res: "compute_score_simulated fresh idn corpus cfg m (Some i) (Some NEW) (Some v) rc d
      = Inr (d2, ?fin, out)"
    by (simp add: compute_score_simulated_def run_simulated_acquisition_def run walk(1) fd)
  note fr = finalize_decision_frame [OF fd] and base = decision_db_frame [OF mv(2)]
  have sc: "length (scores d2) = Suc (length (scores d))"
    using fr base by (simp add: record_decision_def)
  have rcp: "\<exists>row. receipts d2 = receipts d @ [row] \<and> rc_lead_id row = i
        \<and> rc_decision row = decision_str (po_decision out) \<and> rc_confidence row = po_confidence out
        \<and> rc_tau row = tau m \<and> rc_icp_profile_version row = profile_version cfg"
    using fr base by (simp add: record_decision_def)
  have auton: "?fin \<in> {AUTO_ROUTED, SYNCED} \<longrightarrow> tau m \<le> po_confidence out \<and> \<not> li_is_shadow idn"
    using calibrated.decision_of_score [OF run]
    by (auto simp: final_status_def split: decision.splits if_splits)
  have frame: "\<forall>j. j \<noteq> i \<longrightarrow> leads d2 j = leads d j"
    using d2(2) mv(1) by (simp add: record_decision_def)
  have ver: "v + 4 + 1 = v + 5" by simp
  have dec: "po_decision out = decide cfg (sr_total (po_scoring out))"
    using calibrated.decision_of_score [OF run] by blast
  show ?thesis
    using res d2(1,3) frame auton sc rcp dec unfolding ver by blast
qed

definition demo_identity :: lead_identity where
  "demo_identity =
     \<lparr>li_person_id = 1, li_company_id = 2, li_organization_id = 3, li_email = ''acme@x'',
      li_domain = None, li_is_shadow = False\<rparr>"

definition simulated_demo :: decision_db where
  "simulated_demo =
     \<lparr>clock = 100, leads = [7 \<mapsto> \<lparr>status = NEW, version = 1, organization_id = 3, updated_at = 0\<rparr>],
      lead_events = [], jobs = [], reviews = [], scores = [], receipts = []\<rparr>"

end
