(* ===== verification/Keyed_Log.thy ===== *)
theory Keyed_Log
  imports Prelude
begin

text \<open>
  The contract of a table that is written by key and never overwritten: the cost ledger, whose
  callers may be retried, and the identity tables, whose rows are resolved again for every lead.
  The first entry under a key is the one that stands; entering the key again reports it and
  changes nothing.
\<close>

locale keyed_log =
  fixes valid :: "'c \<Rightarrow> bool" and key :: "'c \<Rightarrow> 'k" and stored :: "'s \<Rightarrow> 'k \<Rightarrow> 'w option"
    and enter :: "'c \<Rightarrow> 's \<Rightarrow> 'e + 's \<times> 'w \<times> bool"
  assumes enter_new: "valid c \<Longrightarrow> stored s (key c) = None \<Longrightarrow> enter c s = Inr (s', w, f)
      \<Longrightarrow> f \<and> stored s' = (stored s)(key c \<mapsto> w)"
    and enter_known: "valid c \<Longrightarrow> stored s (key c) = Some w \<Longrightarrow> enter c s = Inr (s', w', f)
      \<Longrightarrow> s' = s \<and> w' = w \<and> \<not> f"
begin

lemma stored_after: "valid c \<Longrightarrow> enter c s = Inr (s', w, f) \<Longrightarrow> stored s' (key c) = Some w"
  by (cases "stored s (key c)") (auto dest: enter_new enter_known)

lemma first_entry_stands:
  assumes "valid c" and "enter c s = Inr (s', w, f)" and "stored s k = Some v"
  shows "stored s' k = Some v"
proof (cases "stored s (key c)")
  case None
  with enter_new [OF assms(1) None assms(2)] assms(3) show ?thesis by auto
next
  case (Some x)
  with enter_known [OF assms(1) Some assms(2)] assms(3) show ?thesis by simp
qed

lemma repeat_is_free:
  assumes "valid c" and "enter c s = Inr (s', w, f)" and "valid c'" and "key c' = key c"
    and "enter c' s' = Inr (s'', w', f')"
  shows "s'' = s' \<and> w' = w \<and> \<not> f'"
  using enter_known [OF assms(3) _ assms(5)] stored_after [OF assms(1,2)] assms(4) by simp

lemma replay_is_free:
  assumes "\<forall>c \<in> set cs. valid c \<and> stored s (key c) \<noteq> None"
    and "sum_foldM (\<lambda>c s. sum_bind (enter c s) (\<lambda>(s', _). Inr s')) cs s = Inr s'"
  shows "s' = s"
  using assms
proof (induction cs)
  case (Cons c cs)
  from Cons.prems(2) obtain s1 w f where c: "enter c s = Inr (s1, w, f)"
    and rest: "sum_foldM (\<lambda>c s. sum_bind (enter c s) (\<lambda>(s', _). Inr s')) cs s1 = Inr s'"
    by (auto simp: sum_bind_Inr)
  have "s1 = s" using Cons.prems(1) enter_known [OF _ _ c] by auto
  with Cons rest show ?case by auto
qed simp

lemma run_stores_all:
  assumes "\<forall>c \<in> set cs. valid c"
    and "sum_foldM (\<lambda>c s. sum_bind (enter c s) (\<lambda>(s', _). Inr s')) cs s = Inr s'"
  shows "(\<forall>c \<in> set cs. stored s' (key c) \<noteq> None) \<and> (\<forall>k v. stored s k = Some v \<longrightarrow> stored s' k = Some v)"
  using assms
proof (induction cs arbitrary: s)
  case (Cons c cs)
  from Cons.prems(2) obtain s1 w f where c: "enter c s = Inr (s1, w, f)"
    and rest: "sum_foldM (\<lambda>c s. sum_bind (enter c s) (\<lambda>(s', _). Inr s')) cs s1 = Inr s'"
    by (auto simp: sum_bind_Inr)
  have v: "valid c" using Cons.prems(1) by simp
  from Cons.IH [OF _ rest] Cons.prems(1)
  have IH: "\<forall>c \<in> set cs. stored s' (key c) \<noteq> None" "\<forall>k v. stored s1 k = Some v \<longrightarrow> stored s' k = Some v"
    by auto
  with stored_after [OF v c] first_entry_stands [OF v c] show ?case by auto
qed simp

lemma retry_is_free:
  assumes "\<forall>c \<in> set cs \<union> set cs'. valid c" and "key ` set cs' \<subseteq> key ` set cs"
    and "sum_foldM (\<lambda>c s. sum_bind (enter c s) (\<lambda>(s', _). Inr s')) cs s = Inr s1"
    and "sum_foldM (\<lambda>c s. sum_bind (enter c s) (\<lambda>(s', _). Inr s')) cs' s1 = Inr s2"
  shows "s2 = s1"
proof (rule replay_is_free [OF _ assms(4)])
  have "\<forall>c \<in> set cs. stored s1 (key c) \<noteq> None"
    using run_stores_all [OF _ assms(3)] assms(1) by blast
  then show "\<forall>c \<in> set cs'. valid c \<and> stored s1 (key c) \<noteq> None"
    using assms(1,2) by fastforce
qed

end

end
