(* ===== verification/Identity.thy ===== *)
theory Identity
  imports Confidence_Model Keyed_Log
begin

text \<open>
  \<open>arie.identity\<close>: the deterministic normal forms of domains, e-mail addresses and company
  names, the check of a provider's answer against the person that was asked about, and the
  resolver that maps raw lead data to rows of \<open>companies\<close> and \<open>persons\<close>. Characters are code
  points below 256, on which the regular expressions and the compatibility decomposition are
  written out.
\<close>

subsection \<open>Normal forms\<close>

definition FREE_EMAIL_DOMAINS :: "string list" where
  "FREE_EMAIL_DOMAINS =
     [''gmail.com'', ''yahoo.com'', ''outlook.com'', ''hotmail.com'', ''aol.com'', ''icloud.com'',
      ''me.com'', ''protonmail.com'', ''proton.me'', ''live.com'', ''msn.com'', ''gmx.com'',
      ''mail.com'', ''yandex.com'', ''zoho.com'']"

definition LEGAL_SUFFIX_WORDS :: "string list" where
  "LEGAL_SUFFIX_WORDS =
     [''incorporated'', ''corporation'', ''limited'', ''company'', ''inc'', ''corp'', ''co'',
      ''ltd'', ''llc'', ''llp'', ''lp'', ''plc'', ''gmbh'', ''ag'', ''sa'', ''nv'', ''bv'']"

definition is_az :: "char \<Rightarrow> bool" where
  "is_az c \<longleftrightarrow> 97 \<le> code c \<and> code c \<le> 122"

text \<open>\<open>^[a-z][a-z0-9+.\-]*://\<close>\<close>

definition is_scheme_char :: "char \<Rightarrow> bool" where
  "is_scheme_char c \<longleftrightarrow> is_az c \<or> is_digit c \<or> c \<in> {CHR ''+'', CHR ''.'', CHR ''-''}"

definition strip_scheme :: "string \<Rightarrow> string" where
  "strip_scheme v =
     (case v of
        [] \<Rightarrow> []
      | c # cs \<Rightarrow>
          (let rest = dropWhile is_scheme_char cs
           in if is_az c \<and> starts_with rest ''://'' then drop 3 rest else v))"

definition require_nonblank :: "string \<Rightarrow> error + string" where
  "require_nonblank raw = (let v = py_strip raw in if v = [] then Inl ValueError else Inr v)"

text \<open>\<open>s.split(c, 1)[0]\<close>\<close>

definition split_first :: "char \<Rightarrow> string \<Rightarrow> string" where
  "split_first c s = takeWhile (\<lambda>x. x \<noteq> c) s"

definition strip_www :: "string \<Rightarrow> string" where
  "strip_www v = (if starts_with v ''www.'' then drop 4 v else v)"

definition normalize_domain :: "string \<Rightarrow> error + string" where
  "normalize_domain raw =
     sum_bind (require_nonblank raw) (\<lambda>v.
       require_nonblank (strip_www
         (split_first (CHR '':'') (split_first (CHR ''?'') (split_first (CHR ''/'')
            (strip_scheme (py_lower v)))))))"

definition normalize_email :: "string \<Rightarrow> error + string" where
  "normalize_email raw =
     sum_bind (require_nonblank raw) (\<lambda>v0.
       let v = py_lower v0;
           mailbox = split_first (CHR ''@'') v;
           domn = drop (Suc (length mailbox)) v;
           user = split_first (CHR ''+'') mailbox
       in if CHR ''@'' \<notin> set v then Inl ValueError
          else if user = [] then Inl ValueError
          else sum_bind (normalize_domain domn) (\<lambda>d. Inr (user @ ''@'' @ d)))"

definition domain_from_email :: "string \<Rightarrow> error + string option" where
  "domain_from_email email =
     sum_bind (normalize_email email) (\<lambda>n.
       let d = rev (split_first (CHR ''@'') (rev n))
       in Inr (if d \<in> set FREE_EMAIL_DOMAINS then None else Some d))"

text \<open>\<open>str.split()\<close>\<close>

function words_of :: "string \<Rightarrow> string list" where
  "words_of s =
     (case py_lstrip s of
        [] \<Rightarrow> []
      | c # cs \<Rightarrow> takeWhile (\<lambda>x. \<not> is_space x) (c # cs)
                   # words_of (dropWhile (\<lambda>x. \<not> is_space x) (c # cs)))"
  by pat_completeness auto
termination
proof (relation "measure length")
  fix s :: string and c cs
  assume e: "py_lstrip s = c # cs"
  have "\<not> is_space c"
    using e unfolding py_lstrip_def by (metis dropWhile_eq_Cons_conv)
  then have "length (dropWhile (\<lambda>x. \<not> is_space x) (c # cs)) \<le> length cs"
    by (simp add: length_dropWhile_le)
  moreover have "length (c # cs) \<le> length s"
    using e length_dropWhile_le [of is_space s] by (simp add: py_lstrip_def)
  ultimately show "(dropWhile (\<lambda>x. \<not> is_space x) (c # cs), s) \<in> measure length"
    by simp
qed simp

declare words_of.simps [simp del]

fun join_words :: "string list \<Rightarrow> string" where
  "join_words [] = []"
| "join_words [w] = w"
| "join_words (w # ws) = w @ '' '' @ join_words ws"

text \<open>\<open>re.split(r"\s+", s.strip())\<close>, of which the empty string has one piece, itself.\<close>

definition split_ws :: "string \<Rightarrow> string list" where
  "split_ws s = (if py_strip s = [] then [[]] else words_of s)"

definition normalize_company_name :: "string \<Rightarrow> error + string" where
  "normalize_company_name raw =
     sum_bind (require_nonblank raw) (\<lambda>v0.
       let v = concat (map (\<lambda>c. if c = CHR ''&'' then '' and '' else [c]) (py_lower v0));
           v' = map (\<lambda>c. if is_az c \<or> is_digit c \<or> is_space c then c else CHR '' '') v;
           ws = rev (dropWhile (\<lambda>w. w \<in> set LEGAL_SUFFIX_WORDS) (rev (split_ws v')))
       in require_nonblank (join_words ws))"

subsection \<open>Checking who a provider answered about\<close>

datatype identity_verdict = VERIFIED | PROBABLE | MISMATCH | UNVERIFIABLE

record requested_identity =
  rq_email :: string
  rq_company_domain :: "string option"
  rq_full_name :: "string option"

record returned_identity =
  rt_full_name :: "string option"
  rt_email :: "string option"
  rt_employer_domain :: "string option"
  rt_employer_name :: "string option"

record identity_validation =
  iv_verdict :: identity_verdict
  iv_reasons :: "string list"

text \<open>
  \<open>unicodedata.normalize("NFKD", s)\<close> without the combining characters. The fraction slash
  of a vulgar fraction is written as a slash: both are replaced by a blank a step later.
\<close>

definition fold_char :: "char \<Rightarrow> string" where
  "fold_char c =
     (let n = code c
      in if n \<in> {168, 175, 180, 184, 160} then '' ''
         else if n = 170 then ''a'' else if n = 186 then ''o''
         else if n = 185 then ''1'' else if n = 178 then ''2'' else if n = 179 then ''3''
         else if n = 188 then ''1/4'' else if n = 189 then ''1/2'' else if n = 190 then ''3/4''
         else if 192 \<le> n \<and> n \<le> 197 then ''A'' else if n = 199 then ''C''
         else if 200 \<le> n \<and> n \<le> 203 then ''E'' else if 204 \<le> n \<and> n \<le> 207 then ''I''
         else if n = 209 then ''N'' else if 210 \<le> n \<and> n \<le> 214 then ''O''
         else if 217 \<le> n \<and> n \<le> 220 then ''U'' else if n = 221 then ''Y''
         else if 224 \<le> n \<and> n \<le> 229 then ''a'' else if n = 231 then ''c''
         else if 232 \<le> n \<and> n \<le> 235 then ''e'' else if 236 \<le> n \<and> n \<le> 239 then ''i''
         else if n = 241 then ''n'' else if 242 \<le> n \<and> n \<le> 246 then ''o''
         else if 249 \<le> n \<and> n \<le> 252 then ''u'' else if n = 253 \<or> n = 255 then ''y''
         else [c])"

text \<open>\<open>\w\<close>\<close>

definition is_word_char :: "char \<Rightarrow> bool" where
  "is_word_char c \<longleftrightarrow>
     (let n = code c
      in is_digit c \<or> is_az c \<or> (65 \<le> n \<and> n \<le> 90) \<or> n = 95 \<or> n \<in> {170, 181, 186, 178, 179, 185, 188, 189, 190}
         \<or> (192 \<le> n \<and> n \<noteq> 215 \<and> n \<noteq> 247))"

definition name_key :: "string \<Rightarrow> (string \<times> string) option" where
  "name_key raw =
     (let folded = py_lower (concat (map fold_char raw));
          tokens = words_of (map (\<lambda>c. if is_word_char c \<or> is_space c then c else CHR '' '') folded)
      in if length tokens < 2 then None else Some (hd tokens, last tokens))"

definition is_conservative_first_name_variant :: "string \<Rightarrow> string \<Rightarrow> bool" where
  "is_conservative_first_name_variant a b \<longleftrightarrow>
     (if length a < 3 \<or> length b < 3 then False
      else if length a \<le> length b then starts_with b a else starts_with a b)"

datatype signal = Match | Mismatch | Unknown_Signal

definition VARIANT_REASON :: string where
  "VARIANT_REASON = ''returned name is a conservative first-name variant of the expected name (surname matches exactly)''"

definition name_signal :: "requested_identity \<Rightarrow> returned_identity \<Rightarrow> signal \<times> string option" where
  "name_signal rq rt =
     (case (rq_full_name rq, rt_full_name rt) of
        (Some a, Some b) \<Rightarrow>
          (case (name_key a, name_key b) of
             (Some (f, l), Some (f', l')) \<Rightarrow>
               if (f, l) = (f', l') then (Match, None)
               else if l = l' \<and> is_conservative_first_name_variant f f'
                 then (Unknown_Signal, Some VARIANT_REASON)
               else (Mismatch, None)
           | _ \<Rightarrow> (Unknown_Signal, None))
      | _ \<Rightarrow> (Unknown_Signal, None))"

text \<open>Python's truth of an optional string.\<close>

definition present :: "string option \<Rightarrow> bool" where
  "present s \<longleftrightarrow> s \<noteq> None \<and> s \<noteq> Some []"

definition expected_domain :: "requested_identity \<Rightarrow> error + string option" where
  "expected_domain rq =
     (if present (rq_company_domain rq) then Inr (rq_company_domain rq)
      else domain_from_email (rq_email rq))"

definition FREE_MAIL_REASON :: string where
  "FREE_MAIL_REASON = ''no independent company/domain was supplied at ingestion, and the requested email is a free-mail address -- its own domain cannot stand in for an employer domain to verify against''"

definition domain_signal ::
  "requested_identity \<Rightarrow> returned_identity \<Rightarrow> error + signal \<times> string option" where
  "domain_signal rq rt =
     (case rt_employer_domain rt of
        None \<Rightarrow> Inr (Unknown_Signal, None)
      | Some employer \<Rightarrow>
          if employer = [] then Inr (Unknown_Signal, None)
          else sum_bind (expected_domain rq) (\<lambda>expected.
            case expected of
              None \<Rightarrow>
                if \<not> present (rq_company_domain rq) then
                  sum_bind (domain_from_email (rq_email rq)) (\<lambda>d.
                    Inr (Unknown_Signal, if d = None then Some FREE_MAIL_REASON else None))
                else Inr (Unknown_Signal, None)
            | Some e \<Rightarrow>
                Inr (case (normalize_domain employer, normalize_domain e) of
                       (Inr a, Inr b) \<Rightarrow> (if a = b then Match else Mismatch, None)
                     | _ \<Rightarrow> (Unknown_Signal, None))))"

definition email_signal :: "requested_identity \<Rightarrow> returned_identity \<Rightarrow> signal" where
  "email_signal rq rt =
     (case rt_email rt of
        None \<Rightarrow> Unknown_Signal
      | Some m \<Rightarrow>
          if m = [] then Unknown_Signal
          else case (normalize_email m, normalize_email (rq_email rq)) of
            (Inr a, Inr b) \<Rightarrow> if a = b then Match else Mismatch
          | _ \<Rightarrow> Unknown_Signal)"

definition validation_reasons ::
  "signal \<times> string option \<Rightarrow> signal \<Rightarrow> signal \<times> string option \<Rightarrow> string list" where
  "validation_reasons d m n =
     (case d of
        (Match, _) \<Rightarrow> [''employer domain matches the requested company'']
      | (Mismatch, _) \<Rightarrow> [''employer domain does not match the requested company'']
      | (Unknown_Signal, Some r) \<Rightarrow> [r]
      | (Unknown_Signal, None) \<Rightarrow> [])
     @ (case m of
          Match \<Rightarrow> [''returned email matches the requested email (not independent corroboration)'']
        | Mismatch \<Rightarrow> [''returned email does not match the requested email'']
        | Unknown_Signal \<Rightarrow> [])
     @ (case n of
          (Match, _) \<Rightarrow> [''returned name matches the expected name'']
        | (Mismatch, _) \<Rightarrow> [''returned name does not match the expected name'']
        | (Unknown_Signal, Some r) \<Rightarrow> [r]
        | (Unknown_Signal, None) \<Rightarrow> [])"

definition validate_identity ::
  "requested_identity \<Rightarrow> returned_identity \<Rightarrow> error + identity_validation" where
  "validate_identity rq rt =
     (if rt_full_name rt = None \<and> rt_employer_domain rt = None \<and> rt_email rt = None then
        Inr \<lparr>iv_verdict = UNVERIFIABLE, iv_reasons = [''provider returned no identity to compare'']\<rparr>
      else sum_bind (domain_signal rq rt) (\<lambda>d.
        let m = email_signal rq rt; n = name_signal rq rt;
            reasons = validation_reasons d m n;
            agreeing = length (filter (\<lambda>s. s = Match) [fst d, fst n])
        in Inr
          (if Mismatch \<in> {fst d, m, fst n} then
             \<lparr>iv_verdict = MISMATCH, iv_reasons = reasons\<rparr>
           else if agreeing \<ge> 2 then \<lparr>iv_verdict = VERIFIED, iv_reasons = reasons\<rparr>
           else if agreeing = 1 then
             \<lparr>iv_verdict = PROBABLE,
              iv_reasons = reasons @ [''no independent second signal was available to corroborate'']\<rparr>
           else
             \<lparr>iv_verdict = UNVERIFIABLE,
              iv_reasons =
                (if reasons = [] then [''no comparable signal was available on both sides''] else reasons)\<rparr>)))"

definition explain_validation :: "identity_validation \<Rightarrow> string" where
  "explain_validation v =
     (case iv_reasons v of
        [] \<Rightarrow> ''no comparable signal was available''
      | r # rs \<Rightarrow> r @ concat (map (\<lambda>s. ''; '' @ s) rs))"

subsection \<open>The resolver\<close>

text \<open>
  The rows of \<open>companies\<close> and \<open>persons\<close>. \<open>canonical_domain\<close> is unique, and so is
  \<open>(organization_id, canonical_email)\<close>; an INSERT meets its conflict in the row that has the
  key. Each INSERT draws its UUID from the environment. A lookup by name may match several
  rows, of which the first is taken.
\<close>

record company_row =
  cp_id :: uuid
  cp_domain :: "string option"
  cp_name :: string
  cp_normalized :: "string option"

record person_row =
  pe_id :: uuid
  pe_email :: string
  pe_full_name :: "string option"
  pe_title :: "string option"
  pe_company_id :: "uuid option"
  pe_organization_id :: uuid

record identity_db =
  companies :: "company_row list"
  persons :: "person_row list"

record resolved_company =
  rsc_id :: uuid
  rsc_domain :: "string option"
  rsc_created :: bool

record resolved_person =
  rsp_id :: uuid
  rsp_email :: string
  rsp_company_id :: "uuid option"
  rsp_created :: bool

definition upsert_company_by_domain ::
  "uuid \<Rightarrow> string \<Rightarrow> string \<Rightarrow> company_row list \<Rightarrow> company_row list \<times> resolved_company" where
  "upsert_company_by_domain fresh domain name rows =
     (case find (\<lambda>r. cp_domain r = Some domain) rows of
        Some r \<Rightarrow> (rows, \<lparr>rsc_id = cp_id r, rsc_domain = cp_domain r, rsc_created = False\<rparr>)
      | None \<Rightarrow>
          (rows @ [\<lparr>cp_id = fresh, cp_domain = Some domain, cp_name = name, cp_normalized = None\<rparr>],
           \<lparr>rsc_id = fresh, rsc_domain = Some domain, rsc_created = True\<rparr>))"

definition resolve_company_by_name ::
  "uuid \<Rightarrow> string \<Rightarrow> string \<Rightarrow> company_row list \<Rightarrow> company_row list \<times> resolved_company" where
  "resolve_company_by_name fresh normalized name rows =
     (case find (\<lambda>r. cp_domain r = None \<and> cp_normalized r = Some normalized) rows of
        Some r \<Rightarrow> (rows, \<lparr>rsc_id = cp_id r, rsc_domain = cp_domain r, rsc_created = False\<rparr>)
      | None \<Rightarrow>
          (rows @ [\<lparr>cp_id = fresh, cp_domain = None, cp_name = name, cp_normalized = Some normalized\<rparr>],
           \<lparr>rsc_id = fresh, rsc_domain = None, rsc_created = True\<rparr>))"

definition resolve_company_in ::
  "uuid \<Rightarrow> string option \<Rightarrow> string option \<Rightarrow> company_row list
     \<Rightarrow> error + company_row list \<times> resolved_company" where
  "resolve_company_in fresh domain name rows =
     (case domain of
        Some d \<Rightarrow>
          sum_bind (normalize_domain d) (\<lambda>nd.
            Inr (upsert_company_by_domain fresh nd (case name of None \<Rightarrow> nd | Some n \<Rightarrow> n) rows))
      | None \<Rightarrow>
          (case name of
             None \<Rightarrow> Inl ValueError
           | Some n \<Rightarrow>
               sum_bind (normalize_company_name n) (\<lambda>nn.
                 Inr (resolve_company_by_name fresh nn n rows))))"

text \<open>The arguments of \<open>resolve_person\<close>.\<close>

record person_query =
  pq_email :: string
  pq_organization_id :: uuid
  pq_full_name :: "string option"
  pq_title :: "string option"
  pq_company_id :: "uuid option"

definition resolve_person_in ::
  "uuid \<Rightarrow> person_query \<Rightarrow> person_row list \<Rightarrow> error + person_row list \<times> resolved_person" where
  "resolve_person_in fresh q rows =
     sum_bind (normalize_email (pq_email q)) (\<lambda>e.
       case find (\<lambda>r. pe_organization_id r = pq_organization_id q \<and> pe_email r = e) rows of
         Some r \<Rightarrow>
           Inr (rows, \<lparr>rsp_id = pe_id r, rsp_email = pe_email r, rsp_company_id = pe_company_id r,
                       rsp_created = False\<rparr>)
       | None \<Rightarrow>
           Inr (rows @ [\<lparr>pe_id = fresh, pe_email = e, pe_full_name = pq_full_name q,
                         pe_title = pq_title q, pe_company_id = pq_company_id q,
                         pe_organization_id = pq_organization_id q\<rparr>],
                \<lparr>rsp_id = fresh, rsp_email = e, rsp_company_id = pq_company_id q, rsp_created = True\<rparr>))"

record lead_query =
  lq_email :: string
  lq_organization_id :: uuid
  lq_company_domain :: "string option"
  lq_company_name :: "string option"
  lq_full_name :: "string option"
  lq_title :: "string option"

definition resolve_lead_in ::
  "uuid \<times> uuid \<Rightarrow> lead_query \<Rightarrow> identity_db \<Rightarrow> error + identity_db \<times> resolved_company \<times> resolved_person" where
  "resolve_lead_in fresh q d =
     sum_bind (if present (lq_company_domain q) then Inr (lq_company_domain q)
               else domain_from_email (lq_email q)) (\<lambda>domain.
     sum_bind (resolve_company_in (fst fresh) domain (lq_company_name q) (companies d)) (\<lambda>(cs, c).
     sum_bind (resolve_person_in (snd fresh)
         \<lparr>pq_email = lq_email q, pq_organization_id = lq_organization_id q,
          pq_full_name = lq_full_name q, pq_title = lq_title q, pq_company_id = Some (rsc_id c)\<rparr>
         (persons d)) (\<lambda>(ps, p).
       Inr (\<lparr>companies = cs, persons = ps\<rparr>, c, p))))"

subsection \<open>The identity tables are logs of their keys\<close>

type_synonym company_key = "string + string"

definition company_key :: "string option \<Rightarrow> string option \<Rightarrow> error + company_key" where
  "company_key domain name =
     (case domain of
        Some d \<Rightarrow> sum_bind (normalize_domain d) (\<lambda>k. Inr (Inl k))
      | None \<Rightarrow> (case name of
          None \<Rightarrow> Inl ValueError
        | Some n \<Rightarrow> sum_bind (normalize_company_name n) (\<lambda>k. Inr (Inr k))))"

definition company_row_key :: "company_row \<Rightarrow> company_key option" where
  "company_row_key r =
     (case cp_domain r of Some d \<Rightarrow> Some (Inl d) | None \<Rightarrow> map_option Inr (cp_normalized r))"

definition company_stored :: "company_row list \<Rightarrow> company_key \<Rightarrow> uuid option" where
  "company_stored rows k = map_option cp_id (find (\<lambda>r. company_row_key r = Some k) rows)"

definition enter_company ::
  "uuid \<times> string option \<times> string option \<Rightarrow> company_row list \<Rightarrow> error + company_row list \<times> uuid \<times> bool" where
  "enter_company c rows =
     (case c of (fresh, domain, name) \<Rightarrow>
        sum_bind (resolve_company_in fresh domain name rows) (\<lambda>(rows', r).
          Inr (rows', rsc_id r, rsc_created r)))"

definition company_key_of :: "uuid \<times> string option \<times> string option \<Rightarrow> error + company_key" where
  "company_key_of c = (case c of (_, domain, name) \<Rightarrow> company_key domain name)"

definition person_key :: "person_query \<Rightarrow> error + uuid \<times> string" where
  "person_key q = sum_bind (normalize_email (pq_email q)) (\<lambda>e. Inr (pq_organization_id q, e))"

definition person_stored :: "person_row list \<Rightarrow> uuid \<times> string \<Rightarrow> uuid option" where
  "person_stored rows k = map_option pe_id (find (\<lambda>r. (pe_organization_id r, pe_email r) = k) rows)"

definition enter_person :: "uuid \<times> person_query \<Rightarrow> person_row list \<Rightarrow> error + person_row list \<times> uuid \<times> bool" where
  "enter_person c rows =
     sum_bind (resolve_person_in (fst c) (snd c) rows) (\<lambda>(rows', r).
       Inr (rows', rsp_id r, rsp_created r))"

lemma company_row_key_simps [simp]:
  "cp_domain r = Some d \<Longrightarrow> company_row_key r = Some (Inl d)"
  "cp_domain r = None \<Longrightarrow> company_row_key r = map_option Inr (cp_normalized r)"
  by (simp_all add: company_row_key_def)

lemma company_row_key_iff:
  "company_row_key r = Some (Inl d) \<longleftrightarrow> cp_domain r = Some d"
  "company_row_key r = Some (Inr n) \<longleftrightarrow> cp_domain r = None \<and> cp_normalized r = Some n"
  by (auto simp: company_row_key_def split: option.splits)

lemma enter_company_eq:
  assumes "company_key_of c = Inr k" and "enter_company c rows = Inr (rows', i, f)"
  shows "case find (\<lambda>r. company_row_key r = Some k) rows of
      Some r \<Rightarrow> rows' = rows \<and> i = cp_id r \<and> \<not> f
    | None \<Rightarrow> (\<exists>r. rows' = rows @ [r] \<and> company_row_key r = Some k \<and> cp_id r = fst c) \<and> i = fst c \<and> f"
proof -
  obtain fresh domain name where c: "c = (fresh, domain, name)" by (metis prod_cases3)
  show ?thesis
    using assms unfolding c
    by (auto simp: company_key_of_def company_key_def enter_company_def resolve_company_in_def
        upsert_company_by_domain_def resolve_company_by_name_def sum_bind_Inr
        company_row_key_iff split: option.splits)
qed

lemma enter_person_eq:
  assumes "person_key q = Inr k" and "enter_person (fresh, q) rows = Inr (rows', i, f)"
  shows "case find (\<lambda>r. (pe_organization_id r, pe_email r) = k) rows of
      Some r \<Rightarrow> rows' = rows \<and> i = pe_id r \<and> \<not> f
    | None \<Rightarrow> (\<exists>r. rows' = rows @ [r] \<and> (pe_organization_id r, pe_email r) = k \<and> pe_id r = fresh)
        \<and> i = fresh \<and> f"
  using assms
  by (auto simp: person_key_def enter_person_def resolve_person_in_def sum_bind_Inr
      split: option.splits)

interpretation company_log: keyed_log "\<lambda>c. \<exists>k. company_key_of c = Inr k"
  "\<lambda>c. projr (company_key_of c)" company_stored enter_company
proof
  fix c :: "uuid \<times> string option \<times> string option" and s s' :: "company_row list" and w w' f
  assume k: "\<exists>k. company_key_of c = Inr k"
  then obtain k where k: "company_key_of c = Inr k" by blast
  show "f \<and> company_stored s' = (company_stored s)(projr (company_key_of c) \<mapsto> w)"
    if "company_stored s (projr (company_key_of c)) = None" "enter_company c s = Inr (s', w, f)"
    using enter_company_eq [OF k that(2)] that(1) k
    by (auto simp: company_stored_def find_append fun_eq_iff split: option.splits)
  show "s' = s \<and> w' = w \<and> \<not> f"
    if "company_stored s (projr (company_key_of c)) = Some w" "enter_company c s = Inr (s', w', f)"
    using enter_company_eq [OF k that(2)] that(1) k
    by (auto simp: company_stored_def split: option.splits)
qed

interpretation person_log: keyed_log "\<lambda>c. \<exists>k. person_key (snd c) = Inr k"
  "\<lambda>c. projr (person_key (snd c))" person_stored enter_person
proof
  fix c :: "uuid \<times> person_query" and s s' :: "person_row list" and w w' f
  assume "\<exists>k. person_key (snd c) = Inr k"
  then obtain k where k: "person_key (snd c) = Inr k" by blast
  obtain fresh q where c: "c = (fresh, q)" by fastforce
  have kq: "person_key q = Inr k" using k c by simp
  show "f \<and> person_stored s' = (person_stored s)(projr (person_key (snd c)) \<mapsto> w)"
    if "person_stored s (projr (person_key (snd c))) = None" "enter_person c s = Inr (s', w, f)"
    using enter_person_eq [OF kq that(2) [unfolded c]] that(1) k
    by (auto simp: person_stored_def find_append fun_eq_iff split: option.splits if_splits)
  show "s' = s \<and> w' = w \<and> \<not> f"
    if "person_stored s (projr (person_key (snd c))) = Some w" "enter_person c s = Inr (s', w', f)"
    using enter_person_eq [OF kq that(2) [unfolded c]] that(1) k
    by (auto simp: person_stored_def split: option.splits)
qed

subsection \<open>Resolution is stable\<close>

definition lead_company_key :: "lead_query \<Rightarrow> error + company_key" where
  "lead_company_key q =
     sum_bind (if present (lq_company_domain q) then Inr (lq_company_domain q)
               else domain_from_email (lq_email q)) (\<lambda>domain. company_key domain (lq_company_name q))"

definition lead_person_key :: "lead_query \<Rightarrow> error + uuid \<times> string" where
  "lead_person_key q = sum_bind (normalize_email (lq_email q)) (\<lambda>e. Inr (lq_organization_id q, e))"

text \<open>What \<open>gen_random_uuid()\<close> promises of the two identifiers a resolution may use.\<close>

definition fresh_ids :: "uuid \<times> uuid \<Rightarrow> identity_db \<Rightarrow> bool" where
  "fresh_ids fr d \<longleftrightarrow> fst fr \<notin> cp_id ` set (companies d) \<and> snd fr \<notin> pe_id ` set (persons d)"

inductive identity_history :: "identity_db \<Rightarrow> identity_db \<Rightarrow> bool" where
  no_lead: "identity_history d d"
| lead_resolved: "identity_history d d1 \<Longrightarrow> fresh_ids fr d1 \<Longrightarrow> resolve_lead_in fr q d1 = Inr (d2, c, p)
    \<Longrightarrow> identity_history d d2"

definition identity_ok :: "identity_db \<Rightarrow> bool" where
  "identity_ok d \<longleftrightarrow> distinct (map cp_id (companies d)) \<and> distinct (map pe_id (persons d))"

lemma resolve_company_key:
  assumes "resolve_company_in fresh domn name rows = Inr (rows', c)"
  shows "\<exists>k. company_key domn name = Inr k \<and> enter_company (fresh, domn, name) rows = Inr (rows', rsc_id c, rsc_created c)"
  using assms
  by (auto simp: resolve_company_in_def company_key_def enter_company_def sum_bind_Inr split: option.splits)

lemma resolve_person_key:
  assumes "resolve_person_in fresh q rows = Inr (rows', p)"
  shows "\<exists>k. person_key q = Inr k \<and> enter_person (fresh, q) rows = Inr (rows', rsp_id p, rsp_created p)"
  using assms
  by (auto simp: resolve_person_in_def person_key_def enter_person_def sum_bind_Inr)

lemma resolve_lead_steps:
  assumes "resolve_lead_in fr q d = Inr (d', c, p)"
  obtains domn pq k pk where "lead_company_key q = Inr k" "company_key domn (lq_company_name q) = Inr k"
    "enter_company (fst fr, domn, lq_company_name q) (companies d) = Inr (companies d', rsc_id c, rsc_created c)"
    "lead_person_key q = Inr pk" "person_key pq = Inr pk"
    "enter_person (snd fr, pq) (persons d) = Inr (persons d', rsp_id p, rsp_created p)"
proof -
  from assms obtain domn cs ps where
    domn: "(if present (lq_company_domain q) then Inr (lq_company_domain q)
           else domain_from_email (lq_email q)) = Inr domn"
    and c: "resolve_company_in (fst fr) domn (lq_company_name q) (companies d) = Inr (cs, c)"
    and p: "resolve_person_in (snd fr)
         \<lparr>pq_email = lq_email q, pq_organization_id = lq_organization_id q,
          pq_full_name = lq_full_name q, pq_title = lq_title q, pq_company_id = Some (rsc_id c)\<rparr>
         (persons d) = Inr (ps, p)" (is "resolve_person_in _ ?pq _ = _")
    and d': "d' = \<lparr>companies = cs, persons = ps\<rparr>"
    unfolding resolve_lead_in_def sum_bind_Inr split_paired_Ex prod.case sum.inject prod.inject by blast
  from resolve_company_key [OF c] obtain k where
    k: "company_key domn (lq_company_name q) = Inr k"
    "enter_company (fst fr, domn, lq_company_name q) (companies d) = Inr (cs, rsc_id c, rsc_created c)"
    by blast
  from resolve_person_key [OF p] obtain pk where
    pk: "person_key ?pq = Inr pk" "enter_person (snd fr, ?pq) (persons d) = Inr (ps, rsp_id p, rsp_created p)"
    by blast
  have "lead_company_key q = Inr k" unfolding lead_company_key_def domn using k(1) by simp
  moreover have "lead_person_key q = Inr pk" using pk(1) by (simp add: lead_person_key_def person_key_def)
  ultimately show thesis using that k pk unfolding d' by simp
qed

lemma company_stored_inj:
  assumes "distinct (map cp_id rows)" and "company_stored rows k = Some i" and "company_stored rows k' = Some i"
  shows "k = k'"
proof -
  from assms(2,3) obtain r r' where r: "find (\<lambda>r. company_row_key r = Some k) rows = Some r" "cp_id r = i"
    and r': "find (\<lambda>r. company_row_key r = Some k') rows = Some r'" "cp_id r' = i"
    by (auto simp: company_stored_def)
  then have "r \<in> set rows" "r' \<in> set rows" "company_row_key r = Some k" "company_row_key r' = Some k'"
    by (auto simp: find_Some_iff)
  moreover from this have "r = r'"
    using assms(1) r(2) r'(2) by (auto simp: distinct_map inj_on_def)
  ultimately show ?thesis by simp
qed

lemma person_stored_inj:
  assumes "distinct (map pe_id rows)" and "person_stored rows k = Some i" and "person_stored rows k' = Some i"
  shows "k = k'"
proof -
  from assms(2,3) obtain r r' where r: "find (\<lambda>r. (pe_organization_id r, pe_email r) = k) rows = Some r" "pe_id r = i"
    and r': "find (\<lambda>r. (pe_organization_id r, pe_email r) = k') rows = Some r'" "pe_id r' = i"
    by (auto simp: person_stored_def)
  then have "r \<in> set rows" "r' \<in> set rows" "(pe_organization_id r, pe_email r) = k"
    "(pe_organization_id r', pe_email r') = k'"
    by (auto simp: find_Some_iff)
  moreover from this have "r = r'"
    using assms(1) r(2) r'(2) by (auto simp: distinct_map inj_on_def)
  ultimately show ?thesis by simp
qed

lemma resolve_lead_ok:
  assumes "resolve_lead_in fr q d = Inr (d', c, p)" and "identity_ok d" and "fresh_ids fr d"
  shows "identity_ok d'"
proof (rule resolve_lead_steps [OF assms(1)])
  fix domn pq k pk
  assume k: "company_key domn (lq_company_name q) = Inr k"
    "enter_company (fst fr, domn, lq_company_name q) (companies d) = Inr (companies d', rsc_id c, rsc_created c)"
    and pk: "person_key pq = Inr pk"
    "enter_person (snd fr, pq) (persons d) = Inr (persons d', rsp_id p, rsp_created p)"
  have ck: "company_key_of (fst fr, domn, lq_company_name q) = Inr k" using k(1) by (simp add: company_key_of_def)
  have "distinct (map cp_id (companies d'))"
    using enter_company_eq [OF ck k(2)] assms(2,3)
    by (auto simp: identity_ok_def fresh_ids_def split: option.splits)
  moreover have "distinct (map pe_id (persons d'))"
    using enter_person_eq [OF pk] assms(2,3)
    by (auto simp: identity_ok_def fresh_ids_def split: option.splits)
  ultimately show ?thesis by (simp add: identity_ok_def)
qed

lemma resolve_lead_stored:
  assumes "resolve_lead_in fr q d = Inr (d', c, p)"
  shows "\<exists>k pk. lead_company_key q = Inr k \<and> lead_person_key q = Inr pk
    \<and> company_stored (companies d') k = Some (rsc_id c) \<and> person_stored (persons d') pk = Some (rsp_id p)
    \<and> (\<forall>x i. company_stored (companies d) x = Some i \<longrightarrow> company_stored (companies d') x = Some i)
    \<and> (\<forall>x i. person_stored (persons d) x = Some i \<longrightarrow> person_stored (persons d') x = Some i)
    \<and> (company_stored (companies d) k \<noteq> None \<longrightarrow> companies d' = companies d \<and> \<not> rsc_created c)
    \<and> (person_stored (persons d) pk \<noteq> None \<longrightarrow> persons d' = persons d \<and> \<not> rsp_created p)"
proof (rule resolve_lead_steps [OF assms(1)])
  fix domn pq k pk
  assume lk: "lead_company_key q = Inr k" "lead_person_key q = Inr pk"
    and k: "company_key domn (lq_company_name q) = Inr k"
    "enter_company (fst fr, domn, lq_company_name q) (companies d) = Inr (companies d', rsc_id c, rsc_created c)"
    and pk: "person_key pq = Inr pk"
    "enter_person (snd fr, pq) (persons d) = Inr (persons d', rsp_id p, rsp_created p)"
  have ck: "company_key_of (fst fr, domn, lq_company_name q) = Inr k" using k(1) by (simp add: company_key_of_def)
  have pk': "person_key (snd (snd fr, pq)) = Inr pk" using pk(1) by simp
  have ck': "\<exists>k. company_key_of (fst fr, domn, lq_company_name q) = Inr k" using ck by blast
  have pk'': "\<exists>k. person_key (snd (snd fr, pq)) = Inr k" using pk' by blast
  note C = company_log.stored_after [OF ck' k(2)]
    company_log.first_entry_stands [OF ck' k(2)] company_log.enter_known [OF ck' _ k(2)]
  note P = person_log.stored_after [OF pk'' pk(2)]
    person_log.first_entry_stands [OF pk'' pk(2)] person_log.enter_known [OF pk'' _ pk(2)]
  show ?thesis
    using lk C P ck pk' by auto
qed

lemma identity_history_keeps:
  assumes "identity_history d d'"
  shows "(identity_ok d \<longrightarrow> identity_ok d')
    \<and> (\<forall>k i. company_stored (companies d) k = Some i \<longrightarrow> company_stored (companies d') k = Some i)
    \<and> (\<forall>k i. person_stored (persons d) k = Some i \<longrightarrow> person_stored (persons d') k = Some i)"
  using assms
proof induction
  case (lead_resolved d d1 fr q d2 c p)
  with resolve_lead_ok resolve_lead_stored [OF lead_resolved.hyps(3)] show ?case by blast
qed simp

text \<open>
  C26. Identity resolution is stable and exact. Take two leads resolved anywhere in one history
  of the tables, the second after any number of others: they get the same company if and only
  if they name it by the same normalized domain (or, without a domain, the same normalized
  name), and the same person if and only if organization and normalized e-mail agree. The later
  of two equal ones inserts nothing.
\<close>

theorem resolution_is_stable:
  assumes "identity_ok d" and "fresh_ids fr d" and "resolve_lead_in fr q d = Inr (d1, c, p)"
    and "identity_history d1 d2" and "fresh_ids fr' d2" and "resolve_lead_in fr' q' d2 = Inr (d3, c', p')"
  shows "(rsc_id c' = rsc_id c \<longleftrightarrow> lead_company_key q' = lead_company_key q)
    \<and> (rsp_id p' = rsp_id p \<longleftrightarrow> lead_person_key q' = lead_person_key q)
    \<and> (lead_company_key q' = lead_company_key q \<longrightarrow> \<not> rsc_created c' \<and> companies d3 = companies d2)
    \<and> (lead_person_key q' = lead_person_key q \<longrightarrow> \<not> rsp_created p' \<and> persons d3 = persons d2)"
proof -
  have ok: "identity_ok d3"
    using resolve_lead_ok assms identity_history_keeps by metis
  from resolve_lead_stored [OF assms(3)] identity_history_keeps [OF assms(4)] obtain k pk where
    k: "lead_company_key q = Inr k" "company_stored (companies d2) k = Some (rsc_id c)"
    and pk: "lead_person_key q = Inr pk" "person_stored (persons d2) pk = Some (rsp_id p)"
    by blast
  from resolve_lead_stored [OF assms(6)] obtain k' pk' where
    k': "lead_company_key q' = Inr k'" "company_stored (companies d3) k' = Some (rsc_id c')"
    "company_stored (companies d2) k' \<noteq> None \<longrightarrow> companies d3 = companies d2 \<and> \<not> rsc_created c'"
    and pk': "lead_person_key q' = Inr pk'" "person_stored (persons d3) pk' = Some (rsp_id p')"
    "person_stored (persons d2) pk' \<noteq> None \<longrightarrow> persons d3 = persons d2 \<and> \<not> rsp_created p'"
    and keep: "company_stored (companies d3) k = Some (rsc_id c)" "person_stored (persons d3) pk = Some (rsp_id p)"
    using k(2) pk(2) by blast
  have "rsc_id c' = rsc_id c \<longleftrightarrow> k' = k"
    using company_stored_inj [of "companies d3" k' "rsc_id c" k] ok k'(2) keep(1)
    unfolding identity_ok_def by (metis option.inject)
  moreover have "rsp_id p' = rsp_id p \<longleftrightarrow> pk' = pk"
    using person_stored_inj [of "persons d3" pk' "rsp_id p" pk] ok pk'(2) keep(2)
    unfolding identity_ok_def by (metis option.inject)
  ultimately show ?thesis using k k' pk pk' by auto
qed

definition empty_identities :: identity_db where
  "empty_identities = \<lparr>companies = [], persons = []\<rparr>"

definition tagged_lead :: lead_query where
  "tagged_lead =
     \<lparr>lq_email = ''Jane+x@ACME.com'', lq_organization_id = 3, lq_company_domain = None,
      lq_company_name = None, lq_full_name = None, lq_title = None\<rparr>"

definition url_lead :: lead_query where
  "url_lead =
     \<lparr>lq_email = '' jane@acme.com'', lq_organization_id = 3,
      lq_company_domain = Some ''https://www.Acme.com/pricing'', lq_company_name = Some ''Acme'',
      lq_full_name = None, lq_title = None\<rparr>"

theorem resolution_is_stable_witness:
  "\<exists>d1 c p d3 c' p'. resolve_lead_in (1, 2) tagged_lead empty_identities = Inr (d1, c, p)
     \<and> resolve_lead_in (5, 6) url_lead d1 = Inr (d3, c', p')
     \<and> rsc_id c' = rsc_id c \<and> rsp_id p' = rsp_id p \<and> companies d3 = companies d1 \<and> persons d3 = persons d1"
proof -
  let ?d1 = "\<lparr>companies = [\<lparr>cp_id = 1, cp_domain = Some ''acme.com'', cp_name = ''acme.com'', cp_normalized = None\<rparr>],
      persons = [\<lparr>pe_id = 2, pe_email = ''jane@acme.com'', pe_full_name = None, pe_title = None,
        pe_company_id = Some 1, pe_organization_id = 3\<rparr>]\<rparr>"
  let ?c = "\<lparr>rsc_id = 1, rsc_domain = Some ''acme.com'', rsc_created = True\<rparr>"
  let ?p = "\<lparr>rsp_id = 2, rsp_email = ''jane@acme.com'', rsp_company_id = Some 1, rsp_created = True\<rparr>"
  let ?c' = "\<lparr>rsc_id = 1, rsc_domain = Some ''acme.com'', rsc_created = False\<rparr>"
  let ?p' = "\<lparr>rsp_id = 2, rsp_email = ''jane@acme.com'', rsp_company_id = Some 1, rsp_created = False\<rparr>"
  have one: "resolve_lead_in (1, 2) tagged_lead empty_identities = Inr (?d1, ?c, ?p)" by code_simp
  have two: "resolve_lead_in (5, 6) url_lead ?d1 = Inr (?d1, ?c', ?p')" by code_simp
  have keys: "lead_company_key url_lead = lead_company_key tagged_lead" by code_simp
  have pkeys: "lead_person_key url_lead = lead_person_key tagged_lead" by code_simp
  have "identity_ok empty_identities" "fresh_ids (1, 2) empty_identities" "fresh_ids (5, 6) ?d1"
    by (simp_all add: identity_ok_def fresh_ids_def empty_identities_def)
  from resolution_is_stable [OF this(1,2) one no_lead this(3) two] keys pkeys one two
  show ?thesis by blast
qed

subsection \<open>What a verified answer has shown\<close>

definition name_matches :: "requested_identity \<Rightarrow> returned_identity \<Rightarrow> bool" where
  "name_matches rq rt \<longleftrightarrow>
     (\<exists>a b k. rq_full_name rq = Some a \<and> rt_full_name rt = Some b \<and> name_key a = Some k \<and> name_key b = Some k)"

definition domain_matches :: "requested_identity \<Rightarrow> returned_identity \<Rightarrow> bool" where
  "domain_matches rq rt \<longleftrightarrow>
     (\<exists>a e d. rt_employer_domain rt = Some a \<and> expected_domain rq = Inr (Some e)
        \<and> normalize_domain a = Inr d \<and> normalize_domain e = Inr d)"

lemma name_signal_Match: "fst (name_signal rq rt) = Match \<longleftrightarrow> name_matches rq rt"
  by (auto simp: name_signal_def name_matches_def split: option.splits prod.splits if_splits)

lemma normalize_domain_nonempty: "normalize_domain [] = Inl ValueError"
  by (simp add: normalize_domain_def require_nonblank_def py_strip_def)

lemma domain_signal_Match:
  assumes s: "domain_signal rq rt = Inr d"
  shows "fst d = Match \<longleftrightarrow> domain_matches rq rt"
proof (cases "rt_employer_domain rt")
  case None
  with s show ?thesis by (auto simp: domain_signal_def domain_matches_def)
next
  case (Some a)
  show ?thesis
  proof (cases "a = []")
    case True
    with s Some show ?thesis
      by (auto simp: domain_signal_def domain_matches_def normalize_domain_nonempty)
  next
    case False
    with s Some obtain x where x: "expected_domain rq = Inr x"
      by (auto simp: domain_signal_def sum_bind_Inr)
    show ?thesis
    proof (cases x)
      case None
      with s Some False x show ?thesis
        by (auto simp: domain_signal_def domain_matches_def sum_bind_Inr split: if_splits)
    next
      case (Some e)
      with s \<open>rt_employer_domain rt = Some a\<close> False x show ?thesis
        by (cases "normalize_domain a"; cases "normalize_domain e")
          (auto simp: domain_signal_def domain_matches_def split: if_splits)
    qed
  qed
qed

lemma validate_verdict:
  assumes "validate_identity rq rt = Inr v"
  shows "iv_verdict v = VERIFIED \<longleftrightarrow>
      domain_matches rq rt \<and> name_matches rq rt \<and> email_signal rq rt \<noteq> Mismatch"
proof (cases "rt_full_name rt = None \<and> rt_employer_domain rt = None \<and> rt_email rt = None")
  case True
  with assms show ?thesis by (auto simp: validate_identity_def domain_matches_def)
next
  case False
  with assms obtain d where d: "domain_signal rq rt = Inr d"
    by (auto simp: validate_identity_def sum_bind_Inr)
  show ?thesis
    using assms False d domain_signal_Match [OF d] name_signal_Match [of rq rt]
    by (cases "fst d"; cases "fst (name_signal rq rt)"; cases "email_signal rq rt")
      (simp_all add: validate_identity_def Let_def, auto)
qed

end
