(* ===== verification/Json_Value.thy ===== *)
theory Json_Value
  imports PyValue
begin

text \<open>
  JSON documents as Python holds them after parsing: request bodies, the \<open>config\<close> column of
  a scoring profile, the payload of a webhook. An object is the dictionary it becomes, in
  insertion order; a number is an \<open>int\<close> or a \<open>float\<close>, and Python's parser also accepts
  NaN and the infinities. \<open>jsonb\<close> is the value after a round trip through a PostgreSQL
  \<open>jsonb\<close> column, which refuses non-finite numbers and NUL characters and orders the keys
  of an object by length, then by bytes.
\<close>

datatype json =
    JNull
  | JBool bool
  | JInt int
  | JFloat pyfloat
  | JStr string
  | JList "json list"
  | JObj "(string \<times> json) list"

type_synonym json_dict = "(string \<times> json) list"

subsection \<open>Reading a dictionary\<close>

text \<open>\<open>d.get(k, default)\<close> and \<open>d.get(k)\<close>\<close>

definition json_get_or :: "json_dict \<Rightarrow> string \<Rightarrow> json \<Rightarrow> json" where
  "json_get_or d k dflt = (case map_of d k of None \<Rightarrow> dflt | Some v \<Rightarrow> v)"

abbreviation json_get :: "json_dict \<Rightarrow> string \<Rightarrow> json" where
  "json_get d k \<equiv> json_get_or d k JNull"

text \<open>\<open>isinstance(v, int | float) and not isinstance(v, bool)\<close>, and \<open>float(v)\<close> of such a
  value.\<close>

fun is_number :: "json \<Rightarrow> bool" where
  "is_number (JInt _) = True"
| "is_number (JFloat _) = True"
| "is_number _ = False"

fun number_of :: "json \<Rightarrow> pyfloat" where
  "number_of (JInt i) = Fin (of_int i)"
| "number_of (JFloat x) = x"
| "number_of _ = NaN"

fun json_truthy :: "json \<Rightarrow> bool" where
  "json_truthy JNull = False"
| "json_truthy (JBool b) = b"
| "json_truthy (JInt i) = (i \<noteq> 0)"
| "json_truthy (JFloat x) = (x \<noteq> Fin 0)"
| "json_truthy (JStr s) = (s \<noteq> [])"
| "json_truthy (JList xs) = (xs \<noteq> [])"
| "json_truthy (JObj d) = (d \<noteq> [])"

fun is_str :: "json \<Rightarrow> bool" where
  "is_str (JStr _) = True"
| "is_str _ = False"

fun is_bool :: "json \<Rightarrow> bool" where
  "is_bool (JBool _) = True"
| "is_bool _ = False"

subsection \<open>Comparisons and sums of Python floats\<close>

fun pf_le :: "pyfloat \<Rightarrow> pyfloat \<Rightarrow> bool" where
  "pf_le NaN _ = False"
| "pf_le _ NaN = False"
| "pf_le NInf _ = True"
| "pf_le _ PInf = True"
| "pf_le PInf _ = False"
| "pf_le _ NInf = False"
| "pf_le (Fin x) (Fin y) = (x \<le> y)"

fun pf_less :: "pyfloat \<Rightarrow> pyfloat \<Rightarrow> bool" where
  "pf_less NaN _ = False"
| "pf_less _ NaN = False"
| "pf_less (Fin x) (Fin y) = (x < y)"
| "pf_less NInf y = (y \<noteq> NInf)"
| "pf_less x PInf = (x \<noteq> PInf)"
| "pf_less _ _ = False"

fun pf_add :: "pyfloat \<Rightarrow> pyfloat \<Rightarrow> pyfloat" where
  "pf_add (Fin x) (Fin y) = Fin (x + y)"
| "pf_add NaN _ = NaN"
| "pf_add _ NaN = NaN"
| "pf_add PInf NInf = NaN"
| "pf_add NInf PInf = NaN"
| "pf_add PInf _ = PInf"
| "pf_add _ PInf = PInf"
| "pf_add NInf _ = NInf"
| "pf_add _ NInf = NInf"

text \<open>\<open>max(xs, default=0.0)\<close>: the first element is kept until a strictly larger one.\<close>

definition pf_max_default :: "pyfloat list \<Rightarrow> pyfloat" where
  "pf_max_default xs =
     (case xs of [] \<Rightarrow> Fin 0 | y # ys \<Rightarrow> fold (\<lambda>x m. if pf_less m x then x else m) ys y)"

subsection \<open>\<open>int(v)\<close> and \<open>float(v)\<close>\<close>

text \<open>\<open>None\<close> is the exception: TypeError, ValueError or OverflowError. A float is truncated
  towards zero.\<close>

definition truncate_real :: "real \<Rightarrow> int" where
  "truncate_real x = (if 0 \<le> x then \<lfloor>x\<rfloor> else \<lceil>x\<rceil>)"

definition int_of_string :: "string \<Rightarrow> int option" where
  "int_of_string s =
     (case drop_underscores False (py_strip s) of
        None \<Rightarrow> None
      | Some t \<Rightarrow>
          (let neg = (case t of [] \<Rightarrow> False | c # _ \<Rightarrow> c = CHR ''-'');
               u = (case t of [] \<Rightarrow> [] | c # cs \<Rightarrow>
                      if c = CHR ''-'' \<or> c = CHR ''+'' then cs else t)
           in if u \<noteq> [] \<and> list_all is_digit u
              then Some (if neg then - int (digits_value u) else int (digits_value u))
              else None))"

fun json_int :: "json \<Rightarrow> int option" where
  "json_int (JBool b) = Some (if b then 1 else 0)"
| "json_int (JInt i) = Some i"
| "json_int (JFloat (Fin x)) = Some (truncate_real x)"
| "json_int (JStr s) = int_of_string s"
| "json_int _ = None"

fun json_float :: "json \<Rightarrow> pyfloat option" where
  "json_float (JBool b) = Some (Fin (if b then 1 else 0))"
| "json_float (JInt i) = Some (Fin (of_int i))"
| "json_float (JFloat x) = Some x"
| "json_float (JStr s) = float_of_string s"
| "json_float _ = None"

subsection \<open>Documents and the \<open>jsonb\<close> column\<close>

text \<open>Every object of a document is a dictionary: its keys are distinct.\<close>

primrec is_document :: "json \<Rightarrow> bool" where
  "is_document JNull = True"
| "is_document (JBool b) = True"
| "is_document (JInt i) = True"
| "is_document (JFloat x) = True"
| "is_document (JStr s) = True"
| "is_document (JList xs) = list_all (\<lambda>b. b) (map is_document xs)"
| "is_document (JObj d) =
     (distinct (map fst d) \<and> list_all (\<lambda>p. snd p) (map (map_prod (\<lambda>k. k) is_document) d))"

definition no_nul :: "string \<Rightarrow> bool" where
  "no_nul s \<longleftrightarrow> list_all (\<lambda>c. code c \<noteq> 0) s"

fun is_finite :: "pyfloat \<Rightarrow> bool" where
  "is_finite (Fin _) = True"
| "is_finite _ = False"

primrec jsonb_accepts :: "json \<Rightarrow> bool" where
  "jsonb_accepts JNull = True"
| "jsonb_accepts (JBool b) = True"
| "jsonb_accepts (JInt i) = True"
| "jsonb_accepts (JFloat x) = is_finite x"
| "jsonb_accepts (JStr s) = no_nul s"
| "jsonb_accepts (JList xs) = list_all (\<lambda>b. b) (map jsonb_accepts xs)"
| "jsonb_accepts (JObj d) =
     list_all (\<lambda>p. no_nul (fst p) \<and> snd p) (map (map_prod (\<lambda>k. k) jsonb_accepts) d)"

definition jsonb_key_order :: "string \<times> 'a \<Rightarrow> nat \<times> string" where
  "jsonb_key_order p = (length (fst p), fst p)"

primrec jsonb :: "json \<Rightarrow> json" where
  "jsonb JNull = JNull"
| "jsonb (JBool b) = JBool b"
| "jsonb (JInt i) = JInt i"
| "jsonb (JFloat x) = JFloat x"
| "jsonb (JStr s) = JStr s"
| "jsonb (JList xs) = JList (map jsonb xs)"
| "jsonb (JObj d) = JObj (sort_key jsonb_key_order (map (map_prod (\<lambda>k. k) jsonb) d))"

definition jsonb_dict :: "json_dict \<Rightarrow> json_dict" where
  "jsonb_dict d = sort_key jsonb_key_order (map (map_prod (\<lambda>k. k) jsonb) d)"

subsection \<open>Lemmas\<close>

lemma jsonb_JObj [simp]: "jsonb (JObj d) = JObj (jsonb_dict d)"
  by (simp add: jsonb_dict_def)

declare jsonb.simps(7) [simp del]

lemma is_document_list: "is_document (JList xs) \<longleftrightarrow> (\<forall>x \<in> set xs. is_document x)"
  by (simp add: list_all_iff)

lemma is_document_dict:
  "is_document (JObj d) \<longleftrightarrow> distinct (map fst d) \<and> (\<forall>(k, v) \<in> set d. is_document v)"
  by (auto simp: list_all_iff)

lemma jsonb_accepts_list: "jsonb_accepts (JList xs) \<longleftrightarrow> (\<forall>x \<in> set xs. jsonb_accepts x)"
  by (simp add: list_all_iff)

lemma jsonb_accepts_dict:
  "jsonb_accepts (JObj d) \<longleftrightarrow> (\<forall>(k, v) \<in> set d. no_nul k \<and> jsonb_accepts v)"
  by (auto simp: list_all_iff)

declare is_document.simps(6,7) [simp del] jsonb_accepts.simps(6,7) [simp del]

lemma map_of_map_prod: "map_of (map (map_prod (\<lambda>k. k) f) d) k = map_option f (map_of d k)"
  by (induction d) auto

lemma map_of_sort_key:
  assumes "distinct (map fst d)"
  shows "map_of (sort_key f d) = map_of d"
proof -
  have "set (sort_key f d) = set d" by simp
  moreover have "distinct (map fst (sort_key f d))"
  proof -
    have "mset (map fst (sort_key f d)) = mset (map fst d)" by simp
    with assms show ?thesis by (metis distinct_count_atmost_1 set_mset_mset)
  qed
  ultimately show ?thesis
    using assms by (metis map_of_inject_set)
qed

text \<open>A key is read back as what was stored under it.\<close>

lemma json_get_or_jsonb:
  assumes "distinct (map fst d)"
  shows "json_get_or (jsonb_dict d) k (jsonb x) = jsonb (json_get_or d k x)"
proof -
  have "distinct (map fst (map (map_prod (\<lambda>k. k) jsonb) d))"
    using assms by (simp add: comp_def)
  then show ?thesis
    by (simp add: json_get_or_def jsonb_dict_def map_of_sort_key map_of_map_prod split: option.split)
qed

lemmas json_get_jsonb = json_get_or_jsonb [where x = JNull, simplified]

lemma set_jsonb_dict: "set (jsonb_dict d) = map_prod (\<lambda>k. k) jsonb ` set d"
  by (simp add: jsonb_dict_def)

lemma is_number_jsonb [simp]: "is_number (jsonb v) = is_number v"
  by (cases v) simp_all

lemma number_of_jsonb [simp]: "number_of (jsonb v) = number_of v"
  by (cases v) simp_all

lemma json_float_number: "is_number v \<Longrightarrow> json_float v = Some (number_of v)"
  by (cases v) simp_all

lemma json_int_number:
  "is_number v \<Longrightarrow> number_of v = Fin x \<Longrightarrow> json_int v = Some (truncate_real x)"
  by (cases v) (auto simp: truncate_real_def)

lemma number_finite: "is_number v \<Longrightarrow> jsonb_accepts v \<Longrightarrow> \<exists>x. number_of v = Fin x"
  by (cases v) (auto elim: is_finite.elims)

lemma json_get_accepted: "jsonb_accepts (JObj d) \<Longrightarrow> jsonb_accepts (json_get d k)"
  unfolding jsonb_accepts_dict json_get_or_def
  by (auto split: option.split dest: map_of_SomeD)

lemma json_get_document: "is_document (JObj d) \<Longrightarrow> is_document (json_get d k)"
  unfolding is_document_dict json_get_or_def
  by (auto split: option.split dest: map_of_SomeD)

lemma pf_less_Fin [simp]: "pf_less (Fin x) (Fin y) \<longleftrightarrow> x < y"
  by simp

lemma fold_pf_max_Fin:
  "fold (\<lambda>x m. if pf_less m x then x else m) (map Fin ys) (Fin y) = Fin (fold max ys y)"
  by (induction ys arbitrary: y) (simp_all add: max_def max.commute)

lemma truncate_real_mono: "x \<le> y \<Longrightarrow> truncate_real x \<le> truncate_real y"
  unfolding truncate_real_def by (simp add: floor_mono ceiling_mono) (metis ceiling_le_zero dual_order.trans linorder_linear zero_le_floor)

lemma truncate_real_of_int [simp]: "truncate_real (of_int i) = i"
  by (simp add: truncate_real_def)

end
