(* ===== verification/ICP_Profiles.thy ===== *)
theory ICP_Profiles
  imports Json_Value Scoring_Rules
begin

text \<open>
  \<open>arie.icp_profiles\<close>: the versioned scoring profiles of an organization. A configuration
  is the JSON object an administrator submits; \<open>validate_config\<close> collects every violation
  of its shape, \<open>create_profile\<close> stores a valid one as the next version and retires the
  version that was active, and \<open>materialize_scoring_config\<close> turns a stored object into the
  \<open>scoring_config\<close> the scorer reads. A violation is a constructor with the values its
  message quotes. The table \<open>organization_icp_profiles\<close> is the list of its rows in the order
  of their insertion; a statement that violates one of its constraints raises and the
  transaction leaves the table as it was.
\<close>

definition WEIGHT_SUM_TARGET :: real where
  "WEIGHT_SUM_TARGET = 100"

definition WEIGHT_SUM_TOLERANCE :: real where
  "WEIGHT_SUM_TOLERANCE = 1 / 1000000"

definition reference_band :: "int \<Rightarrow> int \<Rightarrow> real \<Rightarrow> json" where
  "reference_band lo hi pts =
     JObj [(''min_employees'', JInt lo), (''max_employees'', JInt hi), (''points'', JFloat (Fin pts))]"

definition REFERENCE_CONFIG :: json_dict where
  "REFERENCE_CONFIG =
     [(''qualify_threshold'', JFloat (Fin 65)),
      (''reject_threshold'', JFloat (Fin 55)),
      (''employee_count_bands'', JList
         [reference_band 1 10 2, reference_band 11 50 10, reference_band 51 200 20,
          reference_band 201 1000 18, reference_band 1001 1000000000 8]),
      (''industry_points'', JObj
         [(''software'', JFloat (Fin 15)), (''fintech'', JFloat (Fin 15)),
          (''healthtech'', JFloat (Fin 13)), (''ecommerce'', JFloat (Fin 12)),
          (''logistics'', JFloat (Fin 8)), (''manufacturing'', JFloat (Fin 7)),
          (''education'', JFloat (Fin 5)), (''nonprofit'', JFloat (Fin 2))]),
      (''seniority_points'', JObj
         [(''c_level'', JFloat (Fin 20)), (''vp'', JFloat (Fin 18)), (''director'', JFloat (Fin 14)),
          (''manager'', JFloat (Fin 8)), (''ic'', JFloat (Fin 2))]),
      (''function_points'', JObj
         [(''data'', JFloat (Fin 15)), (''engineering'', JFloat (Fin 14)),
          (''operations'', JFloat (Fin 9)), (''marketing'', JFloat (Fin 5)),
          (''sales'', JFloat (Fin 5)), (''finance'', JFloat (Fin 4)), (''other'', JFloat (Fin 2))]),
      (''buying_intent_weight'', JFloat (Fin 20)),
      (''trigger_event_weight'', JFloat (Fin 10)),
      (''target_geographies'', JList []),
      (''disqualifier_enabled'', JBool True)]"

subsection \<open>Validation\<close>

datatype icp_violation =
    QualifyRange
  | RejectRange
  | ThresholdOrder
  | BandsNotAList
  | BandNotAnObject json
  | BandNotNumeric json_dict
  | BandRange json_dict
  | BandNegativePoints json_dict
  | MapNotAnObject string
  | MapEmptyKey string
  | MapBadPoints string string
  | WeightNotANumber string
  | CeilingSum pyfloat
  | GeographiesNotStrings
  | DisqualifierNotBoolean

datatype profile_error =
    InvalidICPConfigError "icp_violation list"
  | ProfileDataError
  | ProfileCheckViolation
  | ProfileUniqueViolation

definition threshold_ok :: "json \<Rightarrow> bool" where
  "threshold_ok v \<longleftrightarrow> is_number v \<and> pf_le (Fin 0) (number_of v) \<and> pf_le (number_of v) (Fin 100)"

definition threshold_violations :: "json_dict \<Rightarrow> icp_violation list" where
  "threshold_violations config =
     (let qualify = json_get config ''qualify_threshold''; reject = json_get config ''reject_threshold''
      in (if threshold_ok qualify then [] else [QualifyRange])
         @ (if threshold_ok reject then [] else [RejectRange])
         @ (if threshold_ok qualify \<and> threshold_ok reject \<and> pf_le (number_of qualify) (number_of reject)
            then [ThresholdOrder] else []))"

definition band_violations :: "json \<Rightarrow> icp_violation list" where
  "band_violations band =
     (case band of
        JObj d \<Rightarrow>
          (let lo = json_get d ''min_employees''; hi = json_get d ''max_employees'';
               pts = json_get d ''points''
           in if \<not> (is_number lo \<and> is_number hi \<and> is_number pts) then [BandNotNumeric d]
              else (if pf_less (number_of lo) (Fin 0) \<or> pf_less (number_of hi) (number_of lo)
                    then [BandRange d] else [])
                   @ (if pf_less (number_of pts) (Fin 0) then [BandNegativePoints d] else []))
      | _ \<Rightarrow> [BandNotAnObject band])"

definition bands_violations :: "json \<Rightarrow> icp_violation list" where
  "bands_violations bands =
     (case bands of
        JList xs \<Rightarrow> if xs = [] then [BandsNotAList] else concat (map band_violations xs)
      | _ \<Rightarrow> [BandsNotAList])"

definition points_ok :: "json \<Rightarrow> bool" where
  "points_ok v \<longleftrightarrow> is_number v \<and> \<not> pf_less (number_of v) (Fin 0)"

definition entry_violations :: "string \<Rightarrow> string \<times> json \<Rightarrow> icp_violation list" where
  "entry_violations map_name e =
     (if fst e = [] then [MapEmptyKey map_name]
      else if \<not> points_ok (snd e) then [MapBadPoints map_name (fst e)]
      else [])"

definition map_violations :: "json_dict \<Rightarrow> string \<Rightarrow> icp_violation list" where
  "map_violations config map_name =
     (case json_get config map_name of
        JObj d \<Rightarrow> concat (map (entry_violations map_name) d)
      | _ \<Rightarrow> [MapNotAnObject map_name])"

text \<open>\<open>point_maps[map_name]\<close>: the entries that passed.\<close>

definition clean_points :: "json_dict \<Rightarrow> string \<Rightarrow> (string \<times> pyfloat) list" where
  "clean_points config map_name =
     (case json_get config map_name of
        JObj d \<Rightarrow> map (map_prod (\<lambda>k. k) number_of) (filter (\<lambda>e. entry_violations map_name e = []) d)
      | _ \<Rightarrow> [])"

definition weight_violations :: "json_dict \<Rightarrow> string \<Rightarrow> icp_violation list" where
  "weight_violations config weight_name =
     (if points_ok (json_get config weight_name) then [] else [WeightNotANumber weight_name])"

definition field_ceiling_from_bands :: "json \<Rightarrow> pyfloat" where
  "field_ceiling_from_bands bands =
     (case bands of
        JList xs \<Rightarrow> pf_max_default
          (map (\<lambda>band. case band of JObj d \<Rightarrow> number_of (json_get_or d ''points'' (JFloat (Fin 0)))
                                | _ \<Rightarrow> NaN) xs)
      | _ \<Rightarrow> Fin 0)"

definition ceiling_total :: "json_dict \<Rightarrow> pyfloat" where
  "ceiling_total config =
     pf_add (pf_add (pf_add (pf_add (pf_add
       (field_ceiling_from_bands (json_get config ''employee_count_bands''))
       (pf_max_default (map snd (clean_points config ''industry_points''))))
       (pf_max_default (map snd (clean_points config ''seniority_points''))))
       (pf_max_default (map snd (clean_points config ''function_points''))))
       (number_of (json_get config ''buying_intent_weight'')))
       (number_of (json_get config ''trigger_event_weight''))"

text \<open>\<open>abs(total - WEIGHT_SUM_TARGET) > _WEIGHT_SUM_TOLERANCE\<close>, false for a NaN.\<close>

fun off_target :: "pyfloat \<Rightarrow> bool" where
  "off_target (Fin x) \<longleftrightarrow> \<bar>x - WEIGHT_SUM_TARGET\<bar> > WEIGHT_SUM_TOLERANCE"
| "off_target NaN \<longleftrightarrow> False"
| "off_target _ \<longleftrightarrow> True"

definition shape_violations :: "json_dict \<Rightarrow> icp_violation list" where
  "shape_violations config =
     threshold_violations config
     @ bands_violations (json_get config ''employee_count_bands'')
     @ map_violations config ''industry_points''
     @ map_violations config ''seniority_points''
     @ map_violations config ''function_points''
     @ weight_violations config ''buying_intent_weight''
     @ weight_violations config ''trigger_event_weight''"

definition geography_violations :: "json_dict \<Rightarrow> icp_violation list" where
  "geography_violations config =
     (case json_get_or config ''target_geographies'' (JList []) of
        JList xs \<Rightarrow> if list_all is_str xs then [] else [GeographiesNotStrings]
      | _ \<Rightarrow> [GeographiesNotStrings])"

definition disqualifier_violations :: "json_dict \<Rightarrow> icp_violation list" where
  "disqualifier_violations config =
     (if is_bool (json_get_or config ''disqualifier_enabled'' (JBool True)) then []
      else [DisqualifierNotBoolean])"

definition config_violations :: "json_dict \<Rightarrow> icp_violation list" where
  "config_violations config =
     shape_violations config
     @ (if shape_violations config = [] \<and> off_target (ceiling_total config)
        then [CeilingSum (ceiling_total config)] else [])
     @ geography_violations config
     @ disqualifier_violations config"

definition validate_config :: "json_dict \<Rightarrow> profile_error + unit" where
  "validate_config config =
     (case config_violations config of
        [] \<Rightarrow> Inr ()
      | errors \<Rightarrow> Inl (InvalidICPConfigError errors))"

subsection \<open>From a stored configuration to the scorer's\<close>

text \<open>
  \<open>None\<close> is an exception (a missing key, a value that is not a number) or a number that is
  not finite, which the scorer's record of reals cannot hold and a \<open>jsonb\<close> column neither.
\<close>

definition json_real :: "json \<Rightarrow> real option" where
  "json_real v = (case json_float v of Some (Fin x) \<Rightarrow> Some x | _ \<Rightarrow> None)"

definition real_at :: "json_dict \<Rightarrow> string \<Rightarrow> real option" where
  "real_at d k = Option.bind (map_of d k) json_real"

definition int_at :: "json_dict \<Rightarrow> string \<Rightarrow> int option" where
  "int_at d k = Option.bind (map_of d k) json_int"

definition points_at :: "json_dict \<Rightarrow> string \<Rightarrow> (string \<times> real) list option" where
  "points_at d k =
     (case map_of d k of
        Some (JObj e) \<Rightarrow> those (map (\<lambda>(name, v). map_option (Pair name) (json_real v)) e)
      | _ \<Rightarrow> None)"

definition band_of :: "json \<Rightarrow> (int \<times> int \<times> real) option" where
  "band_of band =
     (case band of
        JObj d \<Rightarrow>
          Option.bind (int_at d ''min_employees'') (\<lambda>lo.
          Option.bind (int_at d ''max_employees'') (\<lambda>hi.
          Option.bind (real_at d ''points'') (\<lambda>pts. Some (lo, hi, pts))))
      | _ \<Rightarrow> None)"

definition bands_at :: "json_dict \<Rightarrow> string \<Rightarrow> (int \<times> int \<times> real) list option" where
  "bands_at d k =
     (case map_of d k of
        Some (JList xs) \<Rightarrow> those (map band_of xs)
      | _ \<Rightarrow> None)"

definition materialize_scoring_config ::
    "json_dict \<Rightarrow> uuid \<Rightarrow> int \<Rightarrow> scoring_config option" where
  "materialize_scoring_config config pid ver =
     Option.bind (bands_at config ''employee_count_bands'') (\<lambda>bands.
     Option.bind (real_at config ''qualify_threshold'') (\<lambda>qualify.
     Option.bind (real_at config ''reject_threshold'') (\<lambda>reject.
     Option.bind (points_at config ''industry_points'') (\<lambda>industry.
     Option.bind (points_at config ''seniority_points'') (\<lambda>seniority.
     Option.bind (points_at config ''function_points'') (\<lambda>function.
     Option.bind (real_at config ''buying_intent_weight'') (\<lambda>intent.
     Option.bind (real_at config ''trigger_event_weight'') (\<lambda>trigger.
       Some \<lparr>qualify_threshold = qualify, reject_threshold = reject, size_bands = bands,
             industry_points = industry, seniority_points = seniority,
             function_points = function, intent_max_points = intent, trigger_points = trigger,
             disqualifier_enabled =
               json_truthy (json_get_or config ''disqualifier_enabled'' (JBool True)),
             profile_id = Some pid, profile_version = Some ver\<rparr>))))))))"

subsection \<open>The table of profiles\<close>

datatype profile_status = ProfileActive | ProfileRetired

record icp_profile =
  ip_profile_id :: uuid
  ip_organization_id :: uuid
  ip_version :: int
  ip_name :: string
  ip_config :: json_dict
  ip_scorer_version :: string
  ip_status :: profile_status
  ip_created_by :: "uuid option"
  ip_created_at :: instant
  ip_activated_at :: instant
  ip_retired_at :: "instant option"

definition is_active :: "icp_profile \<Rightarrow> bool" where
  "is_active p \<longleftrightarrow> ip_status p = ProfileActive"

abbreviation of_org :: "uuid \<Rightarrow> icp_profile list \<Rightarrow> icp_profile list" where
  "of_org org tbl \<equiv> filter (\<lambda>p. ip_organization_id p = org) tbl"

text \<open>\<open>COALESCE(MAX(version), 0)\<close>\<close>

definition max_version :: "uuid \<Rightarrow> icp_profile list \<Rightarrow> int" where
  "max_version org tbl =
     (case map ip_version (of_org org tbl) of [] \<Rightarrow> 0 | v # vs \<Rightarrow> fold max vs v)"

definition retire_active :: "uuid \<Rightarrow> instant \<Rightarrow> icp_profile list \<Rightarrow> icp_profile list" where
  "retire_active org now tbl =
     map (\<lambda>p. if ip_organization_id p = org \<and> is_active p
              then p\<lparr>ip_status := ProfileRetired, ip_retired_at := Some now\<rparr> else p) tbl"

definition insert_profile ::
    "icp_profile \<Rightarrow> icp_profile list \<Rightarrow> profile_error + icp_profile list" where
  "insert_profile p tbl =
     (if \<not> (jsonb_accepts (JObj (ip_config p)) \<and> no_nul (ip_name p)) then Inl ProfileDataError
      else if ip_version p < 1 then Inl ProfileCheckViolation
      else if list_ex (\<lambda>q. ip_profile_id q = ip_profile_id p
                 \<or> ip_organization_id q = ip_organization_id p
                   \<and> (ip_version q = ip_version p \<or> is_active q \<and> is_active p)) tbl
      then Inl ProfileUniqueViolation
      else Inr (tbl @ [p\<lparr>ip_config := jsonb_dict (ip_config p)\<rparr>]))"

definition create_profile ::
    "uuid \<Rightarrow> uuid \<Rightarrow> string \<Rightarrow> json_dict \<Rightarrow> string \<Rightarrow> uuid \<Rightarrow> instant \<Rightarrow> icp_profile list
     \<Rightarrow> (profile_error + icp_profile) \<times> icp_profile list" where
  "create_profile org user name config scorer fresh now tbl =
     (case validate_config config of
        Inl e \<Rightarrow> (Inl e, tbl)
      | Inr _ \<Rightarrow>
          (let next_version = max_version org tbl + 1;
               row = \<lparr>ip_profile_id = fresh, ip_organization_id = org, ip_version = next_version,
                      ip_name = name, ip_config = config, ip_scorer_version = scorer,
                      ip_status = ProfileActive, ip_created_by = Some user, ip_created_at = now,
                      ip_activated_at = now, ip_retired_at = None\<rparr>
           in case insert_profile row (retire_active org now tbl) of
                Inl e \<Rightarrow> (Inl e, tbl)
              | Inr tbl' \<Rightarrow> (Inr (last tbl'), tbl')))"

definition get_active_profile :: "uuid \<Rightarrow> icp_profile list \<Rightarrow> icp_profile option" where
  "get_active_profile org tbl = find (\<lambda>p. ip_organization_id p = org \<and> is_active p) tbl"

definition get_profile_by_version :: "uuid \<Rightarrow> int \<Rightarrow> icp_profile list \<Rightarrow> icp_profile option" where
  "get_profile_by_version org ver tbl =
     find (\<lambda>p. ip_organization_id p = org \<and> ip_version p = ver) tbl"

text \<open>\<open>ORDER BY version DESC\<close>\<close>

definition list_profiles :: "uuid \<Rightarrow> icp_profile list \<Rightarrow> icp_profile list" where
  "list_profiles org tbl = sort_key (\<lambda>p. - ip_version p) (of_org org tbl)"

definition resolve_scoring_config :: "uuid \<Rightarrow> icp_profile list \<Rightarrow> scoring_config option" where
  "resolve_scoring_config org tbl =
     (case get_active_profile org tbl of
        None \<Rightarrow> Some reference_config
      | Some p \<Rightarrow> materialize_scoring_config (ip_config p) (ip_profile_id p) (ip_version p))"

subsection \<open>A valid configuration materializes\<close>

lemma those_map_Some: "(\<And>x. x \<in> set xs \<Longrightarrow> f x = Some (g x)) \<Longrightarrow> those (map f xs) = Some (map g xs)"
  by (induction xs) simp_all

lemma max_default_Max: "max_default xs = (if xs = [] then 0 else Max (set xs))"
  by (cases xs) (simp_all add: max_default_def flip: Max.set_eq_fold)

lemma max_default_set: "set xs = set ys \<Longrightarrow> max_default xs = max_default ys"
  by (cases "xs = []"; cases "ys = []") (simp_all add: max_default_Max)

lemma pf_max_default_Fin: "pf_max_default (map Fin ys) = Fin (max_default ys)"
  by (cases ys) (simp_all add: pf_max_default_def max_default_def fold_pf_max_Fin)

definition fin_val :: "json \<Rightarrow> real" where
  "fin_val v = (case number_of v of Fin x \<Rightarrow> x | _ \<Rightarrow> 0)"

lemma fin_val_number: "is_number v \<Longrightarrow> jsonb_accepts v \<Longrightarrow> number_of v = Fin (fin_val v)"
  using number_finite [of v] by (auto simp: fin_val_def)

lemma fin_val_jsonb [simp]: "fin_val (jsonb v) = fin_val v"
  by (simp add: fin_val_def)

lemma json_real_number:
  "is_number v \<Longrightarrow> jsonb_accepts v \<Longrightarrow> json_real (jsonb v) = Some (fin_val v)"
  by (simp add: json_real_def json_float_number fin_val_number)

lemma map_of_jsonb_dict:
  "distinct (map fst d) \<Longrightarrow> map_of (jsonb_dict d) k = map_option jsonb (map_of d k)"
  unfolding jsonb_dict_def by (subst map_of_sort_key) (simp_all add: comp_def map_of_map_prod)

lemma map_of_json_get: "json_get d k \<noteq> JNull \<Longrightarrow> map_of d k = Some (json_get d k)"
  by (simp add: json_get_or_def split: option.splits)

lemma is_number_not_null: "is_number v \<Longrightarrow> v \<noteq> JNull"
  by auto

lemma real_at_stored:
  assumes "is_document (JObj d)" "jsonb_accepts (JObj d)" and num: "is_number (json_get d k)"
  shows "real_at (jsonb_dict d) k = Some (fin_val (json_get d k))"
proof -
  have "map_of (jsonb_dict d) k = Some (jsonb (json_get d k))"
    using assms map_of_json_get [OF is_number_not_null [OF num]]
    by (subst map_of_jsonb_dict) (simp_all add: is_document_dict)
  with assms show ?thesis
    by (simp add: real_at_def json_real_number json_get_accepted)
qed

lemma int_at_stored:
  assumes "is_document (JObj d)" "jsonb_accepts (JObj d)" and num: "is_number (json_get d k)"
  shows "int_at (jsonb_dict d) k = Some (truncate_real (fin_val (json_get d k)))"
proof -
  have "map_of (jsonb_dict d) k = Some (jsonb (json_get d k))"
    using assms map_of_json_get [OF is_number_not_null [OF num]]
    by (subst map_of_jsonb_dict) (simp_all add: is_document_dict)
  moreover have "number_of (json_get d k) = Fin (fin_val (json_get d k))"
    by (intro fin_val_number num json_get_accepted assms)
  ultimately show ?thesis
    using num by (simp add: int_at_def json_int_number [where x = "fin_val (json_get d k)"])
qed

lemma concat_map_Nil: "concat (map f xs) = [] \<longleftrightarrow> (\<forall>x \<in> set xs. f x = [])"
  by auto

definition stored_points :: "json_dict \<Rightarrow> (string \<times> real) list" where
  "stored_points d = map (map_prod (\<lambda>k. k) fin_val) (jsonb_dict d)"

lemma points_at_stored:
  assumes doc: "is_document (JObj config)" and acc: "jsonb_accepts (JObj config)"
    and ok: "map_violations config name = []"
  obtains L where "points_at (jsonb_dict config) name = Some L"
    and "\<forall>p \<in> set (map snd L). 0 \<le> p"
    and "pf_max_default (map snd (clean_points config name)) = Fin (max_default (map snd L))"
proof -
  from ok obtain d where d: "json_get config name = JObj d"
    and entries: "\<forall>e \<in> set d. entry_violations name e = []"
    unfolding map_violations_def by (cases "json_get config name") (auto simp: concat_map_Nil)
  have dacc: "jsonb_accepts (JObj d)"
    using json_get_accepted [OF acc, of name] d by simp
  have num: "is_number v \<and> number_of v = Fin (fin_val v) \<and> 0 \<le> fin_val v" if "(k, v) \<in> set d" for k v
  proof -
    from that entries have "points_ok v"
      by (fastforce simp: entry_violations_def split: if_splits)
    moreover from that dacc have "jsonb_accepts v"
      unfolding jsonb_accepts_dict by auto
    ultimately show ?thesis
      using fin_val_number [of v] by (auto simp: points_ok_def)
  qed
  have at: "map_of (jsonb_dict config) name = Some (JObj (jsonb_dict d))"
    using doc d map_of_json_get [of config name]
    by (subst map_of_jsonb_dict) (simp_all add: is_document_dict)
  have real: "json_real w = Some (fin_val w)" if "(k, w) \<in> set (jsonb_dict d)" for k w
  proof -
    from that obtain v where "(k, v) \<in> set d" "w = jsonb v"
      by (auto simp: set_jsonb_dict)
    moreover from this dacc have "jsonb_accepts v"
      unfolding jsonb_accepts_dict by auto
    ultimately show ?thesis
      using num [of k v] by (simp add: json_real_number)
  qed
  have "points_at (jsonb_dict config) name = Some (stored_points d)"
    unfolding points_at_def at option.case json.case stored_points_def
    by (rule those_map_Some) (auto simp: real)
  moreover have snds: "set (map snd (stored_points d)) = fin_val ` snd ` set d"
    by (force simp: stored_points_def set_jsonb_dict image_image)
  moreover have "clean_points config name = map (map_prod (\<lambda>k. k) number_of) d"
    using entries by (simp add: clean_points_def d filter_id_conv)
  then have "map snd (clean_points config name) = map Fin (map (fin_val \<circ> snd) d)"
    using num by auto
  then have "pf_max_default (map snd (clean_points config name))
      = Fin (max_default (map (fin_val \<circ> snd) d))"
    by (simp only: pf_max_default_Fin)
  moreover have "max_default (map (fin_val \<circ> snd) d) = max_default (map snd (stored_points d))"
    by (rule max_default_set) (simp only: snds, force)
  ultimately show ?thesis
    using num by (intro that [of "stored_points d"]) auto
qed

definition stored_band :: "json \<Rightarrow> int \<times> int \<times> real" where
  "stored_band band =
     (case band of
        JObj d \<Rightarrow> (truncate_real (fin_val (json_get d ''min_employees'')),
                   truncate_real (fin_val (json_get d ''max_employees'')),
                   fin_val (json_get d ''points''))
      | _ \<Rightarrow> (0, 0, 0))"

lemma band_cases:
  assumes "band_violations band = []"
  obtains d where "band = JObj d" "is_number (json_get d ''min_employees'')"
    "is_number (json_get d ''max_employees'')" "is_number (json_get d ''points'')"
    "\<not> pf_less (number_of (json_get d ''min_employees'')) (Fin 0)"
    "\<not> pf_less (number_of (json_get d ''max_employees'')) (number_of (json_get d ''min_employees''))"
    "\<not> pf_less (number_of (json_get d ''points'')) (Fin 0)"
  using assms unfolding band_violations_def
  by (cases band) (auto simp: Let_def split: if_splits)

lemma band_of_stored:
  assumes doc: "is_document band" and acc: "jsonb_accepts band" and ok: "band_violations band = []"
  shows "band_of (jsonb band) = Some (stored_band band)"
    and "0 \<le> fst (stored_band band)"
    and "fst (stored_band band) \<le> fst (snd (stored_band band))"
    and "0 \<le> band_points (stored_band band)"
    and "\<exists>d. band = JObj d \<and>
      number_of (json_get_or d ''points'' (JFloat (Fin 0))) = Fin (band_points (stored_band band))"
proof -
  from ok obtain d where d: "band = JObj d" and num: "is_number (json_get d ''min_employees'')"
      "is_number (json_get d ''max_employees'')" "is_number (json_get d ''points'')"
    and rng: "\<not> pf_less (number_of (json_get d ''min_employees'')) (Fin 0)"
      "\<not> pf_less (number_of (json_get d ''max_employees'')) (number_of (json_get d ''min_employees''))"
      "\<not> pf_less (number_of (json_get d ''points'')) (Fin 0)"
    by (rule band_cases)
  note doc = doc [unfolded d] and acc = acc [unfolded d]
  have fin: "number_of (json_get d k) = Fin (fin_val (json_get d k))" if "is_number (json_get d k)" for k
    using that json_get_accepted [OF acc] by (rule fin_val_number)
  show "band_of (jsonb band) = Some (stored_band band)"
    using num by (simp add: d band_of_def stored_band_def int_at_stored [OF doc acc]
        real_at_stored [OF doc acc])
  have lo: "0 \<le> fin_val (json_get d ''min_employees'')"
    and hi: "fin_val (json_get d ''min_employees'') \<le> fin_val (json_get d ''max_employees'')"
    and pts: "0 \<le> fin_val (json_get d ''points'')"
    using rng by (simp_all add: fin [OF num(1)] fin [OF num(2)] fin [OF num(3)])
  show "0 \<le> fst (stored_band band)"
    using truncate_real_mono [OF lo] by (simp add: d stored_band_def truncate_real_def)
  show "fst (stored_band band) \<le> fst (snd (stored_band band))"
    using truncate_real_mono [OF hi] by (simp add: d stored_band_def)
  show "0 \<le> band_points (stored_band band)"
    using pts by (simp add: d stored_band_def)
  obtain v where "map_of d ''points'' = Some v"
    using map_of_json_get [OF is_number_not_null [OF num(3)]] by blast
  then have "json_get_or d ''points'' (JFloat (Fin 0)) = json_get d ''points''"
    by (simp add: json_get_or_def)
  then show "\<exists>d. band = JObj d \<and>
      number_of (json_get_or d ''points'' (JFloat (Fin 0))) = Fin (band_points (stored_band band))"
    using fin [OF num(3)] by (simp add: d stored_band_def)
qed

lemma bands_at_stored:
  assumes doc: "is_document (JObj config)" and acc: "jsonb_accepts (JObj config)"
    and ok: "bands_violations (json_get config name) = []"
  obtains bands where "bands_at (jsonb_dict config) name = Some bands"
    and "\<forall>(lo, hi, pts) \<in> set bands. 0 \<le> lo \<and> lo \<le> hi \<and> 0 \<le> pts"
    and "field_ceiling_from_bands (json_get config name)
           = Fin (max_default (map band_points bands))"
    and "bands \<noteq> []"
proof -
  from ok obtain xs where xs: "json_get config name = JList xs" "xs \<noteq> []"
    and each: "\<forall>x \<in> set xs. band_violations x = []"
    unfolding bands_violations_def
    by (cases "json_get config name") (auto simp: concat_map_Nil split: if_splits)
  have good: "is_document x" "jsonb_accepts x" "band_violations x = []" if "x \<in> set xs" for x
    using that each json_get_document [OF doc, of name] json_get_accepted [OF acc, of name]
    by (auto simp: xs is_document_list jsonb_accepts_list)
  have at: "map_of (jsonb_dict config) name = Some (JList (map jsonb xs))"
    using doc xs map_of_json_get [of config name]
    by (subst map_of_jsonb_dict) (simp_all add: is_document_dict)
  have "bands_at (jsonb_dict config) name = Some (map stored_band xs)"
    unfolding bands_at_def at option.case json.case map_map
    by (rule those_map_Some) (simp add: band_of_stored(1) [OF good])
  moreover have "\<forall>(lo, hi, pts) \<in> set (map stored_band xs). 0 \<le> lo \<and> lo \<le> hi \<and> 0 \<le> pts"
    by (simp add: split_beta band_of_stored(2,3,4) [OF good])
  moreover have "(case x of JObj d \<Rightarrow> number_of (json_get_or d ''points'' (JFloat (Fin 0))) | _ \<Rightarrow> NaN)
      = Fin (band_points (stored_band x))" if "x \<in> set xs" for x
    using band_of_stored(5) [OF good [OF that]] by auto
  then have "field_ceiling_from_bands (json_get config name)
      = pf_max_default (map Fin (map (\<lambda>x. band_points (stored_band x)) xs))"
    unfolding field_ceiling_from_bands_def xs(1) json.case map_map
    by (intro arg_cong [where f = pf_max_default]) simp
  then have "field_ceiling_from_bands (json_get config name)
      = Fin (max_default (map band_points (map stored_band xs)))"
    using pf_max_default_Fin [of "map (\<lambda>x. band_points (stored_band x)) xs"] by (simp add: comp_def)
  ultimately show ?thesis
    using xs(2) by (intro that [of "map stored_band xs"]) simp_all
qed

lemma threshold_fin:
  assumes acc: "jsonb_accepts v" and ok: "threshold_ok v"
  shows "is_number v" "number_of v = Fin (fin_val v)" "0 \<le> fin_val v" "fin_val v \<le> 100"
proof -
  from ok show num: "is_number v" by (simp add: threshold_ok_def)
  then show fin: "number_of v = Fin (fin_val v)" using acc by (rule fin_val_number)
  from ok show "0 \<le> fin_val v" "fin_val v \<le> 100" by (simp_all add: threshold_ok_def fin)
qed

lemma validate_config_ok:
  assumes "validate_config config = Inr ()"
  shows "shape_violations config = []" and "\<not> off_target (ceiling_total config)"
    and "is_bool (json_get_or config ''disqualifier_enabled'' (JBool True))"
proof -
  from assms have "config_violations config = []"
    by (simp add: validate_config_def split: list.splits)
  then have parts: "shape_violations config = []"
    "(if shape_violations config = [] \<and> off_target (ceiling_total config)
        then [CeilingSum (ceiling_total config)] else []) = []"
    "disqualifier_violations config = []"
    unfolding config_violations_def by blast+
  then show "shape_violations config = []" by blast
  from parts(1,2) show "\<not> off_target (ceiling_total config)"
    by (simp split: if_splits)
  from parts(3) show "is_bool (json_get_or config ''disqualifier_enabled'' (JBool True))"
    unfolding disqualifier_violations_def by (simp split: if_splits)
qed

text \<open>
  A configuration that passes validation and that the column accepts: what the scorer reads
  back from the stored row is well formed, and its ceilings sum to 100 within the tolerance.
\<close>

lemma materialize_stored:
  assumes doc: "is_document (JObj config)" and acc: "jsonb_accepts (JObj config)"
    and valid: "validate_config config = Inr ()"
  obtains sc where "materialize_scoring_config (jsonb_dict config) pid ver = Some sc"
    and "wf_config sc" and "profile_id sc = Some pid" and "profile_version sc = Some ver"
    and "0 \<le> reject_threshold sc" and "reject_threshold sc < qualify_threshold sc"
    and "qualify_threshold sc \<le> 100"
    and "\<forall>(lo, hi, pts) \<in> set (size_bands sc). 0 \<le> lo \<and> lo \<le> hi"
    and "\<bar>sum_list (map snd (max_field_points sc)) - WEIGHT_SUM_TARGET\<bar> \<le> WEIGHT_SUM_TOLERANCE"
proof -
  note ok = validate_config_ok [OF valid]
  have shape: "threshold_violations config = []"
    "bands_violations (json_get config ''employee_count_bands'') = []"
    "map_violations config ''industry_points'' = []"
    "map_violations config ''seniority_points'' = []"
    "map_violations config ''function_points'' = []"
    "weight_violations config ''buying_intent_weight'' = []"
    "weight_violations config ''trigger_event_weight'' = []"
    using ok(1) unfolding shape_violations_def by blast+
  obtain bands where bands: "bands_at (jsonb_dict config) ''employee_count_bands'' = Some bands"
      "\<forall>(lo, hi, pts) \<in> set bands. 0 \<le> lo \<and> lo \<le> hi \<and> 0 \<le> pts"
      "field_ceiling_from_bands (json_get config ''employee_count_bands'')
         = Fin (max_default (map band_points bands))"
    by (rule bands_at_stored [OF doc acc shape(2)])
  obtain ind where ind: "points_at (jsonb_dict config) ''industry_points'' = Some ind"
      "\<forall>p \<in> set (map snd ind). 0 \<le> p"
      "pf_max_default (map snd (clean_points config ''industry_points'')) = Fin (max_default (map snd ind))"
    by (rule points_at_stored [OF doc acc shape(3)])
  obtain sen where sen: "points_at (jsonb_dict config) ''seniority_points'' = Some sen"
      "\<forall>p \<in> set (map snd sen). 0 \<le> p"
      "pf_max_default (map snd (clean_points config ''seniority_points'')) = Fin (max_default (map snd sen))"
    by (rule points_at_stored [OF doc acc shape(4)])
  obtain fct where fct: "points_at (jsonb_dict config) ''function_points'' = Some fct"
      "\<forall>p \<in> set (map snd fct). 0 \<le> p"
      "pf_max_default (map snd (clean_points config ''function_points'')) = Fin (max_default (map snd fct))"
    by (rule points_at_stored [OF doc acc shape(5)])
  define w where "w k = fin_val (json_get config k)" for k
  have weight: "is_number (json_get config k)" "number_of (json_get config k) = Fin (w k)" "0 \<le> w k"
    if "weight_violations config k = []" for k
  proof -
    from that have pts: "points_ok (json_get config k)"
      by (simp add: weight_violations_def split: if_splits)
    then show num: "is_number (json_get config k)" by (simp add: points_ok_def)
    then show fin: "number_of (json_get config k) = Fin (w k)"
      unfolding w_def by (intro fin_val_number json_get_accepted acc)
    from pts show "0 \<le> w k" by (simp add: points_ok_def fin)
  qed
  have thr: "threshold_ok (json_get config ''qualify_threshold'')"
      "threshold_ok (json_get config ''reject_threshold'')"
      "\<not> pf_le (number_of (json_get config ''qualify_threshold''))
          (number_of (json_get config ''reject_threshold''))"
    using shape(1) unfolding threshold_violations_def Let_def by (auto split: if_splits)
  note q = threshold_fin [OF json_get_accepted [OF acc] thr(1), folded w_def]
  note r = threshold_fin [OF json_get_accepted [OF acc] thr(2), folded w_def]
  have less: "w ''reject_threshold'' < w ''qualify_threshold''"
    using thr(3) by (simp add: q(2) r(2))
  have total: "ceiling_total config = Fin (max_default (map band_points bands)
      + max_default (map snd ind) + max_default (map snd sen) + max_default (map snd fct)
      + w ''buying_intent_weight'' + w ''trigger_event_weight'')"
    by (simp add: ceiling_total_def bands(3) ind(3) sen(3) fct(3) weight(2) [OF shape(6)]
        weight(2) [OF shape(7)])
  define sc where "sc = \<lparr>qualify_threshold = w ''qualify_threshold'',
     reject_threshold = w ''reject_threshold'', size_bands = bands, industry_points = ind,
     seniority_points = sen, function_points = fct,
     intent_max_points = w ''buying_intent_weight'', trigger_points = w ''trigger_event_weight'',
     disqualifier_enabled = json_truthy (json_get_or (jsonb_dict config) ''disqualifier_enabled'' (JBool True)),
     profile_id = Some pid, profile_version = Some ver\<rparr>"
  show ?thesis
  proof (rule that [of sc])
    show "materialize_scoring_config (jsonb_dict config) pid ver = Some sc"
      by (simp add: materialize_scoring_config_def sc_def bands(1) ind(1) sen(1) fct(1) w_def
          real_at_stored [OF doc acc] q(1) r(1) weight(1) [OF shape(6)] weight(1) [OF shape(7)])
    have "\<forall>p \<in> set (map band_points bands). 0 \<le> p"
      using bands(2) by auto
    then show "wf_config sc"
      unfolding wf_config_def sc_def scoring_config.simps
      using less ind(2) sen(2) fct(2) weight(3) [OF shape(6)] weight(3) [OF shape(7)]
      by (intro conjI) simp_all
    show "\<forall>(lo, hi, pts) \<in> set (size_bands sc). 0 \<le> lo \<and> lo \<le> hi"
      using bands(2) by (auto simp: sc_def)
    show "\<bar>sum_list (map snd (max_field_points sc)) - WEIGHT_SUM_TARGET\<bar> \<le> WEIGHT_SUM_TOLERANCE"
      using ok(2) by (simp add: total max_field_points_def sc_def add.assoc)
  qed (use less q r in \<open>simp_all add: sc_def\<close>)
qed

end
