(* ===== verification/ICP_History.thy ===== *)
theory ICP_History
  imports ICP_Profiles
begin

text \<open>
  What the profile table promises. Abstractly an organization has a history, the list of the
  contents it published, and publishing appends; version \<open>n\<close> is the \<open>n\<close>-th entry and the
  active profile is the last one. \<open>profiles_ok\<close> is the representation invariant under which
  the rows of \<open>organization_icp_profiles\<close> implement it, and every lead is scored under a
  configuration that is well formed and keeps the scale of 0 to 100.
\<close>

type_synonym profile_content = "uuid \<times> string \<times> json_dict \<times> string \<times> uuid option \<times> instant"

definition content :: "icp_profile \<Rightarrow> profile_content" where
  "content p = (ip_profile_id p, ip_name p, ip_config p, ip_scorer_version p, ip_created_by p,
     ip_created_at p)"

definition history :: "uuid \<Rightarrow> icp_profile list \<Rightarrow> profile_content list" where
  "history org tbl = map content (of_org org tbl)"

definition stored_config :: "json_dict \<Rightarrow> bool" where
  "stored_config d \<longleftrightarrow> (\<exists>config. is_document (JObj config) \<and> jsonb_accepts (JObj config)
     \<and> validate_config config = Inr () \<and> d = jsonb_dict config)"

definition versions_ok :: "icp_profile list \<Rightarrow> bool" where
  "versions_ok ps \<longleftrightarrow> (\<forall>i < length ps. ip_version (ps ! i) = int (Suc i)
     \<and> ip_status (ps ! i) = (if Suc i = length ps then ProfileActive else ProfileRetired))"

definition profiles_ok :: "icp_profile list \<Rightarrow> bool" where
  "profiles_ok tbl \<longleftrightarrow> distinct (map ip_profile_id tbl) \<and> (\<forall>org. versions_ok (of_org org tbl))
     \<and> (\<forall>p \<in> set tbl. stored_config (ip_config p))"

lemma profiles_ok_Nil [simp]: "profiles_ok []"
  by (simp add: profiles_ok_def versions_ok_def)

subsection \<open>Publishing\<close>

lemma versions_ok_nth:
  assumes "versions_ok ps" "i < length ps"
  shows "ip_version (ps ! i) = int (Suc i)"
    and "is_active (ps ! i) \<longleftrightarrow> Suc i = length ps"
  using assms by (simp_all add: versions_ok_def is_active_def)

lemma versions_ok_bound: "versions_ok ps \<Longrightarrow> p \<in> set ps \<Longrightarrow> ip_version p \<le> int (length ps)"
  by (auto simp: in_set_conv_nth versions_ok_nth)

lemma max_version_ok:
  assumes "versions_ok (of_org org tbl)"
  shows "max_version org tbl = int (length (of_org org tbl))"
proof (cases "of_org org tbl" rule: rev_cases)
  case Nil
  then show ?thesis by (simp add: max_version_def)
next
  case (snoc qs q)
  let ?vs = "map ip_version (of_org org tbl)"
  have ne: "?vs \<noteq> []" by (simp add: snoc)
  then obtain v vs where vs: "?vs = v # vs" by (cases ?vs) simp_all
  then have "max_version org tbl = fold max vs v"
    by (simp add: max_version_def)
  also have "\<dots> = Max (set ?vs)"
    unfolding vs by (rule Max.set_eq_fold [symmetric])
  also have "\<dots> = int (length (of_org org tbl))"
  proof (rule Max_eqI)
    fix v
    assume "v \<in> set ?vs"
    then obtain p where "p \<in> set (of_org org tbl)" "v = ip_version p" by auto
    with versions_ok_bound [OF assms] show "v \<le> int (length (of_org org tbl))" by blast
  next
    have "ip_version (of_org org tbl ! length qs) = int (Suc (length qs))"
      by (rule versions_ok_nth(1) [OF assms]) (simp add: snoc)
    then have "ip_version q = int (length (of_org org tbl))"
      by (simp add: snoc)
    then show "int (length (of_org org tbl)) \<in> set ?vs"
      by (simp add: snoc)
  qed simp
  finally show ?thesis .
qed

lemma retire_active_fields [simp]:
  "map ip_profile_id (retire_active org now tbl) = map ip_profile_id tbl"
  "map ip_version (retire_active org now tbl) = map ip_version tbl"
  "map content (retire_active org now tbl) = map content tbl"
  "set (map ip_config (retire_active org now tbl)) = set (map ip_config tbl)"
  by (induction tbl) (auto simp: retire_active_def content_def)

lemma of_org_retire:
  "of_org o' (retire_active org now tbl)
     = (if o' = org then retire_active org now (of_org org tbl) else of_org o' tbl)"
  by (induction tbl) (auto simp: retire_active_def)

lemma retire_active_nth:
  assumes "i < length (of_org org tbl)"
  shows "ip_version (retire_active org now (of_org org tbl) ! i) = ip_version (of_org org tbl ! i)"
    and "ip_status (retire_active org now (of_org org tbl) ! i) = ProfileRetired"
proof -
  have "ip_organization_id (of_org org tbl ! i) = org"
    using nth_mem [OF assms] by simp
  with assms show "ip_version (retire_active org now (of_org org tbl) ! i) = ip_version (of_org org tbl ! i)"
    and "ip_status (retire_active org now (of_org org tbl) ! i) = ProfileRetired"
    by (cases "ip_status (of_org org tbl ! i)"; simp add: retire_active_def is_active_def)+
qed

lemma length_retire_active [simp]: "length (retire_active org now tbl) = length tbl"
  by (simp add: retire_active_def)

lemma versions_ok_publish:
  assumes ok: "versions_ok (of_org org tbl)"
    and p: "ip_version p = int (length (of_org org tbl)) + 1" "ip_status p = ProfileActive"
  shows "versions_ok (retire_active org now (of_org org tbl) @ [p])"
  unfolding versions_ok_def
proof (intro allI impI)
  fix i
  assume i: "i < length (retire_active org now (of_org org tbl) @ [p])"
  show "ip_version ((retire_active org now (of_org org tbl) @ [p]) ! i) = int (Suc i)
     \<and> ip_status ((retire_active org now (of_org org tbl) @ [p]) ! i)
       = (if Suc i = length (retire_active org now (of_org org tbl) @ [p]) then ProfileActive
          else ProfileRetired)"
  proof (cases "i < length (of_org org tbl)")
    case True
    with ok have "ip_version (of_org org tbl ! i) = int (Suc i)"
      by (simp add: versions_ok_def)
    with True show ?thesis by (simp add: nth_append retire_active_nth)
  next
    case False
    with i have "i = length (of_org org tbl)" by simp
    with p show ?thesis by (simp add: nth_append)
  qed
qed

text \<open>The constraints of the table never refuse a row that is numbered this way.\<close>

lemma insert_profile_ok:
  assumes ok: "versions_ok (of_org org tbl)" and fresh: "ip_profile_id p \<notin> set (map ip_profile_id tbl)"
    and p: "ip_organization_id p = org" "ip_version p = int (length (of_org org tbl)) + 1"
    and acc: "jsonb_accepts (JObj (ip_config p))" "no_nul (ip_name p)"
  shows "insert_profile p (retire_active org now tbl)
    = Inr (retire_active org now tbl @ [p\<lparr>ip_config := jsonb_dict (ip_config p)\<rparr>])"
proof -
  have "\<not> (ip_profile_id q = ip_profile_id p \<or> ip_organization_id q = ip_organization_id p
            \<and> (ip_version q = ip_version p \<or> is_active q \<and> is_active p))"
    if q: "q \<in> set (retire_active org now tbl)" for q
  proof -
    have id: "ip_profile_id q \<noteq> ip_profile_id p"
      using q fresh retire_active_fields(1) [of org now tbl] by (metis image_eqI set_map)
    have "ip_version q \<noteq> ip_version p \<and> \<not> is_active q" if "ip_organization_id q = org"
    proof -
      from q that have "q \<in> set (retire_active org now (of_org org tbl))"
        using arg_cong [OF of_org_retire [of org org now tbl], of set] by auto
      then obtain i where i: "i < length (of_org org tbl)"
        "q = retire_active org now (of_org org tbl) ! i"
        by (auto simp: in_set_conv_nth)
      with ok p(2) show ?thesis
        by (simp add: retire_active_nth is_active_def versions_ok_def)
    qed
    with id p(1) show ?thesis by blast
  qed
  then have "\<not> list_ex (\<lambda>q. ip_profile_id q = ip_profile_id p
                 \<or> ip_organization_id q = ip_organization_id p
                   \<and> (ip_version q = ip_version p \<or> is_active q \<and> is_active p))
      (retire_active org now tbl)"
    unfolding list_ex_iff by blast
  then show ?thesis
    using acc p(2) unfolding insert_profile_def by simp
qed

lemma stored_config_retire:
  "(\<forall>p \<in> set (retire_active org now tbl). stored_config (ip_config p))
     \<longleftrightarrow> (\<forall>p \<in> set tbl. stored_config (ip_config p))"
  by (induction tbl) (auto simp: retire_active_def)

lemma create_profile_invalid:
  "validate_config config = Inl e \<Longrightarrow> create_profile org user name config scorer fresh now tbl = (Inl e, tbl)"
  by (simp add: create_profile_def)

lemma create_profile_error_keeps:
  "create_profile org user name config scorer fresh now tbl = (Inl e, tbl') \<Longrightarrow> tbl' = tbl"
  unfolding create_profile_def Let_def by (auto split: sum.splits)

definition published_row ::
    "uuid \<Rightarrow> uuid \<Rightarrow> string \<Rightarrow> json_dict \<Rightarrow> string \<Rightarrow> uuid \<Rightarrow> instant \<Rightarrow> icp_profile list \<Rightarrow> icp_profile" where
  "published_row org user name config scorer fresh now tbl =
     \<lparr>ip_profile_id = fresh, ip_organization_id = org,
      ip_version = int (length (of_org org tbl)) + 1, ip_name = name, ip_config = jsonb_dict config,
      ip_scorer_version = scorer, ip_status = ProfileActive, ip_created_by = Some user,
      ip_created_at = now, ip_activated_at = now, ip_retired_at = None\<rparr>"

lemma create_profile_valid:
  assumes ok: "profiles_ok tbl" and fresh: "fresh \<notin> set (map ip_profile_id tbl)"
    and valid: "validate_config config = Inr ()"
  shows "create_profile org user name config scorer fresh now tbl =
    (if jsonb_accepts (JObj config) \<and> no_nul name
     then (Inr (published_row org user name config scorer fresh now tbl),
           retire_active org now tbl @ [published_row org user name config scorer fresh now tbl])
     else (Inl ProfileDataError, tbl))"
proof -
  define row where "row = published_row org user name config scorer fresh now tbl"
  note row_def = row_def [unfolded published_row_def]
  have v: "versions_ok (of_org org tbl)" using ok by (simp add: profiles_ok_def)
  let ?p = "row\<lparr>ip_config := config\<rparr>"
  have p: "ip_organization_id ?p = org" "ip_version ?p = int (length (of_org org tbl)) + 1"
    "ip_profile_id ?p \<notin> set (map ip_profile_id tbl)" "ip_config ?p = config" "ip_name ?p = name"
    using fresh by (simp_all add: row_def)
  have row: "?p\<lparr>ip_config := jsonb_dict config\<rparr> = row"
    by (simp add: row_def)
  have create: "create_profile org user name config scorer fresh now tbl =
      (case insert_profile ?p (retire_active org now tbl) of
         Inl e \<Rightarrow> (Inl e, tbl) | Inr tbl' \<Rightarrow> (Inr (last tbl'), tbl'))"
    using valid by (simp add: create_profile_def max_version_ok [OF v] row_def)
  show ?thesis
  proof (cases "jsonb_accepts (JObj config) \<and> no_nul name")
    case True
    then have "insert_profile ?p (retire_active org now tbl) = Inr (retire_active org now tbl @ [row])"
      using insert_profile_ok [OF v p(3) p(1) p(2), of now] by (simp add: p(4,5) row)
    with True show ?thesis unfolding create by (simp add: row_def published_row_def)
  next
    case False
    then have "insert_profile ?p (retire_active org now tbl) = Inl ProfileDataError"
      by (simp add: insert_profile_def p(4,5))
    with False show ?thesis unfolding create by simp
  qed
qed

lemma of_org_create:
  "ip_organization_id p = org \<Longrightarrow> of_org o' (retire_active org now tbl @ [p])
     = (if o' = org then retire_active org now (of_org org tbl) @ [p] else of_org o' tbl)"
  by (simp add: of_org_retire)

lemma profiles_ok_create:
  assumes ok: "profiles_ok tbl" and id: "ip_profile_id p \<notin> set (map ip_profile_id tbl)"
    and p: "ip_organization_id p = org" "ip_version p = int (length (of_org org tbl)) + 1"
      "ip_status p = ProfileActive" "stored_config (ip_config p)"
  shows "profiles_ok (retire_active org now tbl @ [p])"
  unfolding profiles_ok_def
proof (intro conjI allI)
  show "distinct (map ip_profile_id (retire_active org now tbl @ [p]))"
    using ok id by (simp add: profiles_ok_def)
next
  fix o'
  show "versions_ok (of_org o' (retire_active org now tbl @ [p]))"
  proof (cases "o' = org")
    case True
    with ok versions_ok_publish [OF _ p(2,3)] show ?thesis
      by (simp only: of_org_create [OF p(1)] profiles_ok_def simp_thms if_True)
  next
    case False
    with ok show ?thesis by (simp only: of_org_create [OF p(1)] profiles_ok_def if_False)
  qed
next
  show "\<forall>q \<in> set (retire_active org now tbl @ [p]). stored_config (ip_config q)"
    using ok p(4) stored_config_retire [of org now tbl] by (simp add: profiles_ok_def)
qed

subsection \<open>Reading\<close>

lemma find_of_org: "find (\<lambda>p. ip_organization_id p = org \<and> P p) tbl = find P (of_org org tbl)"
  by (induction tbl) auto

lemma find_unique_nth:
  assumes "i < length xs" "P (xs ! i)" "\<And>j. j < length xs \<Longrightarrow> P (xs ! j) \<Longrightarrow> j = i"
  shows "find P xs = Some (xs ! i)"
  unfolding find_Some_iff
proof (intro exI [of _ i] conjI allI impI)
  fix j
  assume "j < i"
  show "\<not> P (xs ! j)"
  proof
    assume "P (xs ! j)"
    with \<open>j < i\<close> assms(1) have "j = i" by (intro assms(3)) simp_all
    with \<open>j < i\<close> show False by simp
  qed
qed (rule assms(1,2) refl)+

lemma find_active_last:
  assumes "versions_ok ps" "ps \<noteq> []"
  shows "find is_active ps = Some (last ps)"
proof -
  from assms(2) have len: "length ps - 1 < length ps" by simp
  have "find is_active ps = Some (ps ! (length ps - 1))"
  proof (rule find_unique_nth [OF len])
    show "is_active (ps ! (length ps - 1))"
      using versions_ok_nth(2) [OF assms(1) len] assms(2) by simp
    show "j = length ps - 1" if "j < length ps" "is_active (ps ! j)" for j
      using versions_ok_nth(2) [OF assms(1) that(1)] that(2) by simp
  qed
  with assms show ?thesis by (simp add: last_conv_nth)
qed

lemma find_version_nth:
  assumes ok: "versions_ok ps"
  shows "find (\<lambda>p. ip_version p = ver) ps =
    (if 1 \<le> ver \<and> ver \<le> int (length ps) then Some (ps ! nat (ver - 1)) else None)"
proof (cases "1 \<le> ver \<and> ver \<le> int (length ps)")
  case True
  with ok have "find (\<lambda>p. ip_version p = ver) ps = Some (ps ! nat (ver - 1))"
    by (intro find_unique_nth) (auto simp: versions_ok_nth)
  with True show ?thesis by simp
next
  case False
  with ok have "find (\<lambda>p. ip_version p = ver) ps = None"
    by (auto simp: find_None_iff in_set_conv_nth versions_ok_nth)
  with False show ?thesis by auto
qed

lemma sort_versions_rev:
  assumes ok: "versions_ok ps"
  shows "sort_key (\<lambda>p. - ip_version p) ps = rev ps"
proof (rule sort_key_inj_key_eq)
  show "mset ps = mset (rev ps)" by simp
  show "inj_on (\<lambda>p. - ip_version p) (set ps)"
    using ok by (auto simp: inj_on_def in_set_conv_nth versions_ok_nth)
  show "sorted (map (\<lambda>p. - ip_version p) (rev ps))"
    using ok by (simp add: sorted_iff_nth_mono rev_nth versions_ok_nth)
qed

lemma get_active_nth:
  "versions_ok (of_org org tbl) \<Longrightarrow> get_active_profile org tbl =
    (if of_org org tbl = [] then None else Some (last (of_org org tbl)))"
  using find_active_last [of "of_org org tbl"] by (simp add: get_active_profile_def find_of_org)

lemma get_version_nth:
  "versions_ok (of_org org tbl) \<Longrightarrow> get_profile_by_version org ver tbl =
    (if 1 \<le> ver \<and> ver \<le> int (length (of_org org tbl)) then Some (of_org org tbl ! nat (ver - 1)) else None)"
  by (simp only: get_profile_by_version_def find_of_org find_version_nth)

lemma list_profiles_rev: "versions_ok (of_org org tbl) \<Longrightarrow> list_profiles org tbl = rev (of_org org tbl)"
  unfolding list_profiles_def by (rule sort_versions_rev)

subsection \<open>The history is what the table implements\<close>

text \<open>
  C28. The profile table refines a history per organization: a successful
  \<open>create_profile\<close> appends exactly one entry, to the history of that organization only, with
  the next version number and as the active profile, and keeps the representation invariant;
  a refused one, whether by validation or by the \<open>jsonb\<close> column, changes nothing.
\<close>

theorem create_profile_refines_history:
  assumes ok: "profiles_ok tbl" and fresh: "fresh \<notin> set (map ip_profile_id tbl)"
    and doc: "is_document (JObj config)"
  shows "case create_profile org user name config scorer fresh now tbl of
      (Inl e, tbl') \<Rightarrow> tbl' = tbl \<and> (validate_config config = Inl e \<or> e = ProfileDataError)
    | (Inr p, tbl') \<Rightarrow> profiles_ok tbl' \<and> validate_config config = Inr ()
        \<and> content p = (fresh, name, jsonb_dict config, scorer, Some user, now)
        \<and> ip_version p = int (length (history org tbl)) + 1
        \<and> get_active_profile org tbl' = Some p
        \<and> (\<forall>o'. history o' tbl' = (if o' = org then history org tbl @ [content p] else history o' tbl))"
proof (cases "validate_config config")
  case (Inl e)
  then show ?thesis by (simp add: create_profile_invalid)
next
  case (Inr u)
  then have valid: "validate_config config = Inr ()" by simp
  define row where "row = published_row org user name config scorer fresh now tbl"
  note create = create_profile_valid [OF ok fresh valid, of org user name scorer now, folded row_def]
  show ?thesis
  proof (cases "jsonb_accepts (JObj config) \<and> no_nul name")
    case False
    with create show ?thesis by simp
  next
    case True
    have row: "ip_organization_id row = org" "ip_version row = int (length (of_org org tbl)) + 1"
      "ip_status row = ProfileActive" "ip_profile_id row = fresh" "ip_config row = jsonb_dict config"
      by (simp_all add: row_def published_row_def)
    have "stored_config (ip_config row)"
      unfolding stored_config_def using doc True valid row(5) by blast
    then have ok': "profiles_ok (retire_active org now tbl @ [row])"
      using fresh row by (intro profiles_ok_create ok) simp_all
    have org: "of_org org (retire_active org now tbl @ [row]) = retire_active org now (of_org org tbl) @ [row]"
      by (simp only: of_org_create [OF row(1)] simp_thms if_True)
    have "versions_ok (of_org org (retire_active org now tbl @ [row]))"
      using ok' unfolding profiles_ok_def by blast
    from get_active_nth [OF this]
    have "get_active_profile org (retire_active org now tbl @ [row]) = Some row"
      unfolding org by simp
    moreover have "history o' (retire_active org now tbl @ [row])
        = (if o' = org then history org tbl @ [content row] else history o' tbl)" for o'
      unfolding history_def of_org_create [OF row(1)] by simp
    moreover have "content row = (fresh, name, jsonb_dict config, scorer, Some user, now)"
      by (simp add: content_def row_def published_row_def)
    ultimately show ?thesis
      using create True ok' valid row(2) by (simp add: history_def)
  qed
qed

text \<open>
  Every read of the profiles is a read of the history: the active profile is its last
  entry, version \<open>n\<close> its \<open>n\<close>-th entry, and the list of versions the history backwards.
\<close>

theorem profile_reads_follow_history:
  assumes ok: "profiles_ok tbl"
  shows "map_option content (get_active_profile org tbl)
      = (if history org tbl = [] then None else Some (last (history org tbl)))
    \<and> map_option content (get_profile_by_version org ver tbl)
      = (if 1 \<le> ver \<and> ver \<le> int (length (history org tbl)) then Some (history org tbl ! nat (ver - 1)) else None)
    \<and> map content (list_profiles org tbl) = rev (history org tbl)"
proof -
  have v: "versions_ok (of_org org tbl)" using ok by (simp add: profiles_ok_def)
  have len: "nat (ver - 1) < length (of_org org tbl)" if "1 \<le> ver" "ver \<le> int (length (of_org org tbl))"
    using that by simp
  show ?thesis
    unfolding history_def get_active_nth [OF v] get_version_nth [OF v] list_profiles_rev [OF v]
    using len by (simp add: last_map rev_map)
qed

subsection \<open>The scale of a score\<close>

lemma sum_field_points_le:
  assumes "wf_config sc"
  shows "(\<Sum>f\<leftarrow>ADDITIVE_FIELDS. field_points sc f (fs f)) \<le> sum_list (map snd (max_field_points sc))"
proof -
  have "(\<Sum>f\<leftarrow>ADDITIVE_FIELDS. field_points sc f (fs f))
      \<le> (\<Sum>f\<leftarrow>ADDITIVE_FIELDS. dict_get (max_field_points sc) f)"
    by (rule sum_list_mono) (rule field_points_ceiling [OF assms])
  also have "\<dots> = sum_list (map snd (max_field_points sc))"
    by (simp add: ADDITIVE_FIELDS_def) (simp add: max_field_points_def)
  finally show ?thesis .
qed

lemma score_range:
  assumes wf: "wf_config sc"
  shows "0 \<le> total_score (score_facts sc fs)
    \<and> total_score (score_facts sc fs) \<le> sum_list (map snd (max_field_points sc))"
proof -
  have "0 \<le> (\<Sum>f\<leftarrow>ADDITIVE_FIELDS. field_points sc f (fs f))"
    by (rule sum_list_nonneg_map) (rule field_points_nonneg [OF wf])
  with sum_field_points_le [OF wf, of fs] show ?thesis
    by (simp add: score_facts_total)
qed

lemma reference_scale: "sum_list (map snd (max_field_points reference_config)) = WEIGHT_SUM_TARGET"
  by (simp add: max_field_points_def reference_config_def SIZE_POINTS_def INDUSTRY_POINTS_def
      SENIORITY_POINTS_def FUNCTION_POINTS_def max_default_def WEIGHT_SUM_TARGET_def)

lemma stored_profiles_resolve:
  assumes "profiles_ok tbl"
  shows "\<exists>sc. resolve_scoring_config org tbl = Some sc"
proof (cases "get_active_profile org tbl")
  case (Some p)
  then have "p \<in> set tbl" by (auto simp: get_active_profile_def find_Some_iff)
  with assms obtain config where config: "is_document (JObj config)" "jsonb_accepts (JObj config)"
      "validate_config config = Inr ()" "ip_config p = jsonb_dict config"
    by (auto simp: profiles_ok_def stored_config_def)
  obtain sc where "materialize_scoring_config (jsonb_dict config) (ip_profile_id p) (ip_version p) = Some sc"
    by (rule materialize_stored [OF config(1,2,3)])
  with Some config(4) show ?thesis by (simp add: resolve_scoring_config_def)
qed (simp add: resolve_scoring_config_def)

text \<open>
  C29. Whatever profiles an organization has published, the configuration its leads are scored
  under exists and is well formed: thresholds in order between 0 and 100, no negative points,
  bands in order, and every score between 0 and 100 up to the tolerance of the validation.
\<close>

theorem resolved_config_is_well_typed:
  assumes ok: "profiles_ok tbl"
  shows "\<exists>sc. resolve_scoring_config org tbl = Some sc \<and> wf_config sc
    \<and> 0 \<le> reject_threshold sc \<and> reject_threshold sc < qualify_threshold sc \<and> qualify_threshold sc \<le> 100
    \<and> (\<forall>(lo, hi, pts) \<in> set (size_bands sc). 0 \<le> lo \<and> lo \<le> hi)
    \<and> (\<forall>fs. 0 \<le> total_score (score_facts sc fs)
          \<and> total_score (score_facts sc fs) \<le> WEIGHT_SUM_TARGET + WEIGHT_SUM_TOLERANCE)"
proof (cases "get_active_profile org tbl")
  case None
  have "total_score (score_facts reference_config fs) \<le> WEIGHT_SUM_TARGET + WEIGHT_SUM_TOLERANCE" for fs
    using score_range [OF wf_reference_config, of fs]
    by (simp add: reference_scale WEIGHT_SUM_TOLERANCE_def)
  with None show ?thesis
    using score_range [OF wf_reference_config]
    by (intro exI [of _ reference_config])
      (simp add: resolve_scoring_config_def, simp add: reference_config_def QUALIFY_THRESHOLD_def
        REJECT_THRESHOLD_def SIZE_POINTS_def)
next
  case (Some p)
  then have "p \<in> set tbl" by (auto simp: get_active_profile_def find_Some_iff)
  with ok obtain config where config: "is_document (JObj config)" "jsonb_accepts (JObj config)"
      "validate_config config = Inr ()" "ip_config p = jsonb_dict config"
    by (auto simp: profiles_ok_def stored_config_def)
  obtain sc where sc: "materialize_scoring_config (jsonb_dict config) (ip_profile_id p) (ip_version p) = Some sc"
      "wf_config sc" "0 \<le> reject_threshold sc" "reject_threshold sc < qualify_threshold sc"
      "qualify_threshold sc \<le> 100" "\<forall>(lo, hi, pts) \<in> set (size_bands sc). 0 \<le> lo \<and> lo \<le> hi"
      "\<bar>sum_list (map snd (max_field_points sc)) - WEIGHT_SUM_TARGET\<bar> \<le> WEIGHT_SUM_TOLERANCE"
    by (rule materialize_stored [OF config(1,2,3)])
  have "0 \<le> total_score (score_facts sc fs)
      \<and> total_score (score_facts sc fs) \<le> WEIGHT_SUM_TARGET + WEIGHT_SUM_TOLERANCE" for fs
    using score_range [OF sc(2), of fs] sc(7) by linarith
  with Some sc show ?thesis
    by (intro exI [of _ sc]) (simp add: resolve_scoring_config_def config(4))
qed

subsection \<open>The bootstrapped reference profile\<close>

text \<open>
  The migration stores \<open>REFERENCE_CONFIG\<close> as version 1 of every organization. The column
  orders the keys of the point tables anew, so the tables are permutations of the scorer's
  own; the points they give are the same.
\<close>

lemma reference_parts:
  "bands_at (jsonb_dict REFERENCE_CONFIG) ''employee_count_bands'' = Some SIZE_POINTS"
  "points_at (jsonb_dict REFERENCE_CONFIG) ''industry_points'' = Some
     [(''fintech'', 15), (''software'', 15), (''ecommerce'', 12), (''education'', 5),
      (''logistics'', 8), (''nonprofit'', 2), (''healthtech'', 13), (''manufacturing'', 7)]"
  "points_at (jsonb_dict REFERENCE_CONFIG) ''seniority_points'' = Some
     [(''ic'', 2), (''vp'', 18), (''c_level'', 20), (''manager'', 8), (''director'', 14)]"
  "points_at (jsonb_dict REFERENCE_CONFIG) ''function_points'' = Some
     [(''data'', 15), (''other'', 2), (''sales'', 5), (''finance'', 4), (''marketing'', 5),
      (''operations'', 9), (''engineering'', 14)]"
  by code_simp+

lemma reference_scalars:
  "real_at (jsonb_dict REFERENCE_CONFIG) ''qualify_threshold'' = Some 65"
  "real_at (jsonb_dict REFERENCE_CONFIG) ''reject_threshold'' = Some 55"
  "real_at (jsonb_dict REFERENCE_CONFIG) ''buying_intent_weight'' = Some 20"
  "real_at (jsonb_dict REFERENCE_CONFIG) ''trigger_event_weight'' = Some 10"
  "json_truthy (json_get_or (jsonb_dict REFERENCE_CONFIG) ''disqualifier_enabled'' (JBool True))"
  by code_simp+

lemma reference_valid: "validate_config REFERENCE_CONFIG = Inr ()"
  by code_simp

lemma reference_document: "is_document (JObj REFERENCE_CONFIG)" "jsonb_accepts (JObj REFERENCE_CONFIG)"
  by code_simp+

definition reference_profile :: "uuid \<Rightarrow> int \<Rightarrow> scoring_config" where
  "reference_profile pid ver = reference_config
     \<lparr>industry_points := the (points_at (jsonb_dict REFERENCE_CONFIG) ''industry_points''),
      seniority_points := the (points_at (jsonb_dict REFERENCE_CONFIG) ''seniority_points''),
      function_points := the (points_at (jsonb_dict REFERENCE_CONFIG) ''function_points''),
      profile_id := Some pid, profile_version := Some ver\<rparr>"

lemma materialize_reference:
  "materialize_scoring_config (jsonb_dict REFERENCE_CONFIG) pid ver = Some (reference_profile pid ver)"
  by (simp add: materialize_scoring_config_def reference_parts reference_scalars reference_profile_def)
    (simp add: reference_config_def QUALIFY_THRESHOLD_def REJECT_THRESHOLD_def)

lemma dict_get_permuted:
  "distinct (map fst d) \<Longrightarrow> distinct (map fst e) \<Longrightarrow> set d = set e \<Longrightarrow> dict_get d k = dict_get e k"
  using map_of_inject_set [of d e] by (simp add: dict_get_def)

lemma reference_tables:
  "dict_get (industry_points (reference_profile pid ver)) k = dict_get (industry_points reference_config) k"
  "dict_get (seniority_points (reference_profile pid ver)) k = dict_get (seniority_points reference_config) k"
  "dict_get (function_points (reference_profile pid ver)) k = dict_get (function_points reference_config) k"
  unfolding reference_profile_def reference_parts option.sel scoring_config.simps reference_config_def
  by (rule dict_get_permuted; code_simp)+

lemma reference_profile_fields:
  "size_bands (reference_profile pid ver) = size_bands reference_config"
  "intent_max_points (reference_profile pid ver) = intent_max_points reference_config"
  "trigger_points (reference_profile pid ver) = trigger_points reference_config"
  "disqualifier_enabled (reference_profile pid ver) = disqualifier_enabled reference_config"
  "qualify_threshold (reference_profile pid ver) = qualify_threshold reference_config"
  "reject_threshold (reference_profile pid ver) = reject_threshold reference_config"
  by (simp_all add: reference_profile_def)

text \<open>
  An organization on the bootstrapped reference profile is scored and decided exactly as
  one without a profile, under the scorer's own reference configuration, although the stored
  point tables are ordered differently.
\<close>

theorem reference_profile_scores_as_default:
  "materialize_scoring_config (jsonb_dict REFERENCE_CONFIG) pid ver = Some (reference_profile pid ver)
   \<and> profile_id (reference_profile pid ver) = Some pid
   \<and> score_facts (reference_profile pid ver) fs = score_facts reference_config fs
   \<and> decide (reference_profile pid ver) x = decide reference_config x"
proof -
  have points: "field_points (reference_profile pid ver) f v = field_points reference_config f v" for f v
    unfolding field_points_def reference_profile_fields reference_tables by (rule refl)
  show ?thesis
    unfolding score_facts_def points is_disqualified_def decide_def reference_profile_fields
    by (simp add: materialize_reference) (simp add: reference_profile_def)
qed

subsection \<open>Witnesses\<close>

lemma create_profile_refines_history_witness:
  "case create_profile 7 3 ''Reference ICP'' REFERENCE_CONFIG RULES_VERSION 1 0 [] of
      (Inl e, tbl') \<Rightarrow> False
    | (Inr p, tbl') \<Rightarrow> profiles_ok tbl' \<and> ip_version p = 1 \<and> get_active_profile 7 tbl' = Some p"
proof -
  have ok: "create_profile 7 3 ''Reference ICP'' REFERENCE_CONFIG RULES_VERSION 1 0 []
      = (Inr (published_row 7 3 ''Reference ICP'' REFERENCE_CONFIG RULES_VERSION 1 0 []),
         retire_active 7 0 [] @ [published_row 7 3 ''Reference ICP'' REFERENCE_CONFIG RULES_VERSION 1 0 []])"
    using create_profile_valid [OF profiles_ok_Nil, of 1 REFERENCE_CONFIG 7 3 "''Reference ICP''"
        RULES_VERSION 0] reference_valid reference_document
    by (simp add: no_nul_def code_def)
  have "(1::uuid) \<notin> set (map ip_profile_id [])" by simp
  from create_profile_refines_history [OF profiles_ok_Nil this reference_document(1),
      where org = 7 and user = 3 and name = "''Reference ICP''" and scorer = RULES_VERSION and now = 0]
  show ?thesis
    unfolding ok by (simp add: history_def)
qed

lemma reference_table_ok:
  "profiles_ok [published_row 7 3 ''Reference ICP'' REFERENCE_CONFIG RULES_VERSION 1 0 []]"
proof -
  let ?p = "published_row 7 3 ''Reference ICP'' REFERENCE_CONFIG RULES_VERSION 1 0 []"
  have "stored_config (ip_config ?p)"
    unfolding stored_config_def published_row_def icp_profile.simps
    using reference_document reference_valid by blast
  from profiles_ok_create [OF profiles_ok_Nil, of ?p 7 0] this show ?thesis
    by (simp add: published_row_def retire_active_def)
qed

lemma profile_reads_follow_history_witness:
  "map_option content (get_profile_by_version 7 1
     [published_row 7 3 ''Reference ICP'' REFERENCE_CONFIG RULES_VERSION 1 0 []])
   = Some (1, ''Reference ICP'', jsonb_dict REFERENCE_CONFIG, RULES_VERSION, Some 3, 0)"
  using profile_reads_follow_history [OF reference_table_ok, of 7 1]
  by (simp add: history_def content_def published_row_def)

lemma resolved_config_is_well_typed_witness:
  "\<exists>sc. resolve_scoring_config 7 [published_row 7 3 ''Reference ICP'' REFERENCE_CONFIG RULES_VERSION 1 0 []]
     = Some sc \<and> wf_config sc"
  using resolved_config_is_well_typed [OF reference_table_ok, of 7] by blast

end
