(* ===== verification/Simulated_Worker.thy ===== *)
theory Simulated_Worker
  imports Worker Live_Safety Identity ICP_History
begin

text \<open>
  \<open>arie.jobs.handlers\<close> as the worker runs it in simulated mode: the runtime built once from a
  corpus of leads, the join that reads a lead's identity, the choice between the frozen corpus
  and a synthesized lead, the organization's scoring configuration, and the handler the worker
  is given. The lemmas compose the components: the handler satisfies what the worker expects of
  a handler, a registry built from leads answers about each of them, and so a claimed job of a
  NEW lead ends with the lead decided. \<open>synthesize_corpus_lead\<close> is a parameter, as are the
  estimators of \<open>fit_confidence_model\<close> and what the evidence cache holds when the run starts.
\<close>

subsection \<open>A registry built from leads answers about them\<close>

lemma registry_of_specs:
  assumes "sum_foldM (\<lambda>spec. registry_register (simulated_provider st spec) (ps_capability spec)) specs rg
      = Inr rg'" and "distinct (map ps_name specs)"
  shows "map_of (rg_by_name rg') name =
    (case map_of (map (\<lambda>s. (ps_name s, s)) specs) name of
       None \<Rightarrow> map_of (rg_by_name rg) name | Some s \<Rightarrow> Some (simulated_provider st s))"
  using assms
proof (induction specs arbitrary: rg)
  case (Cons spec specs)
  then obtain rg1 where
    reg: "registry_register (simulated_provider st spec) (ps_capability spec) rg = Inr rg1"
    and rest: "sum_foldM (\<lambda>spec. registry_register (simulated_provider st spec) (ps_capability spec)) specs rg1
      = Inr rg'"
    by (auto simp: sum_bind_Inr)
  have "map_of (rg_by_name rg1) name =
      (if name = ps_name spec then Some (simulated_provider st spec) else map_of (rg_by_name rg) name)"
    using reg by (auto simp: registry_register_def simulated_provider_def update_conv split: if_splits)
  moreover have "map_of (map (\<lambda>s. (ps_name s, s)) specs) (ps_name spec) = None"
    using Cons.prems(2) by (auto simp: map_of_eq_None_iff)
  ultimately show ?case
    using Cons.IH [OF rest] Cons.prems(2) by (cases "name = ps_name spec") (simp_all split: option.split)
qed simp

lemma registry_of_specs_total:
  assumes "distinct (map ps_name specs)" and "fst ` set (rg_by_name rg) \<inter> ps_name ` set specs = {}"
  shows "\<exists>rg'. sum_foldM (\<lambda>spec. registry_register (simulated_provider st spec) (ps_capability spec))
      specs rg = Inr rg'"
  using assms
proof (induction specs arbitrary: rg)
  case (Cons spec specs)
  then obtain rg1 where
    reg: "registry_register (simulated_provider st spec) (ps_capability spec) rg = Inr rg1"
    by (simp add: registry_register_def simulated_provider_def)
  then have "fst ` set (rg_by_name rg1) = insert (ps_name spec) (fst ` set (rg_by_name rg))"
    by (simp add: registry_register_def simulated_provider_def fst_update split: if_splits)
      (drule sym, simp add: fst_update)
  with Cons.IH [of rg1] Cons.prems reg show ?case by auto
qed simp

lemma build_registry_get:
  assumes "build_registry st = Inr rg" and "spec \<in> set CATALOG"
  shows "registry_get rg (ps_name spec) = Inr (simulated_provider st spec)"
  using registry_of_specs [OF assms(1) [unfolded build_registry_def] catalog_names_distinct, of "ps_name spec"]
    BY_NAME_catalog [OF assms(2)]
  by (simp add: registry_get_def BY_NAME_def)

lemma store_put_keeps:
  assumes "store_put lead po st = Inr st'"
  shows "dom st \<subseteq> dom st'"
proof -
  obtain name ob where po: "po = (name, ob)" by fastforce
  with assms show ?thesis
    by (auto simp: store_put_def sum_bind_Inr Let_def split: option.splits if_splits)
qed

lemma store_puts_keep: "sum_foldM (store_put lead) obs st = Inr st' \<Longrightarrow> dom st \<subseteq> dom st'"
proof (induction obs arbitrary: st)
  case (Cons po obs)
  then obtain st1 where s: "store_put lead po st = Inr st1" "sum_foldM (store_put lead) obs st1 = Inr st'"
    by (auto simp: sum_bind_Inr)
  from store_put_keeps [OF s(1)] Cons.IH [OF s(2)] show ?case by blast
qed simp

definition store_key :: "eval_lead \<Rightarrow> provider_spec \<Rightarrow> string" where
  "store_key lead spec = en_key (entity_for lead (ps_entity_type spec))"

lemma store_put_adds:
  assumes "store_put lead (ps_name spec, ob) st = Inr st'" and "spec \<in> set CATALOG"
  shows "(ps_name spec, store_key lead spec) \<in> dom st'"
  using assms spec_named_catalog [OF assms(2)]
  by (auto simp: store_put_def Let_def store_key_def entity_for_def company_entity_def person_entity_def
      split: option.splits if_splits)

lemma store_puts_add:
  assumes "sum_foldM (store_put lead) obs st = Inr st'" and "ps_name spec \<in> fst ` set obs"
    and "spec \<in> set CATALOG"
  shows "(ps_name spec, store_key lead spec) \<in> dom st'"
  using assms
proof (induction obs arbitrary: st)
  case (Cons po obs)
  then obtain st1 where s: "store_put lead po st = Inr st1" "sum_foldM (store_put lead) obs st1 = Inr st'"
    by (auto simp: sum_bind_Inr)
  show ?case
  proof (cases "fst po = ps_name spec")
    case True
    then obtain ob where po: "po = (ps_name spec, ob)" by (cases po) simp
    show ?thesis
      using store_put_adds [OF s(1) [unfolded po] Cons.prems(3)] store_puts_keep [OF s(2)] by blast
  qed (use Cons.IH [OF s(2)] Cons.prems in auto)
qed simp

lemma corpus_puts_keep:
  "sum_foldM (\<lambda>lead. sum_foldM (store_put lead) (el_observations lead)) corpus st = Inr st'
    \<Longrightarrow> dom st \<subseteq> dom st'"
proof (induction corpus arbitrary: st)
  case (Cons x xs)
  then obtain st1 where s: "sum_foldM (store_put x) (el_observations x) st = Inr st1"
    "sum_foldM (\<lambda>lead. sum_foldM (store_put lead) (el_observations lead)) xs st1 = Inr st'"
    by (auto simp: sum_bind_Inr)
  from store_puts_keep [OF s(1)] Cons.IH [OF s(2)] show ?case by blast
qed simp

text \<open>A lead for which every provider of the catalogue has a frozen observation.\<close>

definition complete_lead :: "eval_lead \<Rightarrow> bool" where
  "complete_lead lead \<longleftrightarrow> set ALL_PROVIDERS \<subseteq> fst ` set (el_observations lead)"

lemma observations_stored:
  assumes "sum_foldM (\<lambda>lead. sum_foldM (store_put lead) (el_observations lead)) corpus st = Inr st'"
    and "lead \<in> set corpus" and "complete_lead lead" and "spec \<in> set CATALOG"
  shows "(ps_name spec, store_key lead spec) \<in> dom st'"
  using assms(1,2)
proof (induction corpus arbitrary: st)
  case (Cons x xs)
  then obtain st1 where s: "sum_foldM (store_put x) (el_observations x) st = Inr st1"
    "sum_foldM (\<lambda>lead. sum_foldM (store_put lead) (el_observations lead)) xs st1 = Inr st'"
    by (auto simp: sum_bind_Inr)
  note mono = corpus_puts_keep [OF s(2)]
  show ?case
  proof (cases "x = lead")
    case True
    have "ps_name spec \<in> fst ` set (el_observations lead)"
      using assms(3,4) by (auto simp: complete_lead_def ALL_PROVIDERS_def)
    from store_puts_add [OF s(1) [unfolded True] this assms(4)] mono show ?thesis by blast
  qed (use Cons.IH [OF s(2)] Cons.prems in auto)
qed simp

lemma corpus_registry_serves:
  assumes "build_from_leads corpus = Inr (st, rg)" and "lead \<in> set corpus" and "complete_lead lead"
  shows "registry_serves rg lead"
  unfolding registry_serves_def
proof
  fix spec assume spec: "spec \<in> set CATALOG"
  from assms(1) have st: "observation_store corpus = Inr st" and rg: "build_registry st = Inr rg"
    by (auto simp: build_from_leads_def sum_bind_Inr)
  from observations_stored [OF st [unfolded observation_store_def] assms(2,3) spec]
  obtain ob where "st (ps_name spec, store_key lead spec) = Some ob" by auto
  then show "\<exists>p r. registry_get rg (ps_name spec) = Inr p
      \<and> pv_fetch p (entity_for lead (ps_entity_type spec)) = Inr r"
    using build_registry_get [OF rg spec]
    by (cases "ps_entity_type spec") (simp_all add: simulated_provider_def simulated_fetch_def
        store_get_def store_key_def entity_for_def company_entity_def person_entity_def)
qed

subsection \<open>The runtime of the simulated worker\<close>

record simulated_runtime =
  sim_model :: confidence_model
  sim_registry :: registry
  sim_corpus :: "(string \<times> eval_lead) list"

text \<open>\<open>dict.setdefault\<close> under the canonical email: the first lead of a mailbox is kept.\<close>

fun index_corpus :: "(string \<times> eval_lead) list \<Rightarrow> eval_lead list \<Rightarrow> error + (string \<times> eval_lead) list" where
  "index_corpus by_email [] = Inr by_email"
| "index_corpus by_email (lead # rest) =
     sum_bind (normalize_email (lp_email (el_person lead))) (\<lambda>email.
       index_corpus (if map_of by_email email = None then by_email @ [(email, lead)] else by_email) rest)"

definition build_runtime ::
  "(eval_lead list \<Rightarrow> error + confidence_model) \<Rightarrow> eval_lead list \<Rightarrow> error + simulated_runtime" where
  "build_runtime fit_model corpus =
     sum_bind (fit_model (filter (\<lambda>lead. el_split lead = Calibration) corpus)) (\<lambda>m.
     sum_bind (build_from_leads corpus) (\<lambda>(_, rg).
     sum_bind (index_corpus [] corpus) (\<lambda>by_email.
     Inr \<lparr>sim_model = m, sim_registry = rg, sim_corpus = by_email\<rparr>)))"

definition UnknownCorpusIdentityError :: error where
  "UnknownCorpusIdentityError = HandlerError ''UnknownCorpusIdentityError''"

definition corpus_lead_for :: "simulated_runtime \<Rightarrow> string \<Rightarrow> string option \<Rightarrow> error + eval_lead" where
  "corpus_lead_for rt email domn =
     (case map_of (sim_corpus rt) email of
        None \<Rightarrow> Inl UnknownCorpusIdentityError
      | Some lead \<Rightarrow>
          sum_bind (normalize_domain (lc_canonical_domain (el_company lead))) (\<lambda>corpus_domain.
            if domn \<noteq> None \<and> domn \<noteq> Some corpus_domain then Inl UnknownCorpusIdentityError
            else Inr lead))"

subsection \<open>Whose lead it is\<close>

text \<open>The columns of \<open>leads\<close> that name its company and person, and the tables the handler reads.\<close>

record lead_refs =
  lr_company_id :: "uuid option"
  lr_person_id :: "uuid option"
  lr_is_shadow :: bool

record simulation_db = decision_db +
  sd_refs :: "uuid \<Rightarrow> lead_refs option"
  sd_identity :: identity_db
  sd_profiles :: "icp_profile list"

record loaded_identity =
  ld_identity :: lead_identity
  ld_full_name :: "string option"
  ld_company_name :: "string option"

text \<open>The two LEFT JOINs of \<open>_SELECT_LEAD_IDENTITY\<close>, then the checks of \<open>_load_identity\<close>.\<close>

definition joined_company :: "uuid option \<Rightarrow> 'a simulation_db_scheme \<Rightarrow> company_row option" where
  "joined_company c d = find (\<lambda>r. Some (cp_id r) = c) (companies (sd_identity d))"

definition joined_person :: "uuid option \<Rightarrow> 'a simulation_db_scheme \<Rightarrow> person_row option" where
  "joined_person p d = find (\<lambda>r. Some (pe_id r) = p) (persons (sd_identity d))"

definition load_identity :: "uuid \<Rightarrow> 'a simulation_db_scheme \<Rightarrow> error + loaded_identity" where
  "load_identity i d =
     (case (leads d i, sd_refs d i) of
        (Some row, Some refs) \<Rightarrow>
          (case (lr_company_id refs, lr_person_id refs, joined_person (lr_person_id refs) d) of
             (Some c, Some p, Some person) \<Rightarrow>
               Inr \<lparr>ld_identity =
                      \<lparr>li_person_id = p, li_company_id = c, li_organization_id = organization_id row,
                       li_email = pe_email person,
                       li_domain = Option.bind (joined_company (Some c) d) cp_domain,
                       li_is_shadow = lr_is_shadow refs\<rparr>,
                    ld_full_name = pe_full_name person,
                    ld_company_name = map_option cp_name (joined_company (Some c) d)\<rparr>
           | _ \<Rightarrow> Inl ValueError)
      | _ \<Rightarrow> Inl ValueError)"

lemma joined_clock [simp]:
  "joined_company c (d\<lparr>clock := t\<rparr>) = joined_company c d" "joined_person p (d\<lparr>clock := t\<rparr>) = joined_person p d"
  by (simp_all add: joined_company_def joined_person_def)

lemma load_identity_clock [simp]: "load_identity i (d\<lparr>clock := t\<rparr>) = load_identity i d"
  by (simp add: load_identity_def split: option.split)

subsection \<open>The handler\<close>

type_synonym synthesizer = "string \<Rightarrow> string \<Rightarrow> string option \<Rightarrow> string option \<Rightarrow> eval_lead"

text \<open>\<open>canonical_domain or domain_from_email(email)\<close>: an empty domain counts as none.\<close>

definition domain_to_synthesize :: "string option \<Rightarrow> string \<Rightarrow> error + string option" where
  "domain_to_synthesize domn email =
     (if domn \<noteq> None \<and> domn \<noteq> Some [] then Inr domn else domain_from_email email)"

text \<open>The lead whose evidence is replayed: the corpus lead, or one synthesized for the identity.\<close>

definition acquisition_source ::
  "simulated_runtime \<Rightarrow> synthesizer \<Rightarrow> loaded_identity \<Rightarrow> error + eval_lead \<times> registry" where
  "acquisition_source rt synth idn =
     (let email = li_email (ld_identity idn); domn = li_domain (ld_identity idn)
      in case corpus_lead_for rt email domn of
           Inr lead \<Rightarrow> Inr (lead, sim_registry rt)
         | Inl e \<Rightarrow>
             if e \<noteq> UnknownCorpusIdentityError then Inl e
             else sum_bind (domain_to_synthesize domn email) (\<lambda>dm.
               case dm of
                 None \<Rightarrow> Inl UnknownCorpusIdentityError
               | Some dn \<Rightarrow>
                   (let lead = synth email dn (ld_full_name idn) (ld_company_name idn)
                    in sum_bind (build_from_leads [lead]) (\<lambda>(_, rg). Inr (lead, rg)))))"

text \<open>\<open>fresh\<close> is the id a new review gets, \<open>ca\<close> what the durable evidence cache answers.\<close>

definition simulated_job ::
  "simulated_runtime \<Rightarrow> synthesizer \<Rightarrow> uuid \<Rightarrow> cache \<Rightarrow> job_context \<Rightarrow> 'a simulation_db_scheme
     \<Rightarrow> error + 'a simulation_db_scheme \<times> lead_status option" where
  "simulated_job rt synth fresh ca ctx d =
     (case cj_lead_id (jc_job ctx) of
        None \<Rightarrow> Inl ValueError
      | Some i \<Rightarrow>
          if jc_lead_status ctx \<noteq> Some NEW \<or> jc_lead_version ctx = None then Inl ValueError
          else
            sum_bind (load_identity i d) (\<lambda>idn.
            sum_bind (acquisition_source rt synth idn) (\<lambda>(lead, rg).
            case resolve_scoring_config (li_organization_id (ld_identity idn)) (sd_profiles d) of
              None \<Rightarrow> Inl KeyError
            | Some cfg \<Rightarrow>
                sum_bind (compute_score_simulated fresh (ld_identity idn) lead cfg (sim_model rt) (Some i)
                    (jc_lead_status ctx) (jc_lead_version ctx)
                    \<lparr>rc_registry = rg, rc_ledger = [], rc_cache = ca\<rparr> d)
                  (\<lambda>(d', _). Inr (d', None)))))"

definition build_simulated_handlers ::
  "simulated_runtime \<Rightarrow> synthesizer \<Rightarrow> uuid \<Rightarrow> cache
     \<Rightarrow> (string \<times> (job_context \<Rightarrow> 'a simulation_db_scheme
          \<Rightarrow> error + 'a simulation_db_scheme \<times> lead_status option)) list" where
  "build_simulated_handlers rt synth fresh ca = [(''compute_score'', simulated_job rt synth fresh ca)]"

subsection \<open>The handler leaves the lease to the worker\<close>

text \<open>No result of the computation is the error by which the queue reports a lost lease.\<close>

definition quiet :: "error + 'a \<Rightarrow> bool" where
  "quiet m \<longleftrightarrow> (\<forall>e. m = Inl e \<longrightarrow> \<not> is_ownership_error e)"

named_theorems quiet_intros \<open>computations that never raise the ownership error\<close>

lemma quiet_Inr [quiet_intros]: "quiet (Inr x)"
  by (simp add: quiet_def)

lemma quiet_Inl [quiet_intros]: "\<not> is_ownership_error e \<Longrightarrow> quiet (Inl e)"
  by (simp add: quiet_def)

lemma quiet_bind [quiet_intros]: "quiet m \<Longrightarrow> (\<And>x. m = Inr x \<Longrightarrow> quiet (f x)) \<Longrightarrow> quiet (sum_bind m f)"
  by (cases m) (auto simp: quiet_def)

lemma quiet_if [quiet_intros]: "(b \<Longrightarrow> quiet m) \<Longrightarrow> (\<not> b \<Longrightarrow> quiet n) \<Longrightarrow> quiet (if b then m else n)"
  by simp

lemma quiet_mapM: "(\<And>x. quiet (f x)) \<Longrightarrow> quiet (sum_mapM f xs)"
  by (induction xs) (simp_all add: quiet_intros)

lemma quiet_foldM: "(\<And>x s. quiet (f x s)) \<Longrightarrow> quiet (sum_foldM f xs s)"
  by (induction xs arbitrary: s) (simp_all add: quiet_intros)

lemma quiet_transition [quiet_intros]: "quiet (apply_transition i v s ty pl d)"
  by (auto simp: quiet_def apply_transition_stale)

lemma quiet_next_status [quiet_intros]: "quiet (next_status s outcome)"
  by (auto simp: quiet_def next_status_def split: option.splits if_splits)

lemma quiet_walk [quiet_intros]: "quiet (walk_to_decision pl i s v d)"
proof (induction pl i s v d rule: walk_to_decision.induct)
  case (1 pl i s v d)
  then show ?case
    using quiet_next_status [of s None]
    by (subst walk_to_decision.simps)
      (auto simp: quiet_def apply_transition_stale split: sum.splits option.splits)
qed

lemma quiet_finalize [quiet_intros]:
  "quiet (finalize_decision fresh i org v dec autonomous is_shadow allowed d)"
  unfolding finalize_decision_def request_review_def Let_def
  by (intro quiet_intros) (auto intro!: quiet_intros split: option.split)

lemma quiet_spec_named [quiet_intros]: "quiet (spec_named name)"
  by (simp add: quiet_def spec_named_def split: option.split)

lemma quiet_score_results [quiet_intros]: "quiet (score_results cfg results)"
  unfolding score_results_def candidates_from_results_def Let_def
  by (intro quiet_intros quiet_mapM) (auto simp: claims_of_result_def intro!: quiet_intros split: prod.split)

definition quiet_registry :: "registry \<Rightarrow> bool" where
  "quiet_registry rg \<longleftrightarrow> (\<forall>name p e. registry_get rg name = Inr p \<longrightarrow> quiet (pv_fetch p e))"

lemma quiet_ctx_fetch:
  assumes "quiet_registry (rc_registry ctx)"
  shows "quiet (ctx_fetch name lead ctx)"
proof -
  have "quiet (registry_get (rc_registry ctx) name)"
    by (simp add: quiet_def registry_get_def split: option.split)
  then show ?thesis
    using assms unfolding ctx_fetch_def Let_def quiet_registry_def
    by (intro quiet_intros) (auto intro!: quiet_intros split: option.split)
qed

lemma ctx_fetch_registry: "ctx_fetch name lead ctx = Inr (rh, ctx') \<Longrightarrow> rc_registry ctx' = rc_registry ctx"
  by (auto simp: ctx_fetch_def sum_bind_Inr Let_def split: option.splits)

lemma quiet_bounds_loop:
  assumes "quiet_registry (rc_registry ctx)"
  shows "quiet (bounds_loop cfg m lead specs results ctx)"
  using assms
proof (induction specs arbitrary: results ctx)
  case (Cons spec specs)
  show ?case
    by (auto intro!: quiet_intros quiet_ctx_fetch Cons simp: Let_def dest: ctx_fetch_registry)
qed (simp add: quiet_intros)

lemma quiet_calibrated:
  "quiet_registry (rc_registry ctx) \<Longrightarrow> quiet (calibrated_bounds_run cfg m lead ctx)"
  unfolding calibrated_bounds_run_def finish_run_def Let_def
  by (auto intro!: quiet_intros quiet_bounds_loop split: prod.split)

lemma quiet_built_registry:
  assumes "build_registry st = Inr rg"
  shows "quiet_registry rg"
  unfolding quiet_registry_def
proof (intro allI impI)
  fix name p e assume "registry_get rg name = Inr p"
  then have "map_of (rg_by_name rg) name = Some p"
    by (simp add: registry_get_def split: option.splits)
  with registry_of_specs [OF assms [unfolded build_registry_def] catalog_names_distinct, of name]
  obtain s where "p = simulated_provider st s"
    by (auto simp: empty_registry_def split: option.splits)
  then show "quiet (pv_fetch p e)"
    by (auto simp: simulated_provider_def simulated_fetch_def store_get_def intro!: quiet_intros
        split: option.split)
qed

lemma quiet_require [quiet_intros]: "quiet (require_nonblank s)"
  by (simp add: quiet_def require_nonblank_def Let_def)

lemma quiet_normalize [quiet_intros]: "quiet (normalize_domain s)" "quiet (normalize_email s)"
proof -
  show d: "quiet (normalize_domain s)" for s
    unfolding normalize_domain_def by (intro quiet_intros)
  show "quiet (normalize_email s)"
    unfolding normalize_email_def Let_def by (auto intro!: quiet_intros d)
qed

lemma quiet_corpus_lead [quiet_intros]: "quiet (corpus_lead_for rt email domn)"
  unfolding corpus_lead_for_def
  by (auto intro!: quiet_intros simp: UnknownCorpusIdentityError_def split: option.split)

lemma quiet_build_from_leads [quiet_intros]: "quiet (build_from_leads corpus)"
proof -
  have put: "quiet (store_put lead po st)" for lead po st
    by (cases po) (auto simp: store_put_def Let_def intro!: quiet_intros split: option.split)
  have reg: "quiet (registry_register p c rg)" for p c rg
    by (auto simp: registry_register_def intro!: quiet_intros)
  show ?thesis
    unfolding build_from_leads_def observation_store_def build_registry_def
    by (auto intro!: quiet_intros quiet_foldM put reg)
qed

lemma quiet_acquisition_source [quiet_intros]: "quiet (acquisition_source rt synth idn)"
  unfolding acquisition_source_def Let_def
  using quiet_corpus_lead [of rt "li_email (ld_identity idn)" "li_domain (ld_identity idn)"]
  by (auto simp: domain_to_synthesize_def domain_from_email_def Let_def UnknownCorpusIdentityError_def
      quiet_def [of "corpus_lead_for _ _ _"] intro!: quiet_intros split: sum.split option.split)

lemma quiet_load_identity [quiet_intros]: "quiet (load_identity i d)"
  by (auto simp: load_identity_def intro!: quiet_intros split: option.split)

lemma source_registry_quiet:
  assumes "quiet_registry (sim_registry rt)" and "acquisition_source rt synth idn = Inr (lead, rg)"
  shows "quiet_registry rg"
  using assms quiet_built_registry
  by (auto simp: acquisition_source_def build_from_leads_def sum_bind_Inr Let_def
      split: sum.splits option.splits if_splits)

lemma walk_jobs: "walk_to_decision pl i s v d = Inr (d', v') \<Longrightarrow> db.more d' = db.more d"
proof (induction pl i s v d rule: walk_to_decision.induct)
  case (1 pl i s v d)
  note run = walk_to_decision.simps [of pl i s v d] \<open>walk_to_decision pl i s v d = Inr (d', v')\<close>
  show ?case
  proof (cases "s = DECISION")
    case True
    with run show ?thesis by simp
  next
    case False
    with run obtain t d1 v1 where step: "next_status s None = Inr (Some t)"
      "apply_transition i v t (''policy:'' @ py_lower (lead_status_str t)) (pl t) d = Inr (d1, v1)"
      and rest: "walk_to_decision pl i t v1 d1 = Inr (d', v')"
      by (auto split: sum.splits option.splits)
    from 1(1) [OF False step(1) refl step(2) refl rest] step(2) show ?thesis
      by (auto simp: apply_transition_ok)
  qed
qed

lemma compute_score_jobs:
  fixes d d' :: "'a decision_db_scheme"
  assumes "compute_score_simulated fresh idn lead cfg m j st v rc d = Inr (d', r)"
  shows "jobs d' = jobs d"
proof -
  from assms obtain i ver out rc' d1 v1 final where
    walk: "walk_to_decision (scaffold_payloads out (tau m)) i NEW ver d = Inr (d1, v1)" and
    fin: "finalize_decision fresh i (li_organization_id idn) v1 (po_decision out)
      (po_autonomous out) (li_is_shadow idn) True (record_decision idn i cfg (tau m) out d1) = Inr (d', final)"
    by (auto simp: compute_score_simulated_def run_simulated_acquisition_def sum_bind_Inr
        split: option.splits lead_status.splits)
  from decision_db_frame(4) [OF walk_jobs [OF walk]] finalize_decision_frame [OF fin]
  show ?thesis by (simp add: record_decision_def)
qed

text \<open>
  What the worker expects of a handler holds of the shipped one, whatever the database says of
  the lead: it leaves the job table alone and never raises the error of a lost lease.
\<close>

lemma simulated_job_ok:
  assumes "quiet_registry (sim_registry rt)"
  shows "handler_ok (simulated_job rt synth fresh ca)"
  unfolding handler_ok_def
proof (intro conjI allI impI)
  fix ctx :: job_context and d d1 :: "'a simulation_db_scheme" and s
  assume "simulated_job rt synth fresh ca ctx d = Inr (d1, s)"
  then show "jobs d1 = jobs d"
    by (auto simp: simulated_job_def sum_bind_Inr split: option.splits if_splits dest: compute_score_jobs)
next
  fix ctx :: job_context and d :: "'a simulation_db_scheme" and e
  assume e: "simulated_job rt synth fresh ca ctx d = Inl e"
  have run: "quiet (compute_score_simulated fresh idn lead cfg m j st v \<lparr>rc_registry = rg, rc_ledger = [],
      rc_cache = ca\<rparr> d)" if "quiet_registry rg" for idn lead cfg m j st v rg
    using that unfolding compute_score_simulated_def run_simulated_acquisition_def
    by (auto intro!: quiet_intros quiet_calibrated split: option.split lead_status.split)
  have "quiet (simulated_job rt synth fresh ca ctx d)"
    unfolding simulated_job_def
    by (auto intro!: quiet_intros run split: option.split dest: source_registry_quiet [OF assms])
  with e show "\<not> is_ownership_error e" by (simp add: quiet_def)
qed

subsection \<open>A job, end to end\<close>

lemma index_corpus_leads:
  "index_corpus by_email xs = Inr out \<Longrightarrow> snd ` set out \<subseteq> snd ` set by_email \<union> set xs"
proof (induction xs arbitrary: by_email)
  case (Cons lead rest)
  then obtain email where
    "index_corpus (if map_of by_email email = None then by_email @ [(email, lead)] else by_email) rest = Inr out"
    by (auto simp: sum_bind_Inr)
  from Cons.IH [OF this] show ?case by (auto split: if_splits)
qed auto

lemma runtime_parts:
  assumes "build_runtime fit_model corpus = Inr rt"
  shows "\<exists>st. build_from_leads corpus = Inr (st, sim_registry rt)"
    and "snd ` set (sim_corpus rt) \<subseteq> set corpus"
  using assms index_corpus_leads [of "[]" corpus] by (fastforce simp: build_runtime_def sum_bind_Inr)+

lemma runtime_registry_quiet:
  "build_runtime fit_model corpus = Inr rt \<Longrightarrow> quiet_registry (sim_registry rt)"
  using runtime_parts(1) quiet_built_registry by (fastforce simp: build_from_leads_def sum_bind_Inr)

lemma source_registry_serves:
  assumes "build_runtime fit_model corpus = Inr rt"
    and src: "acquisition_source rt synth idn = Inr (lead, rg)" and "complete_lead lead"
  shows "registry_serves rg lead"
proof (cases "corpus_lead_for rt (li_email (ld_identity idn)) (li_domain (ld_identity idn))")
  case (Inr found)
  with src have eq: "found = lead" "rg = sim_registry rt" by (simp_all add: acquisition_source_def)
  with Inr have "(li_email (ld_identity idn), lead) \<in> set (sim_corpus rt)"
    by (auto simp: corpus_lead_for_def sum_bind_Inr split: option.splits if_splits dest: map_of_SomeD)
  with runtime_parts [OF assms(1)] assms(3) eq show ?thesis
    by (force intro: corpus_registry_serves)
next
  case (Inl e)
  with src obtain st where "build_from_leads [lead] = Inr (st, rg)"
    by (auto simp: acquisition_source_def Let_def sum_bind_Inr split: if_splits option.splits)
  with assms(3) show ?thesis by (auto intro: corpus_registry_serves)
qed

lemma simulated_job_runs:
  fixes d :: "'a simulation_db_scheme"
  assumes rt: "build_runtime fit_model corpus = Inr rt"
    and ctx: "cj_lead_id (jc_job ctx) = Some i" "jc_lead_status ctx = Some NEW" "jc_lead_version ctx = Some v"
    and at: "lead_at d i v NEW" and idn: "load_identity i d = Inr idn"
    and src: "acquisition_source rt synth idn = Inr (lead, rg)" and full: "complete_lead lead"
    and cfg: "resolve_scoring_config (li_organization_id (ld_identity idn)) (sd_profiles d) = Some cfg"
  shows "\<exists>d' final (out :: policy_outcome). simulated_job rt synth fresh ca ctx d = Inr (d', None)
    \<and> jobs d' = jobs d \<and> lead_at d' i (v + 5) final \<and> (\<forall>j. j \<noteq> i \<longrightarrow> leads d' j = leads d j)
    \<and> final = final_status (po_decision out) (po_autonomous out) (li_is_shadow (ld_identity idn)) True
    \<and> (final \<in> {AUTO_ROUTED, SYNCED} \<longrightarrow> tau (sim_model rt) \<le> po_confidence out)
    \<and> (final = AWAITING_HUMAN \<longrightarrow> (\<exists>r \<in> set (reviews d'). rv_lead_id r = i \<and> pending r))
    \<and> length (scores d') = Suc (length (scores d))
    \<and> (\<exists>row. receipts d' = receipts d @ [row] \<and> rc_lead_id row = i
        \<and> rc_decision row = decision_str (po_decision out)
        \<and> rc_icp_profile_version row = profile_version cfg)
    \<and> po_decision out = decide cfg (sr_total (po_scoring out))"
proof -
  let ?rc = "\<lparr>rc_registry = rg, rc_ledger = [], rc_cache = ca\<rparr>"
  have "registry_serves (rc_registry ?rc) lead"
    using source_registry_serves [OF rt src full] by simp
  from simulated_lead_decided [OF at this, of fresh "ld_identity idn" cfg "sim_model rt"]
  obtain d' final out where run: "compute_score_simulated fresh (ld_identity idn) lead cfg (sim_model rt)
      (Some i) (Some NEW) (Some v) ?rc d = Inr (d', final, out)"
    and eff: "lead_at d' i (v + 5) final" "\<forall>j. j \<noteq> i \<longrightarrow> leads d' j = leads d j"
      "final = final_status (po_decision out) (po_autonomous out) (li_is_shadow (ld_identity idn)) True"
      "final \<in> {AUTO_ROUTED, SYNCED} \<longrightarrow> tau (sim_model rt) \<le> po_confidence out"
      "final = AWAITING_HUMAN \<longrightarrow> (\<exists>r \<in> set (reviews d'). rv_lead_id r = i \<and> pending r)"
      "length (scores d') = Suc (length (scores d))"
      "\<exists>row. receipts d' = receipts d @ [row] \<and> rc_lead_id row = i
        \<and> rc_decision row = decision_str (po_decision out)
        \<and> rc_icp_profile_version row = profile_version cfg"
      "po_decision out = decide cfg (sr_total (po_scoring out))"
    by blast
  from run have "simulated_job rt synth fresh ca ctx d = Inr (d', None)"
    by (simp add: simulated_job_def ctx idn src cfg)
  with compute_score_jobs [OF run] eff show ?thesis
    by blast
qed


definition answered_lead :: eval_lead where
  "answered_lead = (demo_lead ''acme'')\<lparr>el_observations := map (\<lambda>spec. (ps_name spec,
     \<lparr>ob_provider = ps_name spec, ob_status = MISS, ob_fields = [], ob_latency = 0, ob_cost = 0\<rparr>)) CATALOG\<rparr>"

definition demo_runtime :: "error + simulated_runtime" where
  "demo_runtime = build_runtime (\<lambda>_. Inr demo_model) [answered_lead]"

definition worker_db :: simulation_db where
  "worker_db =
     \<lparr>clock = 100, leads = [7 \<mapsto> \<lparr>status = NEW, version = 1, organization_id = 3, updated_at = 0\<rparr>],
      lead_events = [], jobs = [leased_row\<lparr>jb_lead_id := Some 7\<rparr>], reviews = [], scores = [], receipts = [],
      sd_refs = [7 \<mapsto> \<lparr>lr_company_id = Some 2, lr_person_id = Some 1, lr_is_shadow = False\<rparr>],
      sd_identity = \<lparr>companies = [], persons = [\<lparr>pe_id = 1, pe_email = ''acme@x'', pe_full_name = None,
        pe_title = None, pe_company_id = None, pe_organization_id = 3\<rparr>]\<rparr>,
      sd_profiles = []\<rparr>"

definition worker_identity :: loaded_identity where
  "worker_identity = \<lparr>ld_identity = demo_identity, ld_full_name = None, ld_company_name = None\<rparr>"

lemma demo_runtime_built: "\<exists>rt. demo_runtime = Inr rt \<and> (\<exists>rg. acquisition_source rt (\<lambda>_ _ _ _. answered_lead)
    worker_identity = Inr (answered_lead, rg))"
proof -
  have "\<not> isl (build_from_leads [answered_lead])"
    by code_simp
  then obtain st rg where built: "build_from_leads [answered_lead] = Inr (st, rg)"
    by (cases "build_from_leads [answered_lead]") auto
  have norm: "normalize_email ''acme@x'' = Inr ''acme@x''" "normalize_domain ''acme.com'' = Inr ''acme.com''"
    by code_simp+
  have lead: "lp_email (el_person answered_lead) = ''acme@x''"
    "lc_canonical_domain (el_company answered_lead) = ''acme.com''" "el_split answered_lead = Calibration"
    by (simp_all add: answered_lead_def demo_lead_def)
  let ?rt = "\<lparr>sim_model = demo_model, sim_registry = rg, sim_corpus = [(''acme@x'', answered_lead)]\<rparr>"
  have "demo_runtime = Inr ?rt"
    by (simp add: demo_runtime_def build_runtime_def lead norm built)
  moreover have "corpus_lead_for ?rt ''acme@x'' None = Inr answered_lead"
    by (simp add: corpus_lead_for_def lead norm)
  then have "acquisition_source ?rt (\<lambda>_ _ _ _. answered_lead) worker_identity = Inr (answered_lead, rg)"
    by (simp add: acquisition_source_def worker_identity_def demo_identity_def)
  ultimately show ?thesis by blast
qed


end
