(* ===== verification/Canonical_Key.thy ===== *)
theory Canonical_Key
  imports Identity
begin

text \<open>
  The text machinery of \<open>arie.normalization.taxonomy\<close>: the comparison form of a provider's
  string, the compilation of a rule phrase to a whole-word matcher, and the ordered search of
  a rule table. The regular expressions are written out as the scans they stand for. A
  canonical key is a sequence of words of lower-case letters and digits, one blank apart, and
  on such keys the matcher is a comparison of whole words.
\<close>

subsection \<open>The comparison form\<close>

definition key_char :: "char \<Rightarrow> bool" where
  "key_char c \<longleftrightarrow> is_az c \<or> is_digit c"

text \<open>\<open>[/,;|+()\[\]{}\<close>, the middle dot and the bullet\<open>]+\<close>; the bullet is above 255.\<close>

definition is_separator :: "char \<Rightarrow> bool" where
  "is_separator c \<longleftrightarrow>
     c \<in> {CHR ''/'', CHR '','', CHR '';'', CHR ''|'', CHR ''+'', CHR ''('', CHR '')'',
          CHR ''['', CHR '']'', CHR 0x7B, CHR 0x7D, CHR 0xB7}"

text \<open>\<open>[^a-z0-9\s]+\<close>\<close>

definition is_non_token :: "char \<Rightarrow> bool" where
  "is_non_token c \<longleftrightarrow> \<not> (key_char c \<or> is_space c)"

text \<open>\<open>re.compile("P+").sub(" ", s)\<close> for a character class \<open>P\<close>: every maximal run becomes one
  blank.\<close>

function blank_runs :: "(char \<Rightarrow> bool) \<Rightarrow> string \<Rightarrow> string" where
  "blank_runs P [] = []"
| "blank_runs P (c # cs) = (if P c then CHR '' '' # blank_runs P (dropWhile P cs) else c # blank_runs P cs)"
  by pat_completeness auto
termination
  by (relation "measure (\<lambda>(P, s). length s)") (auto simp: le_imp_less_Suc length_dropWhile_le)

definition expand_ampersands :: "string \<Rightarrow> string" where
  "expand_ampersands s = concat (map (\<lambda>c. if c = CHR ''&'' then '' and '' else [c]) s)"

definition fold_key :: "string \<Rightarrow> string" where
  "fold_key raw =
     (let s = py_lower (py_strip raw)
      in if s = [] then []
         else py_strip (blank_runs is_space (blank_runs is_non_token
                (blank_runs is_separator (expand_ampersands s)))))"

definition canonical_key :: "pyval \<Rightarrow> string" where
  "canonical_key raw = (if raw = VNone then [] else fold_key (py_str raw))"

subsection \<open>Rule phrases\<close>

text \<open>
  A compiled phrase: its words, and whether the last one is a stem. The pattern is
  \<open>(?<![a-z0-9])w1\s+...\s+wn[a-z]*(?![a-z0-9])\<close>, the \<open>[a-z]*\<close> for a stem only. A word holds
  no white space, so the runs of \<open>\s+\<close> and \<open>[a-z]*\<close> are maximal in any match.
\<close>

type_synonym phrase = "string list \<times> bool"

definition phrase_pattern :: "string \<Rightarrow> phrase" where
  "phrase_pattern s =
     (let stem = (s \<noteq> [] \<and> last s = CHR ''*'')
      in (words_of (if stem then butlast s else s), stem))"

fun match_word :: "string \<Rightarrow> string \<Rightarrow> string option" where
  "match_word [] s = Some s"
| "match_word (p # ps) [] = None"
| "match_word (p # ps) (c # cs) = (if p = c then match_word ps cs else None)"

fun match_blank :: "string \<Rightarrow> string option" where
  "match_blank [] = None"
| "match_blank (c # cs) = (if is_space c then Some (dropWhile is_space cs) else None)"

fun match_words :: "string list \<Rightarrow> string \<Rightarrow> string option" where
  "match_words [] s = Some s"
| "match_words [w] s = match_word w s"
| "match_words (w # v # ws) s =
     (case match_word w s of
        None \<Rightarrow> None
      | Some r \<Rightarrow> (case match_blank r of None \<Rightarrow> None | Some t \<Rightarrow> match_words (v # ws) t))"

fun at_boundary :: "string \<Rightarrow> bool" where
  "at_boundary [] = True"
| "at_boundary (c # cs) = (\<not> key_char c)"

definition phrase_at :: "phrase \<Rightarrow> string \<Rightarrow> bool" where
  "phrase_at p s =
     (case match_words (fst p) s of
        None \<Rightarrow> False
      | Some r \<Rightarrow> at_boundary (if snd p then dropWhile is_az r else r))"

text \<open>\<open>pattern.search(key)\<close>; the flag says whether the character before is one of a word.\<close>

fun search_from :: "phrase \<Rightarrow> bool \<Rightarrow> string \<Rightarrow> bool" where
  "search_from p prev [] = (\<not> prev \<and> phrase_at p [])"
| "search_from p prev (c # cs) =
     ((\<not> prev \<and> phrase_at p (c # cs)) \<or> search_from p (key_char c) cs)"

definition phrase_search :: "phrase \<Rightarrow> string \<Rightarrow> bool" where
  "phrase_search p s = search_from p False s"

type_synonym 'a rules = "('a list \<times> string) list"

definition compile_rules :: "string rules \<Rightarrow> phrase rules" where
  "compile_rules rs = map (\<lambda>(phrases, canonical). (map phrase_pattern phrases, canonical)) rs"

fun first_match :: "string \<Rightarrow> phrase rules \<Rightarrow> string option" where
  "first_match key [] = None"
| "first_match key ((patterns, canonical) # rs) =
     (if list_ex (\<lambda>p. phrase_search p key) patterns then Some canonical else first_match key rs)"

lemma first_match_in: "first_match key rs = Some v \<Longrightarrow> v \<in> snd ` set rs"
  by (induction rs) (auto split: if_splits)

subsection \<open>Keys are words one blank apart\<close>

definition key_word :: "string \<Rightarrow> bool" where
  "key_word w \<longleftrightarrow> w \<noteq> [] \<and> list_all key_char w"

lemma key_char_not_space [simp]: "key_char c \<Longrightarrow> \<not> is_space c"
  by (auto simp: key_char_def is_space_def is_az_def is_digit_def)

lemma blank_is_space [simp]: "is_space (CHR '' '')" "\<not> key_char (CHR '' '')"
  by code_simp+

lemma words_of_step:
  assumes "list_all is_space a" and "w \<noteq> []" and "\<forall>c \<in> set w. \<not> is_space c"
    and "r = [] \<or> is_space (hd r)"
  shows "words_of (a @ w @ r) = w # words_of r"
proof -
  obtain c cs where w: "w = c # cs" using assms(2) by (cases w) auto
  have "py_lstrip (a @ w @ r) = w @ r"
    using assms(1,3) w by (simp add: py_lstrip_def list_all_iff dropWhile_append2)
  moreover have "takeWhile (\<lambda>x. \<not> is_space x) (w @ r) = w"
    using assms(3,4) by (cases r) (auto simp: takeWhile_append2)
  moreover have "dropWhile (\<lambda>x. \<not> is_space x) (w @ r) = r"
    using assms(3,4) by (cases r) (auto simp: dropWhile_append2)
  ultimately show ?thesis by (subst words_of.simps) (simp add: w)
qed

lemma words_of_blank: "list_all is_space a \<Longrightarrow> words_of a = []"
proof -
  assume "list_all is_space a"
  then have "py_lstrip a = []" by (simp add: py_lstrip_def list_all_iff dropWhile_eq_Nil_conv)
  then show "words_of a = []" by (subst words_of.simps) simp
qed

text \<open>A string is blanks, or a leading blank part, a word and the rest.\<close>

lemma words_of_cases:
  obtains (blank) "list_all is_space s"
  | (word) a w r where "s = a @ w @ r" "list_all is_space a" "w \<noteq> []"
      "\<forall>c \<in> set w. \<not> is_space c" "r = [] \<or> is_space (hd r)"
proof (cases "dropWhile is_space s")
  case Nil
  then show ?thesis by (intro blank) (simp add: list_all_iff dropWhile_eq_Nil_conv)
next
  case (Cons c cs)
  let ?t = "c # cs"
  have c: "\<not> is_space c" using Cons by (metis dropWhile_eq_Cons_conv)
  show ?thesis
  proof (rule word)
    show "s = takeWhile is_space s @ takeWhile (\<lambda>x. \<not> is_space x) ?t
              @ dropWhile (\<lambda>x. \<not> is_space x) ?t"
      by (metis Cons takeWhile_dropWhile_id)
    show "list_all is_space (takeWhile is_space s)" by (auto simp: list_all_iff dest: set_takeWhileD)
    show "takeWhile (\<lambda>x. \<not> is_space x) ?t \<noteq> []" using c by simp
    show "\<forall>c \<in> set (takeWhile (\<lambda>x. \<not> is_space x) ?t). \<not> is_space c"
      by (auto dest: set_takeWhileD)
    show "dropWhile (\<lambda>x. \<not> is_space x) ?t = [] \<or> is_space (hd (dropWhile (\<lambda>x. \<not> is_space x) ?t))"
      using hd_dropWhile [of "\<lambda>x. \<not> is_space x" ?t] by blast
  qed
qed

lemma words_of_words: "w \<in> set (words_of s) \<Longrightarrow> w \<noteq> [] \<and> (\<forall>c \<in> set w. c \<in> set s \<and> \<not> is_space c)"
proof (induction "length s" arbitrary: s rule: less_induct)
  case less
  show ?case
  proof (cases rule: words_of_cases [of s])
    case blank
    then show ?thesis using less.prems by (simp add: words_of_blank)
  next
    case (word a u r)
    have "w = u \<or> w \<in> set (words_of r)"
      using less.prems word by (simp add: words_of_step)
    moreover have "length r < length s" using word by (simp add: word)
    ultimately show ?thesis using less.hyps [of r] word by auto
  qed
qed


lemma words_of_Nil_iff: "words_of s = [] \<longleftrightarrow> list_all is_space s"
proof (cases rule: words_of_cases [of s])
  case blank
  then show ?thesis by (simp add: words_of_blank)
next
  case (word a w r)
  then have "hd w \<in> set s" "\<not> is_space (hd w)" by auto
  then have "\<not> list_all is_space s" unfolding list_all_iff by blast
  with word show ?thesis by (simp add: words_of_step)
qed

lemma join_words_Cons: "ws \<noteq> [] \<Longrightarrow> join_words (w # ws) = w @ '' '' @ join_words ws"
  by (cases ws) auto

lemma join_words_ends:
  assumes "ws \<noteq> []" and "\<forall>w \<in> set ws. w \<noteq> []"
  shows "join_words ws \<noteq> [] \<and> hd (join_words ws) = hd (hd ws) \<and> last (join_words ws) = last (last ws)"
  using assms
proof (induction ws)
  case (Cons w ws)
  then show ?case by (cases ws) (auto simp: join_words_Cons)
qed simp

lemma words_of_join:
  assumes "\<forall>w \<in> set ws. w \<noteq> [] \<and> (\<forall>c \<in> set w. \<not> is_space c)"
  shows "words_of (join_words ws) = ws"
  using assms
proof (induction ws)
  case Nil
  then show ?case by (simp add: words_of_blank)
next
  case (Cons w ws)
  show ?case
  proof (cases ws)
    case Nil
    then show ?thesis using Cons.prems words_of_step [of "[]" w "[]"] by (simp add: words_of_blank)
  next
    case (Cons v vs)
    have "words_of (join_words (w # ws)) = w # words_of ('' '' @ join_words ws)"
      using Cons Cons.prems words_of_step [of "[]" w "'' '' @ join_words ws"] by (simp add: join_words_Cons)
    also have "words_of ('' '' @ join_words ws) = words_of (join_words ws)"
      by (subst (1 2) words_of.simps) (simp add: py_lstrip_def)
    finally show ?thesis using Cons.IH Cons.prems by simp
  qed
qed

lemma blank_runs_word: "\<forall>c \<in> set w. \<not> P c \<Longrightarrow> blank_runs P (w @ r) = w @ blank_runs P r"
  by (induction w) auto

lemma blank_runs_keep: "\<forall>c \<in> set s. \<not> P c \<Longrightarrow> blank_runs P s = s"
  using blank_runs_word [of s P "[]"] by simp

lemma blank_runs_run:
  "list_all P a \<Longrightarrow> a \<noteq> [] \<Longrightarrow> r = [] \<or> \<not> P (hd r) \<Longrightarrow> blank_runs P (a @ r) = CHR '' '' # blank_runs P r"
proof -
  assume a: "list_all P a" "a \<noteq> []" and r: "r = [] \<or> \<not> P (hd r)"
  from a obtain c cs where c: "a = c # cs" "P c" "list_all P cs" by (cases a) auto
  have "dropWhile P (cs @ r) = r"
    using c(3) r by (cases r) (auto simp: list_all_iff dropWhile_append2 dropWhile_eq_Nil_conv)
  then show ?thesis using c by simp
qed

lemma blank_runs_chars: "c \<in> set (blank_runs P s) \<Longrightarrow> c = CHR '' '' \<or> (c \<in> set s \<and> \<not> P c)"
  by (induction P s rule: blank_runs.induct) (auto split: if_splits dest: set_dropWhileD)

lemma blank_runs_words:
  "blank_runs is_space s =
     (if words_of s = [] then (if s = [] then [] else '' '')
      else (if is_space (hd s) then '' '' else []) @ join_words (words_of s)
           @ (if is_space (last s) then '' '' else []))"
proof (induction "length s" arbitrary: s rule: less_induct)
  case less
  show ?case
  proof (cases rule: words_of_cases [of s])
    case blank
    then show ?thesis using blank_runs_run [of is_space s "[]"] by (auto simp: words_of_blank)
  next
    case (word a w r)
    have IH: "blank_runs is_space r = (if words_of r = [] then (if r = [] then [] else '' '')
      else (if is_space (hd r) then '' '' else []) @ join_words (words_of r)
           @ (if is_space (last r) then '' '' else []))"
      using word by (intro less) simp
    have w: "\<not> is_space (hd w)" "\<not> is_space (last w)" using word by auto
    have hd_s: "is_space (hd s) \<longleftrightarrow> a \<noteq> []"
      using word(2,3) w unfolding word(1) by (cases a) auto
    have last_s: "is_space (last s) \<longleftrightarrow> (r \<noteq> [] \<and> is_space (last r))"
      using word(3) w unfolding word(1) by (cases "r = []") auto
    have "blank_runs is_space s = (if a = [] then [] else '' '') @ w @ blank_runs is_space r"
      using word blank_runs_run [of is_space a "w @ r"] w by (auto simp: blank_runs_word)
    moreover have "words_of r = [] \<Longrightarrow> r \<noteq> [] \<Longrightarrow> is_space (last r)"
      by (auto simp: words_of_Nil_iff list_all_iff)
    moreover have "words_of r \<noteq> [] \<Longrightarrow> r \<noteq> [] \<and> is_space (hd r)"
      using word(5) by (auto simp: words_of_blank)
    ultimately show ?thesis
      using IH words_of_step [OF word(2-5)] hd_s last_s
      by (auto simp: word(1) join_words_Cons)
  qed
qed

lemma py_strip_middle:
  assumes "list_all is_space a" "list_all is_space b" "x \<noteq> []" "\<not> is_space (hd x)" "\<not> is_space (last x)"
  shows "py_strip (a @ x @ b) = x"
proof -
  have front: "dropWhile is_space (a @ x @ b) = x @ b"
    using assms by (cases x) (auto simp: list_all_iff dropWhile_append2)
  have "dropWhile is_space (rev b @ rev x) = dropWhile is_space (rev x)"
    using assms(2) by (intro dropWhile_append2) (simp add: list_all_iff)
  also have "dropWhile is_space (rev x) = rev x"
    using assms(3,5) by (cases x rule: rev_cases) auto
  finally have "dropWhile is_space (rev b @ rev x) = rev x" .
  then show ?thesis by (simp add: py_strip_def front)
qed

lemma strip_blank_runs: "py_strip (blank_runs is_space s) = join_words (words_of s)"
proof (cases "words_of s = []")
  case True
  then show ?thesis by (auto simp: blank_runs_words py_strip_def)
next
  case False
  have w: "\<forall>w \<in> set (words_of s). w \<noteq> [] \<and> (\<forall>c \<in> set w. \<not> is_space c)"
    using words_of_words by blast
  have "hd (words_of s) \<in> set (words_of s)" "last (words_of s) \<in> set (words_of s)" using False by auto
  with w have "\<not> is_space (hd (hd (words_of s)))" "\<not> is_space (last (last (words_of s)))" by auto
  then have "py_strip (a @ join_words (words_of s) @ b) = join_words (words_of s)"
    if "list_all is_space a" "list_all is_space b" for a b
    using that join_words_ends [of "words_of s"] False w py_strip_middle by metis
  from this [of "if is_space (hd s) then '' '' else []" "if is_space (last s) then '' '' else []"] False
  show ?thesis by (simp add: blank_runs_words)
qed

text \<open>A comparison form: words of \<open>[a-z0-9]\<close>, one blank apart.\<close>

definition is_key :: "string \<Rightarrow> bool" where
  "is_key s \<longleftrightarrow> list_all key_word (words_of s) \<and> join_words (words_of s) = s"

lemma key_words_plain: "list_all key_word ws \<Longrightarrow> w \<in> set ws \<Longrightarrow> w \<noteq> [] \<and> (\<forall>c \<in> set w. \<not> is_space c)"
  by (auto simp: list_all_iff key_word_def)

lemma is_key_join: "list_all key_word ws \<Longrightarrow> is_key (join_words ws)"
  using words_of_join [of ws] key_words_plain by (simp add: is_key_def)

lemma fold_key_is_key: "is_key (fold_key raw)"
proof (cases "py_lower (py_strip raw) = []")
  case True
  then show ?thesis using is_key_join [of "[]"] by (simp add: fold_key_def)
next
  case False
  let ?t = "blank_runs is_non_token (blank_runs is_separator (expand_ampersands (py_lower (py_strip raw))))"
  have "fold_key raw = join_words (words_of ?t)"
    using False by (simp add: fold_key_def strip_blank_runs)
  moreover have "key_word w" if w: "w \<in> set (words_of ?t)" for w
  proof -
    have "key_char c" if c: "c \<in> set w" for c
    proof -
      have "c \<in> set ?t" "\<not> is_space c" using words_of_words [OF w] c by auto
      then have "\<not> is_non_token c" using blank_runs_chars [of c is_non_token] by fastforce
      with \<open>\<not> is_space c\<close> show ?thesis by (simp add: is_non_token_def)
    qed
    then show ?thesis using words_of_words [OF w] by (simp add: key_word_def list_all_iff)
  qed
  ultimately show ?thesis using is_key_join [of "words_of ?t"] by (auto simp: list_all_iff)
qed

lemma join_words_chars: "c \<in> set (join_words ws) \<Longrightarrow> c = CHR '' '' \<or> (\<exists>w \<in> set ws. c \<in> set w)"
  by (induction ws rule: join_words.induct) auto

lemma is_key_chars: "is_key s \<Longrightarrow> c \<in> set s \<Longrightarrow> c = CHR '' '' \<or> key_char c"
  using join_words_chars [of c "words_of s"] by (auto simp: is_key_def list_all_iff key_word_def)

lemma separators_no_key_char: "is_separator c \<Longrightarrow> \<not> key_char c"
proof -
  have "list_all (\<lambda>c. \<not> key_char c) [CHR ''/'', CHR '','', CHR '';'', CHR ''|'', CHR ''+'',
      CHR ''('', CHR '')'', CHR ''['', CHR '']'', CHR 0x7B, CHR 0x7D, CHR 0xB7]"
    by code_simp
  then show "is_separator c \<Longrightarrow> \<not> key_char c" by (auto simp only: is_separator_def list.pred_inject insert_iff empty_iff)
qed

lemma blank_kept: "lower_char (CHR '' '') = CHR '' ''" "\<not> is_separator (CHR '' '')"
  by code_simp+

lemma key_char_kept:
  assumes "c = CHR '' '' \<or> key_char c"
  shows "lower_char c = c" "c \<noteq> CHR ''&''" "\<not> is_separator c" "\<not> is_non_token c"
proof -
  have amp: "\<not> key_char (CHR ''&'')" by code_simp
  have "key_char c \<Longrightarrow> lower_char c = c"
    by (auto simp: lower_char_def key_char_def is_az_def is_digit_def)
  with assms blank_kept show "lower_char c = c" by metis
  show "c \<noteq> CHR ''&''" using assms amp by auto
  show "\<not> is_separator c" using assms blank_kept separators_no_key_char by metis
  show "\<not> is_non_token c" using assms blank_is_space by (metis is_non_token_def)
qed

lemma strip_key: "is_key s \<Longrightarrow> py_strip s = s \<and> blank_runs is_space s = s"
proof (cases "words_of s = []")
  case True
  assume "is_key s"
  with True have "s = []" by (simp add: is_key_def)
  then show ?thesis by (simp add: py_strip_def)
next
  case False
  assume k: "is_key s"
  then have "list_all key_word (words_of s)" and s: "join_words (words_of s) = s" by (auto simp: is_key_def)
  then have w: "\<forall>w \<in> set (words_of s). w \<noteq> [] \<and> (\<forall>c \<in> set w. \<not> is_space c)"
    using key_words_plain by blast
  have "hd (words_of s) \<in> set (words_of s)" "last (words_of s) \<in> set (words_of s)" using False by auto
  with w have e: "\<not> is_space (hd (hd (words_of s)))" "\<not> is_space (last (last (words_of s)))" by auto
  have "join_words (words_of s) \<noteq> [] \<and> hd (join_words (words_of s)) = hd (hd (words_of s))
      \<and> last (join_words (words_of s)) = last (last (words_of s))"
    using join_words_ends [of "words_of s"] False w by blast
  with e s have "s \<noteq> []" "\<not> is_space (hd s)" "\<not> is_space (last s)" by simp_all
  then show ?thesis using False s py_strip_middle [of "[]" "[]" s] by (simp add: blank_runs_words)
qed

lemma fold_key_fixes:
  assumes k: "is_key s"
  shows "fold_key s = s"
proof -
  have keep: "lower_char c = c" "c \<noteq> CHR ''&''" "\<not> is_separator c" "\<not> is_non_token c" if "c \<in> set s" for c
    using key_char_kept [OF is_key_chars [OF k that]] by simp_all
  have low: "py_lower s = s" using keep(1) by (simp add: py_lower_def map_idI)
  have amp: "expand_ampersands s = s"
    using keep(2) by (induction s) (auto simp: expand_ampersands_def)
  show ?thesis
    using strip_key [OF k] low amp keep(3,4) by (simp add: fold_key_def blank_runs_keep)
qed


subsection \<open>Whole-word matching\<close>

text \<open>What a phrase promises on the words of a key: the words of the phrase occur next to each
  other, the last one followed by letters only when it is a stem.\<close>

definition stem_of :: "string \<Rightarrow> string \<Rightarrow> bool" where
  "stem_of p w \<longleftrightarrow> starts_with w p \<and> list_all is_az (drop (length p) w)"

fun words_start :: "string list \<Rightarrow> bool \<Rightarrow> string list \<Rightarrow> bool" where
  "words_start [] stem ws = True"
| "words_start (p # ps) stem [] = False"
| "words_start [p] stem (w # ws) = (if stem then stem_of p w else w = p)"
| "words_start (p # q # ps) stem (w # ws) = (w = p \<and> words_start (q # ps) stem ws)"

fun words_occur :: "phrase \<Rightarrow> string list \<Rightarrow> bool" where
  "words_occur p [] = False"
| "words_occur p (w # ws) = (words_start (fst p) (snd p) (w # ws) \<or> words_occur p ws)"

lemma match_word_Some: "match_word p s = Some r \<longleftrightarrow> s = p @ r"
  by (induction p s rule: match_word.induct) auto

lemma match_word_append: "match_word p (p @ r) = Some r"
  by (simp add: match_word_Some)

text \<open>What follows a word in a key.\<close>

definition word_end :: "string \<Rightarrow> bool" where
  "word_end r \<longleftrightarrow> (case r of [] \<Rightarrow> True | c # _ \<Rightarrow> c = CHR '' '')"

lemma join_words_split:
  obtains r where "join_words (w # ws) = w @ r" "word_end r" "ws = [] \<Longrightarrow> r = []"
    "ws \<noteq> [] \<Longrightarrow> r = '' '' @ join_words ws"
  by (cases ws) (auto simp: word_end_def)

lemma key_word_prefix:
  assumes "key_word p" and "key_word w" and "word_end r"
  shows "match_word p (w @ r) = (if starts_with w p then Some (drop (length p) w @ r) else None)"
proof -
  have "\<exists>x. w = p @ x \<and> t = x @ r" if e: "w @ r = p @ t" for t
  proof -
    from e obtain u where "w @ u = p \<and> r = u @ t \<or> w = p @ u \<and> u @ r = t"
      by (auto simp: append_eq_append_conv2)
    then show ?thesis
    proof
      assume u: "w @ u = p \<and> r = u @ t"
      then have "u = []"
        using assms(1,3) by (cases u) (auto simp: key_word_def word_end_def)
      with u show ?thesis by auto
    qed auto
  qed
  then show ?thesis
    by (cases "match_word p (w @ r)") (auto simp: match_word_Some match_word_append starts_with_iff)
qed

lemma boundary_after:
  assumes "list_all key_char x" and "word_end r"
  shows "at_boundary (x @ r) \<longleftrightarrow> x = []" and "at_boundary (dropWhile is_az (x @ r)) \<longleftrightarrow> list_all is_az x"
proof -
  have r: "at_boundary r" "dropWhile is_az r = r"
    using assms(2) blank_is_space by (cases r; auto simp: word_end_def key_char_def)+
  show "at_boundary (x @ r) \<longleftrightarrow> x = []" using assms(1) r by (cases x) auto
  show "at_boundary (dropWhile is_az (x @ r)) \<longleftrightarrow> list_all is_az x"
    using assms(1) r by (induction x) auto
qed

lemma key_word_drop: "key_word w \<Longrightarrow> list_all key_char (drop n w)"
  by (auto simp: key_word_def list_all_iff dest: in_set_dropD)

lemma starts_with_drop: "starts_with w p \<Longrightarrow> drop (length p) w = [] \<longleftrightarrow> w = p"
  by (auto simp: starts_with_iff)

lemma phrase_at_words:
  assumes "ps \<noteq> []" and "list_all key_word ps" and "list_all key_word ws"
  shows "phrase_at (ps, stem) (join_words ws) \<longleftrightarrow> words_start ps stem ws"
  using assms
proof (induction ps stem ws rule: words_start.induct)
  case (2 p ps stem)
  then show ?case by (cases p; cases ps) (auto simp: phrase_at_def key_word_def)
next
  case (3 p stem w ws)
  obtain r where j: "join_words (w # ws) = w @ r" "word_end r" by (rule join_words_split [of w ws])
  have m: "match_word p (w @ r) = (if starts_with w p then Some (drop (length p) w @ r) else None)"
    using "3.prems" j by (intro key_word_prefix) auto
  have k: "list_all key_char (drop (length p) w)" using "3.prems" by (simp add: key_word_drop)
  show ?case
    using boundary_after [OF k j(2)] starts_with_drop [of w p]
    by (auto simp: phrase_at_def m j(1) stem_of_def starts_with_iff)
next
  case (4 p q ps stem w ws)
  obtain r where j: "join_words (w # ws) = w @ r" "word_end r" "ws = [] \<Longrightarrow> r = []"
    "ws \<noteq> [] \<Longrightarrow> r = '' '' @ join_words ws" using join_words_split [of w ws] by blast
  have m: "match_word p (w @ r) = (if starts_with w p then Some (drop (length p) w @ r) else None)"
    using "4.prems" j by (intro key_word_prefix) auto
  have k: "list_all key_char (drop (length p) w)" using "4.prems" by (simp add: key_word_drop)
  have b: "match_blank (drop (length p) w @ r) =
      (if drop (length p) w = [] \<and> ws \<noteq> [] then Some (join_words ws) else None)"
  proof (cases "drop (length p) w")
    case (Cons c cs)
    then show ?thesis using k by simp
  next
    case Nil
    have "dropWhile is_space (join_words ws) = join_words ws" if n: "ws \<noteq> []"
    proof -
      obtain c cs vs where ws: "ws = (c # cs) # vs" and c: "key_char c"
        using n "4.prems"(3) by (cases ws; cases "hd ws") (auto simp: key_word_def)
      then show ?thesis by (cases vs) simp_all
    qed
    then show ?thesis using Nil j by (cases "ws = []") simp_all
  qed
  have IH: "w = p \<Longrightarrow> phrase_at (q # ps, stem) (join_words ws) = words_start (q # ps) stem ws"
    using "4.IH" "4.prems" by simp
  show ?case
  proof (cases "w = p")
    case True
    have sw: "starts_with p p" by (simp add: starts_with_iff)
    show ?thesis
    proof -
      have "phrase_at (p # q # ps, stem) (w @ r) \<longleftrightarrow> ws \<noteq> [] \<and> phrase_at (q # ps, stem) (join_words ws)"
        using m b True sw by (auto simp: phrase_at_def split: option.split)
      moreover have "words_start (p # q # ps) stem (w # ws) \<longleftrightarrow> ws \<noteq> [] \<and> words_start (q # ps) stem ws"
        using True by (cases ws) auto
      ultimately show ?thesis using IH [OF True] unfolding j(1) by blast
    qed
  next
    case False
    then show ?thesis
      using m b starts_with_drop [of w p] by (auto simp: phrase_at_def j(1))
  qed
qed simp

lemma search_word:
  "list_all key_char w \<Longrightarrow> w \<noteq> [] \<Longrightarrow>
     search_from p prev (w @ r) \<longleftrightarrow> (\<not> prev \<and> phrase_at p (w @ r)) \<or> search_from p True r"
proof (induction w arbitrary: prev)
  case (Cons c w)
  then show ?case by (cases w) auto
qed simp

lemma phrase_search_words:
  assumes "ps \<noteq> []" and "list_all key_word ps" and "list_all key_word ws"
  shows "phrase_search (ps, stem) (join_words ws) \<longleftrightarrow> words_occur (ps, stem) ws"
  using assms(3)
proof (induction ws)
  case Nil
  then show ?case
    using phrase_at_words [OF assms(1,2), of "[]" stem] assms(1)
    by (cases ps) (simp_all add: phrase_search_def)
next
  case (Cons w ws)
  obtain r where j: "join_words (w # ws) = w @ r" "word_end r" "ws = [] \<Longrightarrow> r = []"
    "ws \<noteq> [] \<Longrightarrow> r = '' '' @ join_words ws" using join_words_split [of w ws] by blast
  have "search_from (ps, stem) True r \<longleftrightarrow> words_occur (ps, stem) ws"
    using Cons j by (cases "ws = []") (simp_all add: phrase_search_def)
  then show ?case
    using phrase_at_words [OF assms(1,2) Cons.prems, of stem] search_word [of w "(ps, stem)" False r] Cons.prems
    by (simp add: phrase_search_def j(1) key_word_def)
qed

lemma phrase_search_key:
  assumes "fst p \<noteq> []" and "list_all key_word (fst p)" and "is_key s"
  shows "phrase_search p s \<longleftrightarrow> words_occur p (words_of s)"
  using phrase_search_words [OF assms(1,2), of "words_of s" "snd p"] assms(3) by (simp add: is_key_def)


text \<open>The rule search over the words of a key.\<close>

definition plain_phrase :: "phrase \<Rightarrow> bool" where
  "plain_phrase p \<longleftrightarrow> fst p \<noteq> [] \<and> list_all key_word (fst p)"

definition plain_rules :: "phrase rules \<Rightarrow> bool" where
  "plain_rules rs \<longleftrightarrow> list_all (\<lambda>(ps, c). list_all plain_phrase ps) rs"

fun first_match_words :: "string list \<Rightarrow> phrase rules \<Rightarrow> string option" where
  "first_match_words ws [] = None"
| "first_match_words ws ((ps, c) # rs) =
     (if list_ex (\<lambda>p. words_occur p ws) ps then Some c else first_match_words ws rs)"

lemma first_match_by_words:
  assumes "plain_rules rs" and "is_key k"
  shows "first_match k rs = first_match_words (words_of k) rs"
  using assms(1)
proof (induction rs)
  case (Cons r rs)
  obtain ps c where r: "r = (ps, c)" by fastforce
  have "phrase_search p k = words_occur p (words_of k)" if "p \<in> set ps" for p
    using Cons.prems that assms(2)
    by (intro phrase_search_key) (auto simp: r plain_rules_def plain_phrase_def list_all_iff)
  then have "list_ex (\<lambda>p. phrase_search p k) ps = list_ex (\<lambda>p. words_occur p (words_of k)) ps"
    by (simp add: list_ex_iff)
  with Cons show ?case by (simp add: r plain_rules_def)
qed simp

subsection \<open>Evaluating on literal strings\<close>

text \<open>The character classes at the letters, digits and marks that keys and tables are made of,
  as rewrite rules; with them the scans run on a literal string by simplification.\<close>

lemma key_letters [simp]:
  "key_char (CHR ''a'') \<and> key_char (CHR ''b'') \<and> key_char (CHR ''c'') \<and>
   key_char (CHR ''d'') \<and> key_char (CHR ''e'') \<and> key_char (CHR ''f'') \<and>
   key_char (CHR ''g'') \<and> key_char (CHR ''h'') \<and> key_char (CHR ''i'') \<and>
   key_char (CHR ''j'') \<and> key_char (CHR ''k'') \<and> key_char (CHR ''l'') \<and>
   key_char (CHR ''m'') \<and> key_char (CHR ''n'') \<and> key_char (CHR ''o'') \<and>
   key_char (CHR ''p'') \<and> key_char (CHR ''q'') \<and> key_char (CHR ''r'') \<and>
   key_char (CHR ''s'') \<and> key_char (CHR ''t'') \<and> key_char (CHR ''u'') \<and>
   key_char (CHR ''v'') \<and> key_char (CHR ''w'') \<and> key_char (CHR ''x'') \<and>
   key_char (CHR ''y'') \<and> key_char (CHR ''z'') \<and> key_char (CHR ''0'') \<and>
   key_char (CHR ''1'') \<and> key_char (CHR ''2'') \<and> key_char (CHR ''3'') \<and>
   key_char (CHR ''4'') \<and> key_char (CHR ''5'') \<and> key_char (CHR ''6'') \<and>
   key_char (CHR ''7'') \<and> key_char (CHR ''8'') \<and> key_char (CHR ''9'')"
  by (simp_all add: key_char_def is_az_def is_digit_def code_def)

lemma lower_capitals [simp]:
  "lower_char (CHR ''A'') = CHR ''a'' \<and> lower_char (CHR ''B'') = CHR ''b'' \<and>
   lower_char (CHR ''C'') = CHR ''c'' \<and> lower_char (CHR ''D'') = CHR ''d'' \<and>
   lower_char (CHR ''E'') = CHR ''e'' \<and> lower_char (CHR ''F'') = CHR ''f'' \<and>
   lower_char (CHR ''G'') = CHR ''g'' \<and> lower_char (CHR ''H'') = CHR ''h'' \<and>
   lower_char (CHR ''I'') = CHR ''i'' \<and> lower_char (CHR ''J'') = CHR ''j'' \<and>
   lower_char (CHR ''K'') = CHR ''k'' \<and> lower_char (CHR ''L'') = CHR ''l'' \<and>
   lower_char (CHR ''M'') = CHR ''m'' \<and> lower_char (CHR ''N'') = CHR ''n'' \<and>
   lower_char (CHR ''O'') = CHR ''o'' \<and> lower_char (CHR ''P'') = CHR ''p'' \<and>
   lower_char (CHR ''Q'') = CHR ''q'' \<and> lower_char (CHR ''R'') = CHR ''r'' \<and>
   lower_char (CHR ''S'') = CHR ''s'' \<and> lower_char (CHR ''T'') = CHR ''t'' \<and>
   lower_char (CHR ''U'') = CHR ''u'' \<and> lower_char (CHR ''V'') = CHR ''v'' \<and>
   lower_char (CHR ''W'') = CHR ''w'' \<and> lower_char (CHR ''X'') = CHR ''x'' \<and>
   lower_char (CHR ''Y'') = CHR ''y'' \<and> lower_char (CHR ''Z'') = CHR ''z''"
  by (simp_all add: lower_char_def code_def char_of_eq_iff)

lemma capitals_not_space [simp]:
  "\<not> is_space (CHR ''A'') \<and> \<not> is_space (CHR ''B'') \<and>
   \<not> is_space (CHR ''C'') \<and> \<not> is_space (CHR ''D'') \<and>
   \<not> is_space (CHR ''E'') \<and> \<not> is_space (CHR ''F'') \<and>
   \<not> is_space (CHR ''G'') \<and> \<not> is_space (CHR ''H'') \<and>
   \<not> is_space (CHR ''I'') \<and> \<not> is_space (CHR ''J'') \<and>
   \<not> is_space (CHR ''K'') \<and> \<not> is_space (CHR ''L'') \<and>
   \<not> is_space (CHR ''M'') \<and> \<not> is_space (CHR ''N'') \<and>
   \<not> is_space (CHR ''O'') \<and> \<not> is_space (CHR ''P'') \<and>
   \<not> is_space (CHR ''Q'') \<and> \<not> is_space (CHR ''R'') \<and>
   \<not> is_space (CHR ''S'') \<and> \<not> is_space (CHR ''T'') \<and>
   \<not> is_space (CHR ''U'') \<and> \<not> is_space (CHR ''V'') \<and>
   \<not> is_space (CHR ''W'') \<and> \<not> is_space (CHR ''X'') \<and>
   \<not> is_space (CHR ''Y'') \<and> \<not> is_space (CHR ''Z'')"
  by (simp_all add: is_space_def code_def)

lemma key_char_plain [simp]:
  "key_char c \<Longrightarrow> lower_char c = c" "key_char c \<Longrightarrow> \<not> is_separator c" "key_char c \<Longrightarrow> \<not> is_non_token c"
  by (simp_all add: key_char_kept)

lemma marks [simp]:
  "is_non_token (CHR ''_'')" "lower_char (CHR ''_'') = CHR ''_''" "\<not> is_separator (CHR ''_'')"
  "\<not> is_space (CHR ''_'')" "\<not> is_non_token (CHR '' '')" "lower_char (CHR ''&'') = CHR ''&''"
  "\<not> is_space (CHR ''&'')" "\<not> is_space (CHR ''*'')"
  by code_simp+

lemma words_of_literal:
  "words_of [] = []"
  "is_space c \<Longrightarrow> words_of (c # cs) = words_of cs"
  "\<not> is_space c \<Longrightarrow> words_of (c # cs) =
     (c # takeWhile (\<lambda>x. \<not> is_space x) cs) # words_of (dropWhile (\<lambda>x. \<not> is_space x) cs)"
  by (subst words_of.simps; simp add: py_lstrip_def; subst words_of.simps; simp add: py_lstrip_def)+

lemmas literal_eval = canonical_key_def fold_key_def py_str_def py_strip_def py_lower_def
  expand_ampersands_def blank_kept words_of_literal phrase_pattern_def compile_rules_def

end
