(* ===== verification/Taxonomy.thy ===== *)
theory Taxonomy
  imports Canonical_Key
begin

text \<open>
  \<open>arie.normalization.taxonomy\<close>: the canonical vocabularies, the alias and rule tables that map
  a provider's industry, seniority, function or job title onto them, and the two lookups built
  on each. The tables are the source's, in its order.
\<close>

subsection \<open>Canonical vocabularies and tables\<close>

definition CANONICAL_INDUSTRIES :: "string list" where
  "CANONICAL_INDUSTRIES =
     [''software'', ''fintech'', ''healthtech'', ''ecommerce'', ''logistics'',
      ''manufacturing'', ''education'', ''nonprofit'', ''financial_services'',
      ''professional_services'', ''healthcare'', ''construction'', ''retail'', ''real_estate'',
      ''media'', ''telecom'', ''energy'', ''hospitality'', ''government'', ''agriculture'',
      ''other'', UNKNOWN]"

definition CANONICAL_SENIORITIES :: "string list" where
  "CANONICAL_SENIORITIES =
     [''c_level'', ''vp'', ''director'', ''manager'', ''ic'', UNKNOWN]"

definition CANONICAL_FUNCTIONS :: "string list" where
  "CANONICAL_FUNCTIONS =
     [''data'', ''engineering'', ''operations'', ''marketing'', ''sales'', ''finance'',
      ''other'', UNKNOWN]"

definition INDUSTRY_ALIASES :: "(string \<times> string) list" where
  "INDUSTRY_ALIASES =
     [(''computer software'', ''software''), (''software'', ''software''),
      (''software development'', ''software''), (''software and services'', ''software''),
      (''saas'', ''software''), (''b2b saas'', ''software''),
      (''software as a service'', ''software''), (''enterprise software'', ''software''),
      (''application software'', ''software''), (''cloud software'', ''software''),
      (''cloud computing'', ''software''),
      (''information technology and services'', ''software''),
      (''information technology'', ''software''),
      (''it services and it consulting'', ''software''), (''technology'', ''software''),
      (''tech'', ''software''), (''internet software and services'', ''software''),
      (''internet'', ''software''), (''computer and network security'', ''software''),
      (''computer network security'', ''software''),
      (''artificial intelligence'', ''software''), (''developer tools'', ''software''),
      (''fintech'', ''fintech''), (''financial technology'', ''fintech''),
      (''financial software'', ''fintech''), (''banking software'', ''fintech''),
      (''payments'', ''fintech''), (''payment software'', ''fintech''),
      (''payments software'', ''fintech''), (''insurtech'', ''fintech''),
      (''financial services'', ''financial_services''), (''banking'', ''financial_services''),
      (''banks'', ''financial_services''), (''capital markets'', ''financial_services''),
      (''investment management'', ''financial_services''),
      (''investment banking'', ''financial_services''),
      (''venture capital and private equity'', ''financial_services''),
      (''insurance'', ''financial_services''), (''accounting'', ''financial_services''),
      (''healthtech'', ''healthtech''), (''health tech'', ''healthtech''),
      (''digital health'', ''healthtech''),
      (''health information technology'', ''healthtech''),
      (''medical software'', ''healthtech''), (''healthcare software'', ''healthtech''),
      (''healthcare'', ''healthcare''), (''health care'', ''healthcare''),
      (''hospital and health care'', ''healthcare''),
      (''hospitals and health care'', ''healthcare''), (''hospitals'', ''healthcare''),
      (''medical practice'', ''healthcare''), (''medical devices'', ''healthcare''),
      (''pharmaceuticals'', ''healthcare''), (''biotechnology'', ''healthcare''),
      (''ecommerce'', ''ecommerce''), (''e commerce'', ''ecommerce''),
      (''online retail'', ''ecommerce''), (''internet retail'', ''ecommerce''),
      (''marketplace'', ''ecommerce''), (''direct to consumer'', ''ecommerce''),
      (''consumer goods'', ''retail''), (''retail'', ''retail''),
      (''retail apparel and fashion'', ''retail''), (''supermarkets'', ''retail''),
      (''wholesale'', ''retail''), (''logistics'', ''logistics''),
      (''logistics and supply chain'', ''logistics''), (''supply chain'', ''logistics''),
      (''transportation'', ''logistics''),
      (''transportation trucking railroad'', ''logistics''), (''freight'', ''logistics''),
      (''shipping'', ''logistics''), (''warehousing'', ''logistics''),
      (''package freight delivery'', ''logistics''), (''airlines aviation'', ''logistics''),
      (''manufacturing'', ''manufacturing''),
      (''industrial manufacturing'', ''manufacturing''), (''machinery'', ''manufacturing''),
      (''industrial machinery manufacturing'', ''manufacturing''),
      (''automotive'', ''manufacturing''), (''aerospace'', ''manufacturing''),
      (''aviation and aerospace component manufacturing'', ''manufacturing''),
      (''chemicals'', ''manufacturing''),
      (''electrical electronic manufacturing'', ''manufacturing''),
      (''semiconductors'', ''manufacturing''),
      (''food and beverage manufacturing'', ''manufacturing''), (''education'', ''education''),
      (''education management'', ''education''), (''higher education'', ''education''),
      (''e learning'', ''education''), (''edtech'', ''education''),
      (''education technology'', ''education''),
      (''primary secondary education'', ''education''),
      (''professional training and coaching'', ''education''), (''nonprofit'', ''nonprofit''),
      (''non profit'', ''nonprofit''), (''non profit organization management'', ''nonprofit''),
      (''nonprofit organization management'', ''nonprofit''), (''charity'', ''nonprofit''),
      (''philanthropy'', ''nonprofit''), (''civic and social organization'', ''nonprofit''),
      (''professional services'', ''professional_services''),
      (''management consulting'', ''professional_services''),
      (''consulting'', ''professional_services''),
      (''business consulting and services'', ''professional_services''),
      (''legal services'', ''professional_services''),
      (''law practice'', ''professional_services''),
      (''staffing and recruiting'', ''professional_services''),
      (''human resources'', ''professional_services''),
      (''marketing and advertising'', ''professional_services''),
      (''advertising services'', ''professional_services''),
      (''design'', ''professional_services''),
      (''architecture and planning'', ''professional_services''),
      (''construction'', ''construction''), (''building materials'', ''construction''),
      (''civil engineering'', ''construction''), (''real estate'', ''real_estate''),
      (''commercial real estate'', ''real_estate''),
      (''property management'', ''real_estate''), (''media'', ''media''),
      (''media production'', ''media''), (''broadcast media'', ''media''),
      (''publishing'', ''media''), (''entertainment'', ''media''), (''music'', ''media''),
      (''computer games'', ''media''), (''gaming'', ''media''),
      (''telecommunications'', ''telecom''), (''telecom'', ''telecom''),
      (''wireless'', ''telecom''), (''oil and energy'', ''energy''), (''energy'', ''energy''),
      (''renewables and environment'', ''energy''), (''utilities'', ''energy''),
      (''mining and metals'', ''energy''), (''hospitality'', ''hospitality''),
      (''restaurants'', ''hospitality''), (''food and beverages'', ''hospitality''),
      (''leisure travel and tourism'', ''hospitality''),
      (''travel arrangements'', ''hospitality''),
      (''government administration'', ''government''), (''government'', ''government''),
      (''public policy'', ''government''), (''defense and space'', ''government''),
      (''military'', ''government''), (''farming'', ''agriculture''),
      (''agriculture'', ''agriculture''), (''ranching'', ''agriculture''),
      (''other'', ''other'')]"

definition SENIORITY_ALIASES :: "(string \<times> string) list" where
  "SENIORITY_ALIASES =
     [(''c level'', ''c_level''), (''clevel'', ''c_level''), (''c suite'', ''c_level''),
      (''csuite'', ''c_level''), (''chief'', ''c_level''), (''executive'', ''c_level''),
      (''exec'', ''c_level''), (''founder'', ''c_level''), (''co founder'', ''c_level''),
      (''cofounder'', ''c_level''), (''owner'', ''c_level''), (''partner'', ''c_level''),
      (''president'', ''c_level''), (''cxo'', ''c_level''), (''ceo'', ''c_level''),
      (''cto'', ''c_level''), (''cfo'', ''c_level''), (''coo'', ''c_level''),
      (''cmo'', ''c_level''), (''cro'', ''c_level''), (''cio'', ''c_level''),
      (''ciso'', ''c_level''), (''cdo'', ''c_level''), (''chro'', ''c_level''),
      (''vp'', ''vp''), (''svp'', ''vp''), (''evp'', ''vp''), (''avp'', ''vp''),
      (''vice president'', ''vp''), (''senior vice president'', ''vp''),
      (''executive vice president'', ''vp''), (''director'', ''director''),
      (''senior director'', ''director''), (''sr director'', ''director''),
      (''managing director'', ''director''), (''head'', ''director''),
      (''head of'', ''director''), (''manager'', ''manager''),
      (''senior manager'', ''manager''), (''sr manager'', ''manager''),
      (''group manager'', ''manager''), (''team lead'', ''manager''), (''lead'', ''manager''),
      (''supervisor'', ''manager''), (''principal'', ''manager''), (''staff'', ''manager''),
      (''ic'', ''ic''), (''individual contributor'', ''ic''), (''entry'', ''ic''),
      (''junior'', ''ic''), (''associate'', ''ic''), (''analyst'', ''ic''),
      (''specialist'', ''ic''), (''coordinator'', ''ic''), (''consultant'', ''ic''),
      (''engineer'', ''ic''), (''representative'', ''ic''), (''intern'', ''ic''),
      (''student'', ''ic''), (''trainee'', ''ic''), (''senior'', ''ic'')]"

definition FUNCTION_ALIASES :: "(string \<times> string) list" where
  "FUNCTION_ALIASES =
     [(''sales'', ''sales''), (''sales and business development'', ''sales''),
      (''business development'', ''sales''), (''bizdev'', ''sales''),
      (''account management'', ''sales''), (''account executive'', ''sales''),
      (''customer success'', ''sales''), (''partnerships'', ''sales''),
      (''operations'', ''operations''), (''revenue operations'', ''operations''),
      (''revops'', ''operations''), (''rev ops'', ''operations''),
      (''sales operations'', ''operations''), (''salesops'', ''operations''),
      (''marketing operations'', ''operations''), (''business operations'', ''operations''),
      (''bizops'', ''operations''), (''strategy and operations'', ''operations''),
      (''supply chain'', ''operations''), (''procurement'', ''operations''),
      (''program management'', ''operations''), (''project management'', ''operations''),
      (''marketing'', ''marketing''), (''growth'', ''marketing''),
      (''growth marketing'', ''marketing''), (''demand generation'', ''marketing''),
      (''demandgen'', ''marketing''), (''brand'', ''marketing''),
      (''communications'', ''marketing''), (''public relations'', ''marketing''),
      (''content'', ''marketing''), (''product marketing'', ''marketing''),
      (''data'', ''data''), (''data science'', ''data''), (''data engineering'', ''data''),
      (''data analytics'', ''data''), (''analytics'', ''data''),
      (''business intelligence'', ''data''), (''machine learning'', ''data''),
      (''artificial intelligence'', ''data''), (''research'', ''data''),
      (''engineering'', ''engineering''), (''software engineering'', ''engineering''),
      (''development'', ''engineering''), (''devops'', ''engineering''),
      (''platform'', ''engineering''), (''infrastructure'', ''engineering''),
      (''security'', ''engineering''), (''information technology'', ''engineering''),
      (''it'', ''engineering''), (''technology'', ''engineering''),
      (''architecture'', ''engineering''), (''quality assurance'', ''engineering''),
      (''finance'', ''finance''), (''accounting'', ''finance''),
      (''financial planning and analysis'', ''finance''), (''treasury'', ''finance''),
      (''audit'', ''finance''), (''tax'', ''finance''), (''other'', ''other''),
      (''human resources'', ''other''), (''hr'', ''other''), (''people'', ''other''),
      (''talent'', ''other''), (''recruiting'', ''other''), (''legal'', ''other''),
      (''compliance'', ''other''), (''product'', ''other''),
      (''product management'', ''other''), (''design'', ''other''),
      (''customer support'', ''other''), (''support'', ''other''),
      (''administrative'', ''other''), (''general management'', ''other''),
      (''customer service'', ''other''), (''consulting'', ''other''),
      (''education'', ''other''), (''health professional'', ''other''),
      (''real estate'', ''other'')]"

definition INDUSTRY_RULES_TABLE :: "string rules" where
  "INDUSTRY_RULES_TABLE =
     [([''financial technology'', ''fintech'', ''payment*'', ''insurtech'', ''lending platform''],
        ''fintech''),
      ([''health tech'', ''healthtech'', ''digital health'', ''healthcare software'',
        ''medical software'', ''health information technology''],
        ''healthtech''),
      ([''edtech'', ''e learning'', ''elearning'', ''education technology''],
        ''education''),
      ([''ecommerce'', ''e commerce'', ''online retail'', ''marketplace'',
        ''direct to consumer''],
        ''ecommerce''),
      ([''hospital*'', ''clinic*'', ''medical'', ''health'', ''pharma*'', ''biotech*'',
        ''dental'', ''nursing'', ''veterinar*''],
        ''healthcare''),
      ([''bank*'', ''insurance'', ''insurer*'', ''financial'', ''finance'', ''lending'',
        ''mortgage'', ''wealth'', ''accounting'', ''credit union''],
        ''financial_services''),
      ([''saas'', ''software'', ''developer'', ''devops'', ''cloud'', ''open source'',
        ''cyber*'', ''data platform''],
        ''software''),
      ([''information technology'', ''computer*'', ''internet'', ''technology'', ''tech''],
        ''software''),
      ([''logistics'', ''freight'', ''shipping'', ''trucking'', ''supply chain'',
        ''warehous*'', ''courier*''],
        ''logistics''),
      ([''manufactur*'', ''industrial'', ''machinery'', ''automotive'', ''aerospace'',
        ''chemical*'', ''semiconductor*'', ''electronics''],
        ''manufacturing''),
      ([''education'', ''universit*'', ''school*'', ''learning'', ''training'', ''academy'',
        ''tutoring''],
        ''education''),
      ([''nonprofit'', ''non profit'', ''charit*'', ''ngo'', ''foundation'', ''philanthrop*''],
        ''nonprofit''),
      ([''consult*'', ''advisory'', ''agency'', ''staffing'', ''recruit*'', ''legal'',
        ''law firm'', ''advertising'', ''architecture'', ''accountancy''],
        ''professional_services''),
      ([''construction'', ''contracting'', ''contractor*'', ''builder*'', ''building''],
        ''construction''),
      ([''real estate'', ''property'', ''realty'', ''propert*''],
        ''real_estate''),
      ([''media'', ''publish*'', ''broadcast*'', ''entertainment'', ''games'', ''gaming'',
        ''film'', ''music''],
        ''media''),
      ([''telecom*'', ''wireless'', ''broadband'', ''satellite''],
        ''telecom''),
      ([''energy'', ''oil'', ''gas'', ''utilities'', ''solar'', ''mining'', ''renewab*''],
        ''energy''),
      ([''hospitality'', ''restaurant*'', ''hotel*'', ''travel'', ''tourism'', ''catering''],
        ''hospitality''),
      ([''government'', ''public sector'', ''municipal*'', ''defense'', ''defence''],
        ''government''),
      ([''agricultur*'', ''farming'', ''agri'', ''ranch*''],
        ''agriculture''),
      ([''retail'', ''consumer goods'', ''apparel'', ''wholesale'', ''grocer*''],
        ''retail'')]"

definition SENIORITY_TITLE_RULES_TABLE :: "string rules" where
  "SENIORITY_TITLE_RULES_TABLE =
     [([''vice president'', ''svp'', ''evp'', ''avp''],
        ''vp''),
      ([''chief'', ''ceo'', ''cto'', ''cfo'', ''coo'', ''cmo'', ''cro'', ''cio'', ''ciso'',
        ''cdo'', ''chro'', ''founder'', ''co founder'', ''cofounder'', ''owner'',
        ''president'', ''partner'', ''c level'', ''c suite''],
        ''c_level''),
      ([''vp''],
        ''vp''),
      ([''head of'', ''head'', ''director''],
        ''director''),
      ([''manager'', ''mgr'', ''lead*'', ''supervisor'', ''principal'', ''staff''],
        ''manager''),
      ([''associate'', ''analyst'', ''specialist'', ''coordinator'', ''engineer'',
        ''developer'', ''representative'', ''consultant'', ''intern'', ''student'',
        ''assistant'', ''administrator'', ''technician'', ''junior'', ''trainee''],
        ''ic'')]"

definition FUNCTION_TITLE_RULES_TABLE :: "string rules" where
  "FUNCTION_TITLE_RULES_TABLE =
     [([''revenue operations'', ''revops'', ''rev ops'', ''sales operations'', ''sales ops'',
        ''marketing operations'', ''marketing ops'', ''business operations'', ''bizops'',
        ''biz ops'', ''operations'', ''ops'', ''supply chain'', ''procurement'', ''logistics''],
        ''operations''),
      ([''data'', ''analytics'', ''analysis'', ''business intelligence'', ''machine learning'',
        ''data science'', ''insights''],
        ''data''),
      ([''engineering'', ''engineer'', ''developer'', ''software'', ''devops'', ''platform'',
        ''infrastructure'', ''security'', ''architect*'', ''technology'', ''technical'', ''it''],
        ''engineering''),
      ([''marketing'', ''growth'', ''demand generation'', ''demand gen'', ''brand'',
        ''communications'', ''content'', ''seo''],
        ''marketing''),
      ([''sales'', ''revenue'', ''business development'', ''account executive'', ''account'',
        ''customer success'', ''partnership*'', ''commercial''],
        ''sales''),
      ([''finance'', ''financial'', ''accounting'', ''controller'', ''treasury'', ''audit'',
        ''tax''],
        ''finance''),
      ([''people'', ''human resources'', ''hr'', ''talent'', ''recruit*'', ''legal'',
        ''counsel'', ''compliance'', ''product'', ''design'', ''support'', ''administrative''],
        ''other'')]"

subsection \<open>The lookups\<close>

definition INDUSTRY_RULES :: "phrase rules" where
  "INDUSTRY_RULES = compile_rules INDUSTRY_RULES_TABLE"

definition SENIORITY_TITLE_RULES :: "phrase rules" where
  "SENIORITY_TITLE_RULES = compile_rules SENIORITY_TITLE_RULES_TABLE"

definition FUNCTION_TITLE_RULES :: "phrase rules" where
  "FUNCTION_TITLE_RULES = compile_rules FUNCTION_TITLE_RULES_TABLE"

definition normalize_industry :: "pyval \<Rightarrow> string" where
  "normalize_industry raw =
     (let key = canonical_key raw
      in if key = [] then UNKNOWN
         else case map_of INDUSTRY_ALIASES key of
                Some alias \<Rightarrow> alias
              | None \<Rightarrow> (case first_match key INDUSTRY_RULES of None \<Rightarrow> UNKNOWN | Some c \<Rightarrow> c))"

definition normalize_seniority :: "pyval \<Rightarrow> string" where
  "normalize_seniority raw =
     (let key = canonical_key raw
      in if key = [] then UNKNOWN
         else case map_of SENIORITY_ALIASES key of Some alias \<Rightarrow> alias | None \<Rightarrow> UNKNOWN)"

definition seniority_from_title :: "pyval \<Rightarrow> string" where
  "seniority_from_title title =
     (let key = canonical_key title
      in if key = [] then UNKNOWN
         else case map_of SENIORITY_ALIASES key of
                Some exact \<Rightarrow> exact
              | None \<Rightarrow> (case first_match key SENIORITY_TITLE_RULES of None \<Rightarrow> UNKNOWN | Some c \<Rightarrow> c))"

definition normalize_function :: "pyval \<Rightarrow> string" where
  "normalize_function raw =
     (let key = canonical_key raw
      in if key = [] then UNKNOWN
         else case map_of FUNCTION_ALIASES key of Some alias \<Rightarrow> alias | None \<Rightarrow> UNKNOWN)"

definition function_from_title :: "pyval \<Rightarrow> string" where
  "function_from_title title =
     (let key = canonical_key title
      in if key = [] then UNKNOWN
         else case map_of FUNCTION_ALIASES key of
                Some exact \<Rightarrow> exact
              | None \<Rightarrow> (case first_match key FUNCTION_TITLE_RULES of None \<Rightarrow> UNKNOWN | Some c \<Rightarrow> c))"

subsection \<open>Closure\<close>

lemma first_match_compiled: "first_match key (compile_rules rs) = Some v \<Longrightarrow> v \<in> snd ` set rs"
  by (auto simp: compile_rules_def image_image split_beta dest!: first_match_in)

lemma map_of_in_values: "map_of m k = Some v \<Longrightarrow> v \<in> snd ` set m"
  using map_of_SomeD by force

lemma alias_values:
  "list_all (\<lambda>v. v \<in> set CANONICAL_INDUSTRIES) (map snd INDUSTRY_ALIASES)"
  "list_all (\<lambda>v. v \<in> set CANONICAL_SENIORITIES) (map snd SENIORITY_ALIASES)"
  "list_all (\<lambda>v. v \<in> set CANONICAL_FUNCTIONS) (map snd FUNCTION_ALIASES)"
  by code_simp+

lemma rule_values:
  "list_all (\<lambda>v. v \<in> set CANONICAL_INDUSTRIES) (map snd INDUSTRY_RULES_TABLE)"
  "list_all (\<lambda>v. v \<in> set CANONICAL_SENIORITIES) (map snd SENIORITY_TITLE_RULES_TABLE)"
  "list_all (\<lambda>v. v \<in> set CANONICAL_FUNCTIONS) (map snd FUNCTION_TITLE_RULES_TABLE)"
  by code_simp+

lemma unknown_canonical:
  "UNKNOWN \<in> set CANONICAL_INDUSTRIES" "UNKNOWN \<in> set CANONICAL_SENIORITIES"
  "UNKNOWN \<in> set CANONICAL_FUNCTIONS"
  by (simp_all add: CANONICAL_INDUSTRIES_def CANONICAL_SENIORITIES_def CANONICAL_FUNCTIONS_def)

lemma alias_canonical:
  "map_of INDUSTRY_ALIASES k = Some v \<Longrightarrow> v \<in> set CANONICAL_INDUSTRIES"
  "map_of SENIORITY_ALIASES k = Some v \<Longrightarrow> v \<in> set CANONICAL_SENIORITIES"
  "map_of FUNCTION_ALIASES k = Some v \<Longrightarrow> v \<in> set CANONICAL_FUNCTIONS"
  using alias_values by (auto simp: list_all_iff dest!: map_of_in_values)

lemma rule_canonical:
  "first_match k INDUSTRY_RULES = Some v \<Longrightarrow> v \<in> set CANONICAL_INDUSTRIES"
  "first_match k SENIORITY_TITLE_RULES = Some v \<Longrightarrow> v \<in> set CANONICAL_SENIORITIES"
  "first_match k FUNCTION_TITLE_RULES = Some v \<Longrightarrow> v \<in> set CANONICAL_FUNCTIONS"
  using rule_values
  by (auto simp: list_all_iff INDUSTRY_RULES_def SENIORITY_TITLE_RULES_def FUNCTION_TITLE_RULES_def
      dest!: first_match_compiled)

lemma normalized_canonical:
  "normalize_industry raw \<in> set CANONICAL_INDUSTRIES"
  "normalize_seniority raw \<in> set CANONICAL_SENIORITIES"
  "seniority_from_title raw \<in> set CANONICAL_SENIORITIES"
  "normalize_function raw \<in> set CANONICAL_FUNCTIONS"
  "function_from_title raw \<in> set CANONICAL_FUNCTIONS"
  using unknown_canonical alias_canonical rule_canonical
  by (auto simp: normalize_industry_def normalize_seniority_def seniority_from_title_def
      normalize_function_def function_from_title_def Let_def split: option.split)

subsection \<open>Canonical values are fixed\<close>

lemma tables_plain:
  "plain_rules INDUSTRY_RULES" "plain_rules SENIORITY_TITLE_RULES" "plain_rules FUNCTION_TITLE_RULES"
  by (simp_all add: plain_rules_def plain_phrase_def key_word_def literal_eval INDUSTRY_RULES_def
      INDUSTRY_RULES_TABLE_def SENIORITY_TITLE_RULES_def SENIORITY_TITLE_RULES_TABLE_def
      FUNCTION_TITLE_RULES_def FUNCTION_TITLE_RULES_TABLE_def)

lemma aliases_distinct:
  "distinct (map fst INDUSTRY_ALIASES)" "distinct (map fst SENIORITY_ALIASES)"
  "distinct (map fst FUNCTION_ALIASES)"
  by (simp_all add: INDUSTRY_ALIASES_def SENIORITY_ALIASES_def FUNCTION_ALIASES_def)

lemma canonical_in_aliases:
  "list_all (\<lambda>v. canonical_key (VStr v) \<noteq> [] \<and> (canonical_key (VStr v), v) \<in> set INDUSTRY_ALIASES)
     (butlast CANONICAL_INDUSTRIES)"
  "list_all (\<lambda>v. canonical_key (VStr v) \<noteq> [] \<and> (canonical_key (VStr v), v) \<in> set SENIORITY_ALIASES)
     (butlast CANONICAL_SENIORITIES)"
  "list_all (\<lambda>v. canonical_key (VStr v) \<noteq> [] \<and> (canonical_key (VStr v), v) \<in> set FUNCTION_ALIASES)
     (butlast CANONICAL_FUNCTIONS)"
  by (simp add: literal_eval CANONICAL_INDUSTRIES_def, simp add: INDUSTRY_ALIASES_def)
    (simp add: literal_eval CANONICAL_SENIORITIES_def, simp add: SENIORITY_ALIASES_def,
     simp add: literal_eval CANONICAL_FUNCTIONS_def, simp add: FUNCTION_ALIASES_def)

lemma canonical_aliases:
  "v \<in> set (butlast CANONICAL_INDUSTRIES) \<Longrightarrow>
     canonical_key (VStr v) \<noteq> [] \<and> map_of INDUSTRY_ALIASES (canonical_key (VStr v)) = Some v"
  "v \<in> set (butlast CANONICAL_SENIORITIES) \<Longrightarrow>
     canonical_key (VStr v) \<noteq> [] \<and> map_of SENIORITY_ALIASES (canonical_key (VStr v)) = Some v"
  "v \<in> set (butlast CANONICAL_FUNCTIONS) \<Longrightarrow>
     canonical_key (VStr v) \<noteq> [] \<and> map_of FUNCTION_ALIASES (canonical_key (VStr v)) = Some v"
  using canonical_in_aliases by (simp_all add: list_all_iff map_of_eq_Some_iff aliases_distinct)

lemma unknown_key: "canonical_key (VStr UNKNOWN) = ''unknown''"
  by (simp add: literal_eval UNKNOWN_def)

lemma unknown_unmatched:
  "map_of INDUSTRY_ALIASES ''unknown'' = None" "map_of SENIORITY_ALIASES ''unknown'' = None"
  "map_of FUNCTION_ALIASES ''unknown'' = None"
  by (simp_all add: INDUSTRY_ALIASES_def SENIORITY_ALIASES_def FUNCTION_ALIASES_def)

lemma unknown_no_rule:
  "first_match ''unknown'' INDUSTRY_RULES = None" "first_match ''unknown'' SENIORITY_TITLE_RULES = None"
  "first_match ''unknown'' FUNCTION_TITLE_RULES = None"
proof -
  have k: "is_key ''unknown''" by (simp add: is_key_def words_of_literal key_word_def)
  show "first_match ''unknown'' INDUSTRY_RULES = None"
    unfolding first_match_by_words [OF tables_plain(1) k]
    by (simp add: literal_eval stem_of_def
        INDUSTRY_RULES_def INDUSTRY_RULES_TABLE_def)
  show "first_match ''unknown'' SENIORITY_TITLE_RULES = None"
    unfolding first_match_by_words [OF tables_plain(2) k]
    by (simp add: literal_eval stem_of_def
        SENIORITY_TITLE_RULES_def SENIORITY_TITLE_RULES_TABLE_def)
  show "first_match ''unknown'' FUNCTION_TITLE_RULES = None"
    unfolding first_match_by_words [OF tables_plain(3) k]
    by (simp add: literal_eval stem_of_def
        FUNCTION_TITLE_RULES_def FUNCTION_TITLE_RULES_TABLE_def)
qed

lemma canonical_ends:
  "v \<in> set CANONICAL_INDUSTRIES \<longleftrightarrow> v \<in> set (butlast CANONICAL_INDUSTRIES) \<or> v = UNKNOWN"
  "v \<in> set CANONICAL_SENIORITIES \<longleftrightarrow> v \<in> set (butlast CANONICAL_SENIORITIES) \<or> v = UNKNOWN"
  "v \<in> set CANONICAL_FUNCTIONS \<longleftrightarrow> v \<in> set (butlast CANONICAL_FUNCTIONS) \<or> v = UNKNOWN"
  by (auto simp: CANONICAL_INDUSTRIES_def CANONICAL_SENIORITIES_def CANONICAL_FUNCTIONS_def)

lemma canonical_fixed:
  "v \<in> set CANONICAL_INDUSTRIES \<Longrightarrow> normalize_industry (VStr v) = v"
  "v \<in> set CANONICAL_SENIORITIES \<Longrightarrow> normalize_seniority (VStr v) = v \<and> seniority_from_title (VStr v) = v"
  "v \<in> set CANONICAL_FUNCTIONS \<Longrightarrow> normalize_function (VStr v) = v \<and> function_from_title (VStr v) = v"
  using canonical_aliases
  by (auto simp: canonical_ends unknown_key unknown_unmatched unknown_no_rule list_all_iff
      normalize_industry_def normalize_seniority_def seniority_from_title_def
      normalize_function_def function_from_title_def)

text \<open>
  Normalisation is closed and stable. Whatever a provider sends, each of the five lookups
  answers with a member of its canonical vocabulary, and normalising that answer again changes
  nothing, also when a job title was read and the answer is taken as a provider's own value.
\<close>

theorem normalization_is_closed_and_stable:
  "normalize_industry raw \<in> set CANONICAL_INDUSTRIES
    \<and> normalize_seniority raw \<in> set CANONICAL_SENIORITIES
    \<and> seniority_from_title raw \<in> set CANONICAL_SENIORITIES
    \<and> normalize_function raw \<in> set CANONICAL_FUNCTIONS
    \<and> function_from_title raw \<in> set CANONICAL_FUNCTIONS
    \<and> normalize_industry (VStr (normalize_industry raw)) = normalize_industry raw
    \<and> normalize_seniority (VStr (normalize_seniority raw)) = normalize_seniority raw
    \<and> normalize_seniority (VStr (seniority_from_title raw)) = seniority_from_title raw
    \<and> normalize_function (VStr (normalize_function raw)) = normalize_function raw
    \<and> normalize_function (VStr (function_from_title raw)) = function_from_title raw"
  using normalized_canonical canonical_fixed by blast


text \<open>The canonical vocabularies are the scorer's: seniorities and functions are exactly those
  the reference tables score, industries extend them.\<close>

lemma vocabulary_of_the_scorer:
  "set CANONICAL_SENIORITIES = insert UNKNOWN (set (map fst SENIORITY_POINTS))"
  "set CANONICAL_FUNCTIONS = insert UNKNOWN (set (map fst FUNCTION_POINTS))"
  "map fst INDUSTRY_POINTS = take 8 CANONICAL_INDUSTRIES"
  by (auto simp: CANONICAL_INDUSTRIES_def CANONICAL_SENIORITIES_def CANONICAL_FUNCTIONS_def
      SENIORITY_POINTS_def FUNCTION_POINTS_def INDUSTRY_POINTS_def)

text \<open>Of the VP forms only the bare one stays below the C-level rule; the phrase \<open>tech\<close> does
  not match the word \<open>technology\<close>.\<close>

lemma title_by_words:
  "canonical_key raw = k \<Longrightarrow> is_key k \<Longrightarrow> k \<noteq> [] \<Longrightarrow> map_of SENIORITY_ALIASES k = None \<Longrightarrow>
     first_match_words (words_of k) SENIORITY_TITLE_RULES = Some c \<Longrightarrow> seniority_from_title raw = c"
  by (simp add: seniority_from_title_def first_match_by_words [OF tables_plain(2)])

lemma svp_before_founder:
  "seniority_from_title (VStr ''Founder and SVP Sales'') = ''vp''"
  "seniority_from_title (VStr ''Founder and VP Sales'') = ''c_level''"
  "seniority_from_title (VStr ''Product Owner'') = ''c_level''"
proof -
  have keys: "canonical_key (VStr ''Founder and SVP Sales'') = ''founder and svp sales''"
    "canonical_key (VStr ''Founder and VP Sales'') = ''founder and vp sales''"
    "canonical_key (VStr ''Product Owner'') = ''product owner''"
    by (simp_all add: literal_eval)
  have plain: "is_key ''founder and svp sales''" "is_key ''founder and vp sales''" "is_key ''product owner''"
    by (simp_all add: is_key_def words_of_literal key_word_def)
  note by_words = words_of_literal SENIORITY_ALIASES_def literal_eval stem_of_def
    SENIORITY_TITLE_RULES_def SENIORITY_TITLE_RULES_TABLE_def
  show "seniority_from_title (VStr ''Founder and SVP Sales'') = ''vp''"
    by (rule title_by_words [OF keys(1) plain(1)]) (simp_all add: by_words)
  show "seniority_from_title (VStr ''Founder and VP Sales'') = ''c_level''"
    by (rule title_by_words [OF keys(2) plain(2)]) (simp_all add: by_words)
  show "seniority_from_title (VStr ''Product Owner'') = ''c_level''"
    by (rule title_by_words [OF keys(3) plain(3)]) (simp_all add: by_words)
qed

lemma tech_is_one_word: "\<not> phrase_search (phrase_pattern ''tech'') (canonical_key (VStr ''Technology''))"
  by (simp add: literal_eval phrase_search_def phrase_at_def)

end
