(* ===== verification/Employee_Count.thy ===== *)
theory Employee_Count
  imports Taxonomy
begin

text \<open>
  The headcount of \<open>arie.normalization.taxonomy\<close>: a number, a band (\<open>51-200\<close>), an open band
  (\<open>1001+\<close>) or one of these with a \<open>k\<close> or \<open>m\<close> suffix becomes an integer between 1 and ten
  million, anything else the sentinel. The float arithmetic of the suffix is binary64, written
  out over natural numbers: rounding to nearest, ties to even, with the subnormal exponent and
  the overflow to infinity. Of the dashes the range pattern accepts, those above 255 are left
  out with the characters themselves.
\<close>

subsection \<open>binary64\<close>

fun bits :: "nat \<Rightarrow> nat" where
  "bits n = (if n = 0 then 0 else Suc (bits (n div 2)))"

declare bits.simps [simp del]

definition half_even_div :: "nat \<Rightarrow> nat \<Rightarrow> nat" where
  "half_even_div n d =
     (let q = n div d; r = n mod d in if 2 * r < d \<or> (2 * r = d \<and> even q) then q else Suc q)"

text \<open>The double nearest to \<open>n / d\<close> as a mantissa and an exponent of two; \<open>None\<close> is infinity.
  The exponent leaves 53 bits of the quotient, or is the subnormal one.\<close>

definition double_exponent :: "nat \<Rightarrow> nat \<Rightarrow> int" where
  "double_exponent n d =
     (let e = int (bits n) - int (bits d) - 53
      in max (- 1074)
           (if (n * 2 ^ nat (- e)) div (d * 2 ^ nat e) \<ge> 2 ^ 53 then e + 1 else e))"

definition binary64 :: "nat \<Rightarrow> nat \<Rightarrow> (nat \<times> int) option" where
  "binary64 n d =
     (if n = 0 then Some (0, 0)
      else let e = double_exponent n d;
               m = half_even_div (n * 2 ^ nat (- e)) (d * 2 ^ nat e)
           in if 0 \<le> e \<and> m * 2 ^ nat e \<ge> 2 ^ 1024 then None else Some (m, e))"

text \<open>\<open>int(x)\<close> of a non-negative double\<close>

fun trunc_double :: "nat \<times> int \<Rightarrow> nat" where
  "trunc_double (m, e) = (if 0 \<le> e then m * 2 ^ nat e else m div 2 ^ nat (- e))"

text \<open>\<open>x * u\<close> for a non-negative double and a small integer\<close>

fun times_double :: "nat \<times> int \<Rightarrow> nat \<Rightarrow> (nat \<times> int) option" where
  "times_double (m, e) u = binary64 (m * u * 2 ^ nat e) (2 ^ nat (- e))"

lemma bits_bounds: "0 < n \<Longrightarrow> 2 ^ (bits n - 1) \<le> n \<and> n < 2 ^ bits n \<and> 0 < bits n"
proof (induction n rule: less_induct)
  case (less n)
  show ?case
  proof (cases "n = 1")
    case True
    then show ?thesis by (simp add: bits.simps)
  next
    case False
    then have h: "0 < n div 2" "n div 2 < n" using less.prems by auto
    from less.IH [OF h(2,1)] obtain j where j: "bits (n div 2) = Suc j" "2 ^ j \<le> n div 2" "n div 2 < 2 ^ Suc j"
      by (cases "bits (n div 2)") auto
    have "bits n = Suc (Suc j)" using less.prems j(1) by (simp add: bits.simps [of n])
    moreover have "n = 2 * (n div 2) + n mod 2" "n mod 2 < 2" by simp_all
    with j(2,3) have "2 * 2 ^ j \<le> n" "n < 2 * (2 * 2 ^ j)" by auto
    ultimately show ?thesis by simp
  qed
qed

lemma bits_eq: "2 ^ j \<le> n \<Longrightarrow> n < 2 ^ Suc j \<Longrightarrow> bits n = Suc j"
proof -
  assume l: "2 ^ j \<le> n" and u: "n < 2 ^ Suc j"
  have "0 < n" using l by (metis gr0I not_one_le_zero one_le_numeral one_le_power le_trans)
  from bits_bounds [OF this] have b: "2 ^ (bits n - 1) \<le> n" "n < 2 ^ bits n" "0 < bits n" by auto
  have "(2::nat) ^ j < 2 ^ bits n" using l b(2) by linarith
  then have "j < bits n" by (rule power_less_imp_less_exp [rotated]) simp
  moreover have "(2::nat) ^ (bits n - 1) < 2 ^ Suc j" using u b(1) by linarith
  then have "bits n - 1 < Suc j" by (rule power_less_imp_less_exp [rotated]) simp
  ultimately show ?thesis using b(3) by linarith
qed

lemma bits_shift: "0 < n \<Longrightarrow> bits (n * 2 ^ k) = bits n + k"
proof -
  assume "0 < n"
  then obtain j where j: "bits n = Suc j" "2 ^ j \<le> n" "n < 2 ^ Suc j"
    using bits_bounds [of n] by (cases "bits n") auto
  have "2 ^ (j + k) \<le> n * 2 ^ k" using j(2) by (simp add: power_add)
  moreover have "n * 2 ^ k < 2 ^ Suc (j + k)" using j(3) by (simp add: power_add)
  ultimately show ?thesis using bits_eq [of "j + k" "n * 2 ^ k"] j(1) by simp
qed

text \<open>Integers below \<open>2 ^ 53\<close> are exact.\<close>

lemma half_even_exact: "0 < d \<Longrightarrow> half_even_div (m * d) d = m"
  by (simp add: half_even_div_def)

lemma binary64_exact:
  assumes n: "0 < n" "n < 2 ^ 53"
  shows "\<exists>j. binary64 (n * 2 ^ k) (2 ^ k) = Some (n * 2 ^ j, - int j)"
proof -
  obtain b where b: "bits n = Suc b" "2 ^ b \<le> n" "n < 2 ^ Suc b"
    using bits_bounds [OF n(1)] by (cases "bits n") auto
  have "(2::nat) ^ b < 2 ^ 53" using b(2) n(2) by linarith
  then have b53: "b < 53" by (rule power_less_imp_less_exp [rotated]) simp
  have one: "bits (2 ^ k) = Suc k" by (rule bits_eq) simp_all
  have e0: "int (bits (n * 2 ^ k)) - int (bits (2 ^ k)) - 53 = int b - 53"
    using bits_shift [OF n(1)] b(1) one by simp
  have neg: "nat (- (int b - 53)) = 53 - b" "nat (int b - 53) = 0" using b53 by simp_all
  have "n * 2 ^ (53 - b) \<ge> 2 ^ b * 2 ^ (53 - b)" using b(2) by (rule mult_le_mono1)
  also have "2 ^ b * 2 ^ (53 - b) = (2::nat) ^ 53" using b53 by (simp flip: power_add)
  finally have up: "(n * 2 ^ k * 2 ^ (53 - b)) div (2 ^ k * 2 ^ 0) \<ge> 2 ^ 53"
    by (simp add: mult.assoc mult.left_commute)
  have e: "double_exponent (n * 2 ^ k) (2 ^ k) = - int (52 - b)"
    unfolding double_exponent_def Let_def e0 neg using up b53 by simp
  have "half_even_div (n * 2 ^ k * 2 ^ (52 - b)) (2 ^ k * 2 ^ 0) = n * 2 ^ (52 - b)"
    using half_even_exact [of "2 ^ k" "n * 2 ^ (52 - b)"] by (simp add: mult.assoc mult.left_commute mult.commute)
  moreover have "n < 2 ^ 1024" using n(2) by (rule less_trans) simp
  moreover have "\<not> (0 \<le> - int (52 - b) \<and> 2 ^ 1024 \<le> n * 2 ^ (52 - b) * 2 ^ nat (- int (52 - b)))"
    if "n < 2 ^ 1024"
    using that by (auto simp del: power_numeral)
  ultimately have "binary64 (n * 2 ^ k) (2 ^ k) = Some (n * 2 ^ (52 - b), - int (52 - b))"
    using n(1) unfolding binary64_def Let_def e by (simp del: power_numeral)
  then show ?thesis by blast
qed


subsection \<open>Tokens, bands, plain numbers\<close>

definition EMPLOYEE_COUNT_MIN :: int where "EMPLOYEE_COUNT_MIN = 1"

definition EMPLOYEE_COUNT_MAX :: int where "EMPLOYEE_COUNT_MAX = 10000000"

definition UNIT_MULTIPLIERS :: "(char \<times> nat) list" where
  "UNIT_MULTIPLIERS = [(CHR ''k'', 1000), (CHR ''m'', 1000000)]"

text \<open>\<open>s.replace(old, new)\<close> for a non-empty \<open>old\<close>\<close>

function replace_all :: "string \<Rightarrow> string \<Rightarrow> string \<Rightarrow> string" where
  "replace_all old rpl [] = []"
| "replace_all old rpl (c # cs) =
     (if old \<noteq> [] \<and> starts_with (c # cs) old
      then rpl @ replace_all old rpl (drop (length old) (c # cs))
      else c # replace_all old rpl cs)"
  by pat_completeness auto
termination by (relation "measure (\<lambda>(old, rpl, s). length s)") auto

text \<open>
  \<open>\d[\d,]*(?:\.\d+)?[km]?\<close> at the start of a string: the number, the unit and what is left.
  Each part is maximal; a shorter one would leave a character the patterns around it refuse.
\<close>

definition scan_token :: "string \<Rightarrow> (string \<times> char option \<times> string) option" where
  "scan_token s =
     (case s of
        [] \<Rightarrow> None
      | d # _ \<Rightarrow>
          if \<not> is_digit d then None
          else (let whole = takeWhile (\<lambda>c. is_digit c \<or> c = CHR '','') s;
                    r1 = dropWhile (\<lambda>c. is_digit c \<or> c = CHR '','') s;
                    frac = (case r1 of
                              [] \<Rightarrow> []
                            | c # t \<Rightarrow> if c = CHR ''.'' \<and> takeWhile is_digit t \<noteq> []
                                       then c # takeWhile is_digit t else []);
                    r2 = drop (length frac) r1
                in case r2 of
                     [] \<Rightarrow> Some (whole @ frac, None, r2)
                   | c # t \<Rightarrow> if c = CHR ''k'' \<or> c = CHR ''m'' then Some (whole @ frac, Some c, t)
                              else Some (whole @ frac, None, r2)))"

text \<open>\<open>$\<close>, which also matches before a final line feed\<close>

definition at_end :: "string \<Rightarrow> bool" where
  "at_end r \<longleftrightarrow> r = [] \<or> r = [CHR 0x0A]"

text \<open>\<open>float(number_part.replace(",", ""))\<close>; \<open>None\<close> is infinity.\<close>

definition float_of_decimal :: "string \<Rightarrow> (nat \<times> int) option" where
  "float_of_decimal num =
     (let t = filter (\<lambda>c. c \<noteq> CHR '','') num;
          whole = takeWhile is_digit t; frac = drop (Suc (length whole)) t
      in binary64 (digits_value (whole @ frac)) (10 ^ length frac))"

definition parse_employee_count_token :: "string \<Rightarrow> int option" where
  "parse_employee_count_token tok =
     (case scan_token tok of
        None \<Rightarrow> None
      | Some (num, unit, rest) \<Rightarrow>
          if \<not> at_end rest then None
          else (case float_of_decimal num of
                  None \<Rightarrow> None
                | Some x \<Rightarrow>
                    (case unit of
                       None \<Rightarrow> Some (int (trunc_double x))
                     | Some u \<Rightarrow>
                         map_option (\<lambda>y. int (trunc_double y))
                           (times_double x (the (map_of UNIT_MULTIPLIERS u))))))"

text \<open>\<open>_RANGE_RE.match(text) or _PLUS_RE.match(text)\<close>, its first group\<close>

definition band_token :: "string \<Rightarrow> string option" where
  "band_token s =
     (case scan_token s of
        None \<Rightarrow> None
      | Some (num, unit, rest) \<Rightarrow>
          (let lower = take (length s - length rest) s;
               second = (if starts_with rest ''-'' then scan_token (drop 1 rest)
                         else if starts_with rest ''to'' then scan_token (drop 2 rest) else None)
           in if (case second of None \<Rightarrow> False | Some (_, _, r) \<Rightarrow> at_end r) then Some lower
              else if starts_with rest ''+'' \<and> at_end (drop 1 rest) then Some lower
              else None))"

definition checked_count :: "int \<Rightarrow> pyval" where
  "checked_count n =
     (if EMPLOYEE_COUNT_MIN \<le> n \<and> n \<le> EMPLOYEE_COUNT_MAX then VInt n else VStr UNKNOWN)"

text \<open>A vendor's value: a value of the fact bundles, or one of the floats that are not finite,
  which Python's JSON parser accepts, with its \<open>str()\<close>.\<close>

datatype raw_value = Raw pyval | NonFinite string

text \<open>\<open>int(float(n))\<close> of a Python integer; \<open>None\<close> is the OverflowError.\<close>

definition int_of_float_of_int :: "int \<Rightarrow> int option" where
  "int_of_float_of_int i =
     map_option (\<lambda>x. sgn i * int (trunc_double x)) (binary64 (nat \<bar>i\<bar>) 1)"

definition employee_count_of_text :: "string \<Rightarrow> pyval" where
  "employee_count_of_text raw =
     (let text = replace_all ''employees'' [] (replace_all '' '' [] (py_lower (py_strip raw)));
          tok = (case band_token text of None \<Rightarrow> text | Some lower \<Rightarrow> lower)
      in if text = [] then VStr UNKNOWN
         else (case parse_employee_count_token tok of
                 None \<Rightarrow> VStr UNKNOWN
               | Some n \<Rightarrow> checked_count n))"

definition normalize_employee_count :: "raw_value \<Rightarrow> pyval" where
  "normalize_employee_count raw =
     (case raw of
        NonFinite _ \<Rightarrow> VStr UNKNOWN
      | Raw v \<Rightarrow>
          (case v of
             VNone \<Rightarrow> VStr UNKNOWN
           | VBool _ \<Rightarrow> VStr UNKNOWN
           | VInt i \<Rightarrow> (case int_of_float_of_int i of None \<Rightarrow> VStr UNKNOWN | Some n \<Rightarrow> checked_count n)
           | VFloat x _ \<Rightarrow> checked_count (if 0 \<le> x then \<lfloor>x\<rfloor> else \<lceil>x\<rceil>)
           | VStr s \<Rightarrow> employee_count_of_text s
           | VOther s _ \<Rightarrow> employee_count_of_text s))"

subsection \<open>The answer is in range or unknown\<close>

lemma checked_count_range:
  "checked_count n = VStr UNKNOWN \<or> (\<exists>k. checked_count n = VInt k \<and> 1 \<le> k \<and> k \<le> 10000000)"
  by (simp add: checked_count_def EMPLOYEE_COUNT_MIN_def EMPLOYEE_COUNT_MAX_def)

lemma employee_count_range:
  "normalize_employee_count raw = VStr UNKNOWN
    \<or> (\<exists>k. normalize_employee_count raw = VInt k \<and> 1 \<le> k \<and> k \<le> 10000000)"
proof -
  have t: "employee_count_of_text s = VStr UNKNOWN
      \<or> (\<exists>k. employee_count_of_text s = VInt k \<and> 1 \<le> k \<and> k \<le> 10000000)" for s
    using checked_count_range by (simp add: employee_count_of_text_def Let_def split: option.split)
  show ?thesis
    using t checked_count_range
    by (simp add: normalize_employee_count_def split: raw_value.split pyval.split option.split)
qed

subsection \<open>Printed counts are read back\<close>

abbreviation shown :: "nat \<Rightarrow> string" where "shown n \<equiv> show_nat_digits n []"

lemma shown_nonempty: "shown n \<noteq> []"
  by (cases "n < 10") (simp add: show_nat_digits.simps [of n], simp add: show_nat_digits_step)

lemma shown_digits: "list_all is_digit (shown n)"
  using show_nat_digits_digits by (auto simp: list_all_iff)

text \<open>The strings the three forms are made of: digits, the suffixes and the dash.\<close>

definition count_char :: "char \<Rightarrow> bool" where
  "count_char c \<longleftrightarrow> is_digit c \<or> c \<in> {CHR ''-'', CHR ''+'', CHR ''k''}"

lemma count_char_plain:
  assumes "count_char c"
  shows "\<not> is_space c" "lower_char c = c" "c \<noteq> CHR '' ''" "c \<noteq> CHR ''e''"
proof -
  have l: "list_all (\<lambda>c. \<not> is_space c \<and> lower_char c = c) [CHR ''-'', CHR ''+'', CHR ''k'']"
    and e: "\<not> is_digit (CHR ''e'')" "\<not> is_digit (CHR '' '')"
    by code_simp+
  have d: "is_digit c \<Longrightarrow> \<not> is_space c \<and> lower_char c = c"
    using key_char_kept(1) [of c] key_char_not_space [of c] by (simp add: key_char_def)
  show "\<not> is_space c" "lower_char c = c" using assms d l by (auto simp: count_char_def)
  show "c \<noteq> CHR '' ''" "c \<noteq> CHR ''e''" using assms e by (auto simp: count_char_def)
qed

lemma replace_all_keep: "\<forall>c \<in> set s. c \<noteq> o1 \<Longrightarrow> replace_all (o1 # os) rpl s = s"
  by (induction s) auto

lemma count_text:
  assumes "s \<noteq> []" and "list_all count_char s"
  shows "replace_all ''employees'' [] (replace_all '' '' [] (py_lower (py_strip s))) = s"
proof -
  have p: "\<not> is_space c" "lower_char c = c" "c \<noteq> CHR '' ''" "c \<noteq> CHR ''e''" if "c \<in> set s" for c
    using assms(2) that count_char_plain [of c] by (auto simp: list_all_iff)
  have "py_strip ([] @ s @ []) = s"
    using assms(1) p(1) by (intro py_strip_middle) auto
  moreover have "py_lower s = s" using p(2) by (simp add: py_lower_def map_idI)
  ultimately show ?thesis using p(3,4) by (simp add: replace_all_keep)
qed

lemma digit_marks: "\<not> is_digit (CHR '','')" "\<not> is_digit (CHR ''.'')" "\<not> is_digit (CHR ''-'')"
  "\<not> is_digit (CHR ''+'')" "\<not> is_digit (CHR ''k'')"
  by code_simp+

lemma scan_digits:
  assumes "list_all is_digit ds" and "ds \<noteq> []" and "r = [] \<or> hd r \<in> {CHR ''-'', CHR ''+''}"
  shows "scan_token (ds @ r) = Some (ds, None, r)" and "scan_token (ds @ CHR ''k'' # r) = Some (ds, Some (CHR ''k''), r)"
proof -
  let ?P = "\<lambda>c. is_digit c \<or> c = CHR '',''"
  obtain d us where d: "ds = d # us" "is_digit d" "list_all is_digit us" using assms(1,2) by (cases ds) auto
  have stop: "takeWhile ?P t = [] \<and> dropWhile ?P t = t"
    if "t = [] \<or> hd t \<in> {CHR ''-'', CHR ''+'', CHR ''k''}" for t
    using that digit_marks by (cases t) auto
  have scan: "takeWhile ?P (us @ t) = us" "dropWhile ?P (us @ t) = t"
    if "t = [] \<or> hd t \<in> {CHR ''-'', CHR ''+'', CHR ''k''}" for t
    using stop [OF that] d(3) by (simp_all add: list_all_iff takeWhile_append2 dropWhile_append2)
  have r: "takeWhile ?P (us @ r) = us" "dropWhile ?P (us @ r) = r" using scan [of r] assms(3) by auto
  show "scan_token (ds @ r) = Some (ds, None, r)"
    using d(2) assms(3) by (auto simp: scan_token_def d(1) r split: list.split)
  have k: "takeWhile ?P (us @ CHR ''k'' # r) = us" "dropWhile ?P (us @ CHR ''k'' # r) = CHR ''k'' # r"
    using scan [of "CHR ''k'' # r"] by auto
  show "scan_token (ds @ CHR ''k'' # r) = Some (ds, Some (CHR ''k''), r)"
    using d(2) by (simp add: scan_token_def d(1) k)
qed

lemma float_of_digits:
  assumes "0 < n" and "n < 2 ^ 53"
  shows "\<exists>j. float_of_decimal (shown n) = Some (n * 2 ^ j, - int j)"
proof -
  have f: "filter (\<lambda>c. c \<noteq> CHR '','') (shown n) = shown n" "takeWhile is_digit (shown n) = shown n"
    using shown_digits [of n] digit_marks(1)
    by (auto simp: list_all_iff takeWhile_eq_all_conv intro!: filter_True)
  show ?thesis
    using binary64_exact [OF assms, of 0] by (simp add: float_of_decimal_def f)
qed

lemma trunc_scaled: "trunc_double (n * 2 ^ j, - int j) = n"
  by (cases "j = 0") simp_all

lemma parse_digits:
  assumes "0 < n" and "n < 2 ^ 53"
  shows "parse_employee_count_token (shown n) = Some (int n)"
proof -
  obtain j where j: "float_of_decimal (shown n) = Some (n * 2 ^ j, - int j)"
    using float_of_digits [OF assms] by blast
  have "scan_token (shown n @ []) = Some (shown n, None, [])"
    by (rule scan_digits) (simp_all add: shown_digits shown_nonempty)
  then show ?thesis using j trunc_scaled by (simp add: parse_employee_count_token_def at_end_def)
qed

lemma parse_thousands:
  assumes "0 < n" and "n < 2 ^ 53" and "n * 1000 < 2 ^ 53"
  shows "parse_employee_count_token (shown n @ ''k'') = Some (int (n * 1000))"
proof -
  obtain j where j: "float_of_decimal (shown n) = Some (n * 2 ^ j, - int j)"
    using float_of_digits [OF assms(1,2)] by blast
  have n: "0 < n * 1000" using assms(1) by simp
  obtain i where i: "binary64 (n * 1000 * 2 ^ j) (2 ^ j) = Some (n * 1000 * 2 ^ i, - int i)"
    using binary64_exact [OF n assms(3)] by blast
  have "times_double (n * 2 ^ j, - int j) 1000 = Some (n * 1000 * 2 ^ i, - int i)"
    using i by (simp add: mult.assoc mult.left_commute mult.commute)
  moreover have "scan_token (shown n @ CHR ''k'' # []) = Some (shown n, Some (CHR ''k''), [])"
    by (rule scan_digits) (simp_all add: shown_digits shown_nonempty)
  ultimately show ?thesis
    using j trunc_scaled [of "n * 1000" i]
    by (simp add: parse_employee_count_token_def at_end_def UNIT_MULTIPLIERS_def del: times_double.simps trunc_double.simps)
qed


text \<open>What the band scan makes of the printed forms.\<close>

lemma band_of_shown:
  "band_token (shown n) = None" "band_token (shown n @ ''k'') = None"
  "band_token (shown n @ ''-'' @ shown m) = Some (shown n)" "band_token (shown n @ ''+'') = Some (shown n)"
  "band_token (shown n @ ''k-'' @ shown m @ ''k'') = Some (shown n @ ''k'')"
proof -
  have plain: "scan_token (shown i) = Some (shown i, None, [])" for i
    using scan_digits(1) [of "shown i" "[]"] by (simp add: shown_digits shown_nonempty)
  have kilo: "scan_token (shown i @ ''k'') = Some (shown i, Some (CHR ''k''), [])" for i
    using scan_digits(2) [of "shown i" "[]"] by (simp add: shown_digits shown_nonempty)
  have band: "scan_token (shown n @ ''-'' @ shown m) = Some (shown n, None, ''-'' @ shown m)"
    "scan_token (shown n @ ''+'') = Some (shown n, None, ''+'')"
    "scan_token (shown n @ ''k-'' @ shown m @ ''k'') = Some (shown n, Some (CHR ''k''), ''-'' @ shown m @ ''k'')"
    using scan_digits(1) [of "shown n" "''-'' @ shown m"] scan_digits(1) [of "shown n" "''+''"]
      scan_digits(2) [of "shown n" "''-'' @ shown m @ ''k''"]
    by (simp_all add: shown_digits shown_nonempty)
  show "band_token (shown n) = None" "band_token (shown n @ ''k'') = None"
    by (simp_all add: band_token_def plain kilo)
  show "band_token (shown n @ ''-'' @ shown m) = Some (shown n)" "band_token (shown n @ ''+'') = Some (shown n)"
    "band_token (shown n @ ''k-'' @ shown m @ ''k'') = Some (shown n @ ''k'')"
    using band by (simp_all add: band_token_def plain kilo at_end_def)
qed

lemma text_count:
  assumes "s \<noteq> []" and "list_all count_char s"
    and "parse_employee_count_token (case band_token s of None \<Rightarrow> s | Some t \<Rightarrow> t) = Some n"
  shows "normalize_employee_count (Raw (VStr s)) = checked_count n"
  using assms(1,3) count_text [OF assms(1,2)]
  by (simp add: normalize_employee_count_def employee_count_of_text_def)

lemma count_shapes_read_back:
  assumes "1 \<le> n" and "n \<le> 10000000"
  shows "normalize_employee_count (Raw (VInt (int n))) = VInt (int n)"
    and "normalize_employee_count (Raw (VStr (shown n))) = VInt (int n)"
    and "normalize_employee_count (Raw (VStr (shown n @ ''+''))) = VInt (int n)"
    and "normalize_employee_count (Raw (VStr (shown n @ ''-'' @ shown m))) = VInt (int n)"
    and "n \<le> 10000 \<longrightarrow> normalize_employee_count (Raw (VStr (shown n @ ''k''))) = VInt (1000 * int n)
           \<and> normalize_employee_count (Raw (VStr (shown n @ ''k-'' @ shown m @ ''k''))) = VInt (1000 * int n)"
proof -
  have n: "0 < n" "n < 2 ^ 53" using assms by simp_all
  have checked: "checked_count (int n) = VInt (int n)"
    using assms by (simp add: checked_count_def EMPLOYEE_COUNT_MIN_def EMPLOYEE_COUNT_MAX_def)
  have chars: "list_all count_char (shown i)" "count_char (CHR ''k'')" "count_char (CHR ''-'')"
    "count_char (CHR ''+'')" for i
    using shown_digits [of i] by (auto simp: list_all_iff count_char_def)
  obtain j where "binary64 n 1 = Some (n * 2 ^ j, - int j)"
    using binary64_exact [OF n, of 0] by auto
  then have "int_of_float_of_int (int n) = Some (int n)"
    using n trunc_scaled [of n j] by (simp add: int_of_float_of_int_def del: trunc_double.simps)
  then show "normalize_employee_count (Raw (VInt (int n))) = VInt (int n)"
    by (simp add: normalize_employee_count_def checked)
  have bare: "normalize_employee_count (Raw (VStr s)) = VInt (int n)"
    if "s \<noteq> []" "list_all count_char s" "(case band_token s of None \<Rightarrow> s | Some t \<Rightarrow> t) = shown n" for s
    using text_count [OF that(1,2)] that(3) parse_digits [OF n] checked by simp
  show "normalize_employee_count (Raw (VStr (shown n))) = VInt (int n)"
    by (rule bare) (simp_all add: shown_nonempty chars band_of_shown)
  show "normalize_employee_count (Raw (VStr (shown n @ ''+''))) = VInt (int n)"
    by (rule bare) (simp_all add: shown_nonempty chars band_of_shown)
  show "normalize_employee_count (Raw (VStr (shown n @ ''-'' @ shown m))) = VInt (int n)"
    using band_of_shown(3) [of n m] by (intro bare) (simp_all add: shown_nonempty chars)
  have kilo: "normalize_employee_count (Raw (VStr s)) = VInt (1000 * int n)"
    if "n \<le> 10000" "s \<noteq> []" "list_all count_char s"
      "(case band_token s of None \<Rightarrow> s | Some t \<Rightarrow> t) = shown n @ ''k''" for s
  proof -
    have "parse_employee_count_token (shown n @ ''k'') = Some (int (n * 1000))"
      using that(1) n by (intro parse_thousands) simp_all
    moreover have "checked_count (int (n * 1000)) = VInt (1000 * int n)"
      using that(1) n by (simp add: checked_count_def EMPLOYEE_COUNT_MIN_def EMPLOYEE_COUNT_MAX_def)
    ultimately show ?thesis using text_count [OF that(2,3)] that(4) by simp
  qed
  show "n \<le> 10000 \<longrightarrow> normalize_employee_count (Raw (VStr (shown n @ ''k''))) = VInt (1000 * int n)
           \<and> normalize_employee_count (Raw (VStr (shown n @ ''k-'' @ shown m @ ''k''))) = VInt (1000 * int n)"
    using kilo [of "shown n @ ''k''"] kilo [of "shown n @ ''k-'' @ shown m @ ''k''"] band_of_shown(2,5) [of n]
    by (simp add: shown_nonempty chars)
qed

text \<open>
  C38. Printed head counts are read back exactly. A count between 1 and ten million is read
  from the number itself, from its decimal digits, from the open band \<open>n+\<close>, and from a band
  \<open>n-m\<close>, which collapses to its lower end whatever the upper one is; with the suffix \<open>k\<close> the
  same forms give a thousand times the number, without a rounding error of the float product.
\<close>

theorem printed_counts_are_read_back:
  assumes "1 \<le> n" and "n \<le> 10000000"
  shows "normalize_employee_count (Raw (VInt (int n))) = VInt (int n)
    \<and> normalize_employee_count (Raw (VStr (shown n))) = VInt (int n)
    \<and> normalize_employee_count (Raw (VStr (shown n @ ''+''))) = VInt (int n)
    \<and> normalize_employee_count (Raw (VStr (shown n @ ''-'' @ shown m))) = VInt (int n)
    \<and> (n \<le> 10000 \<longrightarrow> normalize_employee_count (Raw (VStr (shown n @ ''k''))) = VInt (1000 * int n)
           \<and> normalize_employee_count (Raw (VStr (shown n @ ''k-'' @ shown m @ ''k''))) = VInt (1000 * int n))"
  by (intro conjI count_shapes_read_back assms)

theorem printed_counts_are_read_back_witness:
  "normalize_employee_count (Raw (VStr (shown 51 @ ''-'' @ shown 200))) = VInt 51
    \<and> normalize_employee_count (Raw (VStr (shown 10 @ ''k-'' @ shown 50 @ ''k''))) = VInt 10000"
  using printed_counts_are_read_back [of 51 200] printed_counts_are_read_back [of 10 50] by simp

end
