(* ===== verification/Provider_Contract.thy ===== *)
theory Provider_Contract
  imports Employee_Count Json_Value
begin

text \<open>
  \<open>arie.normalization.contract\<close>: the boundary between a provider's answer and the evidence
  store. A raw field either has no normaliser and is ignored, or says nothing, or does not map
  and is reported, or maps to a canonical value and becomes evidence.
\<close>

text \<open>A value of a decoded JSON body. \<open>rep\<close> is \<open>str()\<close> of a float, a list or an object.\<close>

definition raw_of_json :: "(json \<Rightarrow> string) \<Rightarrow> json \<Rightarrow> raw_value" where
  "raw_of_json rep j =
     (case j of
        JNull \<Rightarrow> Raw VNone
      | JBool b \<Rightarrow> Raw (VBool b)
      | JInt i \<Rightarrow> Raw (VInt i)
      | JFloat x \<Rightarrow> (case x of Fin y \<Rightarrow> Raw (VFloat y (rep j)) | _ \<Rightarrow> NonFinite (rep j))
      | JStr s \<Rightarrow> Raw (VStr s)
      | JList xs \<Rightarrow> Raw (VOther (rep j) (xs \<noteq> []))
      | JObj d \<Rightarrow> Raw (VOther (rep j) (d \<noteq> [])))"

definition raw_py :: "raw_value \<Rightarrow> pyval" where
  "raw_py v = (case v of Raw p \<Rightarrow> p | NonFinite s \<Rightarrow> VOther s True)"

type_synonym normalizers = "(string \<times> (raw_value \<Rightarrow> pyval)) list"

definition COMPANY_NORMALIZERS :: normalizers where
  "COMPANY_NORMALIZERS =
     [(''employee_count'', normalize_employee_count),
      (''industry'', \<lambda>v. VStr (normalize_industry (raw_py v)))]"

definition PERSON_NORMALIZERS :: normalizers where
  "PERSON_NORMALIZERS =
     [(''title_seniority'', \<lambda>v. VStr (normalize_seniority (raw_py v))),
      (''title_function'', \<lambda>v. VStr (normalize_function (raw_py v)))]"

fun normalizers_by_entity :: "entity_type \<Rightarrow> normalizers" where
  "normalizers_by_entity Company = COMPANY_NORMALIZERS"
| "normalizers_by_entity Person = PERSON_NORMALIZERS"

record unmapped_value =
  uv_field :: string
  uv_raw :: string

record mapped_value =
  mv_field :: string
  mv_raw :: string
  mv_canonical :: pyval

definition RAW_PREVIEW_CHARS :: nat where "RAW_PREVIEW_CHARS = 120"

record normalization_report =
  nr_provider :: string
  nr_entity :: entity_type
  nr_fields :: "(string \<times> pyval) list"
  nr_mapped :: "mapped_value list"
  nr_unmapped :: "unmapped_value list"
  nr_ignored :: "string list"

definition has_usable_fields :: "normalization_report \<Rightarrow> bool" where
  "has_usable_fields r \<longleftrightarrow> nr_fields r \<noteq> []"

text \<open>\<open>audit()\<close>: the mapped and the unmapped entries, each by field name.\<close>

definition report_audit ::
  "normalization_report \<Rightarrow> (string \<times> string \<times> pyval) list \<times> (string \<times> string) list" where
  "report_audit r =
     (map (\<lambda>m. (mv_field m, mv_raw m, mv_canonical m)) (sort_key mv_field (nr_mapped r)),
      map (\<lambda>u. (uv_field u, uv_raw u)) (sort_key uv_field (nr_unmapped r)))"

definition said_nothing :: "raw_value \<Rightarrow> bool" where
  "said_nothing v \<longleftrightarrow>
     (case v of
        Raw VNone \<Rightarrow> True
      | Raw (VStr s) \<Rightarrow> py_strip s = []
      | _ \<Rightarrow> False)"

definition preview :: "raw_value \<Rightarrow> string" where
  "preview v = take RAW_PREVIEW_CHARS (py_str (raw_py v))"

definition normalize_field ::
  "normalizers \<Rightarrow> (string \<times> raw_value) list \<Rightarrow> normalization_report \<Rightarrow> string \<Rightarrow> normalization_report" where
  "normalize_field ns raw_fields rep name =
     (case map_of ns name of
        None \<Rightarrow> rep\<lparr>nr_ignored := nr_ignored rep @ [name]\<rparr>
      | Some normalizer \<Rightarrow>
          (let raw = the (map_of raw_fields name); value = normalizer raw
           in if said_nothing raw then rep
              else if is_unknown (Some value)
              then rep\<lparr>nr_unmapped := nr_unmapped rep @ [\<lparr>uv_field = name, uv_raw = preview raw\<rparr>]\<rparr>
              else rep\<lparr>nr_fields := nr_fields rep @ [(name, value)],
                       nr_mapped := nr_mapped rep
                         @ [\<lparr>mv_field = name, mv_raw = preview raw, mv_canonical = value\<rparr>]\<rparr>))"

definition normalize_provider_fields ::
  "string \<Rightarrow> entity_type \<Rightarrow> (string \<times> raw_value) list \<Rightarrow> normalization_report" where
  "normalize_provider_fields provider t raw_fields =
     foldl (normalize_field (normalizers_by_entity t) raw_fields)
       \<lparr>nr_provider = provider, nr_entity = t, nr_fields = [], nr_mapped = [], nr_unmapped = [],
        nr_ignored = []\<rparr>
       (sort (map fst raw_fields))"

subsection \<open>What crosses the boundary\<close>

text \<open>The values a field of canonical evidence can hold.\<close>

definition canonical_field :: "entity_type \<Rightarrow> string \<times> pyval \<Rightarrow> bool" where
  "canonical_field t f \<longleftrightarrow>
     (case t of
        Company \<Rightarrow>
          (fst f = ''employee_count'' \<and> (\<exists>n. snd f = VInt n \<and> 1 \<le> n \<and> n \<le> 10000000))
          \<or> (fst f = ''industry'' \<and> (\<exists>s. snd f = VStr s \<and> s \<in> set (butlast CANONICAL_INDUSTRIES)))
      | Person \<Rightarrow>
          (fst f = ''title_seniority'' \<and> (\<exists>s. snd f = VStr s \<and> s \<in> set (butlast CANONICAL_SENIORITIES)))
          \<or> (fst f = ''title_function'' \<and> (\<exists>s. snd f = VStr s \<and> s \<in> set (butlast CANONICAL_FUNCTIONS))))"

lemma normalizer_canonical:
  assumes "map_of (normalizers_by_entity t) name = Some f" and "\<not> is_unknown (Some (f v))"
  shows "canonical_field t (name, f v)"
proof (cases t)
  case Company
  then have "name = ''employee_count'' \<and> f = normalize_employee_count
      \<or> name = ''industry'' \<and> f = (\<lambda>v. VStr (normalize_industry (raw_py v)))"
    using assms(1) by (auto simp: COMPANY_NORMALIZERS_def split: if_splits)
  with assms(2) Company employee_count_range [of v] normalized_canonical(1) [of "raw_py v"] show ?thesis
    by (auto simp: canonical_field_def is_unknown_def canonical_ends)
next
  case Person
  then have "name = ''title_seniority'' \<and> f = (\<lambda>v. VStr (normalize_seniority (raw_py v)))
      \<or> name = ''title_function'' \<and> f = (\<lambda>v. VStr (normalize_function (raw_py v)))"
    using assms(1) by (auto simp: PERSON_NORMALIZERS_def split: if_splits)
  with assms(2) Person normalized_canonical(2,4) [of "raw_py v"] show ?thesis
    by (auto simp: canonical_field_def is_unknown_def canonical_ends)
qed

definition blank_names :: "normalizers \<Rightarrow> (string \<times> raw_value) list \<Rightarrow> string list \<Rightarrow> string list" where
  "blank_names ns raw_fields names =
     filter (\<lambda>n. map_of ns n \<noteq> None \<and> said_nothing (the (map_of raw_fields n))) names"

text \<open>The report after some names, as the names fall into the four groups.\<close>

definition report_ok :: "entity_type \<Rightarrow> (string \<times> raw_value) list \<Rightarrow> string list \<Rightarrow> normalization_report \<Rightarrow> bool" where
  "report_ok t raw_fields names r \<longleftrightarrow>
     nr_ignored r = filter (\<lambda>n. map_of (normalizers_by_entity t) n = None) names
     \<and> map fst (nr_fields r) = map mv_field (nr_mapped r)
     \<and> map snd (nr_fields r) = map mv_canonical (nr_mapped r)
     \<and> list_all (canonical_field t) (nr_fields r)
     \<and> mset (nr_ignored r) + mset (map mv_field (nr_mapped r)) + mset (map uv_field (nr_unmapped r))
         + mset (blank_names (normalizers_by_entity t) raw_fields names) = mset names"

lemma report_ok_step:
  assumes "report_ok t raw_fields names r"
  shows "report_ok t raw_fields (names @ [n]) (normalize_field (normalizers_by_entity t) raw_fields r n)"
proof -
  let ?ns = "normalizers_by_entity t"
  let ?r = "normalize_field ?ns raw_fields r n"
  have parts: "nr_ignored r = filter (\<lambda>n. map_of ?ns n = None) names"
    "map fst (nr_fields r) = map mv_field (nr_mapped r)" "map snd (nr_fields r) = map mv_canonical (nr_mapped r)"
    "list_all (canonical_field t) (nr_fields r)"
    and sum: "mset (nr_ignored r) + mset (map mv_field (nr_mapped r)) + mset (map uv_field (nr_unmapped r))
         + mset (blank_names ?ns raw_fields names) = mset names"
    using assms by (auto simp: report_ok_def)
  have "nr_ignored ?r = filter (\<lambda>n. map_of ?ns n = None) (names @ [n])"
    using parts(1) by (simp add: normalize_field_def Let_def split: option.split)
  moreover have "map fst (nr_fields ?r) = map mv_field (nr_mapped ?r)"
    using parts(2) by (simp add: normalize_field_def Let_def split: option.split)
  moreover have "map snd (nr_fields ?r) = map mv_canonical (nr_mapped ?r)"
    using parts(3) by (simp add: normalize_field_def Let_def split: option.split)
  moreover have "list_all (canonical_field t) (nr_fields ?r)"
    using parts(4) normalizer_canonical [of t n] by (simp add: normalize_field_def Let_def split: option.split)
  moreover have "mset (nr_ignored ?r) + mset (map mv_field (nr_mapped ?r)) + mset (map uv_field (nr_unmapped ?r))
         + mset (blank_names ?ns raw_fields (names @ [n])) = mset (names @ [n])"
    unfolding mset_append sum [symmetric]
    by (simp add: normalize_field_def blank_names_def Let_def split: option.split)
  ultimately show ?thesis unfolding report_ok_def by blast
qed

lemma report_ok_fold:
  "report_ok t raw_fields done_names r \<Longrightarrow>
     report_ok t raw_fields (done_names @ names)
       (foldl (normalize_field (normalizers_by_entity t) raw_fields) r names)"
proof (induction names arbitrary: done_names r)
  case (Cons n names)
  from Cons.IH [OF report_ok_step [OF Cons.prems]] show ?case by simp
qed simp

lemma normalize_provider_fields_ok:
  "report_ok t raw_fields (sort (map fst raw_fields)) (normalize_provider_fields provider t raw_fields)"
proof -
  let ?init = "\<lparr>nr_provider = provider, nr_entity = t, nr_fields = [], nr_mapped = [], nr_unmapped = [],
        nr_ignored = []\<rparr>"
  have "report_ok t raw_fields [] ?init" by (simp add: report_ok_def blank_names_def)
  from report_ok_fold [OF this, of "sort (map fst raw_fields)"] show ?thesis
    unfolding normalize_provider_fields_def append_Nil .
qed

lemma canonical_known: "canonical_field t f \<Longrightarrow> is_known (map_of [f]) (fst f)"
  by (cases f; cases t)
    (auto simp: canonical_field_def is_known_def is_unknown_def CANONICAL_INDUSTRIES_def
      CANONICAL_SENIORITIES_def CANONICAL_FUNCTIONS_def UNKNOWN_def)

text \<open>Looking a field up in the report.\<close>

definition mapped_value_of :: "normalizers \<Rightarrow> (string \<times> raw_value) list \<Rightarrow> string \<Rightarrow> pyval option" where
  "mapped_value_of ns raw_fields name =
     (case map_of ns name of
        None \<Rightarrow> None
      | Some f \<Rightarrow> (let v = the (map_of raw_fields name)
                  in if said_nothing v \<or> is_unknown (Some (f v)) then None else Some (f v)))"

lemma normalize_field_lookup:
  assumes "map_of (nr_fields r) n = None"
  shows "map_of (nr_fields (normalize_field ns raw_fields r n)) m
    = (if m = n then mapped_value_of ns raw_fields n else map_of (nr_fields r) m)"
  using assms
  by (auto simp: normalize_field_def mapped_value_of_def Let_def map_add_def split: option.split)

lemma report_lookup_fold:
  "distinct names \<Longrightarrow> \<forall>n \<in> set names. map_of (nr_fields r) n = None \<Longrightarrow>
     map_of (nr_fields (foldl (normalize_field ns raw_fields) r names)) m
       = (if m \<in> set names then mapped_value_of ns raw_fields m else map_of (nr_fields r) m)"
proof (induction names arbitrary: r)
  case (Cons n names)
  have "\<forall>k \<in> set names. map_of (nr_fields (normalize_field ns raw_fields r n)) k = None"
    using Cons.prems by (auto simp: normalize_field_lookup)
  with Cons show ?case by (auto simp: normalize_field_lookup)
qed simp

lemma report_lookup:
  assumes "distinct (map fst raw_fields)"
  shows "map_of (nr_fields (normalize_provider_fields provider t raw_fields)) m
    = (case map_of raw_fields m of None \<Rightarrow> None | Some _ \<Rightarrow> mapped_value_of (normalizers_by_entity t) raw_fields m)"
proof -
  have "map_of raw_fields m = None \<longleftrightarrow> m \<notin> set (map fst raw_fields)"
    by (simp add: map_of_eq_None_iff)
  then show ?thesis
    using assms report_lookup_fold [of "sort (map fst raw_fields)"]
    by (auto simp: normalize_provider_fields_def split: option.split)
qed

lemma said_nothing_key: "said_nothing v \<Longrightarrow> canonical_key (raw_py v) = []"
  by (auto simp: said_nothing_def raw_py_def canonical_key_def fold_key_def py_str_def py_lower_def
      split: raw_value.splits pyval.splits)

lemma person_lookup:
  assumes "distinct (map fst raw_fields)"
  shows "map_of (nr_fields (normalize_provider_fields provider Person raw_fields)) ''title_seniority''
      = (case map_of raw_fields ''title_seniority'' of
           None \<Rightarrow> None
         | Some v \<Rightarrow> let s = normalize_seniority (raw_py v) in if s = UNKNOWN then None else Some (VStr s))"
    and "map_of (nr_fields (normalize_provider_fields provider Person raw_fields)) ''title_function''
      = (case map_of raw_fields ''title_function'' of
           None \<Rightarrow> None
         | Some v \<Rightarrow> let s = normalize_function (raw_py v) in if s = UNKNOWN then None else Some (VStr s))"
  using said_nothing_key
  by (auto simp: report_lookup [OF assms] mapped_value_of_def PERSON_NORMALIZERS_def is_unknown_def Let_def
      normalize_seniority_def normalize_function_def split: option.split)

text \<open>
  C16. Only canonical evidence crosses the boundary, and nothing is lost on the way. Whatever a
  provider sends, each field of the report is one the scorer reads and holds a member of its
  closed vocabulary or a head count in range, never the sentinel; its audit entries are the same
  fields and values; the ignored names are the fields without a normaliser, in order; and the
  names the provider sent are, counted with multiplicity, the ignored ones, the mapped ones, the
  unmapped ones and those about which it said nothing.
\<close>

theorem only_canonical_evidence_crosses:
  "let r = normalize_provider_fields provider t raw_fields; names = sort (map fst raw_fields);
       ns = normalizers_by_entity t
   in list_all (\<lambda>f. canonical_field t f \<and> is_known (map_of [f]) (fst f)) (nr_fields r)
      \<and> nr_fields r = map (\<lambda>m. (mv_field m, mv_canonical m)) (nr_mapped r)
      \<and> nr_ignored r = filter (\<lambda>n. map_of ns n = None) names
      \<and> mset (map fst raw_fields) = mset (nr_ignored r) + mset (map fst (nr_fields r))
            + mset (map uv_field (nr_unmapped r)) + mset (blank_names ns raw_fields names)"
proof -
  let ?r = "normalize_provider_fields provider t raw_fields"
  have parts: "nr_ignored ?r = filter (\<lambda>n. map_of (normalizers_by_entity t) n = None) (sort (map fst raw_fields))"
    "map fst (nr_fields ?r) = map mv_field (nr_mapped ?r)" "map snd (nr_fields ?r) = map mv_canonical (nr_mapped ?r)"
    "list_all (canonical_field t) (nr_fields ?r)"
    and sum: "mset (nr_ignored ?r) + mset (map mv_field (nr_mapped ?r)) + mset (map uv_field (nr_unmapped ?r))
         + mset (blank_names (normalizers_by_entity t) raw_fields (sort (map fst raw_fields)))
       = mset (sort (map fst raw_fields))"
    using normalize_provider_fields_ok [of t raw_fields provider] unfolding report_ok_def by blast+
  have "list_all (\<lambda>f. canonical_field t f \<and> is_known (map_of [f]) (fst f)) (nr_fields ?r)"
    using parts(4) canonical_known unfolding list_all_iff by blast
  moreover have "nr_fields ?r = zip (map mv_field (nr_mapped ?r)) (map mv_canonical (nr_mapped ?r))"
    using zip_map_fst_snd [of "nr_fields ?r"] parts(2,3) by argo
  then have "nr_fields ?r = map (\<lambda>m. (mv_field m, mv_canonical m)) (nr_mapped ?r)"
    by (simp add: zip_map_map zip_same_conv_map)
  moreover have "mset (map fst raw_fields) = mset (nr_ignored ?r) + mset (map fst (nr_fields ?r))
            + mset (map uv_field (nr_unmapped ?r))
            + mset (blank_names (normalizers_by_entity t) raw_fields (sort (map fst raw_fields)))"
    unfolding parts(2) sum by simp
  ultimately show ?thesis unfolding Let_def using parts(1) by blast
qed

end
