(* ===== verification/Ledger.thy ===== *)
theory Ledger
  imports Policy_Base Keyed_Log
begin

text \<open>
  \<open>arie.ledger\<close>: what a recorded cost is (\<open>cost_basis\<close>), the price of a model call
  (\<open>pricing\<close>) and the durable ledger of provider and model calls (\<open>store\<close>). Every ledger
  write commits in a transaction of its own, so the two tables are values of their own here,
  apart from the database of the work transaction. The UUID a row is given, the database's clock
  and the Python clock are arguments. Decimals are exact reals, so \<open>usd\<close> is the identity.
\<close>

subsection \<open>What a cost is\<close>

datatype cost_basis =
  Simulated_Catalogue | Modelled_Credit_Equivalent | Modelled_List_Price | Vendor_Billed

fun cost_basis_str :: "cost_basis \<Rightarrow> string" where
  "cost_basis_str Simulated_Catalogue = ''simulated_catalogue''"
| "cost_basis_str Modelled_Credit_Equivalent = ''modelled_credit_equivalent''"
| "cost_basis_str Modelled_List_Price = ''modelled_list_price''"
| "cost_basis_str Vendor_Billed = ''vendor_billed''"

definition cost_basis_of :: "string \<Rightarrow> cost_basis option" where
  "cost_basis_of s =
     find (\<lambda>b. cost_basis_str b = s)
       [Simulated_Catalogue, Modelled_Credit_Equivalent, Modelled_List_Price, Vendor_Billed]"

definition REAL_BASES :: "cost_basis set" where
  "REAL_BASES = {Modelled_Credit_Equivalent, Modelled_List_Price, Vendor_Billed}"

definition is_real_provider_call :: "string option \<Rightarrow> bool" where
  "is_real_provider_call basis =
     (case basis of
        None \<Rightarrow> False
      | Some s \<Rightarrow> (case cost_basis_of s of None \<Rightarrow> False | Some b \<Rightarrow> b \<in> REAL_BASES))"

text \<open>The three SQL predicates over a row. \<open>x IS NOT DISTINCT FROM 'c'\<close> is false on NULL.\<close>

definition modelled_spend_sql :: "string option \<Rightarrow> bool" where
  "modelled_spend_sql basis \<longleftrightarrow> basis = Some ''simulated_catalogue''"

definition estimated_live_sql :: "string option \<Rightarrow> bool" where
  "estimated_live_sql basis \<longleftrightarrow>
     basis \<in> {Some ''modelled_credit_equivalent'', Some ''modelled_list_price'', Some ''vendor_billed''}"

definition actual_spend_sql :: "real option \<Rightarrow> bool" where
  "actual_spend_sql actual \<longleftrightarrow> actual \<noteq> None"

lemma cost_basis_of_str [simp]: "cost_basis_of (cost_basis_str b) = Some b"
  by (cases b) (simp_all add: cost_basis_of_def)

lemma cost_basis_of_Some: "cost_basis_of s = Some b \<longleftrightarrow> s = cost_basis_str b"
proof
  assume "cost_basis_of s = Some b"
  then show "s = cost_basis_str b"
    unfolding cost_basis_of_def find_Some_iff by blast
qed simp

lemma cost_basis_str_inject [simp]: "cost_basis_str a = cost_basis_str b \<longleftrightarrow> a = b"
proof
  assume "cost_basis_str a = cost_basis_str b"
  then have "cost_basis_of (cost_basis_str a) = cost_basis_of (cost_basis_str b)" by (rule arg_cong)
  then show "a = b" unfolding cost_basis_of_str by (rule option.inject [THEN iffD1])
qed simp

lemma is_real_iff_estimated_live: "is_real_provider_call basis \<longleftrightarrow> estimated_live_sql basis"
proof (cases basis)
  case (Some s)
  have "estimated_live_sql (Some s) \<longleftrightarrow> (\<exists>b \<in> REAL_BASES. s = cost_basis_str b)"
    unfolding estimated_live_sql_def REAL_BASES_def cost_basis_str.simps [symmetric] by blast
  also have "\<dots> \<longleftrightarrow> is_real_provider_call (Some s)"
    by (cases "cost_basis_of s") (use cost_basis_of_Some [of s] in \<open>force simp: is_real_provider_call_def\<close>)+
  finally show ?thesis using Some by simp
qed (simp add: is_real_provider_call_def estimated_live_sql_def)

subsection \<open>Model prices\<close>

datatype model_tier = Cheap_Model | Strong_Model

record model_price =
  mp_model :: string
  mp_tier :: model_tier
  mp_input :: real
  mp_output :: real

definition model_cost_usd :: "model_price \<Rightarrow> int \<Rightarrow> int \<Rightarrow> error + real" where
  "model_cost_usd p prompt_tokens completion_tokens =
     (if prompt_tokens < 0 \<or> completion_tokens < 0 then Inl ValueError
      else Inr ((of_int prompt_tokens * mp_input p + of_int completion_tokens * mp_output p) / 1000000))"

definition MODEL_PRICES :: "(string \<times> model_price) list" where
  "MODEL_PRICES =
     map (\<lambda>p. (mp_model p, p))
       [\<lparr>mp_model = ''deepseek-chat'', mp_tier = Cheap_Model, mp_input = 0.27, mp_output = 1.10\<rparr>,
        \<lparr>mp_model = ''deepseek-reasoner'', mp_tier = Strong_Model, mp_input = 0.55, mp_output = 2.19\<rparr>,
        \<lparr>mp_model = ''fake-llm'', mp_tier = Cheap_Model, mp_input = 0, mp_output = 0\<rparr>,
        \<lparr>mp_model = ''amazon.nova-micro-v1:0'', mp_tier = Cheap_Model, mp_input = 0.035, mp_output = 0.14\<rparr>,
        \<lparr>mp_model = ''google.gemma-3-4b-it'', mp_tier = Cheap_Model, mp_input = 0.04, mp_output = 0.08\<rparr>]"

definition price_for :: "string \<Rightarrow> error + model_price" where
  "price_for model =
     (case map_of MODEL_PRICES model of None \<Rightarrow> Inl (UnknownModelError model) | Some p \<Rightarrow> Inr p)"

definition model_call_cost_usd :: "string \<Rightarrow> int \<Rightarrow> int \<Rightarrow> error + real" where
  "model_call_cost_usd model prompt_tokens completion_tokens =
     sum_bind (price_for model) (\<lambda>p. model_cost_usd p prompt_tokens completion_tokens)"

definition GUARDRAIL_TEXT_UNIT_CHARS :: int where
  "GUARDRAIL_TEXT_UNIT_CHARS = 1000"

definition GUARDRAIL_UNIT_PRICES :: "(string \<times> real) list" where
  "GUARDRAIL_UNIT_PRICES =
     [(''topic'', 0.00015), (''content'', 0.00015), (''sensitive_information'', 0.00010),
      (''contextual_grounding'', 0.00010), (''word'', 0)]"

text \<open>The five keyword arguments, in the order of the dictionary the code builds of them.\<close>

definition guardrail_cost_usd :: "int \<Rightarrow> int \<Rightarrow> int \<Rightarrow> int \<Rightarrow> int \<Rightarrow> error + real" where
  "guardrail_cost_usd topic_units content_units sensitive_units grounding_units word_units =
     (let counts = [topic_units, content_units, sensitive_units, grounding_units, word_units]
      in if list_ex (\<lambda>n. n < 0) counts then Inl ValueError
         else Inr (sum_list (map2 (\<lambda>(_, price) n. price * of_int n) GUARDRAIL_UNIT_PRICES counts)))"

definition estimated_guardrail_units :: "int \<Rightarrow> int" where
  "estimated_guardrail_units chars =
     (if chars \<le> 0 then 0 else - (- chars div GUARDRAIL_TEXT_UNIT_CHARS))"

lemma model_cost_nonneg:
  assumes "model_call_cost_usd model p c = Inr x"
  shows "0 \<le> x"
proof -
  from assms obtain m where m: "map_of MODEL_PRICES model = Some m" "model_cost_usd m p c = Inr x"
    by (auto simp: model_call_cost_usd_def price_for_def sum_bind_Inr split: option.splits)
  have "\<forall>p \<in> snd ` set MODEL_PRICES. 0 \<le> mp_input p \<and> 0 \<le> mp_output p"
    by (simp add: MODEL_PRICES_def)
  moreover have "m \<in> snd ` set MODEL_PRICES" using map_of_SomeD [OF m(1)] by force
  ultimately have "0 \<le> mp_input m \<and> 0 \<le> mp_output m" by blast
  moreover have pc: "0 \<le> p" "0 \<le> c" and x: "x = (of_int p * mp_input m + of_int c * mp_output m) / 1000000"
    using m(2) by (auto simp: model_cost_usd_def split: if_splits)
  ultimately show "0 \<le> x"
    unfolding x by (intro divide_nonneg_nonneg add_nonneg_nonneg mult_nonneg_nonneg) simp_all
qed

subsection \<open>The tables\<close>

definition py_int :: "real \<Rightarrow> int" where
  "py_int x = (if 0 \<le> x then \<lfloor>x\<rfloor> else \<lceil>x\<rceil>)"

record provider_call =
  pc_call_id :: uuid
  pc_key :: string
  pc_organization_id :: uuid
  pc_lead_id :: "uuid option"
  pc_provider :: string
  pc_entity_type :: entity_type
  pc_entity_id :: uuid
  pc_requested_at :: instant
  pc_completed_at :: instant
  pc_latency_ms :: int
  pc_cost :: real
  pc_status :: provider_status
  pc_cache_hit :: bool
  pc_raw_ref :: "string option"
  pc_error_kind :: "string option"
  pc_credits :: "real option"
  pc_cost_basis :: "string option"
  pc_suppressed :: "string option"
  pc_credential_source :: "string option"
  pc_actual_cost :: "real option"

record ledger_write =
  lw_call_id :: uuid
  lw_cost :: real
  lw_recorded :: bool

text \<open>The arguments of \<open>record_provider_call\<close>.\<close>

record provider_charge =
  ch_key :: string
  ch_provider :: string
  ch_entity_type :: entity_type
  ch_entity_id :: uuid
  ch_status :: provider_status
  ch_cost :: real
  ch_latency :: real
  ch_organization_id :: uuid
  ch_lead_id :: "uuid option"
  ch_cache_hit :: bool
  ch_raw_ref :: "string option"
  ch_completed_at :: "instant option"
  ch_error_kind :: "string option"
  ch_credits :: "real option"
  ch_cost_basis :: "string option"
  ch_suppressed :: "string option"
  ch_credential_source :: "string option"
  ch_actual_cost :: "real option"

record write_env =
  we_fresh :: uuid
  we_db_now :: instant
  we_py_now :: instant

definition provider_row :: "write_env \<Rightarrow> provider_charge \<Rightarrow> provider_call" where
  "provider_row env c =
     \<lparr>pc_call_id = we_fresh env, pc_key = ch_key c, pc_organization_id = ch_organization_id c,
      pc_lead_id = ch_lead_id c, pc_provider = ch_provider c, pc_entity_type = ch_entity_type c,
      pc_entity_id = ch_entity_id c, pc_requested_at = we_db_now env,
      pc_completed_at = (case ch_completed_at c of None \<Rightarrow> we_py_now env | Some t \<Rightarrow> t),
      pc_latency_ms = (if ch_cache_hit c then 0 else py_int (ch_latency c)),
      pc_cost = (if ch_cache_hit c then 0 else ch_cost c),
      pc_status = ch_status c, pc_cache_hit = ch_cache_hit c, pc_raw_ref = ch_raw_ref c,
      pc_error_kind = ch_error_kind c,
      pc_credits = (if ch_cache_hit c then None else ch_credits c),
      pc_cost_basis = (if ch_cache_hit c then None else ch_cost_basis c),
      pc_suppressed = ch_suppressed c, pc_credential_source = ch_credential_source c,
      pc_actual_cost = ch_actual_cost c\<rparr>"

text \<open>\<open>provider_calls_cost_basis_check\<close> and \<open>model_calls_cost_basis_check\<close>.\<close>

definition basis_allowed :: "string option \<Rightarrow> bool" where
  "basis_allowed basis \<longleftrightarrow> (case basis of None \<Rightarrow> True | Some s \<Rightarrow> cost_basis_of s \<noteq> None)"

text \<open>\<open>INSERT ... ON CONFLICT (idempotency_key) DO UPDATE SET idempotency_key = itself
  RETURNING call_id, cost_usd, (xmax = 0)\<close>\<close>

definition record_provider_call ::
  "write_env \<Rightarrow> provider_charge \<Rightarrow> provider_call list \<Rightarrow> error + provider_call list \<times> ledger_write" where
  "record_provider_call env c rows =
     (let row = provider_row env c
      in if \<not> basis_allowed (pc_cost_basis row) then Inl (CheckViolation ''provider_calls_cost_basis_check'')
         else case find (\<lambda>r. pc_key r = ch_key c) rows of
           Some r \<Rightarrow>
             Inr (rows, \<lparr>lw_call_id = pc_call_id r, lw_cost = pc_cost r, lw_recorded = False\<rparr>)
         | None \<Rightarrow>
             Inr (rows @ [row],
               \<lparr>lw_call_id = pc_call_id row, lw_cost = pc_cost row, lw_recorded = True\<rparr>))"

record model_call =
  mc_call_id :: uuid
  mc_key :: "string option"
  mc_organization_id :: uuid
  mc_lead_id :: "uuid option"
  mc_model :: string
  mc_tier :: model_tier
  mc_purpose :: string
  mc_escalated_from :: "string option"
  mc_prompt_tokens :: int
  mc_completion_tokens :: int
  mc_cost :: real
  mc_latency_ms :: "int option"
  mc_provider :: "string option"
  mc_batch_id :: "uuid option"
  mc_actual_cost :: "real option"
  mc_cost_basis :: "string option"
  mc_created_at :: instant

record model_charge =
  mg_key :: "string option"
  mg_model :: string
  mg_purpose :: string
  mg_prompt_tokens :: int
  mg_completion_tokens :: int
  mg_organization_id :: uuid
  mg_lead_id :: "uuid option"
  mg_latency :: "real option"
  mg_escalated_from :: "string option"
  mg_cost :: "real option"
  mg_provider :: "string option"
  mg_batch_id :: "uuid option"
  mg_actual_cost :: "real option"
  mg_cost_basis :: "string option"

text \<open>\<open>cost_basis or (...)\<close>: an empty string falls through to the default as None does.\<close>

definition resolved_basis :: "model_price \<Rightarrow> string option \<Rightarrow> string" where
  "resolved_basis p basis =
     (case basis of
        Some (c # cs) \<Rightarrow> c # cs
      | _ \<Rightarrow> if mp_input p = 0 \<and> mp_output p = 0 then cost_basis_str Simulated_Catalogue
             else cost_basis_str Modelled_List_Price)"

definition model_row :: "write_env \<Rightarrow> model_charge \<Rightarrow> error + model_call" where
  "model_row env c =
     sum_bind (price_for (mg_model c)) (\<lambda>p.
     sum_bind (case mg_cost c of
                 Some x \<Rightarrow> Inr x
               | None \<Rightarrow> model_call_cost_usd (mg_model c) (mg_prompt_tokens c) (mg_completion_tokens c))
       (\<lambda>cost.
       Inr \<lparr>mc_call_id = we_fresh env, mc_key = mg_key c, mc_organization_id = mg_organization_id c,
            mc_lead_id = mg_lead_id c, mc_model = mg_model c, mc_tier = mp_tier p,
            mc_purpose = mg_purpose c, mc_escalated_from = mg_escalated_from c,
            mc_prompt_tokens = mg_prompt_tokens c, mc_completion_tokens = mg_completion_tokens c,
            mc_cost = cost, mc_latency_ms = map_option py_int (mg_latency c),
            mc_provider = mg_provider c, mc_batch_id = mg_batch_id c,
            mc_actual_cost = mg_actual_cost c,
            mc_cost_basis = Some (resolved_basis p (mg_cost_basis c)),
            mc_created_at = we_db_now env\<rparr>))"

text \<open>NULL keys never conflict: an unkeyed call is always inserted.\<close>

definition record_model_call ::
  "write_env \<Rightarrow> model_charge \<Rightarrow> model_call list \<Rightarrow> error + model_call list \<times> ledger_write" where
  "record_model_call env c rows =
     sum_bind (model_row env c) (\<lambda>row.
       if \<not> basis_allowed (mc_cost_basis row) then Inl (CheckViolation ''model_calls_cost_basis_check'')
       else case find (\<lambda>r. mg_key c \<noteq> None \<and> mc_key r = mg_key c) rows of
         Some r \<Rightarrow> Inr (rows, \<lparr>lw_call_id = mc_call_id r, lw_cost = mc_cost r, lw_recorded = False\<rparr>)
       | None \<Rightarrow>
           Inr (rows @ [row], \<lparr>lw_call_id = mc_call_id row, lw_cost = mc_cost row, lw_recorded = True\<rparr>))"

text \<open>\<open>v_lead_cost\<close> of one lead.\<close>

record lead_cost =
  lk_provider_cost :: real
  lk_model_cost :: real
  lk_total_cost :: real
  lk_provider_calls :: nat
  lk_cache_hits :: nat
  lk_provider_latency :: int

definition lead_cost_of :: "uuid \<Rightarrow> provider_call list \<Rightarrow> model_call list \<Rightarrow> lead_cost" where
  "lead_cost_of i pcs mcs =
     (let ps = filter (\<lambda>r. pc_lead_id r = Some i) pcs; ms = filter (\<lambda>r. mc_lead_id r = Some i) mcs;
          pcost = sum_list (map pc_cost ps); mcost = sum_list (map mc_cost ms)
      in \<lparr>lk_provider_cost = pcost, lk_model_cost = mcost, lk_total_cost = pcost + mcost,
          lk_provider_calls = length (filter (\<lambda>r. \<not> pc_cache_hit r) ps),
          lk_cache_hits = length (filter pc_cache_hit ps),
          lk_provider_latency = sum_list (map pc_latency_ms ps)\<rparr>)"

subsection \<open>The ledger charges each key once\<close>

definition provider_charged :: "provider_call list \<Rightarrow> string \<Rightarrow> (uuid \<times> real) option" where
  "provider_charged rows k =
     map_option (\<lambda>r. (pc_call_id r, pc_cost r)) (find (\<lambda>r. pc_key r = k) rows)"

definition model_charged :: "model_call list \<Rightarrow> string \<Rightarrow> (uuid \<times> real) option" where
  "model_charged rows k =
     map_option (\<lambda>r. (mc_call_id r, mc_cost r)) (find (\<lambda>r. mc_key r = Some k) rows)"

definition charge_outcome :: "error + 's \<times> ledger_write \<Rightarrow> error + 's \<times> (uuid \<times> real) \<times> bool" where
  "charge_outcome x = sum_bind x (\<lambda>(s, w). Inr (s, (lw_call_id w, lw_cost w), lw_recorded w))"

lemma record_provider_call_Inr:
  "record_provider_call env c rows = Inr (rows', w) \<longleftrightarrow>
     basis_allowed (pc_cost_basis (provider_row env c))
     \<and> (case find (\<lambda>r. pc_key r = ch_key c) rows of
          Some r \<Rightarrow> rows' = rows
            \<and> w = \<lparr>lw_call_id = pc_call_id r, lw_cost = pc_cost r, lw_recorded = False\<rparr>
        | None \<Rightarrow> rows' = rows @ [provider_row env c]
            \<and> w = \<lparr>lw_call_id = we_fresh env, lw_cost = pc_cost (provider_row env c), lw_recorded = True\<rparr>)"
proof -
  have "pc_call_id (provider_row env c) = we_fresh env" by (simp add: provider_row_def)
  then show ?thesis by (auto simp: record_provider_call_def Let_def split: option.splits)
qed

interpretation provider_log: keyed_log "\<lambda>_. True" "\<lambda>(env, c). ch_key c" provider_charged
  "\<lambda>(env, c) rows. charge_outcome (record_provider_call env c rows)"
proof
  fix ec :: "write_env \<times> provider_charge" and rows rows' w f
  obtain env c where ec: "ec = (env, c)" by (metis surj_pair)
  have k: "pc_key (provider_row env c) = ch_key c" by (simp add: provider_row_def)
  have id: "pc_call_id (provider_row env c) = we_fresh env" by (simp add: provider_row_def)
  show "f \<and> provider_charged rows' = (provider_charged rows)((case ec of (env, c) \<Rightarrow> ch_key c) \<mapsto> w)"
    if "provider_charged rows (case ec of (env, c) \<Rightarrow> ch_key c) = None"
      "(case ec of (env, c) \<Rightarrow> \<lambda>rows. charge_outcome (record_provider_call env c rows)) rows = Inr (rows', w, f)"
    using that k id unfolding ec
    by (auto simp: charge_outcome_def sum_bind_Inr record_provider_call_Inr provider_charged_def
        find_append fun_eq_iff split: option.splits)
  show "rows' = rows \<and> w' = w \<and> \<not> f"
    if "provider_charged rows (case ec of (env, c) \<Rightarrow> ch_key c) = Some w"
      "(case ec of (env, c) \<Rightarrow> \<lambda>rows. charge_outcome (record_provider_call env c rows)) rows = Inr (rows', w', f)"
    for w' using that unfolding ec
    by (auto simp: charge_outcome_def sum_bind_Inr record_provider_call_Inr provider_charged_def
        split: option.splits)
qed

lemma model_row_key: "model_row env c = Inr row \<Longrightarrow> mc_key row = mg_key c"
  by (auto simp: model_row_def sum_bind_Inr)

interpretation model_log: keyed_log "\<lambda>(env, c). mg_key c \<noteq> None" "\<lambda>(env, c). the (mg_key c)"
  model_charged "\<lambda>(env, c) rows. charge_outcome (record_model_call env c rows)"
proof
  fix ec :: "write_env \<times> model_charge" and rows rows' w f
  obtain env c where ec: "ec = (env, c)" by (metis surj_pair)
  show "f \<and> model_charged rows' = (model_charged rows)((case ec of (env, c) \<Rightarrow> the (mg_key c)) \<mapsto> w)"
    if "case ec of (env, c) \<Rightarrow> mg_key c \<noteq> None"
      "model_charged rows (case ec of (env, c) \<Rightarrow> the (mg_key c)) = None"
      "(case ec of (env, c) \<Rightarrow> \<lambda>rows. charge_outcome (record_model_call env c rows)) rows = Inr (rows', w, f)"
    using that unfolding ec
    by (auto simp: charge_outcome_def sum_bind_Inr record_model_call_def model_charged_def find_append
        fun_eq_iff model_row_key split: option.splits if_splits)
  show "rows' = rows \<and> w' = w \<and> \<not> f"
    if "case ec of (env, c) \<Rightarrow> mg_key c \<noteq> None"
      "model_charged rows (case ec of (env, c) \<Rightarrow> the (mg_key c)) = Some w"
      "(case ec of (env, c) \<Rightarrow> \<lambda>rows. charge_outcome (record_model_call env c rows)) rows = Inr (rows', w', f)"
    for w' using that unfolding ec
    by (auto simp: charge_outcome_def sum_bind_Inr record_model_call_def model_charged_def
        split: option.splits if_splits)
qed

subsection \<open>The ledger of a job\<close>

text \<open>
  \<open>_DurableCallLedger\<close> of \<open>arie.jobs.handlers\<close>: every record of the in-memory ledger is
  mirrored into the table under a key made of the job, the provider and the entity.
  \<open>ents\<close> maps a canonical key to the database's entity, \<open>derived\<close> is the simulator's own UUID.
\<close>

definition durable_key :: "uuid \<Rightarrow> string \<Rightarrow> string \<Rightarrow> string" where
  "durable_key job provider k = ''job:'' @ py_str_int (int job) @ '':'' @ provider @ '':'' @ k"

record durable_ledger =
  dl_lead_id :: uuid
  dl_job_id :: uuid
  dl_organization_id :: uuid
  dl_entities :: "string \<Rightarrow> (entity_type \<times> uuid) option"
  dl_derived :: "entity \<Rightarrow> uuid"

definition durable_charge ::
  "durable_ledger \<Rightarrow> string \<Rightarrow> entity \<Rightarrow> provider_result \<Rightarrow> bool \<Rightarrow> provider_charge" where
  "durable_charge dl provider e r hit =
     (let (t, i) = (case dl_entities dl (en_key e) of Some m \<Rightarrow> m | None \<Rightarrow> (en_type e, dl_derived dl e))
      in \<lparr>ch_key = durable_key (dl_job_id dl) provider (en_key e), ch_provider = provider,
          ch_entity_type = t, ch_entity_id = i, ch_status = pr_status r, ch_cost = pr_cost r,
          ch_latency = pr_latency r, ch_organization_id = dl_organization_id dl,
          ch_lead_id = Some (dl_lead_id dl), ch_cache_hit = hit, ch_raw_ref = None,
          ch_completed_at = None, ch_error_kind = None, ch_credits = None,
          ch_cost_basis = (if hit then None else Some (cost_basis_str Simulated_Catalogue)),
          ch_suppressed = None, ch_credential_source = None, ch_actual_cost = None\<rparr>)"

definition durable_record ::
  "durable_ledger \<Rightarrow> write_env \<Rightarrow> string \<Rightarrow> entity \<Rightarrow> provider_result \<Rightarrow> bool
     \<Rightarrow> call_record list \<times> provider_call list \<Rightarrow> error + call_record list \<times> provider_call list" where
  "durable_record dl env provider e r hit s =
     (case s of (mem, rows) \<Rightarrow>
        sum_bind (record_provider_call env (durable_charge dl provider e r hit) rows)
          (\<lambda>(rows', _). Inr (ledger_record provider e r hit mem, rows')))"

text \<open>The calls one run of the job recorded, each with the instants it saw.\<close>

type_synonym durable_call = "write_env \<times> string \<times> entity \<times> provider_result \<times> bool"

definition durable_run ::
  "durable_ledger \<Rightarrow> durable_call list \<Rightarrow> provider_call list \<Rightarrow> error + provider_call list" where
  "durable_run dl calls rows =
     sum_bind (sum_foldM (\<lambda>(env, p, e, r, hit). durable_record dl env p e r hit) calls ([], rows))
       (\<lambda>(_, rows'). Inr rows')"

lemma split_at_char: "x \<notin> set a \<Longrightarrow> x \<notin> set b \<Longrightarrow> a @ x # r = b @ x # r' \<longleftrightarrow> a = b \<and> r = r'"
proof (induction a arbitrary: b)
  case Nil
  then show ?case by (cases b) auto
next
  case (Cons y a)
  then show ?case by (cases b) auto
qed

lemma py_str_int_nat_inject: "py_str_int (int m) = py_str_int (int n) \<longleftrightarrow> m = n"
proof
  assume "py_str_int (int m) = py_str_int (int n)"
  then have "digits_value (show_nat_digits m []) = digits_value (show_nat_digits n [])"
    by (simp add: py_str_int_def)
  then show "m = n" unfolding digits_value_show .
qed simp

lemma colon_not_digit: "CHR '':'' \<notin> set (py_str_int (int n))"
proof
  assume "CHR '':'' \<in> set (py_str_int (int n))"
  then have "is_digit CHR '':''" by (simp add: py_str_int_def show_nat_digits_digits)
  then show False by (simp add: is_digit_def code_def)
qed

lemma durable_key_inject:
  assumes "CHR '':'' \<notin> set p" and "CHR '':'' \<notin> set p'"
  shows "durable_key j p k = durable_key j' p' k' \<longleftrightarrow> j = j' \<and> p = p' \<and> k = k'"
proof -
  have "durable_key j p k = durable_key j' p' k'
      \<longleftrightarrow> py_str_int (int j) = py_str_int (int j') \<and> p @ CHR '':'' # k = p' @ CHR '':'' # k'"
    using split_at_char [OF colon_not_digit colon_not_digit] by (simp add: durable_key_def)
  also have "\<dots> \<longleftrightarrow> j = j' \<and> p = p' \<and> k = k'"
    using split_at_char [OF assms] by (simp add: py_str_int_nat_inject)
  finally show ?thesis .
qed

definition charge_rows ::
  "write_env \<times> provider_charge \<Rightarrow> provider_call list \<Rightarrow> error + provider_call list" where
  "charge_rows ec rows =
     sum_bind ((case ec of (env, c) \<Rightarrow> \<lambda>rows. charge_outcome (record_provider_call env c rows)) rows)
       (\<lambda>(s', _). Inr s')"

definition charge_of :: "durable_ledger \<Rightarrow> durable_call \<Rightarrow> write_env \<times> provider_charge" where
  "charge_of dl c = (case c of (env, p, e, r, hit) \<Rightarrow> (env, durable_charge dl p e r hit))"

lemma durable_record_rows:
  "durable_record dl env p e r hit (mem, rows) =
     sum_bind (charge_rows (charge_of dl (env, p, e, r, hit)) rows)
       (\<lambda>rows'. Inr (ledger_record p e r hit mem, rows'))"
  by (cases "record_provider_call env (durable_charge dl p e r hit) rows")
    (auto simp: durable_record_def charge_rows_def charge_outcome_def charge_of_def)

lemma durable_run_charges: "durable_run dl calls rows = sum_foldM charge_rows (map (charge_of dl) calls) rows"
proof -
  have "sum_bind (sum_foldM (\<lambda>(env, p, e, r, hit). durable_record dl env p e r hit) calls (mem, rows))
      (\<lambda>(_, rows'). Inr rows') = sum_foldM charge_rows (map (charge_of dl) calls) rows" for mem
  proof (induction calls arbitrary: mem rows)
    case (Cons c calls)
    obtain env p e r hit where c: "c = (env, p, e, r, hit)" by (metis prod.exhaust)
    show ?case
      by (cases "charge_rows (charge_of dl c) rows") (simp_all add: c durable_record_rows Cons.IH)
  qed simp
  then show ?thesis by (simp add: durable_run_def)
qed

lemma durable_charge_key [simp]: "ch_key (durable_charge dl p e r hit) = durable_key (dl_job_id dl) p (en_key e)"
  by (simp add: durable_charge_def split: prod.splits option.splits)

lemma durable_basis_allowed: "basis_allowed (pc_cost_basis (provider_row env (durable_charge dl p e r hit)))"
  by (simp add: provider_row_def durable_charge_def basis_allowed_def del: cost_basis_str.simps
      split: prod.splits option.splits)

lemma charge_rows_total:
  "\<exists>rows'. charge_rows (charge_of dl c) rows = Inr rows' \<and> set rows \<subseteq> set rows'
     \<and> (distinct (map pc_key rows) \<longrightarrow> distinct (map pc_key rows'))"
proof -
  obtain env p e r hit where c: "c = (env, p, e, r, hit)" by (metis prod.exhaust)
  let ?ch = "durable_charge dl p e r hit"
  show ?thesis
  proof (cases "find (\<lambda>r. pc_key r = ch_key ?ch) rows")
    case None
    then have "ch_key ?ch \<notin> pc_key ` set rows" by (auto simp: find_None_iff)
    with None show ?thesis
      using durable_basis_allowed [of env dl p e r hit]
      by (auto simp: c charge_rows_def charge_of_def charge_outcome_def record_provider_call_def
          Let_def provider_row_def)
  next
    case (Some x)
    then show ?thesis
      using durable_basis_allowed [of env dl p e r hit]
      by (simp add: c charge_rows_def charge_of_def charge_outcome_def record_provider_call_def Let_def)
  qed
qed

lemma charges_total:
  "\<exists>rows'. sum_foldM charge_rows (map (charge_of dl) calls) rows = Inr rows' \<and> set rows \<subseteq> set rows'
     \<and> (distinct (map pc_key rows) \<longrightarrow> distinct (map pc_key rows'))"
proof (induction calls arbitrary: rows)
  case (Cons c calls)
  obtain rows1 where c: "charge_rows (charge_of dl c) rows = Inr rows1" "set rows \<subseteq> set rows1"
    "distinct (map pc_key rows) \<longrightarrow> distinct (map pc_key rows1)"
    using charge_rows_total by blast
  with Cons.IH [of rows1] show ?case by (auto intro: order_trans)
qed simp


definition demo_ledger :: durable_ledger where
  "demo_ledger = \<lparr>dl_lead_id = 7, dl_job_id = 12, dl_organization_id = 3, dl_entities = Map.empty,
     dl_derived = (\<lambda>_. 99)\<rparr>"

definition demo_call :: "real \<Rightarrow> uuid \<Rightarrow> durable_call" where
  "demo_call cost fresh =
     (\<lparr>we_fresh = fresh, we_db_now = 50, we_py_now = 50\<rparr>, ''dns_web'',
      \<lparr>en_type = Company, en_key = ''acme.com''\<rparr>,
      \<lparr>pr_fields = [], pr_confidence = 0, pr_cost = cost, pr_latency = 10, pr_status = MISS,
       pr_matched = None, pr_error_kind = None\<rparr>, False)"


text \<open>
  What a ledger write does to the cost of a lead, as every report reads it: a new charge
  adds exactly its price to the total, or nothing when it was a cache hit, and is counted as one
  call or one hit; a repeated key adds nothing and returns the call and the price of the original;
  no other lead's figures move.
\<close>

theorem lead_cost_counts_each_charge_once:
  fixes i :: uuid and mcs :: "model_call list"
  assumes "record_provider_call env c rows = Inr (rows', w)"
  defines "lk \<equiv> lead_cost_of i rows mcs" and "lk' \<equiv> lead_cost_of i rows' mcs"
    and "mine \<equiv> lw_recorded w \<and> ch_lead_id c = Some i"
  shows "lk_total_cost lk' = lk_total_cost lk + (if mine \<and> \<not> ch_cache_hit c then ch_cost c else 0)
    \<and> lk_provider_calls lk' = lk_provider_calls lk + (if mine \<and> \<not> ch_cache_hit c then 1 else 0)
    \<and> lk_cache_hits lk' = lk_cache_hits lk + (if mine \<and> ch_cache_hit c then 1 else 0)
    \<and> lk_model_cost lk' = lk_model_cost lk
    \<and> (lw_recorded w \<or> rows' = rows
        \<and> (\<exists>r \<in> set rows. pc_key r = ch_key c \<and> lw_call_id w = pc_call_id r \<and> lw_cost w = pc_cost r))"
proof (cases "find (\<lambda>r. pc_key r = ch_key c) rows")
  case None
  with assms(1) have "rows' = rows @ [provider_row env c]" "lw_recorded w"
    by (auto simp: record_provider_call_Inr)
  then show ?thesis
    by (simp add: lk_def lk'_def mine_def lead_cost_of_def Let_def provider_row_def)
next
  case (Some r)
  with assms(1) have w: "rows' = rows" "lw_call_id w = pc_call_id r" "lw_cost w = pc_cost r" "\<not> lw_recorded w"
    by (auto simp: record_provider_call_Inr)
  from Some have "pc_key r = ch_key c" "r \<in> set rows" by (auto simp: find_Some_iff)
  with w show ?thesis by (auto simp: lk_def lk'_def mine_def)
qed

theorem lead_cost_counts_each_charge_once_witness:
  "\<exists>rows w. record_provider_call (fst (charge_of demo_ledger (demo_call 0.02 1)))
      (snd (charge_of demo_ledger (demo_call 0.02 1))) [] = Inr (rows, w)
    \<and> lk_total_cost (lead_cost_of 7 rows []) = 0.02"
proof -
  let ?ec = "charge_of demo_ledger (demo_call 0.02 1)"
  have c: "ch_lead_id (snd ?ec) = Some 7" "\<not> ch_cache_hit (snd ?ec)" "ch_cost (snd ?ec) = 0.02"
    by (simp_all add: charge_of_def demo_call_def durable_charge_def demo_ledger_def)
  have "basis_allowed (pc_cost_basis (provider_row (fst ?ec) (snd ?ec)))"
    using durable_basis_allowed by (auto simp: charge_of_def demo_call_def)
  then obtain rows w where r: "record_provider_call (fst ?ec) (snd ?ec) [] = Inr (rows, w)" "lw_recorded w"
    by (simp add: record_provider_call_Inr)
  from lead_cost_counts_each_charge_once [OF r(1), of 7 "[]"] r c
  show ?thesis by (auto simp: lead_cost_of_def)
qed

end
