(* ===== verification/Calendar.thy ===== *)
theory Calendar
  imports Prelude
begin

text \<open>
  The calendar arithmetic of \<open>datetime\<close> and \<open>date_trunc\<close> the program uses, in UTC: an instant
  is a number of seconds since 1970 and the proleptic Gregorian months are numbered from there.
\<close>

definition is_leap :: "int \<Rightarrow> bool" where
  "is_leap y \<longleftrightarrow> y mod 4 = 0 \<and> (y mod 100 \<noteq> 0 \<or> y mod 400 = 0)"

definition days_before_year :: "int \<Rightarrow> int" where
  "days_before_year y = (y - 1) * 365 + (y - 1) div 4 - (y - 1) div 100 + (y - 1) div 400"

definition DAYS_BEFORE_MONTH :: "int list" where
  "DAYS_BEFORE_MONTH = [0, 31, 59, 90, 120, 151, 181, 212, 243, 273, 304, 334]"

text \<open>The first day of month \<open>n\<close>, counted from January 1970.\<close>

definition month_first_day :: "nat \<Rightarrow> int" where
  "month_first_day n =
     (let y = 1970 + int (n div 12); m = n mod 12
      in days_before_year y - days_before_year 1970 + DAYS_BEFORE_MONTH ! m
         + (if 2 \<le> m \<and> is_leap y then 1 else 0))"

definition epoch_day :: "instant \<Rightarrow> int" where
  "epoch_day t = \<lfloor>t / 86400\<rfloor>"

definition day_start :: "instant \<Rightarrow> instant" where
  "day_start t = of_int (epoch_day t) * 86400"

fun month_search :: "int \<Rightarrow> nat \<Rightarrow> nat" where
  "month_search d 0 = 0"
| "month_search d (Suc n) = (if month_first_day (Suc n) \<le> d then Suc n else month_search d n)"

definition month_of :: "instant \<Rightarrow> nat" where
  "month_of t = month_search (epoch_day t) (nat (epoch_day t div 28))"

definition month_start :: "instant \<Rightarrow> instant" where
  "month_start t = of_int (month_first_day (month_of t)) * 86400"

definition next_month_start :: "instant \<Rightarrow> instant" where
  "next_month_start t = of_int (month_first_day (Suc (month_of t))) * 86400"

lemma day_start_le: "day_start t \<le> t" and less_day_end: "t < day_start t + 86400"
proof -
  have "of_int \<lfloor>t / 86400\<rfloor> \<le> t / 86400" "t / 86400 < of_int \<lfloor>t / 86400\<rfloor> + 1"
    by linarith+
  then show "day_start t \<le> t" "t < day_start t + 86400"
    by (simp_all add: day_start_def epoch_day_def field_simps)
qed

lemma div_step:
  fixes y k :: int
  assumes "0 < k"
  shows "y div k - (y - 1) div k = (if y mod k = 0 then 1 else 0)"
proof -
  let ?q = "(y - 1) div k" and ?r = "(y - 1) mod k"
  have y: "y = ?q * k + (?r + 1)" using div_mult_mod_eq [of "y - 1" k] by simp
  have r: "0 \<le> ?r" "?r < k" using assms by simp_all
  show ?thesis
  proof (cases "?r + 1 = k")
    case True
    then have "y = (?q + 1) * k" using y by (simp add: algebra_simps)
    then show ?thesis using assms by (metis add_diff_cancel_left' mod_mult_self2_is_0 nonzero_mult_div_cancel_right less_irrefl)
  next
    case False
    with r have "0 \<le> ?r + 1" "?r + 1 < k" by simp_all
    then have "y div k = ?q \<and> y mod k = ?r + 1"
      using y by (intro conjI) (rule int_div_pos_eq, simp_all add: algebra_simps int_mod_pos_eq [of y k ?q "?r + 1"])
    then show ?thesis using r by simp
  qed
qed

lemma year_step:
  "365 \<le> days_before_year (y + 1) - days_before_year y"
  "is_leap y \<Longrightarrow> days_before_year (y + 1) - days_before_year y = 366"
proof -
  have parts: "y div 4 - (y - 1) div 4 = (if y mod 4 = 0 then 1 else 0)"
    "y div 100 - (y - 1) div 100 = (if y mod 100 = 0 then 1 else 0)"
    "y div 400 - (y - 1) div 400 = (if y mod 400 = 0 then 1 else 0)"
    by (simp_all add: div_step)
  have "days_before_year (y + 1) - days_before_year y
      = 365 + (y div 4 - (y - 1) div 4) - (y div 100 - (y - 1) div 100) + (y div 400 - (y - 1) div 400)"
    by (simp add: days_before_year_def)
  then have eq: "days_before_year (y + 1) - days_before_year y
      = 365 + (if y mod 4 = 0 then 1 else 0) - (if y mod 100 = 0 then 1 else 0) + (if y mod 400 = 0 then 1 else 0)"
    unfolding parts .
  have "y mod 400 = 0 \<Longrightarrow> y mod 100 = 0" "y mod 100 = 0 \<Longrightarrow> y mod 4 = 0"
    using dvd_trans [of 100 400 y] dvd_trans [of 4 100 y] by (simp_all add: mod_eq_0_iff_dvd)
  then show "365 \<le> days_before_year (y + 1) - days_before_year y"
    unfolding eq by simp
  show "is_leap y \<Longrightarrow> days_before_year (y + 1) - days_before_year y = 366"
    unfolding eq is_leap_def using \<open>y mod 400 = 0 \<Longrightarrow> y mod 100 = 0\<close> by auto
qed

text \<open>A month has at least 28 days.\<close>

lemma month_first_day_step: "month_first_day n + 28 \<le> month_first_day (Suc n)"
proof -
  let ?y = "1970 + int (n div 12)"
  have "n mod 12 < 12" by simp
  then consider "n mod 12 = 11" | "n mod 12 < 11" by linarith
  then show ?thesis
  proof cases
    case 1
    then have s: "Suc n mod 12 = 0" "Suc n div 12 = Suc (n div 12)"
      by (simp_all add: mod_Suc div_Suc)
    have "1970 + int (Suc n div 12) = ?y + 1" by (simp add: s)
    with 1 s year_step [of ?y] show ?thesis
      by (cases "is_leap ?y") (simp_all add: month_first_day_def Let_def DAYS_BEFORE_MONTH_def)
  next
    case 2
    then have s: "Suc n mod 12 = Suc (n mod 12)" "Suc n div 12 = n div 12"
      by (simp_all add: mod_Suc div_Suc)
    have "\<forall>m \<in> set [0..<11]. \<forall>b. DAYS_BEFORE_MONTH ! m + (if 2 \<le> m \<and> b then 1 else 0) + 28
        \<le> DAYS_BEFORE_MONTH ! Suc m + (if 2 \<le> Suc m \<and> b then 1 else 0)"
      by (simp add: DAYS_BEFORE_MONTH_def upt_rec numeral_nat)
    moreover have "n mod 12 \<in> set [0..<11]" using 2 unfolding set_upt by simp
    ultimately have "DAYS_BEFORE_MONTH ! (n mod 12) + (if 2 \<le> n mod 12 \<and> is_leap ?y then 1 else 0) + 28
        \<le> DAYS_BEFORE_MONTH ! Suc (n mod 12) + (if 2 \<le> Suc (n mod 12) \<and> is_leap ?y then 1 else 0)"
      by blast
    then show ?thesis by (simp add: month_first_day_def Let_def s)
  qed
qed

lemma month_first_day_0: "month_first_day 0 = 0"
  by (simp add: month_first_day_def DAYS_BEFORE_MONTH_def)

lemma month_first_day_ge: "28 * int n \<le> month_first_day n"
proof (induction n)
  case (Suc n)
  with month_first_day_step [of n] show ?case by simp
qed (simp add: month_first_day_0)

lemma month_search_bounds:
  assumes "0 \<le> d" and "d < month_first_day (Suc n)"
  shows "month_first_day (month_search d n) \<le> d \<and> d < month_first_day (Suc (month_search d n))"
  using assms(2)
proof (induction n)
  case 0
  with assms(1) show ?case by (simp add: month_first_day_0)
qed auto

lemma month_bounds:
  assumes "0 \<le> t"
  shows "month_start t \<le> t" and "t < next_month_start t"
proof -
  let ?d = "epoch_day t"
  have d: "0 \<le> ?d" using assms by (simp add: epoch_day_def)
  have "?d < 28 * (?d div 28 + 1)" by presburger
  also have "\<dots> = 28 * int (Suc (nat (?d div 28)))" using d by simp
  also have "\<dots> \<le> month_first_day (Suc (nat (?d div 28)))" by (rule month_first_day_ge)
  finally have b: "month_first_day (month_of t) \<le> ?d" "?d + 1 \<le> month_first_day (Suc (month_of t))"
    using month_search_bounds [OF d] by (force simp: month_of_def)+
  have "month_start t \<le> day_start t" "day_start t + 86400 \<le> next_month_start t"
  proof -
    have "real_of_int (month_first_day (month_of t)) \<le> real_of_int ?d" using b(1) by simp
    then show "month_start t \<le> day_start t" by (simp add: month_start_def day_start_def)
    have "real_of_int (?d + 1) \<le> real_of_int (month_first_day (Suc (month_of t)))"
      unfolding of_int_le_iff by (rule b(2))
    then show "day_start t + 86400 \<le> next_month_start t"
      by (simp add: next_month_start_def day_start_def)
  qed
  with day_start_le [of t] less_day_end [of t] show "month_start t \<le> t" "t < next_month_start t"
    by linarith+
qed

end
