(* ===== verification/Live_Guards.thy ===== *)
theory Live_Guards
  imports Ledger Calendar State_Machine
begin

text \<open>
  What is read back from the ledger: \<open>arie.usage\<close> and \<open>arie.limits\<close> (an organization's
  month), and the four guards of \<open>arie.live\<close> that stand before every real provider call:
  the spend caps (\<open>budget\<close>), the organization's monthly cap (\<open>org_budget\<close>), the quota
  cooldown (\<open>cooldown\<close>) and the settled-outcome suppression (\<open>outcome_cache\<close>). A guard holds
  no state: every question reads the table again, which is an argument here, as are the
  database's clock and the configured numbers. The session's time zone is UTC.
\<close>

subsection \<open>Usage of an organization\<close>

text \<open>The columns of \<open>leads\<close> the report reads.\<close>

record usage_lead =
  ul_organization_id :: uuid
  ul_status :: lead_status
  ul_created_at :: instant
  ul_data_class :: string

record usage_summary =
  us_leads_processed :: nat
  us_qualified :: nat
  us_rejected :: nat
  us_review :: nat
  us_pending :: nat
  us_failed :: nat
  us_provider_calls :: nat
  us_real_provider_calls :: nat
  us_real_model_calls :: nat
  us_cache_hits :: nat
  us_provider_cost :: real
  us_model_cost :: real
  us_modelled_spend :: real
  us_estimated_live_cost :: real
  us_actual_spend :: real

definition total_recorded_cost :: "usage_summary \<Rightarrow> real" where
  "total_recorded_cost u = us_provider_cost u + us_model_cost u"

definition sum_of :: "('a \<Rightarrow> real) \<Rightarrow> ('a \<Rightarrow> bool) \<Rightarrow> 'a list \<Rightarrow> real" where
  "sum_of f P xs = sum_list (map f (filter P xs))"

definition count_of :: "('a \<Rightarrow> bool) \<Rightarrow> 'a list \<Rightarrow> nat" where
  "count_of P xs = length (filter P xs)"

definition in_period :: "instant \<Rightarrow> instant \<Rightarrow> instant \<Rightarrow> bool" where
  "in_period from_at to_at t \<longleftrightarrow> from_at \<le> t \<and> t < to_at"

definition actual_amount :: "real option \<Rightarrow> real" where
  "actual_amount x = (case x of None \<Rightarrow> 0 | Some v \<Rightarrow> v)"

definition get_usage_summary ::
  "uuid \<Rightarrow> instant \<Rightarrow> instant \<Rightarrow> usage_lead list \<Rightarrow> provider_call list \<Rightarrow> model_call list \<Rightarrow> usage_summary" where
  "get_usage_summary org from_at to_at ls pcs mcs =
     (let ours = filter (\<lambda>l. ul_organization_id l = org \<and> in_period from_at to_at (ul_created_at l)
                   \<and> ul_data_class l = ''production'') ls;
          ps = filter (\<lambda>r. pc_organization_id r = org \<and> in_period from_at to_at (pc_requested_at r)) pcs;
          ms = filter (\<lambda>r. mc_organization_id r = org \<and> in_period from_at to_at (mc_created_at r)) mcs;
          total = length ours;
          qualified = count_of (\<lambda>l. ul_status l \<in> QUALIFIED) ours;
          rejected = count_of (\<lambda>l. ul_status l \<in> REJECTED) ours;
          review = count_of (\<lambda>l. ul_status l \<in> AWAITING_REVIEW) ours;
          failed = count_of (\<lambda>l. ul_status l \<in> FAILURE) ours
      in \<lparr>us_leads_processed = total, us_qualified = qualified, us_rejected = rejected,
          us_review = review, us_pending = total - (qualified + rejected + review + failed),
          us_failed = failed,
          us_provider_calls = count_of (\<lambda>r. \<not> pc_cache_hit r) ps,
          us_real_provider_calls = count_of (\<lambda>r. \<not> pc_cache_hit r \<and> estimated_live_sql (pc_cost_basis r)) ps,
          us_real_model_calls = count_of (\<lambda>r. estimated_live_sql (mc_cost_basis r)) ms,
          us_cache_hits = count_of pc_cache_hit ps,
          us_provider_cost = sum_of pc_cost (\<lambda>r. \<not> pc_cache_hit r) ps,
          us_model_cost = sum_of mc_cost (\<lambda>_. True) ms,
          us_modelled_spend =
            sum_of pc_cost (\<lambda>r. \<not> pc_cache_hit r \<and> modelled_spend_sql (pc_cost_basis r)) ps
            + sum_of mc_cost (\<lambda>r. modelled_spend_sql (mc_cost_basis r)) ms,
          us_estimated_live_cost =
            sum_of pc_cost (\<lambda>r. \<not> pc_cache_hit r \<and> estimated_live_sql (pc_cost_basis r)) ps
            + sum_of mc_cost (\<lambda>r. estimated_live_sql (mc_cost_basis r)) ms,
          us_actual_spend =
            sum_of (\<lambda>r. actual_amount (pc_actual_cost r))
              (\<lambda>r. \<not> pc_cache_hit r \<and> actual_spend_sql (pc_actual_cost r)) ps
            + sum_of (\<lambda>r. actual_amount (mc_actual_cost r)) (\<lambda>r. actual_spend_sql (mc_actual_cost r)) ms\<rparr>)"

subsection \<open>Limits\<close>

text \<open>The row of \<open>organizations\<close> the limits live in.\<close>

record organization_limits =
  ol_max_leads :: int
  ol_max_csv_rows :: int
  ol_max_spend :: real

type_synonym organizations = "uuid \<Rightarrow> organization_limits option"

definition get_limits :: "uuid \<Rightarrow> organizations \<Rightarrow> error + organization_limits" where
  "get_limits org orgs = (case orgs org of None \<Rightarrow> Inl AssertionError | Some l \<Rightarrow> Inr l)"

text \<open>An UPDATE of no row changes nothing.\<close>

definition set_limits :: "uuid \<Rightarrow> organization_limits \<Rightarrow> organizations \<Rightarrow> organizations" where
  "set_limits org l orgs = (if orgs org = None then orgs else orgs(org \<mapsto> l))"

record usage_against_limits =
  ua_leads_used :: nat
  ua_leads_limit :: int
  ua_leads_remaining :: int
  ua_max_csv_rows :: int
  ua_period_start :: instant
  ua_period_end :: instant
  ua_live_used :: real
  ua_live_limit :: real
  ua_live_remaining :: real
  ua_actual_spend :: real
  ua_modelled_spend :: real

definition calendar_month_bounds :: "instant \<Rightarrow> instant \<times> instant" where
  "calendar_month_bounds now = (month_start now, next_month_start now)"

definition get_usage_against_limits ::
  "uuid \<Rightarrow> instant \<Rightarrow> organizations \<Rightarrow> usage_lead list \<Rightarrow> provider_call list \<Rightarrow> model_call list
     \<Rightarrow> error + usage_against_limits" where
  "get_usage_against_limits org now orgs ls pcs mcs =
     sum_bind (get_limits org orgs) (\<lambda>limits.
       case calendar_month_bounds now of (from_at, to_at) \<Rightarrow>
         (let u = get_usage_summary org from_at to_at ls pcs mcs
          in Inr \<lparr>ua_leads_used = us_leads_processed u, ua_leads_limit = ol_max_leads limits,
                  ua_leads_remaining = max 0 (ol_max_leads limits - int (us_leads_processed u)),
                  ua_max_csv_rows = ol_max_csv_rows limits,
                  ua_period_start = from_at, ua_period_end = to_at,
                  ua_live_used = us_estimated_live_cost u, ua_live_limit = ol_max_spend limits,
                  ua_live_remaining = max 0 (ol_max_spend limits - us_estimated_live_cost u),
                  ua_actual_spend = us_actual_spend u, ua_modelled_spend = us_modelled_spend u\<rparr>))"

definition enforce_lead_quota ::
  "uuid \<Rightarrow> instant \<Rightarrow> organizations \<Rightarrow> usage_lead list \<Rightarrow> provider_call list \<Rightarrow> model_call list
     \<Rightarrow> error + unit" where
  "enforce_lead_quota org now orgs ls pcs mcs =
     sum_bind (get_usage_against_limits org now orgs ls pcs mcs) (\<lambda>u.
       if ua_leads_remaining u \<le> 0 then Inl LimitExceededError else Inr ())"

definition enforce_csv_row_quota :: "uuid \<Rightarrow> int \<Rightarrow> organizations \<Rightarrow> error + unit" where
  "enforce_csv_row_quota org row_count orgs =
     sum_bind (get_limits org orgs) (\<lambda>l.
       if row_count > ol_max_csv_rows l then Inl LimitExceededError else Inr ())"

subsection \<open>The spend caps\<close>

definition LIVE_PROVIDER_NAMES :: "string list" where
  "LIVE_PROVIDER_NAMES =
     [''abstract_company_enrichment'', ''hunter_combined_enrichment'', ''apollo_person_enrichment'']"

definition PER_LEAD_BUDGET_EXHAUSTED :: string where
  "PER_LEAD_BUDGET_EXHAUSTED = ''per_lead_budget_exhausted''"

definition DAILY_BUDGET_EXHAUSTED :: string where
  "DAILY_BUDGET_EXHAUSTED = ''daily_budget_exhausted''"

record live_budget =
  lb_per_lead :: real
  lb_daily :: real

record spend_allowance =
  sa_permitted :: bool
  sa_reason :: "string option"
  sa_estimated :: real
  sa_lead_spent :: real
  sa_lead_cap :: real
  sa_daily_spent :: real
  sa_daily_cap :: real

definition daily_spent :: "uuid \<Rightarrow> instant \<Rightarrow> provider_call list \<Rightarrow> real" where
  "daily_spent org db_now pcs =
     sum_of pc_cost (\<lambda>r. pc_organization_id r = org \<and> pc_provider r \<in> set LIVE_PROVIDER_NAMES
       \<and> \<not> pc_cache_hit r \<and> pc_completed_at r \<ge> day_start db_now) pcs"

definition lead_spent :: "uuid \<Rightarrow> provider_call list \<Rightarrow> real" where
  "lead_spent lead pcs = sum_of pc_cost (\<lambda>r. pc_lead_id r = Some lead \<and> \<not> pc_cache_hit r) pcs"

definition spend_allowance_for ::
  "live_budget \<Rightarrow> uuid \<Rightarrow> uuid \<Rightarrow> real \<Rightarrow> instant \<Rightarrow> provider_call list \<Rightarrow> spend_allowance" where
  "spend_allowance_for cfg org lead estimate db_now pcs =
     (let ls = lead_spent lead pcs; ds = daily_spent org db_now pcs;
          reason = (if ls + estimate > lb_per_lead cfg then Some PER_LEAD_BUDGET_EXHAUSTED
                    else if ds + estimate > lb_daily cfg then Some DAILY_BUDGET_EXHAUSTED
                    else None)
      in \<lparr>sa_permitted = (reason = None), sa_reason = reason, sa_estimated = estimate,
          sa_lead_spent = ls, sa_lead_cap = lb_per_lead cfg, sa_daily_spent = ds,
          sa_daily_cap = lb_daily cfg\<rparr>)"

definition ORGANIZATION_LIMIT_REACHED :: string where
  "ORGANIZATION_LIMIT_REACHED = ''organization_limit_reached''"

record org_allowance =
  oa_permitted :: bool
  oa_reason :: "string option"
  oa_estimated :: real
  oa_month_spent :: real
  oa_monthly_cap :: "real option"

definition month_to_date_spent :: "uuid \<Rightarrow> instant \<Rightarrow> provider_call list \<Rightarrow> real" where
  "month_to_date_spent org db_now pcs =
     sum_of pc_cost (\<lambda>r. pc_organization_id r = org \<and> \<not> pc_cache_hit r
       \<and> pc_completed_at r \<ge> month_start db_now) pcs"

definition org_allowance_for ::
  "uuid \<Rightarrow> real \<Rightarrow> instant \<Rightarrow> organizations \<Rightarrow> provider_call list \<Rightarrow> org_allowance" where
  "org_allowance_for org estimate db_now orgs pcs =
     (let spent = month_to_date_spent org db_now pcs
      in case orgs org of
           None \<Rightarrow> \<lparr>oa_permitted = True, oa_reason = None, oa_estimated = estimate,
                     oa_month_spent = spent, oa_monthly_cap = None\<rparr>
         | Some l \<Rightarrow>
             (let permitted = (spent + estimate \<le> ol_max_spend l)
              in \<lparr>oa_permitted = permitted,
                  oa_reason = (if permitted then None else Some ORGANIZATION_LIMIT_REACHED),
                  oa_estimated = estimate, oa_month_spent = spent,
                  oa_monthly_cap = Some (ol_max_spend l)\<rparr>))"

subsection \<open>Cooldown and settled outcomes\<close>

text \<open>\<open>max(completed_at)\<close> of the rows a query selects, NULL when there is none.\<close>

definition last_completed :: "(provider_call \<Rightarrow> bool) \<Rightarrow> provider_call list \<Rightarrow> instant option" where
  "last_completed P pcs =
     (case map pc_completed_at (filter P pcs) of [] \<Rightarrow> None | t # ts \<Rightarrow> Some (fold max ts t))"

definition QUOTA_ERROR_KINDS :: "string set" where
  "QUOTA_ERROR_KINDS = {''quota_exhausted'', ''insufficient_credits''}"

definition PROVIDER_UNAVAILABLE :: string where
  "PROVIDER_UNAVAILABLE = ''provider_unavailable''"

definition has_kind :: "(string \<Rightarrow> bool) \<Rightarrow> provider_call \<Rightarrow> bool" where
  "has_kind P r = (case pc_error_kind r of None \<Rightarrow> False | Some k \<Rightarrow> P k)"

definition cooling_down_until ::
  "real \<Rightarrow> string \<Rightarrow> uuid \<Rightarrow> instant \<Rightarrow> provider_call list \<Rightarrow> instant option" where
  "cooling_down_until window provider org db_now pcs =
     (if window \<le> 0 then None
      else map_option (\<lambda>t. t + window)
        (last_completed (\<lambda>r. pc_organization_id r = org \<and> pc_provider r = provider
           \<and> has_kind (\<lambda>k. k \<in> QUOTA_ERROR_KINDS) r \<and> pc_completed_at r > db_now - window) pcs))"

definition RECENT_MISS :: string where "RECENT_MISS = ''recent_miss''"
definition RECENT_PARTIAL :: string where "RECENT_PARTIAL = ''recent_partial''"
definition UNCERTAIN_OUTCOME :: string where "UNCERTAIN_OUTCOME = ''uncertain_outcome''"

definition is_uncertain_outcome :: "string option \<Rightarrow> bool" where
  "is_uncertain_outcome kind =
     (case kind of None \<Rightarrow> False | Some k \<Rightarrow> k = ''timeout'' \<or> starts_with k ''transport_error:'')"

text \<open>\<open>error_kind = 'timeout' OR error_kind LIKE 'transport_error:%'\<close>: the underscore of a LIKE
  pattern stands for any one character.\<close>

definition uncertain_sql :: "string \<Rightarrow> bool" where
  "uncertain_sql k \<longleftrightarrow>
     k = ''timeout''
     \<or> (starts_with k ''transport'' \<and> starts_with (drop 10 k) ''error:'' \<and> 10 \<le> length k)"

record outcome_ttls =
  ot_miss :: real
  ot_uncertain :: real

text \<open>The instants \<open>since\<close> and \<open>until\<close> of a suppression window.\<close>

definition recent_window :: "real \<Rightarrow> (provider_call \<Rightarrow> bool) \<Rightarrow> instant \<Rightarrow> provider_call list
    \<Rightarrow> (instant \<times> instant) option" where
  "recent_window window P db_now pcs =
     (if window \<le> 0 then None
      else map_option (\<lambda>t. (t, t + window))
        (last_completed (\<lambda>r. P r \<and> pc_completed_at r > db_now - window) pcs))"

definition same_question :: "string \<Rightarrow> entity_type \<Rightarrow> uuid \<Rightarrow> uuid \<Rightarrow> provider_call \<Rightarrow> bool" where
  "same_question provider t i org r \<longleftrightarrow>
     pc_organization_id r = org \<and> pc_provider r = provider \<and> pc_entity_type r = t \<and> pc_entity_id r = i"

definition recent_miss ::
  "outcome_ttls \<Rightarrow> string \<Rightarrow> entity_type \<Rightarrow> uuid \<Rightarrow> uuid \<Rightarrow> instant \<Rightarrow> provider_call list
     \<Rightarrow> (instant \<times> instant) option" where
  "recent_miss ttl provider t i org db_now pcs =
     recent_window (ot_miss ttl) (\<lambda>r. same_question provider t i org r \<and> pc_status r = MISS) db_now pcs"

definition recent_uncertain_outcome ::
  "outcome_ttls \<Rightarrow> string \<Rightarrow> entity_type \<Rightarrow> uuid \<Rightarrow> uuid \<Rightarrow> instant \<Rightarrow> provider_call list
     \<Rightarrow> (instant \<times> instant) option" where
  "recent_uncertain_outcome ttl provider t i org db_now pcs =
     recent_window (ot_uncertain ttl)
       (\<lambda>r. same_question provider t i org r \<and> has_kind uncertain_sql r) db_now pcs"

subsection \<open>The report adds up\<close>

lemma count_of_length: "count_of P xs \<le> length xs"
  by (simp add: count_of_def)

lemma count_of_disj:
  assumes "\<And>x. x \<in> set xs \<Longrightarrow> \<not> (P x \<and> Q x)"
  shows "count_of (\<lambda>x. P x \<or> Q x) xs = count_of P xs + count_of Q xs"
  using assms unfolding count_of_def
proof (induction xs)
  case (Cons x xs)
  from Cons.prems [of x] have "\<not> (P x \<and> Q x)" by simp
  moreover have "length (filter (\<lambda>x. P x \<or> Q x) xs) = length (filter P xs) + length (filter Q xs)"
    using Cons.prems by (intro Cons.IH) auto
  ultimately show ?case by auto
qed simp

lemma sum_of_disj:
  assumes "\<And>x. x \<in> set xs \<Longrightarrow> \<not> (P x \<and> Q x)"
  shows "sum_of f (\<lambda>x. P x \<or> Q x) xs = sum_of f P xs + sum_of f Q xs"
  using assms unfolding sum_of_def
proof (induction xs)
  case (Cons x xs)
  from Cons.prems [of x] have "\<not> (P x \<and> Q x)" by simp
  moreover have "sum_list (map f (filter (\<lambda>x. P x \<or> Q x) xs))
      = sum_list (map f (filter P xs)) + sum_list (map f (filter Q xs))"
    using Cons.prems by (intro Cons.IH) auto
  ultimately show ?case by auto
qed simp

lemma sum_of_append [simp]: "sum_of f P (xs @ ys) = sum_of f P xs + sum_of f P ys"
  by (simp add: sum_of_def)

lemma sum_of_cong: "(\<And>x. x \<in> set xs \<Longrightarrow> P x = Q x) \<Longrightarrow> sum_of f P xs = sum_of f Q xs"
  by (simp add: sum_of_def cong: filter_cong)

lemma sum_of_none: "(\<And>x. x \<in> set xs \<Longrightarrow> \<not> P x) \<Longrightarrow> sum_of f P xs = 0"
proof -
  assume "\<And>x. x \<in> set xs \<Longrightarrow> \<not> P x"
  then have "filter P xs = []" by (simp add: filter_empty_conv)
  then show ?thesis by (simp add: sum_of_def)
qed

lemma sum_of_filter: "sum_of f P (filter Q xs) = sum_of f (\<lambda>x. Q x \<and> P x) xs"
  by (simp add: sum_of_def conj_commute)

text \<open>A basis outside the three live ones and the simulated one: NULL, in a row the code wrote.\<close>

definition unlabelled :: "string option \<Rightarrow> bool" where
  "unlabelled basis \<longleftrightarrow> \<not> modelled_spend_sql basis \<and> \<not> estimated_live_sql basis"

lemma modelled_not_live: "\<not> (modelled_spend_sql b \<and> estimated_live_sql b)"
  by (auto simp: modelled_spend_sql_def estimated_live_sql_def)

lemma cost_by_basis:
  "sum_of f P xs = sum_of f (\<lambda>x. P x \<and> modelled_spend_sql (b x)) xs
     + sum_of f (\<lambda>x. P x \<and> estimated_live_sql (b x)) xs + sum_of f (\<lambda>x. P x \<and> unlabelled (b x)) xs"
proof -
  let ?M = "\<lambda>x. P x \<and> modelled_spend_sql (b x)" and ?E = "\<lambda>x. P x \<and> estimated_live_sql (b x)"
    and ?U = "\<lambda>x. P x \<and> unlabelled (b x)"
  have "sum_of f P xs = sum_of f (\<lambda>x. ?M x \<or> (?E x \<or> ?U x)) xs"
    by (rule sum_of_cong) (auto simp: unlabelled_def)
  also have "\<dots> = sum_of f ?M xs + sum_of f (\<lambda>x. ?E x \<or> ?U x) xs"
    using modelled_not_live by (intro sum_of_disj) (auto simp: unlabelled_def)
  also have "sum_of f (\<lambda>x. ?E x \<or> ?U x) xs = sum_of f ?E xs + sum_of f ?U xs"
    by (rule sum_of_disj) (auto simp: unlabelled_def)
  finally show ?thesis by simp
qed

lemma status_groups_disjoint:
  "QUALIFIED \<inter> REJECTED = {}" "(QUALIFIED \<union> REJECTED) \<inter> AWAITING_REVIEW = {}"
  "(QUALIFIED \<union> REJECTED \<union> AWAITING_REVIEW) \<inter> FAILURE = {}"
  by (auto simp: status_group_defs)

lemma status_groups_count:
  "count_of (\<lambda>l. ul_status l \<in> QUALIFIED) xs + count_of (\<lambda>l. ul_status l \<in> REJECTED) xs
     + count_of (\<lambda>l. ul_status l \<in> AWAITING_REVIEW) xs + count_of (\<lambda>l. ul_status l \<in> FAILURE) xs
   \<le> length xs"
proof -
  have "count_of (\<lambda>l. ((ul_status l \<in> QUALIFIED \<or> ul_status l \<in> REJECTED) \<or> ul_status l \<in> AWAITING_REVIEW)
      \<or> ul_status l \<in> FAILURE) xs
    = count_of (\<lambda>l. ul_status l \<in> QUALIFIED) xs + count_of (\<lambda>l. ul_status l \<in> REJECTED) xs
     + count_of (\<lambda>l. ul_status l \<in> AWAITING_REVIEW) xs + count_of (\<lambda>l. ul_status l \<in> FAILURE) xs"
  proof -
    have 1: "count_of (\<lambda>l. ul_status l \<in> QUALIFIED \<or> ul_status l \<in> REJECTED) xs
        = count_of (\<lambda>l. ul_status l \<in> QUALIFIED) xs + count_of (\<lambda>l. ul_status l \<in> REJECTED) xs"
      using status_groups_disjoint(1) by (intro count_of_disj) blast
    have 2: "count_of (\<lambda>l. (ul_status l \<in> QUALIFIED \<or> ul_status l \<in> REJECTED) \<or> ul_status l \<in> AWAITING_REVIEW) xs
        = count_of (\<lambda>l. ul_status l \<in> QUALIFIED \<or> ul_status l \<in> REJECTED) xs
          + count_of (\<lambda>l. ul_status l \<in> AWAITING_REVIEW) xs"
      using status_groups_disjoint(2) by (intro count_of_disj) blast
    have 3: "count_of (\<lambda>l. ((ul_status l \<in> QUALIFIED \<or> ul_status l \<in> REJECTED) \<or> ul_status l \<in> AWAITING_REVIEW)
          \<or> ul_status l \<in> FAILURE) xs
        = count_of (\<lambda>l. (ul_status l \<in> QUALIFIED \<or> ul_status l \<in> REJECTED) \<or> ul_status l \<in> AWAITING_REVIEW) xs
          + count_of (\<lambda>l. ul_status l \<in> FAILURE) xs"
      using status_groups_disjoint(3) by (intro count_of_disj) blast
    show ?thesis using 1 2 3 by linarith
  qed
  then show ?thesis by (rule ord_eq_le_trans [OF sym count_of_length])
qed

text \<open>
  The usage report adds up: every lead of the period is counted in exactly one of the five
  outcomes, and every dollar recorded is modelled spend, estimated live cost or the cost of a
  row without a basis, in exactly one of the three.
\<close>

theorem usage_report_adds_up:
  fixes org from_at to_at ls pcs mcs
  defines "u \<equiv> get_usage_summary org from_at to_at ls pcs mcs"
  shows "us_leads_processed u
      = us_qualified u + us_rejected u + us_review u + us_pending u + us_failed u
    \<and> total_recorded_cost u = us_modelled_spend u + us_estimated_live_cost u
      + sum_of pc_cost (\<lambda>r. pc_organization_id r = org \<and> in_period from_at to_at (pc_requested_at r)
          \<and> \<not> pc_cache_hit r \<and> unlabelled (pc_cost_basis r)) pcs
      + sum_of mc_cost (\<lambda>r. mc_organization_id r = org \<and> in_period from_at to_at (mc_created_at r)
          \<and> unlabelled (mc_cost_basis r)) mcs"
proof -
  let ?ls = "filter (\<lambda>l. ul_organization_id l = org \<and> in_period from_at to_at (ul_created_at l)
                   \<and> ul_data_class l = ''production'') ls"
  let ?ps = "filter (\<lambda>r. pc_organization_id r = org \<and> in_period from_at to_at (pc_requested_at r)) pcs"
  let ?ms = "filter (\<lambda>r. mc_organization_id r = org \<and> in_period from_at to_at (mc_created_at r)) mcs"
  have "us_leads_processed u
      = us_qualified u + us_rejected u + us_review u + us_pending u + us_failed u"
    using status_groups_count [of ?ls] by (simp add: u_def get_usage_summary_def Let_def)
  moreover have "total_recorded_cost u = us_modelled_spend u + us_estimated_live_cost u
      + sum_of pc_cost (\<lambda>r. \<not> pc_cache_hit r \<and> unlabelled (pc_cost_basis r)) ?ps
      + sum_of mc_cost (\<lambda>r. unlabelled (mc_cost_basis r)) ?ms"
    using cost_by_basis [of pc_cost "\<lambda>r. \<not> pc_cache_hit r" ?ps pc_cost_basis]
      cost_by_basis [of mc_cost "\<lambda>_. True" ?ms mc_cost_basis]
    by (simp add: u_def get_usage_summary_def Let_def total_recorded_cost_def)
  ultimately show ?thesis by (simp add: sum_of_filter conj_assoc)
qed

subsection \<open>Simulated spend and the organization's cap\<close>

definition simulated_call :: "provider_call \<Rightarrow> bool" where
  "simulated_call r \<longleftrightarrow> pc_cache_hit r \<or> \<not> is_real_provider_call (pc_cost_basis r)"

text \<open>
  Simulated work consumes no allowance in the limits report and all of it in the guard. For
  an organization whose ledger holds only simulated calls and cache hits, the report says nothing
  of the allowance is used; the guard that enforces the same cap before a live call counts every
  simulated dollar of the month, so once the simulated prices exceed the cap every live call is
  refused although the report shows the full allowance remaining.
\<close>

theorem simulated_spend_blocks_live_calls:
  assumes "orgs org = Some l" and "\<forall>r \<in> set pcs. simulated_call r"
    and "get_usage_against_limits org now orgs ls pcs [] = Inr ua"
    and "month_to_date_spent org now pcs > ol_max_spend l" and "0 \<le> estimate"
  shows "ua_live_used ua = 0 \<and> ua_live_remaining ua = max 0 (ol_max_spend l)
    \<and> \<not> oa_permitted (org_allowance_for org estimate now orgs pcs)
    \<and> oa_reason (org_allowance_for org estimate now orgs pcs) = Some ORGANIZATION_LIMIT_REACHED"
proof -
  have "sum_of pc_cost (\<lambda>r. \<not> pc_cache_hit r \<and> estimated_live_sql (pc_cost_basis r)) (filter Q pcs) = 0" for Q
    using assms(2) by (intro sum_of_none) (auto simp: simulated_call_def is_real_iff_estimated_live)
  then have "us_estimated_live_cost (get_usage_summary org f t ls pcs []) = 0" for f t
    unfolding get_usage_summary_def Let_def by (simp add: sum_of_def [of mc_cost] del: filter_filter)
  then have "ua_live_used ua = 0 \<and> ua_live_remaining ua = max 0 (ol_max_spend l)"
    using assms(1,3) by (auto simp: get_usage_against_limits_def get_limits_def Let_def split: prod.splits)
  with assms show ?thesis by (simp add: org_allowance_for_def Let_def)
qed

definition simulated_row :: provider_call where
  "simulated_row =
     \<lparr>pc_call_id = 1, pc_key = ''job:1:deep_research:acme.com'', pc_organization_id = 3, pc_lead_id = Some 7,
      pc_provider = ''deep_research'', pc_entity_type = Company, pc_entity_id = 4, pc_requested_at = 10,
      pc_completed_at = 10, pc_latency_ms = 100, pc_cost = 50.33, pc_status = SUCCESS,
      pc_cache_hit = False, pc_raw_ref = None, pc_error_kind = None, pc_credits = None,
      pc_cost_basis = Some ''simulated_catalogue'', pc_suppressed = None,
      pc_credential_source = None, pc_actual_cost = None\<rparr>"

definition demo_orgs :: organizations where
  "demo_orgs = [3 \<mapsto> \<lparr>ol_max_leads = 100, ol_max_csv_rows = 500, ol_max_spend = 50\<rparr>]"

theorem simulated_spend_blocks_live_calls_witness:
  "\<exists>ua. get_usage_against_limits 3 20 demo_orgs [] [simulated_row] [] = Inr ua
     \<and> ua_live_used ua = 0 \<and> ua_live_remaining ua = 50
     \<and> \<not> oa_permitted (org_allowance_for 3 0.01 20 demo_orgs [simulated_row])"
proof -
  have o: "demo_orgs 3 = Some \<lparr>ol_max_leads = 100, ol_max_csv_rows = 500, ol_max_spend = 50\<rparr>"
    by (simp add: demo_orgs_def)
  have s: "\<forall>r \<in> set [simulated_row]. simulated_call r"
    by (simp add: simulated_call_def is_real_iff_estimated_live estimated_live_sql_def simulated_row_def)
  obtain ua where ua: "get_usage_against_limits 3 20 demo_orgs [] [simulated_row] [] = Inr ua"
    by (auto simp: get_usage_against_limits_def get_limits_def o calendar_month_bounds_def Let_def)
  have "month_start 20 = 0"
    by (simp add: month_start_def month_of_def epoch_day_def month_first_day_0)
  then have "month_to_date_spent 3 20 [simulated_row] = 50.33"
    by (simp add: month_to_date_spent_def sum_of_def simulated_row_def)
  with simulated_spend_blocks_live_calls [OF o s ua, of "0.01"] ua show ?thesis by simp
qed

subsection \<open>Tenants do not see each other\<close>

lemma sum_of_own: "(\<And>r. P r \<Longrightarrow> Q r) \<Longrightarrow> sum_of f P (filter Q xs) = sum_of f P xs"
  unfolding sum_of_filter by (rule sum_of_cong) auto

lemma last_completed_own: "(\<And>r. P r \<Longrightarrow> Q r) \<Longrightarrow> last_completed P (filter Q xs) = last_completed P xs"
proof -
  assume "\<And>r. P r \<Longrightarrow> Q r"
  then have "(\<lambda>x. Q x \<and> P x) = P" by auto
  then show ?thesis by (simp add: last_completed_def)
qed

text \<open>
  Tenant isolation of the guards: what the spend caps, the monthly cap, the quota cooldown
  and the two outcome suppressions answer for an organization is a function of that
  organization's own ledger rows; another tenant's traffic, errors and misses change nothing.
\<close>

theorem guards_read_own_rows_only:
  fixes org pcs
  defines "own \<equiv> filter (\<lambda>r. pc_organization_id r = org) pcs"
  shows "daily_spent org db_now own = daily_spent org db_now pcs
    \<and> org_allowance_for org estimate db_now orgs own = org_allowance_for org estimate db_now orgs pcs
    \<and> cooling_down_until window provider org db_now own = cooling_down_until window provider org db_now pcs
    \<and> recent_miss ttl provider t i org db_now own = recent_miss ttl provider t i org db_now pcs
    \<and> recent_uncertain_outcome ttl provider t i org db_now own
        = recent_uncertain_outcome ttl provider t i org db_now pcs
    \<and> get_usage_summary org from_at to_at ls own mcs = get_usage_summary org from_at to_at ls pcs mcs"
proof -
  have s: "sum_of f P own = sum_of f P pcs" if "\<And>r. P r \<Longrightarrow> pc_organization_id r = org" for f P
    unfolding own_def using that by (rule sum_of_own)
  have l: "last_completed P own = last_completed P pcs" if "\<And>r. P r \<Longrightarrow> pc_organization_id r = org" for P
    unfolding own_def using that by (rule last_completed_own)
  have "daily_spent org db_now own = daily_spent org db_now pcs"
    unfolding daily_spent_def by (rule s) simp
  moreover have m: "month_to_date_spent org db_now own = month_to_date_spent org db_now pcs"
    unfolding month_to_date_spent_def by (rule s) simp
  moreover have "cooling_down_until window provider org db_now own
      = cooling_down_until window provider org db_now pcs"
    unfolding cooling_down_until_def by (subst l) simp_all
  moreover have w: "recent_window w (\<lambda>r. same_question provider t i org r \<and> P r) db_now own
      = recent_window w (\<lambda>r. same_question provider t i org r \<and> P r) db_now pcs" for w P
    unfolding recent_window_def by (subst l) (simp_all add: same_question_def)
  moreover have "filter (\<lambda>r. pc_organization_id r = org \<and> P r) own
      = filter (\<lambda>r. pc_organization_id r = org \<and> P r) pcs" for P
    unfolding own_def filter_filter by (rule filter_cong) auto
  then have "get_usage_summary org from_at to_at ls own mcs = get_usage_summary org from_at to_at ls pcs mcs"
    by (simp only: get_usage_summary_def)
  ultimately show ?thesis
    unfolding org_allowance_for_def recent_miss_def recent_uncertain_outcome_def by simp
qed

subsection \<open>Suppression ends\<close>

lemma fold_max_member: "x \<in> set ts \<Longrightarrow> x \<le> fold max ts (t :: real)"
proof (induction ts arbitrary: t)
  case (Cons y ts)
  have "y \<le> max y t" by simp
  also have "\<dots> \<le> fold max ts (max y t)" by (rule fold_max_ge)
  finally have "y \<le> fold max (y # ts) t" by simp
  with Cons show ?case by auto
qed simp

lemma fold_max_ge_all: "x \<in> set (t # ts) \<Longrightarrow> x \<le> fold max ts (t :: real)"
  using fold_max_ge fold_max_member by auto

lemma fold_max_in: "fold max ts (t :: real) \<in> set (t # ts)"
proof (induction ts arbitrary: t)
  case (Cons y ts)
  from Cons.IH [of "max y t"] show ?case by (auto simp: max_def)
qed simp

lemma last_completed_None: "last_completed P pcs = None \<longleftrightarrow> (\<forall>r \<in> set pcs. \<not> P r)"
proof -
  have "last_completed P pcs = None \<longleftrightarrow> map pc_completed_at (filter P pcs) = []"
    by (cases "map pc_completed_at (filter P pcs)") (simp_all only: last_completed_def list.case, simp_all)
  then show ?thesis by (simp add: filter_empty_conv)
qed

lemma last_completed_Some:
  assumes "last_completed P pcs = Some t"
  shows "(\<exists>r \<in> set pcs. P r \<and> pc_completed_at r = t) \<and> (\<forall>r \<in> set pcs. P r \<longrightarrow> pc_completed_at r \<le> t)"
proof -
  from assms obtain x xs where xs: "map pc_completed_at (filter P pcs) = x # xs" "t = fold max xs x"
    by (auto simp: last_completed_def split: list.splits)
  have s: "set (x # xs) = pc_completed_at ` {r \<in> set pcs. P r}"
    using arg_cong [OF xs(1), of set] by auto
  have "t \<in> set (x # xs)" using fold_max_in xs(2) by simp
  then have "\<exists>r \<in> set pcs. P r \<and> pc_completed_at r = t" unfolding s by auto
  moreover have "pc_completed_at r \<le> t" if "r \<in> set pcs" "P r" for r
  proof -
    have "pc_completed_at r \<in> set (x # xs)" unfolding s using that by blast
    then show ?thesis using fold_max_ge_all xs(2) by simp
  qed
  ultimately show ?thesis by blast
qed

lemma recent_window_None:
  "0 < window \<Longrightarrow> recent_window window P db_now pcs = None
     \<longleftrightarrow> (\<forall>r \<in> set pcs. \<not> (P r \<and> pc_completed_at r > db_now - window))"
  by (simp add: recent_window_def last_completed_None)

lemma recent_window_Some:
  assumes "recent_window window P db_now pcs = Some (since, ends_at)"
  shows "ends_at = since + window \<and> db_now < ends_at
    \<and> (\<exists>r \<in> set pcs. P r \<and> pc_completed_at r = since)
    \<and> (\<forall>r \<in> set pcs. P r \<longrightarrow> pc_completed_at r \<le> since)"
proof -
  from assms have w: "0 < window" "ends_at = since + window"
    and l: "last_completed (\<lambda>r. P r \<and> pc_completed_at r > db_now - window) pcs = Some since"
    by (auto simp: recent_window_def split: if_splits)
  from last_completed_Some [OF l] obtain r where r: "r \<in> set pcs" "P r" "pc_completed_at r > db_now - window"
    "pc_completed_at r = since" by blast
  have "pc_completed_at r' \<le> since" if "r' \<in> set pcs" "P r'" for r'
    using last_completed_Some [OF l] that r by (cases "pc_completed_at r' > db_now - window") auto
  with r w show ?thesis by auto
qed

lemma recent_window_ends:
  assumes "recent_window window P db_now pcs = Some (since, ends_at)" and "ends_at \<le> later"
    and "\<forall>r \<in> set pcs'. P r \<longrightarrow> r \<in> set pcs"
  shows "recent_window window P later pcs' = None"
proof -
  note some = recent_window_Some [OF assms(1)]
  have "0 < window" using assms(1) by (auto simp: recent_window_def split: if_splits)
  moreover have "\<not> (P r \<and> pc_completed_at r > later - window)" if "r \<in> set pcs'" for r
    using some assms(2,3) that by fastforce
  ultimately show ?thesis by (simp add: recent_window_None)
qed

lemma cooling_down_window:
  "cooling_down_until window provider org db_now pcs = map_option snd
     (recent_window window (\<lambda>r. pc_organization_id r = org \<and> pc_provider r = provider
        \<and> has_kind (\<lambda>k. k \<in> QUOTA_ERROR_KINDS) r) db_now pcs)"
  by (simp add: cooling_down_until_def recent_window_def option.map_comp comp_def conj_assoc)



end
