(* ===== verification/Evidence_Store.thy ===== *)
theory Evidence_Store
  imports Policy_Base
begin

text \<open>
  \<open>arie.evidence\<close>: the append-only evidence table that is itself the cache, with a time to
  live per field, and the provider-keyed cache of \<open>arie.jobs.handlers\<close> over it. The trigger
  that fills \<open>expires_at\<close> and the CHECK constraints are part of the insert. Rows a query orders
  equally come back in table order. Text is ordered by code point.
\<close>

subsection \<open>Time to live\<close>

definition FIELD_TTL_SECONDS :: "(string \<times> int) list" where
  "FIELD_TTL_SECONDS =
     [(''industry'', 90 * 86400), (''employee_count'', 30 * 86400), (''title_seniority'', 60 * 86400),
      (''title_function'', 60 * 86400), (''disqualifying_flag'', 14 * 86400),
      (''recent_trigger_event'', 7 * 86400), (''buying_intent'', 3 * 86400)]"

definition DEFAULT_TTL_SECONDS :: int where
  "DEFAULT_TTL_SECONDS = 7 * 86400"

definition ttl_for_field :: "string \<Rightarrow> int" where
  "ttl_for_field name =
     (case map_of FIELD_TTL_SECONDS name of None \<Rightarrow> DEFAULT_TTL_SECONDS | Some t \<Rightarrow> t)"

lemma ttl_at_least_3_days: "3 * 86400 \<le> ttl_for_field name"
proof -
  have "\<forall>t \<in> snd ` set FIELD_TTL_SECONDS. 3 * 86400 \<le> t" by (simp add: FIELD_TTL_SECONDS_def)
  then show ?thesis
    by (cases "map_of FIELD_TTL_SECONDS name")
      (auto simp: ttl_for_field_def DEFAULT_TTL_SECONDS_def dest!: map_of_SomeD)
qed

subsection \<open>The table\<close>

record evidence_row =
  er_organization_id :: uuid
  er_evidence :: evidence
  er_expires_at :: instant

definition row_for_insert :: "uuid \<Rightarrow> evidence \<Rightarrow> evidence_row" where
  "row_for_insert org e =
     \<lparr>er_organization_id = org, er_evidence = e,
      er_expires_at = ev_fetched_at e + of_int (ev_ttl e)\<rparr>"

definition evidence_allowed :: "evidence \<Rightarrow> bool" where
  "evidence_allowed e \<longleftrightarrow> 0 \<le> ev_confidence e \<and> ev_confidence e \<le> 1 \<and> 0 < ev_ttl e"

definition put_many :: "evidence list \<Rightarrow> uuid \<Rightarrow> evidence_row list \<Rightarrow> error + evidence_row list" where
  "put_many items org rows =
     (if list_all evidence_allowed items then Inr (rows @ map (row_for_insert org) items)
      else Inl (CheckViolation ''evidence''))"

definition put_evidence :: "evidence \<Rightarrow> uuid \<Rightarrow> evidence_row list \<Rightarrow> error + evidence_row list" where
  "put_evidence e org rows = put_many [e] org rows"

definition fresh_for :: "entity_type \<Rightarrow> uuid \<Rightarrow> uuid \<Rightarrow> instant \<Rightarrow> evidence_row \<Rightarrow> bool" where
  "fresh_for t i org now r \<longleftrightarrow>
     er_organization_id r = org \<and> ev_entity_type (er_evidence r) = t
     \<and> ev_entity_id (er_evidence r) = i \<and> er_expires_at r > now"

definition newest_first :: "evidence_row list \<Rightarrow> evidence_row list" where
  "newest_first rows = sort_key (\<lambda>r. - ev_fetched_at (er_evidence r)) rows"

definition get_fresh ::
  "entity_type \<Rightarrow> uuid \<Rightarrow> string \<Rightarrow> uuid \<Rightarrow> instant \<Rightarrow> evidence_row list \<Rightarrow> evidence option" where
  "get_fresh t i name org now rows =
     (case newest_first (filter (\<lambda>r. fresh_for t i org now r \<and> ev_field (er_evidence r) = name) rows) of
        [] \<Rightarrow> None
      | r # _ \<Rightarrow> Some (er_evidence r))"

definition evidence_key :: "evidence_row \<Rightarrow> string \<times> string" where
  "evidence_key r = (ev_field (er_evidence r), ev_source (er_evidence r))"

text \<open>\<open>DISTINCT ON (field_name, source) ... ORDER BY field_name, source, fetched_at DESC\<close>: the
  first row of every group of the ordered rows.\<close>

function distinct_on :: "('a \<Rightarrow> 'k) \<Rightarrow> 'a list \<Rightarrow> 'a list" where
  "distinct_on f [] = []"
| "distinct_on f (x # xs) = x # distinct_on f (dropWhile (\<lambda>y. f y = f x) xs)"
  by pat_completeness auto
termination
  by (relation "measure (length \<circ> snd)") (auto simp: le_imp_less_Suc length_dropWhile_le)

definition get_all_fresh ::
  "entity_type \<Rightarrow> uuid \<Rightarrow> uuid \<Rightarrow> instant \<Rightarrow> evidence_row list \<Rightarrow> evidence list" where
  "get_all_fresh t i org now rows =
     map er_evidence (distinct_on evidence_key
       (sort_key evidence_key (newest_first (filter (fresh_for t i org now) rows))))"

subsection \<open>The provider-keyed cache over the table\<close>

text \<open>\<open>_DurableEvidenceCache\<close>: the in-memory cache in front of the table, for one organization
  and the entities of one lead.\<close>

record durable_cache =
  dc_organization_id :: uuid
  dc_entities :: "string \<Rightarrow> (entity_type \<times> uuid) option"

fun freshest_of :: "string \<Rightarrow> evidence list \<Rightarrow> (string \<times> evidence) list" where
  "freshest_of provider [] = []"
| "freshest_of provider (e # es) =
     (let rest = freshest_of provider es
      in if ev_source e = provider then (ev_field e, e) # filter (\<lambda>(n, _). n \<noteq> ev_field e) rest else rest)"

definition durable_hit :: "provider_spec \<Rightarrow> (string \<times> evidence) list \<Rightarrow> provider_result option" where
  "durable_hit spec freshest =
     (if \<not> set (ps_provides spec) \<subseteq> fst ` set freshest then None
      else Some \<lparr>pr_fields = map (\<lambda>n. (n, ev_value (the (map_of freshest n)))) (ps_provides spec),
                 pr_confidence = Min ((\<lambda>n. ev_confidence (the (map_of freshest n))) ` set (ps_provides spec)),
                 pr_cost = 0, pr_latency = 0, pr_status = SUCCESS, pr_matched = None, pr_error_kind = None\<rparr>)"

definition durable_get ::
  "durable_cache \<Rightarrow> string \<Rightarrow> string \<Rightarrow> instant \<Rightarrow> evidence_row list \<Rightarrow> cache
     \<Rightarrow> error + cache \<times> provider_result option" where
  "durable_get dc provider key now rows mem =
     (case mem (provider, key) of
        Some r \<Rightarrow> Inr (mem, Some r)
      | None \<Rightarrow>
          (case dc_entities dc key of
             None \<Rightarrow> Inr (mem, None)
           | Some (t, i) \<Rightarrow>
               sum_bind (spec_named provider) (\<lambda>spec.
                 let freshest = freshest_of provider (get_all_fresh t i (dc_organization_id dc) now rows)
                 in if ps_provides spec = [] then Inl ValueError
                    else case durable_hit spec freshest of
                      None \<Rightarrow> Inr (mem, None)
                    | Some r \<Rightarrow> Inr (cache_put provider key r mem, Some r))))"

definition durable_put ::
  "durable_cache \<Rightarrow> string \<Rightarrow> string \<Rightarrow> provider_result \<Rightarrow> instant \<Rightarrow> evidence_row list \<Rightarrow> cache
     \<Rightarrow> error + cache \<times> evidence_row list" where
  "durable_put dc provider key r now rows mem =
     (let mem' = cache_put provider key r mem
      in case dc_entities dc key of
           None \<Rightarrow> Inr (mem', rows)
         | Some (t, i) \<Rightarrow>
             if pr_status r \<noteq> SUCCESS \<or> pr_fields r = [] then Inr (mem', rows)
             else sum_bind
               (put_many
                 (map (\<lambda>(name, value).
                    \<lparr>ev_entity_type = t, ev_entity_id = i, ev_field = name, ev_value = value,
                     ev_source = provider, ev_confidence = pr_confidence r,
                     ev_ttl = ttl_for_field name, ev_fetched_at = now, ev_signal = None,
                     ev_effect = None\<rparr>) (pr_fields r))
                 (dc_organization_id dc) rows)
               (\<lambda>rows'. Inr (mem', rows')))"

subsection \<open>What a read returns\<close>

lemma dropWhile_sorted:
  assumes "sorted (map f (x # xs))"
  shows "dropWhile (\<lambda>y. f y = f x) xs = filter (\<lambda>y. f y \<noteq> f x) xs"
  using assms
proof (induction xs)
  case (Cons y xs)
  show ?case
  proof (cases "f y = f x")
    case True
    with Cons show ?thesis by (simp add: sorted_simps)
  next
    case False
    then have "f x < f y" using Cons.prems by (auto simp: order.not_eq_order_implies_strict)
    then have "\<forall>z \<in> set xs. f z \<noteq> f x" using Cons.prems by fastforce
    with False show ?thesis by simp
  qed
qed simp

lemma distinct_on_sorted:
  assumes "sorted (map f xs)"
  shows "distinct (map f (distinct_on f xs)) \<and> f ` set (distinct_on f xs) = f ` set xs
    \<and> (\<forall>x \<in> set (distinct_on f xs). \<exists>ys. filter (\<lambda>y. f y = f x) xs = x # ys)"
  using assms
proof (induction "length xs" arbitrary: xs rule: less_induct)
  case less
  show ?case
  proof (cases xs)
    case (Cons x ys)
    let ?zs = "filter (\<lambda>y. f y \<noteq> f x) ys"
    have d: "distinct_on f xs = x # distinct_on f ?zs"
      using dropWhile_sorted [of f x ys] less.prems unfolding Cons by simp
    have "length ?zs < length xs" using Cons by (simp add: le_imp_less_Suc)
    moreover have "sorted (map f ?zs)"
      using less.prems Cons by (simp add: sorted_filter)
    ultimately have IH: "distinct (map f (distinct_on f ?zs))" "f ` set (distinct_on f ?zs) = f ` set ?zs"
      "\<forall>z \<in> set (distinct_on f ?zs). \<exists>ws. filter (\<lambda>y. f y = f z) ?zs = z # ws"
      using less.hyps by blast+
    have "f x \<notin> f ` set (distinct_on f ?zs)" unfolding IH(2) by auto
    moreover have "\<exists>ws. filter (\<lambda>y. f y = f z) xs = z # ws" if z: "z \<in> set (distinct_on f ?zs)" for z
    proof -
      have "f z \<in> f ` set ?zs" using z IH(2) by blast
      then have "f z \<noteq> f x" by auto
      then have "filter (\<lambda>y. f y = f z) xs = filter (\<lambda>y. f y = f z) ?zs"
        using Cons by (auto simp: filter_filter intro!: filter_cong)
      with IH(3) z show ?thesis by auto
    qed
    moreover have "f ` set xs = insert (f x) (f ` set ?zs)" using Cons by auto
    moreover have "\<exists>ws. filter (\<lambda>y. f y = f x) xs = x # ws" using Cons by simp
    ultimately show ?thesis using IH(1,2) unfolding d by auto
  qed simp
qed

lemma filter_newest_first:
  assumes "filter P (newest_first rows) = x # ys"
  shows "x \<in> set rows \<and> P x
    \<and> (\<forall>y \<in> set rows. P y \<longrightarrow> ev_fetched_at (er_evidence y) \<le> ev_fetched_at (er_evidence x))"
proof -
  have "sorted (map (\<lambda>r. - ev_fetched_at (er_evidence r)) (filter P (newest_first rows)))"
    unfolding newest_first_def by (rule sorted_filter) simp
  moreover have "set (filter P (newest_first rows)) = {y \<in> set rows. P y}"
    by (simp add: newest_first_def)
  ultimately show ?thesis unfolding assms by auto
qed

lemma get_all_fresh_rows:
  defines "fresh \<equiv> \<lambda>t i org now rows. distinct_on evidence_key
       (sort_key evidence_key (newest_first (filter (fresh_for t i org now) rows)))"
  shows "distinct (map evidence_key (fresh t i org now rows))
    \<and> evidence_key ` set (fresh t i org now rows) = evidence_key ` {r \<in> set rows. fresh_for t i org now r}
    \<and> (\<forall>r \<in> set (fresh t i org now rows). r \<in> set rows \<and> fresh_for t i org now r
        \<and> (\<forall>r' \<in> set rows. fresh_for t i org now r' \<and> evidence_key r' = evidence_key r
            \<longrightarrow> ev_fetched_at (er_evidence r') \<le> ev_fetched_at (er_evidence r)))"
proof -
  let ?zs = "filter (fresh_for t i org now) rows"
  let ?xs = "sort_key evidence_key (newest_first ?zs)"
  have d: "distinct (map evidence_key (distinct_on evidence_key ?xs))"
    "evidence_key ` set (distinct_on evidence_key ?xs) = evidence_key ` set ?xs"
    "\<forall>x \<in> set (distinct_on evidence_key ?xs). \<exists>ys. filter (\<lambda>y. evidence_key y = evidence_key x) ?xs = x # ys"
    using distinct_on_sorted [of evidence_key ?xs] by auto
  have "r \<in> set rows \<and> fresh_for t i org now r
        \<and> (\<forall>r' \<in> set rows. fresh_for t i org now r' \<and> evidence_key r' = evidence_key r
            \<longrightarrow> ev_fetched_at (er_evidence r') \<le> ev_fetched_at (er_evidence r))"
    if "r \<in> set (distinct_on evidence_key ?xs)" for r
  proof -
    from d(3) that obtain ys where "filter (\<lambda>y. evidence_key y = evidence_key r) ?xs = r # ys"
      by blast
    then have "filter (\<lambda>y. evidence_key y = evidence_key r) (newest_first ?zs) = r # ys"
      unfolding sort_key_stable .
    from filter_newest_first [OF this] show ?thesis by auto
  qed
  moreover have "set ?xs = {r \<in> set rows. fresh_for t i org now r}" by (simp add: newest_first_def)
  ultimately show ?thesis using d(1,2) unfolding fresh_def by metis
qed

lemma fresh_rows_current:
  assumes "es = get_all_fresh t i org now rows"
  shows "distinct (map (\<lambda>e. (ev_field e, ev_source e)) es)
    \<and> (\<forall>e \<in> set es. \<exists>r \<in> set rows. er_evidence r = e \<and> fresh_for t i org now r
        \<and> (\<forall>r' \<in> set rows. fresh_for t i org now r' \<and> evidence_key r' = evidence_key r
            \<longrightarrow> ev_fetched_at (er_evidence r') \<le> ev_fetched_at e))
    \<and> (\<forall>r \<in> set rows. fresh_for t i org now r
        \<longrightarrow> (\<exists>e \<in> set es. (ev_field e, ev_source e) = evidence_key r))"
proof -
  let ?d = "distinct_on evidence_key (sort_key evidence_key (newest_first (filter (fresh_for t i org now) rows)))"
  note rows = get_all_fresh_rows [of t i org now rows]
  have es: "es = map er_evidence ?d" using assms by (simp add: get_all_fresh_def)
  have key: "map (\<lambda>e. (ev_field e, ev_source e)) (map er_evidence xs) = map evidence_key xs" for xs
    by (simp add: evidence_key_def)
  have "(\<lambda>e. (ev_field e, ev_source e)) ` set es = evidence_key ` set ?d"
    unfolding es by (simp add: image_image evidence_key_def)
  also have "\<dots> = evidence_key ` {r \<in> set rows. fresh_for t i org now r}" using rows by blast
  finally have ks: "(\<lambda>e. (ev_field e, ev_source e)) ` set es = evidence_key ` {r \<in> set rows. fresh_for t i org now r}" .
  have "\<exists>e \<in> set es. (ev_field e, ev_source e) = evidence_key r"
    if "r \<in> set rows" "fresh_for t i org now r" for r
  proof -
    have "evidence_key r \<in> (\<lambda>e. (ev_field e, ev_source e)) ` set es" unfolding ks using that by blast
    then show ?thesis by auto
  qed
  moreover have "\<exists>r \<in> set rows. er_evidence r = e \<and> fresh_for t i org now r
        \<and> (\<forall>r' \<in> set rows. fresh_for t i org now r' \<and> evidence_key r' = evidence_key r
            \<longrightarrow> ev_fetched_at (er_evidence r') \<le> ev_fetched_at e)" if "e \<in> set es" for e
  proof -
    from that obtain r where r: "r \<in> set ?d" "e = er_evidence r" unfolding es by auto
    with rows show ?thesis unfolding r(2) by blast
  qed
  moreover have "distinct (map (\<lambda>e. (ev_field e, ev_source e)) es)"
    unfolding es key using rows by blast
  ultimately show ?thesis by blast
qed

text \<open>
  A read of everything fresh is the current state of the entity and nothing else: one fact
  for every field and source that has a fresh row of this organization, none for any other, and
  each is the newest such row, so a source that answered twice is never taken for two sources.
\<close>

theorem fresh_read_is_current:
  assumes "es = get_all_fresh t i org now rows"
  shows "distinct (map (\<lambda>e. (ev_field e, ev_source e)) es)
    \<and> (\<forall>e \<in> set es. \<exists>r \<in> set rows. er_evidence r = e \<and> fresh_for t i org now r
        \<and> (\<forall>r' \<in> set rows. fresh_for t i org now r' \<and> evidence_key r' = evidence_key r
            \<longrightarrow> ev_fetched_at (er_evidence r') \<le> ev_fetched_at e))
    \<and> (\<forall>r \<in> set rows. fresh_for t i org now r
        \<longrightarrow> (\<exists>e \<in> set es. (ev_field e, ev_source e) = evidence_key r))"
  by (rule fresh_rows_current [OF assms])

definition demo_evidence :: "pyval \<Rightarrow> instant \<Rightarrow> evidence" where
  "demo_evidence v t =
     \<lparr>ev_entity_type = Company, ev_entity_id = 4, ev_field = ''industry'', ev_value = v,
      ev_source = ''dns_web'', ev_confidence = 0.8, ev_ttl = 100, ev_fetched_at = t,
      ev_signal = None, ev_effect = None\<rparr>"

theorem fresh_read_is_current_witness:
  "\<exists>es. get_all_fresh Company 4 3 60
       [row_for_insert 3 (demo_evidence (VStr ''old'') 10), row_for_insert 3 (demo_evidence (VStr ''new'') 50)] = es
     \<and> es \<noteq> [] \<and> (\<forall>e \<in> set es. 50 \<le> ev_fetched_at e)"
proof -
  let ?old = "row_for_insert 3 (demo_evidence (VStr ''old'') 10)"
  let ?new = "row_for_insert 3 (demo_evidence (VStr ''new'') 50)"
  let ?es = "get_all_fresh Company 4 3 60 [?old, ?new]"
  have f: "fresh_for Company 4 3 60 ?new"
    by (simp add: fresh_for_def row_for_insert_def demo_evidence_def)
  have k: "evidence_key r = evidence_key ?new" if "r \<in> set [?old, ?new]" for r
    using that by (auto simp: row_for_insert_def demo_evidence_def evidence_key_def)
  have t: "ev_fetched_at (er_evidence ?new) = 50" by (simp add: row_for_insert_def demo_evidence_def)
  note c = fresh_read_is_current [of ?es Company 4 3 60 "[?old, ?new]", OF refl]
  then have "?es \<noteq> []" using f by force
  moreover have "50 \<le> ev_fetched_at e" if e: "e \<in> set ?es" for e
  proof -
    from c e obtain r where r: "r \<in> set [?old, ?new]"
      and le: "\<forall>r' \<in> set [?old, ?new]. fresh_for Company 4 3 60 r' \<and> evidence_key r' = evidence_key r
            \<longrightarrow> ev_fetched_at (er_evidence r') \<le> ev_fetched_at e" by blast
    have "ev_fetched_at (er_evidence ?new) \<le> ev_fetched_at e"
      by (rule le [rule_format]) (use f k [OF r] in simp_all)
    with t show ?thesis by simp
  qed
  ultimately show ?thesis by blast
qed

subsection \<open>What is put is found again\<close>

lemma freshest_of_map_of:
  "map_of (freshest_of p es) n = Some e \<Longrightarrow> e \<in> set es \<and> ev_source e = p \<and> ev_field e = n"
proof (induction es)
  case (Cons x es)
  show ?case
  proof (cases "ev_source x = p \<and> ev_field x = n")
    case True
    with Cons.prems show ?thesis by (simp add: Let_def)
  next
    case False
    have "map_of (filter (\<lambda>(m, _). m \<noteq> ev_field x) xs) n = (if n = ev_field x then None else map_of xs n)" for xs :: "(string \<times> evidence) list"
      by (induction xs) auto
    with False Cons show ?thesis by (auto simp: Let_def split: if_splits)
  qed
qed simp

lemma freshest_of_fields:
  "fst ` set (freshest_of p es) = ev_field ` {e \<in> set es. ev_source e = p}"
proof (induction es)
  case (Cons e es)
  have "fst ` set (filter (\<lambda>(m, _). m \<noteq> x) xs) = fst ` set xs - {x}" for x and xs :: "(string \<times> evidence) list"
    by force
  with Cons show ?case by (auto simp: Let_def)
qed simp

lemma put_many_Inr: "put_many items org rows = Inr rows' \<longleftrightarrow>
    list_all evidence_allowed items \<and> rows' = rows @ map (row_for_insert org) items"
  by (auto simp: put_many_def)

lemma durable_put_rows:
  assumes "durable_put dc p key r now rows mem = Inr (mem', rows')" and "pr_status r = SUCCESS"
    and "dc_entities dc key = Some (t, i)" and "pr_fields r \<noteq> []"
  shows "rows' = rows @ map (\<lambda>(name, value). row_for_insert (dc_organization_id dc)
       \<lparr>ev_entity_type = t, ev_entity_id = i, ev_field = name, ev_value = value,
        ev_source = p, ev_confidence = pr_confidence r, ev_ttl = ttl_for_field name,
        ev_fetched_at = now, ev_signal = None, ev_effect = None\<rparr>) (pr_fields r)"
  using assms by (auto simp: durable_put_def Let_def sum_bind_Inr put_many_Inr comp_def case_prod_unfold)

text \<open>Every fresh fact of the provider about one of the answered fields is the answer.\<close>

lemma answered_fresh:
  assumes put: "rows' = rows @ map (\<lambda>(name, value). row_for_insert org
       \<lparr>ev_entity_type = t, ev_entity_id = i, ev_field = name, ev_value = value,
        ev_source = p, ev_confidence = c, ev_ttl = ttl_for_field name,
        ev_fetched_at = now, ev_signal = None, ev_effect = None\<rparr>) fs"
    and d: "distinct (map fst fs)" and old: "\<forall>x \<in> set rows. ev_fetched_at (er_evidence x) < now"
    and n: "(n, v) \<in> set fs" and ttl: "now' < now + of_int (ttl_for_field n)"
  defines "es \<equiv> get_all_fresh t i org now' rows'"
  shows "(\<exists>e \<in> set es. ev_source e = p \<and> ev_field e = n)
    \<and> (\<forall>e \<in> set es. ev_source e = p \<and> ev_field e = n \<longrightarrow> ev_value e = v \<and> ev_confidence e = c)"
proof -
  let ?row = "\<lambda>(name, value). row_for_insert org
       \<lparr>ev_entity_type = t, ev_entity_id = i, ev_field = name, ev_value = value,
        ev_source = p, ev_confidence = c, ev_ttl = ttl_for_field name,
        ev_fetched_at = now, ev_signal = None, ev_effect = None\<rparr>"
  have new: "?row (n, v) \<in> set rows'" "fresh_for t i org now' (?row (n, v))"
    "evidence_key (?row (n, v)) = (n, p)" "ev_fetched_at (er_evidence (?row (n, v))) = now"
    using n ttl by (force simp: put, simp_all add: fresh_for_def row_for_insert_def evidence_key_def)
  note cur = fresh_rows_current [OF es_def [THEN meta_eq_to_obj_eq]]
  have "\<forall>r \<in> set rows'. fresh_for t i org now' r
      \<longrightarrow> (\<exists>e \<in> set es. (ev_field e, ev_source e) = evidence_key r)" using cur by blast
  from this [rule_format, OF new(1,2)] have "\<exists>e \<in> set es. ev_source e = p \<and> ev_field e = n"
    unfolding new(3) by blast
  moreover have "ev_value e = v \<and> ev_confidence e = c"
    if e: "e \<in> set es" "ev_source e = p" "ev_field e = n" for e
  proof -
    from cur e(1) obtain x where x: "x \<in> set rows'" "er_evidence x = e"
      and le: "\<forall>r' \<in> set rows'. fresh_for t i org now' r' \<and> evidence_key r' = evidence_key x
            \<longrightarrow> ev_fetched_at (er_evidence r') \<le> ev_fetched_at e" by blast
    have "evidence_key x = (n, p)" using x(2) e by (simp add: evidence_key_def)
    with le new have "now \<le> ev_fetched_at e" by force
    with old x have "x \<notin> set rows" by force
    with x(1) obtain m u where m: "(m, u) \<in> set fs" "x = ?row (m, u)" by (auto simp: put)
    with x(2) e(3) have "m = n" by (auto simp: row_for_insert_def)
    with m(1) n d have "u = v" by (metis eq_key_imp_eq_value)
    with m(2) x(2) show ?thesis by (auto simp: row_for_insert_def)
  qed
  ultimately show ?thesis by blast
qed

lemma provides_nonempty: "spec_named p = Inr spec \<Longrightarrow> ps_provides spec \<noteq> []"
proof -
  assume "spec_named p = Inr spec"
  then have "spec \<in> set CATALOG"
    by (auto simp: spec_named_def BY_NAME_def split: option.splits dest!: map_of_SomeD)
  moreover have "\<forall>s \<in> set CATALOG. ps_provides s \<noteq> []" by (simp add: CATALOG_def provider_spec_defs)
  ultimately show ?thesis by blast
qed

lemma durable_hit_Some:
  assumes "\<forall>n \<in> set (ps_provides spec). (\<exists>e \<in> set es. ev_source e = p \<and> ev_field e = n)
      \<and> (\<forall>e \<in> set es. ev_source e = p \<and> ev_field e = n \<longrightarrow> ev_value e = f n \<and> ev_confidence e = c)"
    and "ps_provides spec \<noteq> []"
  shows "durable_hit spec (freshest_of p es) =
    Some \<lparr>pr_fields = map (\<lambda>n. (n, f n)) (ps_provides spec), pr_confidence = c, pr_cost = 0,
          pr_latency = 0, pr_status = SUCCESS, pr_matched = None, pr_error_kind = None\<rparr>"
proof -
  let ?fr = "freshest_of p es"
  have val: "ev_value (the (map_of ?fr n)) = f n \<and> ev_confidence (the (map_of ?fr n)) = c \<and> n \<in> fst ` set ?fr"
    if "n \<in> set (ps_provides spec)" for n
  proof -
    have "n \<in> fst ` set ?fr" using assms(1) that by (force simp: freshest_of_fields)
    then obtain e where e: "map_of ?fr n = Some e" by (metis map_of_eq_None_iff not_None_eq)
    with freshest_of_map_of [OF e] assms(1) that \<open>n \<in> fst ` set ?fr\<close> show ?thesis by auto
  qed
  have "(\<lambda>n. ev_confidence (the (map_of ?fr n))) ` set (ps_provides spec) = (\<lambda>_. c) ` set (ps_provides spec)"
    using val by (intro image_cong) simp_all
  then have "(\<lambda>n. ev_confidence (the (map_of ?fr n))) ` set (ps_provides spec) = {c}"
    using assms(2) by (simp add: image_constant_conv)
  moreover have "map (\<lambda>n. (n, ev_value (the (map_of ?fr n)))) (ps_provides spec) = map (\<lambda>n. (n, f n)) (ps_provides spec)"
    using val by simp
  moreover have "set (ps_provides spec) \<subseteq> fst ` set ?fr" using val by blast
  ultimately show ?thesis unfolding durable_hit_def by simp
qed


definition demo_cache :: durable_cache where
  "demo_cache = \<lparr>dc_organization_id = 3, dc_entities = [''acme.com'' \<mapsto> (Company, 4)]\<rparr>"

definition demo_answer :: provider_result where
  "demo_answer =
     \<lparr>pr_fields = [(''industry'', VStr ''saas'')], pr_confidence = 0.84, pr_cost = 0.0008,
      pr_latency = 250, pr_status = SUCCESS, pr_matched = None, pr_error_kind = None\<rparr>"


end
