(* ===== verification/Person_Relevance.thy ===== *)
theory Person_Relevance
  imports Scoring_Engine
begin

text \<open>
  \<open>arie.live.person_relevance\<close>: whether a person provider's fields, resolved as favourably as
  they can be, would change the recommendation. The sentence that explains the verdict to a
  reader is not modelled.
\<close>

record person_relevance =
  rel_should_call :: bool
  rel_fields :: "string list"
  rel_current :: real
  rel_best_case :: real

definition unresolved_fields :: "facts \<Rightarrow> string list \<Rightarrow> string list" where
  "unresolved_fields fs candidates =
     sort (filter (\<lambda>name. name \<in> set SCORED_FIELDS \<and> \<not> is_known fs name) candidates)"

fun best_case_facts :: "scoring_config \<Rightarrow> string list \<Rightarrow> facts \<Rightarrow> facts" where
  "best_case_facts cfg [] fs = fs"
| "best_case_facts cfg (name # names) fs =
     best_case_facts cfg names
       (case best_case_value cfg name of None \<Rightarrow> fs | Some v \<Rightarrow> fs(name \<mapsto> v))"

definition person_evidence_is_decision_relevant ::
  "scoring_config \<Rightarrow> scoring_result \<Rightarrow> string list \<Rightarrow> person_relevance" where
  "person_evidence_is_decision_relevant cfg r candidates =
     (let unresolved = unresolved_fields (sr_facts r) candidates;
          current = sr_total r
      in if is_settled cfg (bounds r) then
           \<lparr>rel_should_call = False, rel_fields = unresolved, rel_current = current,
            rel_best_case = current\<rparr>
         else if unresolved = [] then
           \<lparr>rel_should_call = False, rel_fields = [], rel_current = current, rel_best_case = current\<rparr>
         else
           (let best = score_resolved cfg (best_case_facts cfg unresolved (sr_facts r)) [] []
            in \<lparr>rel_should_call = (sr_decision best \<noteq> sr_decision r), rel_fields = unresolved,
                rel_current = current, rel_best_case = sr_total best\<rparr>))"

subsection \<open>The best case is the best case\<close>

definition CATEGORICAL_FIELDS :: "string list" where
  "CATEGORICAL_FIELDS = [''industry'', ''title_seniority'', ''title_function'']"

definition category_points :: "scoring_config \<Rightarrow> string \<Rightarrow> (string \<times> real) list" where
  "category_points cfg name =
     (if name = ''industry'' then industry_points cfg
      else if name = ''title_seniority'' then seniority_points cfg
      else if name = ''title_function'' then function_points cfg else [])"

text \<open>No point table gives points to the word for an unknown value.\<close>

definition unknown_scores_nothing :: "scoring_config \<Rightarrow> bool" where
  "unknown_scores_nothing cfg \<longleftrightarrow>
     (\<forall>name \<in> set CATEGORICAL_FIELDS. dict_get (category_points cfg name) UNKNOWN = 0)"

lemma categorical_scored: "name \<in> set CATEGORICAL_FIELDS \<Longrightarrow> name \<in> set ADDITIVE_FIELDS"
  by (auto simp: CATEGORICAL_FIELDS_def ADDITIVE_FIELDS_def)

lemma categorical_not_disqualifier: "name \<in> set CATEGORICAL_FIELDS \<Longrightarrow> name \<noteq> DISQUALIFIER_FIELD"
  by (auto simp: CATEGORICAL_FIELDS_def DISQUALIFIER_FIELD_def)

lemma categorical_points:
  assumes "name \<in> set CATEGORICAL_FIELDS" and "\<not> is_unknown (Some v)"
  shows "field_points cfg name (Some v) = dict_get (category_points cfg name) (py_str v)"
proof -
  from assms(1) consider "name = ''industry''" | "name = ''title_seniority''" | "name = ''title_function''"
    by (auto simp: CATEGORICAL_FIELDS_def)
  then show ?thesis by cases (simp_all add: assms(2) category_points_def)
qed

lemma category_points_nonneg:
  assumes "wf_config cfg"
  shows "0 \<le> dict_get (category_points cfg name) k"
proof -
  have "\<forall>p \<in> set (map snd (category_points cfg name)). 0 \<le> p"
    using assms unfolding category_points_def wf_config_def by (simp split: if_split)
  then show ?thesis using dict_get_bounds by blast
qed

lemma best_case_value_points:
  "best_case_value cfg name =
     (case category_points cfg name of
        [] \<Rightarrow> None
      | p # ps \<Rightarrow> Some (VStr (max_by (dict_get (category_points cfg name)) (fst p) (map fst ps))))"
  by (simp add: best_case_value_def category_points_def Let_def split: list.split)

text \<open>The points of any value of a categorical field are at most those of its best case.\<close>

lemma best_case_is_best:
  assumes wf: "wf_config cfg" and u: "unknown_scores_nothing cfg" and c: "name \<in> set CATEGORICAL_FIELDS"
    and b: "best_case_value cfg name = Some b"
  shows "field_points cfg name v \<le> field_points cfg name (Some b)"
proof -
  let ?d = "category_points cfg name"
  from b obtain p ps where d: "?d = p # ps" and b': "b = VStr (max_by (dict_get ?d) (fst p) (map fst ps))"
    by (auto simp: best_case_value_points split: list.splits)
  let ?best = "max_by (dict_get ?d) (fst p) (map fst ps)"
  have best: "dict_get ?d k \<le> dict_get ?d ?best" for k
  proof (cases "map_of ?d k")
    case None
    then show ?thesis using category_points_nonneg [OF wf] by (simp add: dict_get_def [of _ k])
  next
    case (Some x)
    from map_of_SomeD [OF Some] have "k \<in> fst ` set (p # ps)" unfolding d by force
    then have "k \<in> set (fst p # map fst ps)" by simp
    then show ?thesis by (rule max_by_ge)
  qed
  have at_best: "field_points cfg name (Some b) = dict_get ?d ?best"
  proof (cases "?best = UNKNOWN")
    case True
    then have "is_unknown (Some b)" by (simp add: b' is_unknown_def)
    then have "field_points cfg name (Some b) = 0" by (simp add: field_points_def)
    moreover have "dict_get ?d UNKNOWN = 0" using u c by (auto simp: unknown_scores_nothing_def)
    ultimately show ?thesis using True by simp
  next
    case False
    then have "\<not> is_unknown (Some b)" by (simp add: b' is_unknown_def)
    then show ?thesis using categorical_points [OF c] by (simp add: b' py_str_def)
  qed
  show ?thesis
  proof (cases "is_unknown v")
    case True
    then have "field_points cfg name v = 0" by (simp add: field_points_def)
    then show ?thesis using at_best category_points_nonneg [OF wf] by simp
  next
    case False
    then obtain w where "v = Some w" "\<not> is_unknown (Some w)" by (cases v) (auto simp: is_unknown_def)
    then show ?thesis using categorical_points [OF c] best at_best by simp
  qed
qed

lemma no_best_case:
  assumes "name \<in> set CATEGORICAL_FIELDS" and "best_case_value cfg name = None"
  shows "field_points cfg name v = 0"
proof (cases "is_unknown v")
  case True
  then show ?thesis by (simp add: field_points_def)
next
  case False
  then obtain w where "v = Some w" "\<not> is_unknown (Some w)" by (cases v) (auto simp: is_unknown_def)
  moreover have "category_points cfg name = []"
    using assms(2) by (auto simp: best_case_value_points split: list.splits)
  ultimately show ?thesis using categorical_points [OF assms(1)] by (simp add: dict_get_def)
qed

lemma best_case_facts_other: "name \<notin> set names \<Longrightarrow> best_case_facts cfg names fs name = fs name"
  by (induction names arbitrary: fs) (auto split: option.splits)

lemma best_case_facts_at:
  "name \<in> set names \<Longrightarrow> best_case_facts cfg names fs name =
     (case best_case_value cfg name of None \<Rightarrow> fs name | Some v \<Rightarrow> Some v)"
proof (induction names arbitrary: fs)
  case (Cons n names)
  let ?fs = "case best_case_value cfg n of None \<Rightarrow> fs | Some v \<Rightarrow> fs(n \<mapsto> v)"
  show ?case
  proof (cases "name \<in> set names")
    case True
    with Cons.IH [of ?fs] show ?thesis by (auto split: option.splits)
  next
    case False
    with Cons.prems best_case_facts_other [OF False, of cfg ?fs] show ?thesis by (simp split: option.split)
  qed
qed simp

lemma decide_between:
  assumes "wf_config cfg" and "s1 \<le> s2" and "s2 \<le> s3" and "decide cfg s1 = decide cfg s3"
  shows "decide cfg s2 = decide cfg s1"
  using assms by (auto simp: decide_def wf_config_def split: if_splits)


definition small_nonprofit :: facts where
  "small_nonprofit = [''industry'' \<mapsto> VStr ''nonprofit'', ''employee_count'' \<mapsto> VInt 5]"


end
