(* ===== verification/Live_Acquisition.thy ===== *)
theory Live_Acquisition
  imports Live_Guards Evidence_Store Identity Live_Safety Person_Relevance
begin

text \<open>
  The live acquisition of \<open>arie.jobs.handlers\<close>: real providers in order, each asked only when
  more evidence is worth buying, nothing already held answers it, no settled outcome or cooldown
  suppresses it and every spend cap permits it. Providers and their adapters are parameters: a
  provider is its name, what it sells, its list price and the function behind \<open>fetch\<close>. The
  evidence and ledger rows are committed one by one, so a computation carries its state also when
  it raises. \<open>live_tick k\<close> gives the instants the statements around provider number \<open>k\<close> read.
\<close>

subsection \<open>Providers and results\<close>

text \<open>The further entries of \<open>raw\<close> the ledger reads.\<close>

record live_result = provider_result +
  lv_credits :: "pyval option"
  lv_cost_basis :: "pyval option"
  lv_vendor_billed :: "pyval option"

record live_ref =
  lr_type :: entity_type
  lr_id :: uuid
  lr_key :: string

record live_provider =
  vp_name :: string
  vp_entity_type :: entity_type
  vp_provides :: "string list"
  vp_base_cost :: real
  vp_fetch :: "live_ref \<Rightarrow> error + live_result"

record live_identity = lead_identity +
  li_full_name :: "string option"

definition REGISTERED_LIVE_PROVIDER_NAMES :: "string list" where
  "REGISTERED_LIVE_PROVIDER_NAMES =
     [''abstract_company_enrichment'', ''hunter_combined_enrichment'', ''apollo_person_enrichment'']"

text \<open>\<open>known.get(name, len(known))\<close> with \<open>known\<close> the index of each name in the priority list.\<close>

fun rank_in :: "string list \<Rightarrow> string \<Rightarrow> nat" where
  "rank_in [] name = 0"
| "rank_in (n # ns) name = (if n = name then 0 else Suc (rank_in ns name))"

definition acquisition_order :: "string list \<Rightarrow> live_provider list \<Rightarrow> error + live_provider list" where
  "acquisition_order order providers =
     (let priority = (if order = [] then REGISTERED_LIVE_PROVIDER_NAMES
                      else rev (remdups (rev order))
                           @ filter (\<lambda>n. n \<notin> set order) REGISTERED_LIVE_PROVIDER_NAMES)
      in if list_ex (\<lambda>n. n \<notin> set REGISTERED_LIVE_PROVIDER_NAMES) order then Inl ValueError
         else Inr (sort_key (\<lambda>p. rank_in priority (vp_name p)) providers))"

subsection \<open>The lead's entities and the stopping rules\<close>

definition live_entity_refs :: "'a live_identity_scheme \<Rightarrow> entity_type \<Rightarrow> live_ref option" where
  "live_entity_refs idn t =
     (case t of
        Person \<Rightarrow> Some \<lparr>lr_type = Person, lr_id = li_person_id idn, lr_key = li_email idn\<rparr>
      | Company \<Rightarrow> map_option (\<lambda>d. \<lparr>lr_type = Company, lr_id = li_company_id idn, lr_key = d\<rparr>) (li_domain idn))"

definition STOP_SETTLED :: string where "STOP_SETTLED = ''decision_settled''"
definition STOP_CONFIDENT :: string where "STOP_CONFIDENT = ''confidence_reached''"
definition STOP_PROVIDER_FAILED :: string where "STOP_PROVIDER_FAILED = ''provider_failed''"
definition STOP_ALL_CALLED :: string where "STOP_ALL_CALLED = ''all_providers_called''"
definition STOP_NO_IDENTIFIER :: string where "STOP_NO_IDENTIFIER = ''no_domain_available''"
definition STOP_PERSON_EVIDENCE_NOT_MATERIAL :: string where
  "STOP_PERSON_EVIDENCE_NOT_MATERIAL = ''person_evidence_not_material''"

definition enough_evidence ::
  "scoring_config \<Rightarrow> confidence_model \<Rightarrow> scoring_result \<Rightarrow> bool \<Rightarrow> string option" where
  "enough_evidence cfg m scoring has_evidence =
     (if is_settled cfg (bounds scoring) then Some STOP_SETTLED
      else if has_evidence \<and> predict m cfg scoring \<ge> tau m then Some STOP_CONFIDENT
      else None)"

type_synonym stop_check =
  "scoring_config \<Rightarrow> confidence_model \<Rightarrow> scoring_result \<Rightarrow> bool \<Rightarrow> live_provider \<Rightarrow> string option"

definition default_stop_check :: stop_check where
  "default_stop_check cfg m scoring has_evidence p = enough_evidence cfg m scoring has_evidence"

definition option_c_stop_check :: stop_check where
  "option_c_stop_check cfg m scoring has_evidence p =
     (if is_settled cfg (bounds scoring) then Some STOP_SETTLED
      else if vp_entity_type p \<noteq> Person then None
      else if rel_should_call (person_evidence_is_decision_relevant cfg scoring (vp_provides p)) then None
      else Some STOP_PERSON_EVIDENCE_NOT_MATERIAL)"

subsection \<open>Checking the person a provider matched\<close>

definition requested_of :: "'a live_identity_scheme \<Rightarrow> requested_identity" where
  "requested_of idn =
     \<lparr>rq_email = li_email idn, rq_company_domain = li_domain idn, rq_full_name = li_full_name idn\<rparr>"

text \<open>\<open>a or b\<close> of two optional strings.\<close>

definition py_or :: "string option \<Rightarrow> string option \<Rightarrow> string option" where
  "py_or a b = (if present a then a else b)"

definition returned_of :: "matched_identity \<Rightarrow> returned_identity" where
  "returned_of m =
     \<lparr>rt_full_name = mi_full_name m, rt_email = mi_email m,
      rt_employer_domain = py_or (mi_employer_domain m) (mi_organization_domain m),
      rt_employer_name = py_or (mi_employer_name m) (mi_organization_name m)\<rparr>"

definition validate_person_match ::
  "'a live_identity_scheme \<Rightarrow> live_provider \<Rightarrow> live_result
     \<Rightarrow> error + live_result \<times> identity_validation option" where
  "validate_person_match idn p r =
     (if vp_entity_type p \<noteq> Person \<or> pr_status r \<noteq> SUCCESS then Inr (r, None)
      else case pr_matched r of
        None \<Rightarrow> Inr (r, None)
      | Some m \<Rightarrow>
          sum_bind (validate_identity (requested_of idn) (returned_of m)) (\<lambda>v.
            Inr (if iv_verdict v = VERIFIED then r else r\<lparr>pr_fields := []\<rparr>, Some v)))"

subsection \<open>The two tables and what is read back of them\<close>

record live_db =
  ld_evidence :: "evidence_row list"
  ld_calls :: "provider_call list"

type_synonym live_evidence = "entity_type \<Rightarrow> evidence list"

definition fresh_live_evidence ::
  "(entity_type \<Rightarrow> live_ref option) \<Rightarrow> uuid \<Rightarrow> instant \<Rightarrow> evidence_row list \<Rightarrow> live_evidence" where
  "fresh_live_evidence refs org now rows t =
     (case refs t of None \<Rightarrow> [] | Some ref \<Rightarrow> get_all_fresh (lr_type ref) (lr_id ref) org now rows)"

text \<open>The entity types in the order of their names.\<close>

definition all_evidence :: "live_evidence \<Rightarrow> evidence list" where
  "all_evidence ev = ev Company @ ev Person"

subsection \<open>Ledger rows\<close>

definition live_idempotency_key :: "uuid \<Rightarrow> string \<Rightarrow> live_ref \<Rightarrow> string" where
  "live_idempotency_key job provider ref = durable_key job provider (lr_key ref)"

record live_env =
  ae_identity :: live_identity
  ae_lead_id :: uuid
  ae_job_id :: uuid
  ae_organization_id :: uuid
  ae_budget :: live_budget
  ae_cooldown :: real
  ae_ttls :: outcome_ttls
  ae_model :: confidence_model
  ae_config :: scoring_config
  ae_now :: instant
  ae_stop_check :: stop_check
  ae_org_guard :: "organizations option"
  ae_credential_source :: "string option"

record live_tick =
  lt_miss :: instant
  lt_uncertain :: instant
  lt_cooldown :: instant
  lt_budget :: instant
  lt_org :: instant
  lt_write :: write_env

text \<open>The ledger row of a call that was not made.\<close>

definition suppressed_charge ::
  "live_env \<Rightarrow> string \<Rightarrow> live_ref \<Rightarrow> provider_status \<Rightarrow> string option \<Rightarrow> provider_charge" where
  "suppressed_charge E provider ref st reason =
     \<lparr>ch_key = live_idempotency_key (ae_job_id E) provider ref, ch_provider = provider,
      ch_entity_type = lr_type ref, ch_entity_id = lr_id ref, ch_status = st, ch_cost = 0,
      ch_latency = 0, ch_organization_id = ae_organization_id E, ch_lead_id = Some (ae_lead_id E),
      ch_cache_hit = True, ch_raw_ref = None, ch_completed_at = None, ch_error_kind = None,
      ch_credits = None, ch_cost_basis = None, ch_suppressed = reason,
      ch_credential_source = None, ch_actual_cost = None\<rparr>"

text \<open>\<open>isinstance(v, int | float)\<close>, which a bool is as well.\<close>

definition as_number :: "pyval option \<Rightarrow> real option" where
  "as_number v =
     (case v of
        Some (VInt i) \<Rightarrow> Some (of_int i)
      | Some (VFloat x _) \<Rightarrow> Some x
      | Some (VBool b) \<Rightarrow> Some (if b then 1 else 0)
      | _ \<Rightarrow> None)"

definition as_text :: "pyval option \<Rightarrow> string option" where
  "as_text v = (case v of Some (VStr s) \<Rightarrow> Some s | _ \<Rightarrow> None)"

definition not_none :: "pyval option \<Rightarrow> bool" where
  "not_none v \<longleftrightarrow> v \<noteq> None \<and> v \<noteq> Some VNone"

definition live_charge :: "live_env \<Rightarrow> string \<Rightarrow> live_ref \<Rightarrow> live_result \<Rightarrow> provider_charge" where
  "live_charge E provider ref r =
     (let basis = as_text (lv_cost_basis r);
          actual = (case as_number (lv_vendor_billed r) of
                      Some x \<Rightarrow> Some x
                    | None \<Rightarrow> if not_none (lv_credits r) \<and> is_real_provider_call basis then Some 0 else None)
      in \<lparr>ch_key = live_idempotency_key (ae_job_id E) provider ref, ch_provider = provider,
          ch_entity_type = lr_type ref, ch_entity_id = lr_id ref, ch_status = pr_status r,
          ch_cost = pr_cost r, ch_latency = pr_latency r,
          ch_organization_id = ae_organization_id E, ch_lead_id = Some (ae_lead_id E),
          ch_cache_hit = False, ch_raw_ref = None, ch_completed_at = None,
          ch_error_kind = pr_error_kind r, ch_credits = as_number (lv_credits r),
          ch_cost_basis = basis, ch_suppressed = None,
          ch_credential_source = ae_credential_source E, ch_actual_cost = actual\<rparr>)"

subsection \<open>The acquisition loop\<close>

type_synonym finding = "string \<times> identity_verdict \<times> string list"

record acquisition =
  aq_db :: live_db
  aq_evidence :: live_evidence
  aq_scoring :: scoring_result
  aq_called :: "string list"
  aq_cache_hits :: "string list"
  aq_unreachable :: "string list"
  aq_redundant :: "string list"
  aq_unavailable :: "string list"
  aq_failed :: "string list"
  aq_cost :: real
  aq_findings :: "finding list"

definition read_evidence :: "live_env \<Rightarrow> live_db \<Rightarrow> live_evidence" where
  "read_evidence E d =
     fresh_live_evidence (live_entity_refs (ae_identity E)) (ae_organization_id E) (ae_now E) (ld_evidence d)"

definition score_held :: "live_env \<Rightarrow> live_evidence \<Rightarrow> scoring_result" where
  "score_held E ev = score_evidence (ae_config E) (all_evidence ev) (ae_now E)"

definition record_live :: "write_env \<Rightarrow> provider_charge \<Rightarrow> live_db \<Rightarrow> error + live_db" where
  "record_live w c d =
     sum_bind (record_provider_call w c (ld_calls d)) (\<lambda>(rows, _). Inr (d\<lparr>ld_calls := rows\<rparr>))"

text \<open>A provider's call is answered by a zero-cost row; the name lands in the cache hits.\<close>

definition suppress_call ::
  "live_env \<Rightarrow> live_tick \<Rightarrow> live_provider \<Rightarrow> live_ref \<Rightarrow> provider_status \<Rightarrow> string option
     \<Rightarrow> 'a acquisition_scheme \<Rightarrow> 'a acquisition_scheme \<times> (error + string option)" where
  "suppress_call E t p ref st reason a =
     (case record_live (lt_write t) (suppressed_charge E (vp_name p) ref st reason) (aq_db a) of
        Inl e \<Rightarrow> (a, Inl e)
      | Inr d \<Rightarrow> (a\<lparr>aq_db := d, aq_cache_hits := aq_cache_hits a @ [vp_name p]\<rparr>, Inr None))"

text \<open>The evidence rows of a result: \<open>fetched_at\<close> is the job's own instant.\<close>

definition live_evidence_items :: "live_env \<Rightarrow> string \<Rightarrow> live_ref \<Rightarrow> live_result \<Rightarrow> evidence list" where
  "live_evidence_items E provider ref r =
     map (\<lambda>(name, value).
       \<lparr>ev_entity_type = lr_type ref, ev_entity_id = lr_id ref, ev_field = name, ev_value = value,
        ev_source = provider, ev_confidence = pr_confidence r, ev_ttl = ttl_for_field name,
        ev_fetched_at = ae_now E, ev_signal = None, ev_effect = None\<rparr>) (pr_fields r)"

definition store_result ::
  "live_env \<Rightarrow> live_provider \<Rightarrow> live_ref \<Rightarrow> live_result \<Rightarrow> 'a acquisition_scheme
     \<Rightarrow> 'a acquisition_scheme \<times> (error + string option)" where
  "store_result E p ref r a =
     (if pr_status r = SUCCESS \<and> pr_fields r \<noteq> [] then
        (case put_many (live_evidence_items E (vp_name p) ref r) (ae_organization_id E)
                (ld_evidence (aq_db a)) of
           Inl e \<Rightarrow> (a, Inl e)
         | Inr rows \<Rightarrow>
             (let d = (aq_db a)\<lparr>ld_evidence := rows\<rparr>; ev = read_evidence E d
              in (a\<lparr>aq_db := d, aq_evidence := ev, aq_scoring := score_held E ev\<rparr>, Inr None)))
      else (a, Inr None))"

definition finding_of :: "string \<Rightarrow> identity_validation option \<Rightarrow> finding list" where
  "finding_of provider v =
     (case v of None \<Rightarrow> [] | Some iv \<Rightarrow> [(provider, iv_verdict iv, iv_reasons iv)])"

text \<open>The call itself: fetch, check the person, record the call, keep the evidence.\<close>

definition call_provider ::
  "live_env \<Rightarrow> live_tick \<Rightarrow> live_provider \<Rightarrow> live_ref \<Rightarrow> 'a acquisition_scheme
     \<Rightarrow> 'a acquisition_scheme \<times> (error + string option)" where
  "call_provider E t p ref a =
     (case vp_fetch p ref of
        Inl e \<Rightarrow> (a, Inl e)
      | Inr r0 \<Rightarrow>
          (case validate_person_match (ae_identity E) p r0 of
             Inl e \<Rightarrow> (a, Inl e)
           | Inr (r, v) \<Rightarrow>
               (let a1 = a\<lparr>aq_findings := aq_findings a @ finding_of (vp_name p) v,
                          aq_called := aq_called a @ [vp_name p], aq_cost := aq_cost a + pr_cost r\<rparr>
                in case record_live (lt_write t) (live_charge E (vp_name p) ref r) (aq_db a1) of
                     Inl e \<Rightarrow> (a1, Inl e)
                   | Inr d \<Rightarrow>
                       store_result E p ref r
                         (a1\<lparr>aq_db := d,
                             aq_failed := aq_failed a1
                               @ (if pr_status r \<in> {ERROR, TIMEOUT} then [vp_name p] else [])\<rparr>))))"

text \<open>One provider: \<open>Some\<close> reason ends the acquisition.\<close>

definition live_step ::
  "live_env \<Rightarrow> live_tick \<Rightarrow> live_provider \<Rightarrow> acquisition \<Rightarrow> acquisition \<times> (error + string option)" where
  "live_step E t p a =
     (case live_entity_refs (ae_identity E) (vp_entity_type p) of
        None \<Rightarrow> (a\<lparr>aq_unreachable := aq_unreachable a @ [vp_name p]\<rparr>, Inr None)
      | Some ref \<Rightarrow>
          (let held = aq_evidence a (lr_type ref);
               own = filter (\<lambda>e. ev_source e = vp_name p) held;
               calls = ld_calls (aq_db a); org = ae_organization_id E
           in if set (vp_provides p) \<subseteq> ev_field ` set held \<or> own \<noteq> [] then
                if own \<noteq> [] then
                  suppress_call E t p ref SUCCESS
                    (if set (vp_provides p) \<subseteq> ev_field ` set own then None else Some RECENT_PARTIAL) a
                else (a\<lparr>aq_redundant := aq_redundant a @ [vp_name p]\<rparr>, Inr None)
              else if recent_miss (ae_ttls E) (vp_name p) (lr_type ref) (lr_id ref) org (lt_miss t) calls \<noteq> None
                then suppress_call E t p ref MISS (Some RECENT_MISS) a
              else if recent_uncertain_outcome (ae_ttls E) (vp_name p) (lr_type ref) (lr_id ref) org
                   (lt_uncertain t) calls \<noteq> None
                then suppress_call E t p ref ERROR (Some UNCERTAIN_OUTCOME) a
              else if cooling_down_until (ae_cooldown E) (vp_name p) org (lt_cooldown t) calls \<noteq> None
                then (a\<lparr>aq_unavailable := aq_unavailable a @ [vp_name p]\<rparr>, Inr None)
              else
                (let allow = spend_allowance_for (ae_budget E) org (ae_lead_id E) (vp_base_cost p) (lt_budget t) calls;
                     org_allow = map_option (\<lambda>orgs. org_allowance_for org (vp_base_cost p) (lt_org t) orgs calls)
                       (ae_org_guard E)
                 in if \<not> sa_permitted allow then (a, Inr (sa_reason allow))
                    else case org_allow of
                      Some oa \<Rightarrow> if \<not> oa_permitted oa then (a, Inr (oa_reason oa)) else call_provider E t p ref a
                    | None \<Rightarrow> call_provider E t p ref a)))"

text \<open>The result of the loop: the error, or the reason it stopped early and the names it
  never reached.\<close>

fun acquire_loop ::
  "live_env \<Rightarrow> (live_provider \<times> live_tick) list \<Rightarrow> acquisition
     \<Rightarrow> acquisition \<times> (error + string option \<times> string list)" where
  "acquire_loop E [] a = (a, Inr (None, []))"
| "acquire_loop E ((p, t) # ps) a =
     (case ae_stop_check E (ae_config E) (ae_model E) (aq_scoring a)
             (all_evidence (aq_evidence a) \<noteq> []) p of
        Some reason \<Rightarrow> (a, Inr (Some reason, vp_name p # map (vp_name \<circ> fst) ps))
      | None \<Rightarrow>
          (case live_step E t p a of
             (a', Inl e) \<Rightarrow> (a', Inl e)
           | (a', Inr (Some reason)) \<Rightarrow> (a', Inr (Some reason, map (vp_name \<circ> fst) ps))
           | (a', Inr None) \<Rightarrow> acquire_loop E ps a'))"

definition resolve_terminal_stop_reason :: "live_env \<Rightarrow> acquisition \<Rightarrow> string" where
  "resolve_terminal_stop_reason E a =
     (case enough_evidence (ae_config E) (ae_model E) (aq_scoring a)
             (all_evidence (aq_evidence a) \<noteq> []) of
        Some reason \<Rightarrow> reason
      | None \<Rightarrow>
          if aq_failed a \<noteq> [] then STOP_PROVIDER_FAILED
          else if aq_unavailable a \<noteq> [] then PROVIDER_UNAVAILABLE
          else if aq_unreachable a \<noteq> [] \<and> aq_called a = [] \<and> aq_cache_hits a = [] then STOP_NO_IDENTIFIER
          else STOP_ALL_CALLED)"

definition start_acquisition :: "live_env \<Rightarrow> live_db \<Rightarrow> acquisition" where
  "start_acquisition E d =
     (let ev = read_evidence E d
      in \<lparr>aq_db = d, aq_evidence = ev, aq_scoring = score_held E ev, aq_called = [],
          aq_cache_hits = [], aq_unreachable = [], aq_redundant = [], aq_unavailable = [],
          aq_failed = [], aq_cost = 0, aq_findings = []\<rparr>)"

text \<open>The outcome: the state of the loop with the stop reason and the names not needed.\<close>

definition acquire_live_evidence ::
  "live_env \<Rightarrow> (live_provider \<times> live_tick) list \<Rightarrow> live_db
     \<Rightarrow> acquisition \<times> (error + string \<times> string list)" where
  "acquire_live_evidence E ps d =
     (case acquire_loop E ps (start_acquisition E d) of
        (a, Inl e) \<Rightarrow> (a, Inl e)
      | (a, Inr (Some reason, rest)) \<Rightarrow> (a, Inr (reason, rest))
      | (a, Inr (None, rest)) \<Rightarrow> (a, Inr (resolve_terminal_stop_reason E a, rest)))"

subsection \<open>What one provider's turn can do\<close>

text \<open>The conditions under which the call is made.\<close>

definition call_permitted :: "live_env \<Rightarrow> live_tick \<Rightarrow> real \<Rightarrow> provider_call list \<Rightarrow> bool" where
  "call_permitted E t estimate calls \<longleftrightarrow>
     sa_permitted (spend_allowance_for (ae_budget E) (ae_organization_id E) (ae_lead_id E)
       estimate (lt_budget t) calls)
     \<and> (case ae_org_guard E of None \<Rightarrow> True
        | Some orgs \<Rightarrow> oa_permitted (org_allowance_for (ae_organization_id E) estimate (lt_org t) orgs calls))"

definition REFUSALS :: "string list" where
  "REFUSALS = [PER_LEAD_BUDGET_EXHAUSTED, DAILY_BUDGET_EXHAUSTED, ORGANIZATION_LIMIT_REACHED]"

lemma spend_refusal:
  "\<not> sa_permitted (spend_allowance_for cfg org lead est now calls) \<Longrightarrow>
     \<exists>r \<in> set REFUSALS. sa_reason (spend_allowance_for cfg org lead est now calls) = Some r"
  by (auto simp: spend_allowance_for_def REFUSALS_def Let_def split: if_splits)

lemma org_refusal:
  "\<not> oa_permitted (org_allowance_for org est now orgs calls) \<Longrightarrow>
     \<exists>r \<in> set REFUSALS. oa_reason (org_allowance_for org est now orgs calls) = Some r"
  by (auto simp: org_allowance_for_def REFUSALS_def Let_def split: option.splits)

lemma live_step_cases:
  assumes "live_step E t p a = (a', res)"
  obtains
    (unreachable) "a' = a\<lparr>aq_unreachable := aq_unreachable a @ [vp_name p]\<rparr>" "res = Inr None"
  | (suppressed) ref st reason where "suppress_call E t p ref st reason a = (a', res)"
  | (redundant) "a' = a\<lparr>aq_redundant := aq_redundant a @ [vp_name p]\<rparr>" "res = Inr None"
  | (unavailable) "a' = a\<lparr>aq_unavailable := aq_unavailable a @ [vp_name p]\<rparr>" "res = Inr None"
  | (refused) r where "a' = a" "res = Inr (Some r)" "r \<in> set REFUSALS"
  | (called) ref where "live_entity_refs (ae_identity E) (vp_entity_type p) = Some ref"
      "call_permitted E t (vp_base_cost p) (ld_calls (aq_db a))" "call_provider E t p ref a = (a', res)"
proof (cases "live_entity_refs (ae_identity E) (vp_entity_type p)")
  case None
  with assms that(1) show ?thesis by (simp add: live_step_def)
next
  case (Some ref)
  let ?held = "aq_evidence a (lr_type ref)"
  let ?own = "filter (\<lambda>e. ev_source e = vp_name p) ?held"
  let ?calls = "ld_calls (aq_db a)" and ?org = "ae_organization_id E"
  let ?allow = "spend_allowance_for (ae_budget E) ?org (ae_lead_id E) (vp_base_cost p) (lt_budget t) ?calls"
  show ?thesis
  proof (cases "set (vp_provides p) \<subseteq> ev_field ` set ?held \<or> ?own \<noteq> []")
    case held: True
    show ?thesis
    proof (cases "?own = []")
      case True
      with assms Some held that(3) show ?thesis unfolding live_step_def Let_def by simp
    next
      case False
      with assms Some held have "suppress_call E t p ref SUCCESS
          (if set (vp_provides p) \<subseteq> ev_field ` set ?own then None else Some RECENT_PARTIAL) a = (a', res)"
        unfolding live_step_def Let_def by simp
      with that(2) show ?thesis .
    qed
  next
    case open': False
    show ?thesis
    proof (cases "recent_miss (ae_ttls E) (vp_name p) (lr_type ref) (lr_id ref) ?org (lt_miss t) ?calls \<noteq> None
        \<or> recent_uncertain_outcome (ae_ttls E) (vp_name p) (lr_type ref) (lr_id ref) ?org (lt_uncertain t) ?calls \<noteq> None
        \<or> cooling_down_until (ae_cooldown E) (vp_name p) ?org (lt_cooldown t) ?calls \<noteq> None")
      case True
      with assms Some open' that(2,4) show ?thesis
        unfolding live_step_def Let_def by (auto split: if_splits)
    next
      case False
      with assms Some open' have step:
        "(if \<not> sa_permitted ?allow then (a, Inr (sa_reason ?allow))
          else case map_option (\<lambda>orgs. org_allowance_for ?org (vp_base_cost p) (lt_org t) orgs ?calls) (ae_org_guard E) of
            Some oa \<Rightarrow> if \<not> oa_permitted oa then (a, Inr (oa_reason oa)) else call_provider E t p ref a
          | None \<Rightarrow> call_provider E t p ref a) = (a', res)"
        unfolding live_step_def Let_def by simp
      show ?thesis
      proof (cases "call_permitted E t (vp_base_cost p) ?calls")
        case True
        with step Some that(6) show ?thesis by (auto simp: call_permitted_def split: option.splits)
      next
        case no: False
        show ?thesis
        proof (cases "sa_permitted ?allow")
          case True
          with no step that(5) org_refusal show ?thesis
            by (fastforce simp: call_permitted_def split: option.splits)
        next
          case False
          with step that(5) spend_refusal [OF False] show ?thesis by auto
        qed
      qed
    qed
  qed
qed

lemma acquire_loop_Cons:
  assumes "acquire_loop E ((p, t) # ps) a = (a', res)"
  obtains
    (stopped) r where "a' = a" "res = Inr (Some r, vp_name p # map (vp_name \<circ> fst) ps)"
  | (raised) e where "live_step E t p a = (a', Inl e)" "res = Inl e"
  | (refused) r where "live_step E t p a = (a', Inr (Some r))" "res = Inr (Some r, map (vp_name \<circ> fst) ps)"
  | (continued) a1 where "live_step E t p a = (a1, Inr None)" "acquire_loop E ps a1 = (a', res)"
  using assms by (auto split: option.splits prod.splits sum.splits)

lemma acquire_loop_invariant:
  assumes step: "\<And>p t a a' r. (p, t) \<in> S \<Longrightarrow> Inv a \<Longrightarrow> live_step E t p a = (a', r) \<Longrightarrow> Inv a'"
    and "acquire_loop E ps a = (a', res)" and "set ps \<subseteq> S" and "Inv a"
  shows "Inv a'"
  using assms(2-4)
proof (induction ps arbitrary: a)
  case (Cons pt ps)
  obtain p t where pt: "pt = (p, t)" by fastforce
  with Cons.prems(2) have S: "(p, t) \<in> S" "set ps \<subseteq> S" by simp_all
  from Cons.prems(1) [unfolded pt] show ?case
  proof (cases rule: acquire_loop_Cons)
    case stopped
    with Cons.prems(3) show ?thesis by simp
  next
    case raised
    with step [OF S(1) Cons.prems(3)] show ?thesis by blast
  next
    case refused
    with step [OF S(1) Cons.prems(3)] show ?thesis by blast
  next
    case (continued a1)
    with step [OF S(1) Cons.prems(3)] Cons.IH [OF _ S(2)] show ?thesis by blast
  qed
qed simp

lemma acquire_state:
  "acquire_live_evidence E ps d = (a, res) \<Longrightarrow> \<exists>r. acquire_loop E ps (start_acquisition E d) = (a, r)"
  by (auto simp: acquire_live_evidence_def split: prod.splits sum.splits option.splits)

lemma record_live_Inr:
  assumes "record_live w c d = Inr d'"
  shows "ld_evidence d' = ld_evidence d
    \<and> (ld_calls d' = ld_calls d \<or> ld_calls d' = ld_calls d @ [provider_row w c])"
  using assms by (auto simp: record_live_def sum_bind_Inr record_provider_call_Inr split: option.splits)

lemma suppress_call_db:
  assumes "suppress_call E t p ref st reason a = (a', res)"
  shows "ld_evidence (aq_db a') = ld_evidence (aq_db a)
    \<and> (ld_calls (aq_db a') = ld_calls (aq_db a)
       \<or> (\<exists>row. ld_calls (aq_db a') = ld_calls (aq_db a) @ [row] \<and> pc_cost row = 0))"
proof (cases "record_live (lt_write t) (suppressed_charge E (vp_name p) ref st reason) (aq_db a)")
  case (Inl e)
  with assms show ?thesis by (simp add: suppress_call_def)
next
  case (Inr d)
  have "pc_cost (provider_row w (suppressed_charge E (vp_name p) ref st reason)) = 0" for w
    by (simp add: provider_row_def suppressed_charge_def)
  with assms Inr record_live_Inr [OF Inr] show ?thesis by (auto simp: suppress_call_def)
qed

lemma store_result_calls:
  "store_result E p ref r a = (a', res) \<Longrightarrow> ld_calls (aq_db a') = ld_calls (aq_db a)"
  by (auto simp: store_result_def Let_def split: if_splits sum.splits)

lemma validate_person_match_keeps:
  assumes "validate_person_match idn p r0 = Inr (r, v)"
  shows "pr_cost r = pr_cost r0 \<and> pr_status r = pr_status r0 \<and> (pr_fields r = pr_fields r0 \<or> pr_fields r = [])"
  using assms by (auto simp: validate_person_match_def sum_bind_Inr split: if_splits option.splits)

lemma call_provider_calls:
  assumes "call_provider E t p ref a = (a', res)"
  shows "ld_calls (aq_db a') = ld_calls (aq_db a)
    \<or> (\<exists>row r. ld_calls (aq_db a') = ld_calls (aq_db a) @ [row] \<and> vp_fetch p ref = Inr r \<and> pc_cost row = pr_cost r)"
proof (cases "vp_fetch p ref")
  case (Inl e)
  with assms show ?thesis by (simp add: call_provider_def)
next
  case r0: (Inr r0)
  show ?thesis
  proof (cases "validate_person_match (ae_identity E) p r0")
    case (Inl e)
    with assms r0 show ?thesis by (simp add: call_provider_def)
  next
    case (Inr rv)
    obtain r v where rv: "rv = (r, v)" by fastforce
    have cost: "pc_cost (provider_row w (live_charge E n ref r)) = pr_cost r0" for w n
      using validate_person_match_keeps [of "ae_identity E" p r0 r v] Inr rv
      by (simp add: provider_row_def live_charge_def Let_def)
    show ?thesis
    proof (cases "record_live (lt_write t) (live_charge E (vp_name p) ref r) (aq_db a)")
      case (Inl e)
      with assms r0 Inr rv show ?thesis by (auto simp: call_provider_def Let_def)
    next
      case d: (Inr d)
      with assms r0 Inr rv have "ld_calls (aq_db a') = ld_calls d"
        by (auto simp: call_provider_def Let_def dest: store_result_calls)
      with record_live_Inr [OF d] cost r0 show ?thesis by auto
    qed
  qed
qed

text \<open>The price list is an upper bound: no call costs more than the provider's base cost.\<close>

definition list_price_holds :: "live_provider \<Rightarrow> bool" where
  "list_price_holds p \<longleftrightarrow>
     0 \<le> vp_base_cost p \<and> (\<forall>ref r. vp_fetch p ref = Inr r \<longrightarrow> 0 \<le> pr_cost r \<and> pr_cost r \<le> vp_base_cost p)"

lemma live_step_calls:
  assumes step: "live_step E t p a = (a', res)" and price: "list_price_holds p"
  shows "ld_calls (aq_db a') = ld_calls (aq_db a)
    \<or> (\<exists>row. ld_calls (aq_db a') = ld_calls (aq_db a) @ [row] \<and> 0 \<le> pc_cost row
        \<and> (pc_cost row = 0 \<or> call_permitted E t (vp_base_cost p) (ld_calls (aq_db a)) \<and> pc_cost row \<le> vp_base_cost p))"
  using step
proof (cases rule: live_step_cases)
  case (suppressed ref st reason)
  from suppress_call_db [OF suppressed] show ?thesis by auto
next
  case (called ref)
  from call_provider_calls [OF called(3)] called(2) price show ?thesis
    unfolding list_price_holds_def by fastforce
qed simp_all

subsection \<open>The spend caps hold\<close>

text \<open>What a cap needs of the sum it caps: a row adds at most its cost.\<close>

locale spend_cap =
  fixes spent :: "provider_call list \<Rightarrow> real"
  assumes spent_snoc: "0 \<le> pc_cost row \<Longrightarrow> spent (rows @ [row]) \<le> spent rows + pc_cost row"
begin

lemma room_kept:
  assumes "0 \<le> pc_cost row" and "pc_cost row \<le> estimate" and "spent rows + (estimate + rest) \<le> cap"
  shows "spent (rows @ [row]) + rest \<le> cap"
  using spent_snoc [OF assms(1), of rows] assms by simp

end

interpretation lead_cap: spend_cap "lead_spent lead" for lead
  by unfold_locales (simp add: lead_spent_def sum_of_def)

interpretation daily_cap: spend_cap "daily_spent org now" for org now
  by unfold_locales (simp add: daily_spent_def sum_of_def)

interpretation month_cap: spend_cap "month_to_date_spent org now" for org now
  by unfold_locales (simp add: month_to_date_spent_def sum_of_def)

text \<open>The recorded spend leaves room for a further amount under each of the three caps.\<close>

definition caps_leave :: "live_env \<Rightarrow> instant \<Rightarrow> real \<Rightarrow> provider_call list \<Rightarrow> bool" where
  "caps_leave E now room calls \<longleftrightarrow>
     lead_spent (ae_lead_id E) calls + room \<le> lb_per_lead (ae_budget E)
     \<and> daily_spent (ae_organization_id E) now calls + room \<le> lb_daily (ae_budget E)
     \<and> (\<forall>orgs l. ae_org_guard E = Some orgs \<and> orgs (ae_organization_id E) = Some l
          \<longrightarrow> month_to_date_spent (ae_organization_id E) now calls + room \<le> ol_max_spend l)"

definition within_caps :: "live_env \<Rightarrow> instant \<Rightarrow> provider_call list \<Rightarrow> bool" where
  "within_caps E now calls \<longleftrightarrow> caps_leave E now 0 calls"

lemma caps_leave_less: "caps_leave E now x calls \<Longrightarrow> y \<le> x \<Longrightarrow> caps_leave E now y calls"
  unfolding caps_leave_def by fastforce

lemma caps_leave_snoc:
  assumes "caps_leave E now (estimate + rest) calls" and "0 \<le> pc_cost row" and "pc_cost row \<le> estimate"
  shows "caps_leave E now rest (calls @ [row])"
  using assms unfolding caps_leave_def
  by (meson lead_cap.room_kept daily_cap.room_kept month_cap.room_kept)

lemma permitted_room:
  assumes "call_permitted E t estimate calls" and "day_start (lt_budget t) = day_start now"
    and "month_start (lt_org t) = month_start now"
  shows "caps_leave E now estimate calls"
proof -
  have d: "daily_spent org (lt_budget t) calls = daily_spent org now calls" for org
    using assms(2) by (simp add: daily_spent_def)
  have m: "month_to_date_spent org (lt_org t) calls = month_to_date_spent org now calls" for org
    using assms(3) by (simp add: month_to_date_spent_def)
  show ?thesis
    using assms(1)
    by (auto simp: caps_leave_def call_permitted_def spend_allowance_for_def org_allowance_for_def Let_def d m
        split: if_splits)
qed

text \<open>A zero-cost row takes no room, a called provider's at most its estimate.\<close>

lemma live_step_caps:
  assumes "live_step E t p a = (a', res)" and "list_price_holds p"
    and "day_start (lt_budget t) = day_start now" and "month_start (lt_org t) = month_start now"
    and "within_caps E now (ld_calls (aq_db a))"
  shows "within_caps E now (ld_calls (aq_db a'))"
  using live_step_calls [OF assms(1,2)]
proof (elim disjE exE conjE)
  fix row
  assume row: "ld_calls (aq_db a') = ld_calls (aq_db a) @ [row]" "0 \<le> pc_cost row"
    and "call_permitted E t (vp_base_cost p) (ld_calls (aq_db a))" "pc_cost row \<le> vp_base_cost p"
  with caps_leave_snoc [of E now "vp_base_cost p" 0] permitted_room [OF _ assms(3,4)]
  show ?thesis by (simp add: within_caps_def)
next
  fix row
  assume "ld_calls (aq_db a') = ld_calls (aq_db a) @ [row]" "0 \<le> pc_cost row" "pc_cost row = 0"
  with caps_leave_snoc [of E now 0 0] assms(5) show ?thesis by (simp add: within_caps_def)
qed (use assms(5) in simp)

text \<open>
  C3. The caps hold. Take any list of providers whose calls never cost more than their list
  price, on one calendar day: whatever they answer, however many of them fail and even if the
  run is aborted by an exception, the recorded spend of the lead, of the organization's day and
  of its month stays within the per-lead, the daily and the monthly cap.
\<close>

theorem live_spend_within_caps:
  assumes "\<forall>(p, t) \<in> set ps. list_price_holds p \<and> day_start (lt_budget t) = day_start now
      \<and> month_start (lt_org t) = month_start now"
    and "within_caps E now (ld_calls d)"
    and "acquire_live_evidence E ps d = (a, res)"
  shows "within_caps E now (ld_calls (aq_db a))"
proof -
  from acquire_state [OF assms(3)] obtain r where run: "acquire_loop E ps (start_acquisition E d) = (a, r)"
    by blast
  show ?thesis
  proof (rule acquire_loop_invariant [OF _ run subset_refl, where Inv = "\<lambda>a. within_caps E now (ld_calls (aq_db a))"])
    show "within_caps E now (ld_calls (aq_db (start_acquisition E d)))"
      using assms(2) by (simp add: start_acquisition_def Let_def)
  next
    fix p t a a' r
    assume "(p, t) \<in> set ps" and w: "within_caps E now (ld_calls (aq_db a))"
      and step: "live_step E t p a = (a', r)"
    with assms(1) have p: "list_price_holds p" "day_start (lt_budget t) = day_start now"
      "month_start (lt_org t) = month_start now" by auto
    from live_step_caps [OF step p w] show "within_caps E now (ld_calls (aq_db a'))" .
  qed
qed

definition frugal_tick :: live_tick where
  "frugal_tick =
     \<lparr>lt_miss = 20, lt_uncertain = 20, lt_cooldown = 20, lt_budget = 20, lt_org = 20,
      lt_write = \<lparr>we_fresh = 1, we_db_now = 20, we_py_now = 20\<rparr>\<rparr>"

definition industry_result :: live_result where
  "industry_result =
     \<lparr>pr_fields = [(''industry'', VStr ''software'')], pr_confidence = 0.8, pr_cost = 0.00165,
      pr_latency = 120, pr_status = SUCCESS, pr_matched = None, pr_error_kind = None,
      lv_credits = Some (VInt 1), lv_cost_basis = Some (VStr ''modelled_list_price''),
      lv_vendor_billed = None\<rparr>"

definition industry_provider :: live_provider where
  "industry_provider =
     \<lparr>vp_name = ''abstract_company_enrichment'', vp_entity_type = Company,
      vp_provides = [''industry'', ''employee_count''], vp_base_cost = 0.00165,
      vp_fetch = (\<lambda>_. Inr industry_result)\<rparr>"

definition intent_config :: scoring_config where
  "intent_config = reference_config
     \<lparr>size_bands := [], industry_points := [(''software'', 6)], seniority_points := [(''vp'', 3)],
      function_points := [], qualify_threshold := 25, reject_threshold := 20\<rparr>"

definition frugal_env :: live_env where
  "frugal_env =
     \<lparr>ae_identity = \<lparr>li_person_id = 5, li_company_id = 4, li_organization_id = 3,
        li_email = ''jane@acme.com'', li_domain = Some ''acme.com'', li_is_shadow = False,
        li_full_name = None\<rparr>,
      ae_lead_id = 7, ae_job_id = 1, ae_organization_id = 3,
      ae_budget = \<lparr>lb_per_lead = 0.05, lb_daily = 1\<rparr>, ae_cooldown = 3600,
      ae_ttls = \<lparr>ot_miss = 100, ot_uncertain = 200\<rparr>,
      ae_model = \<lparr>cm_calibrated = \<lambda>_. 0, cm_report = undefined, cm_threshold = undefined\<rparr>,
      ae_config = intent_config, ae_now = 20, ae_stop_check = option_c_stop_check,
      ae_org_guard = Some demo_orgs, ae_credential_source = Some ''organization''\<rparr>"

definition no_live_rows :: live_db where
  "no_live_rows = \<lparr>ld_evidence = [], ld_calls = []\<rparr>"

lemma frugal_run_calls:
  "aq_called (fst (acquire_live_evidence frugal_env [(industry_provider, frugal_tick)] no_live_rows))
     = [''abstract_company_enrichment'']"
  by code_simp

theorem live_spend_within_caps_witness:
  "aq_called (fst (acquire_live_evidence frugal_env [(industry_provider, frugal_tick)] no_live_rows))
     = [''abstract_company_enrichment'']
   \<and> within_caps frugal_env 20
       (ld_calls (aq_db (fst (acquire_live_evidence frugal_env [(industry_provider, frugal_tick)] no_live_rows))))"
proof -
  obtain a res where run: "acquire_live_evidence frugal_env [(industry_provider, frugal_tick)] no_live_rows = (a, res)"
    by fastforce
  have "list_price_holds industry_provider"
    by (simp add: list_price_holds_def industry_provider_def industry_result_def)
  then have p: "\<forall>(p, t) \<in> set [(industry_provider, frugal_tick)]. list_price_holds p
      \<and> day_start (lt_budget t) = day_start 20 \<and> month_start (lt_org t) = month_start 20"
    by (simp add: frugal_tick_def)
  have w: "within_caps frugal_env 20 (ld_calls no_live_rows)"
    by (simp add: within_caps_def caps_leave_def no_live_rows_def lead_spent_def daily_spent_def month_to_date_spent_def
        sum_of_def frugal_env_def demo_orgs_def)
  from live_spend_within_caps [OF p w run] run frugal_run_calls show ?thesis by simp
qed

subsection \<open>Every provider is accounted for\<close>

definition decided_names :: "'a acquisition_scheme \<Rightarrow> string list" where
  "decided_names a = aq_called a @ aq_cache_hits a @ aq_unreachable a @ aq_redundant a @ aq_unavailable a"

lemma store_result_names:
  "store_result E p ref r a = (a', res) \<Longrightarrow>
     decided_names a' = decided_names a \<and> aq_failed a' = aq_failed a \<and> aq_called a' = aq_called a
     \<and> (\<forall>x. res \<noteq> Inr (Some x))"
  by (auto simp: store_result_def decided_names_def Let_def split: if_splits sum.splits)

lemma call_provider_names:
  assumes "call_provider E t p ref a = (a', res)"
  shows "(\<forall>x. res \<noteq> Inr (Some x))
    \<and> (res = Inr None \<longrightarrow> mset (decided_names a') = add_mset (vp_name p) (mset (decided_names a)))
    \<and> (set (aq_failed a) \<subseteq> set (aq_called a) \<longrightarrow> set (aq_failed a') \<subseteq> set (aq_called a'))"
proof (cases "vp_fetch p ref")
  case (Inl e)
  with assms show ?thesis by (auto simp: call_provider_def)
next
  case r0: (Inr r0)
  show ?thesis
  proof (cases "validate_person_match (ae_identity E) p r0")
    case (Inl e)
    with assms r0 show ?thesis by (auto simp: call_provider_def)
  next
    case (Inr rv)
    obtain r v where rv: "rv = (r, v)" by fastforce
    show ?thesis
    proof (cases "record_live (lt_write t) (live_charge E (vp_name p) ref r) (aq_db a)")
      case (Inl e)
      with assms r0 Inr rv show ?thesis by (auto simp: call_provider_def Let_def)
    next
      case d: (Inr d)
      let ?a = "a\<lparr>aq_findings := aq_findings a @ finding_of (vp_name p) v,
          aq_called := aq_called a @ [vp_name p], aq_cost := aq_cost a + pr_cost r, aq_db := d,
          aq_failed := aq_failed a @ (if pr_status r \<in> {ERROR, TIMEOUT} then [vp_name p] else [])\<rparr>"
      from assms r0 Inr rv d have "store_result E p ref r ?a = (a', res)"
        by (simp add: call_provider_def Let_def)
      from store_result_names [OF this] have
        "decided_names a' = decided_names ?a" "aq_failed a' = aq_failed ?a" "aq_called a' = aq_called ?a"
        "\<forall>x. res \<noteq> Inr (Some x)" by blast+
      moreover have "mset (decided_names ?a) = add_mset (vp_name p) (mset (decided_names a))"
        by (simp add: decided_names_def)
      ultimately show ?thesis by auto
    qed
  qed
qed

lemma live_step_names:
  assumes "live_step E t p a = (a', res)"
  shows "(res = Inr None \<longrightarrow> mset (decided_names a') = add_mset (vp_name p) (mset (decided_names a)))
    \<and> (\<forall>x. res = Inr (Some x) \<longrightarrow> a' = a \<and> x \<in> set REFUSALS)
    \<and> (set (aq_failed a) \<subseteq> set (aq_called a) \<longrightarrow> set (aq_failed a') \<subseteq> set (aq_called a'))"
  using assms
proof (cases rule: live_step_cases)
  case (suppressed ref st reason)
  then show ?thesis by (auto simp: suppress_call_def decided_names_def split: sum.splits)
next
  case (called ref)
  with call_provider_names [OF called(3)] show ?thesis by auto
qed (auto simp: decided_names_def)

lemma acquire_loop_names:
  assumes "acquire_loop E ps a = (a', Inr (reason, rest))"
  shows "\<exists>refused. mset (map (vp_name \<circ> fst) ps) + mset (decided_names a)
      = mset (decided_names a') + mset rest + mset refused
    \<and> (refused = [] \<or> (\<exists>name. refused = [name]) \<and> (\<exists>x \<in> set REFUSALS. reason = Some x))
    \<and> (reason = None \<longrightarrow> rest = [])"
  using assms
proof (induction ps arbitrary: a)
  case (Cons pt ps)
  obtain p t where pt: "pt = (p, t)" by fastforce
  from Cons.prems [unfolded pt] show ?case
  proof (cases rule: acquire_loop_Cons)
    case (stopped r)
    then show ?thesis by (intro exI [of _ "[]"]) (simp add: pt comp_def)
  next
    case (raised e)
    then show ?thesis by simp
  next
    case (refused r)
    then show ?thesis
      using live_step_names [OF refused(1)] by (intro exI [of _ "[vp_name p]"]) (simp add: pt comp_def)
  next
    case (continued a1)
    from Cons.IH [OF continued(2)] live_step_names [OF continued(1)] show ?thesis
      by (fastforce simp: pt comp_def)
  qed
qed (simp add: exI [of _ "[]"])

lemma acquire_live_evidence_Inr:
  assumes "acquire_live_evidence E ps d = (a, Inr (reason, rest))"
  shows "\<exists>x. acquire_loop E ps (start_acquisition E d) = (a, Inr (x, rest))
    \<and> (x = Some reason \<or> x = None \<and> reason = resolve_terminal_stop_reason E a)"
  using assms by (auto simp: acquire_live_evidence_def split: prod.splits sum.splits option.splits)

text \<open>
  Every provider is accounted for. When an acquisition ends, each provider of the list is in
  exactly one place: called, answered from what was held or known, without an identifier,
  redundant, cooling down, never reached, or the single one a spend cap refused, and then the
  stop reason names the cap. Failures are among the calls, and a provider is called at most as
  often as it is listed.
\<close>

theorem every_provider_accounted:
  assumes "acquire_live_evidence E ps d = (a, Inr (reason, rest))"
  shows "set (aq_failed a) \<subseteq> set (aq_called a)
    \<and> (\<exists>refused. mset (map (\<lambda>pt. vp_name (fst pt)) ps)
        = mset (aq_called a) + mset (aq_cache_hits a) + mset (aq_unreachable a) + mset (aq_redundant a)
          + mset (aq_unavailable a) + mset rest + mset refused
      \<and> (refused = [] \<or> (\<exists>name. refused = [name]) \<and> reason \<in> set REFUSALS))"
proof -
  from acquire_live_evidence_Inr [OF assms] obtain x where
    run: "acquire_loop E ps (start_acquisition E d) = (a, Inr (x, rest))"
    and x: "x = Some reason \<or> x = None" by blast
  from acquire_loop_names [OF run] obtain refused where
    names: "mset (map (vp_name \<circ> fst) ps) + mset (decided_names (start_acquisition E d))
      = mset (decided_names a) + mset rest + mset refused"
    and r: "refused = [] \<or> (\<exists>name. refused = [name]) \<and> (\<exists>y \<in> set REFUSALS. x = Some y)" by blast
  have "decided_names (start_acquisition E d) = []"
    by (simp add: start_acquisition_def decided_names_def Let_def)
  with names have "mset (map (\<lambda>pt. vp_name (fst pt)) ps)
        = mset (aq_called a) + mset (aq_cache_hits a) + mset (aq_unreachable a) + mset (aq_redundant a)
          + mset (aq_unavailable a) + mset rest + mset refused"
    by (simp add: decided_names_def comp_def)
  moreover have "set (aq_failed a) \<subseteq> set (aq_called a)"
  proof (rule acquire_loop_invariant [OF _ run subset_refl, where Inv = "\<lambda>a. set (aq_failed a) \<subseteq> set (aq_called a)"])
    show "set (aq_failed (start_acquisition E d)) \<subseteq> set (aq_called (start_acquisition E d))"
      by (simp add: start_acquisition_def Let_def)
  qed (use live_step_names in blast)
  moreover have "refused = [] \<or> (\<exists>name. refused = [name]) \<and> reason \<in> set REFUSALS"
    using r x by auto
  ultimately show ?thesis by blast
qed

theorem every_provider_accounted_witness:
  "\<exists>reason rest refused. mset [''abstract_company_enrichment'']
     = mset [''abstract_company_enrichment''] + mset rest + mset (refused :: string list)
     \<and> snd (acquire_live_evidence frugal_env [(industry_provider, frugal_tick)] no_live_rows)
       = Inr (reason, rest)"
proof -
  have ok: "\<exists>a reason rest. acquire_live_evidence frugal_env [(industry_provider, frugal_tick)] no_live_rows
      = (a, Inr (reason, rest))"
  proof -
    have "isl (snd (acquire_live_evidence frugal_env [(industry_provider, frugal_tick)] no_live_rows)) = False"
      by code_simp
    moreover obtain a b where
      "acquire_live_evidence frugal_env [(industry_provider, frugal_tick)] no_live_rows = (a, b)"
      by fastforce
    ultimately show ?thesis by (cases b) auto
  qed
  then obtain a reason rest where run: "acquire_live_evidence frugal_env [(industry_provider, frugal_tick)] no_live_rows
      = (a, Inr (reason, rest))" by blast
  from every_provider_accounted [OF run] frugal_run_calls run show ?thesis
    by (auto simp: industry_provider_def intro!: exI)
qed

subsection \<open>Only verified people are scored\<close>

lemma validate_person_match_fields:
  assumes "validate_person_match idn p r0 = Inr (r, v)" and "nv \<in> set (pr_fields r)"
    and "vp_entity_type p = Person" and "pr_status r0 = SUCCESS" and "pr_matched r0 = Some m"
  shows "domain_matches (requested_of idn) (returned_of m) \<and> name_matches (requested_of idn) (returned_of m)
    \<and> email_signal (requested_of idn) (returned_of m) \<noteq> Mismatch"
proof -
  from assms obtain iv where iv: "validate_identity (requested_of idn) (returned_of m) = Inr iv"
    and r: "r = (if iv_verdict iv = VERIFIED then r0 else r0\<lparr>pr_fields := []\<rparr>)"
    by (auto simp: validate_person_match_def sum_bind_Inr)
  have "iv_verdict iv = VERIFIED"
    using assms(2) r by (cases "iv_verdict iv = VERIFIED") simp_all
  with validate_verdict [OF iv] show ?thesis by simp
qed

lemma store_result_evidence:
  assumes "store_result E p ref r a = (a', res)" and "er \<in> set (ld_evidence (aq_db a'))"
    and "er \<notin> set (ld_evidence (aq_db a))"
  shows "pr_status r = SUCCESS \<and> er_organization_id er = ae_organization_id E
    \<and> ev_entity_type (er_evidence er) = lr_type ref \<and> ev_entity_id (er_evidence er) = lr_id ref
    \<and> ev_source (er_evidence er) = vp_name p
    \<and> (ev_field (er_evidence er), ev_value (er_evidence er)) \<in> set (pr_fields r)"
  using assms
  by (auto simp: store_result_def Let_def put_many_Inr live_evidence_items_def row_for_insert_def
      split: if_splits sum.splits)

definition answered_by :: "live_env \<Rightarrow> live_provider \<Rightarrow> evidence_row \<Rightarrow> bool" where
  "answered_by E p er \<longleftrightarrow>
     (\<exists>ref r. live_entity_refs (ae_identity E) (vp_entity_type p) = Some ref \<and> vp_fetch p ref = Inr r
        \<and> pr_status r = SUCCESS \<and> er_organization_id er = ae_organization_id E
        \<and> ev_source (er_evidence er) = vp_name p
        \<and> ev_entity_type (er_evidence er) = lr_type ref \<and> ev_entity_id (er_evidence er) = lr_id ref
        \<and> (ev_field (er_evidence er), ev_value (er_evidence er)) \<in> set (pr_fields r)
        \<and> (\<forall>m. vp_entity_type p = Person \<and> pr_matched r = Some m \<longrightarrow>
             domain_matches (requested_of (ae_identity E)) (returned_of m)
             \<and> name_matches (requested_of (ae_identity E)) (returned_of m)
             \<and> email_signal (requested_of (ae_identity E)) (returned_of m) \<noteq> Mismatch))"

lemma call_provider_evidence:
  assumes "call_provider E t p ref a = (a', res)"
    and "live_entity_refs (ae_identity E) (vp_entity_type p) = Some ref"
    and "er \<in> set (ld_evidence (aq_db a'))" and "er \<notin> set (ld_evidence (aq_db a))"
  shows "answered_by E p er"
proof (cases "vp_fetch p ref")
  case (Inl e)
  with assms show ?thesis by (simp add: call_provider_def)
next
  case r0: (Inr r0)
  show ?thesis
  proof (cases "validate_person_match (ae_identity E) p r0")
    case (Inl e)
    with assms r0 show ?thesis by (simp add: call_provider_def)
  next
    case (Inr rv)
    obtain r v where rv: "rv = (r, v)" by fastforce
    with Inr have v: "validate_person_match (ae_identity E) p r0 = Inr (r, v)" by simp
    show ?thesis
    proof (cases "record_live (lt_write t) (live_charge E (vp_name p) ref r) (aq_db a)")
      case (Inl e)
      with assms r0 v show ?thesis by (auto simp: call_provider_def Let_def)
    next
      case d: (Inr d)
      let ?a = "a\<lparr>aq_findings := aq_findings a @ finding_of (vp_name p) v,
          aq_called := aq_called a @ [vp_name p], aq_cost := aq_cost a + pr_cost r, aq_db := d,
          aq_failed := aq_failed a @ (if pr_status r \<in> {ERROR, TIMEOUT} then [vp_name p] else [])\<rparr>"
      from assms(1) r0 v d have "store_result E p ref r ?a = (a', res)"
        by (simp add: call_provider_def Let_def)
      from store_result_evidence [OF this assms(3)] record_live_Inr [OF d] assms(4)
      have er: "pr_status r = SUCCESS" "er_organization_id er = ae_organization_id E"
        "ev_entity_type (er_evidence er) = lr_type ref" "ev_entity_id (er_evidence er) = lr_id ref"
        "ev_source (er_evidence er) = vp_name p"
        "(ev_field (er_evidence er), ev_value (er_evidence er)) \<in> set (pr_fields r)" by simp_all
      moreover have "pr_status r0 = SUCCESS" "pr_fields r = pr_fields r0"
        using validate_person_match_keeps [OF v] er by auto
      ultimately show ?thesis
        unfolding answered_by_def using r0 assms(2) validate_person_match_fields [OF v er(6)] by auto
    qed
  qed
qed

lemma live_step_evidence:
  assumes "live_step E t p a = (a', res)" and "er \<in> set (ld_evidence (aq_db a'))"
    and "er \<notin> set (ld_evidence (aq_db a))"
  shows "answered_by E p er"
  using assms(1)
proof (cases rule: live_step_cases)
  case (suppressed ref st reason)
  with suppress_call_db [OF suppressed] assms(2,3) show ?thesis by simp
next
  case (called ref)
  with call_provider_evidence assms(2,3) show ?thesis by blast
qed (use assms(2,3) in auto)

text \<open>
  C25. Only verified people are scored. Every evidence row an acquisition adds is a field some
  provider of the list answered with success, filed under the lead's own entity and
  organization; and when it comes from a person provider that says whom it matched, that
  person's employer domain and name both agree with the lead's, and the e-mail does not disagree.
\<close>

theorem person_evidence_is_verified:
  assumes "acquire_live_evidence E ps d = (a, res)" and "er \<in> set (ld_evidence (aq_db a))"
    and "er \<notin> set (ld_evidence d)"
  shows "\<exists>(p, t) \<in> set ps. answered_by E p er"
proof -
  from acquire_state [OF assms(1)] obtain r where run: "acquire_loop E ps (start_acquisition E d) = (a, r)"
    by blast
  have "er \<in> set (ld_evidence d) \<or> (\<exists>(p, t) \<in> set ps. answered_by E p er)
      \<or> er \<notin> set (ld_evidence (aq_db a))"
  proof (rule acquire_loop_invariant [OF _ run subset_refl, where
        Inv = "\<lambda>a. er \<in> set (ld_evidence d) \<or> (\<exists>(p, t) \<in> set ps. answered_by E p er)
                   \<or> er \<notin> set (ld_evidence (aq_db a))"])
    show "er \<in> set (ld_evidence d) \<or> (\<exists>(p, t) \<in> set ps. answered_by E p er)
        \<or> er \<notin> set (ld_evidence (aq_db (start_acquisition E d)))"
      by (auto simp: start_acquisition_def Let_def)
  qed (use live_step_evidence in fastforce)
  with assms(2,3) show ?thesis by blast
qed

definition jo_matched :: matched_identity where
  "jo_matched =
     \<lparr>mi_full_name = Some ''Jo K. Do'', mi_email = None,
      mi_employer_domain = None, mi_organization_domain = Some ''X.io'',
      mi_employer_name = None, mi_organization_name = None\<rparr>"

definition title_provider :: live_provider where
  "title_provider =
     \<lparr>vp_name = ''apollo_person_enrichment'', vp_entity_type = Person,
      vp_provides = [''title_seniority'', ''title_function''], vp_base_cost = 0.0196,
      vp_fetch = (\<lambda>_. Inr (industry_result
        \<lparr>pr_fields := [(''title_seniority'', VStr ''vp'')], pr_cost := 0.0196,
         pr_matched := Some jo_matched\<rparr>))\<rparr>"

definition named_env :: live_env where
  "named_env = frugal_env
     \<lparr>ae_identity := (ae_identity frugal_env)\<lparr>li_email := ''jo@x.io'', li_domain := Some ''x.io'',
        li_full_name := Some ''jo do''\<rparr>,
      ae_stop_check := \<lambda>_ _ _ _ _. None\<rparr>"

theorem person_evidence_is_verified_witness:
  "\<exists>er. er \<in> set (ld_evidence (aq_db (fst (acquire_live_evidence named_env [(title_provider, frugal_tick)] no_live_rows))))
     \<and> ev_source (er_evidence er) = ''apollo_person_enrichment''
     \<and> name_matches (requested_of (ae_identity named_env)) (returned_of jo_matched)"
proof -
  obtain a res where run: "acquire_live_evidence named_env [(title_provider, frugal_tick)] no_live_rows = (a, res)"
    by fastforce
  have "map (\<lambda>er. (ev_field (er_evidence er), ev_source (er_evidence er)))
      (ld_evidence (aq_db (fst (acquire_live_evidence named_env [(title_provider, frugal_tick)] no_live_rows))))
     = [(''title_seniority'', ''apollo_person_enrichment'')]"
    by code_simp
  then obtain er where er: "er \<in> set (ld_evidence (aq_db a))"
    and s: "ev_source (er_evidence er) = ''apollo_person_enrichment''"
    unfolding run by (cases "ld_evidence (aq_db a)") auto
  have "er \<notin> set (ld_evidence no_live_rows)" by (simp add: no_live_rows_def)
  from person_evidence_is_verified [OF run er this] have "answered_by named_env title_provider er" by simp
  then have "name_matches (requested_of (ae_identity named_env)) (returned_of jo_matched)"
    by (auto simp: answered_by_def title_provider_def)
  with er s run show ?thesis by auto
qed

subsection \<open>A retried call is not charged\<close>

text \<open>
  A call whose key the ledger already has leaves no trace in the ledger. The key names the
  job, the provider and the entity, so when a job is retried after an attempt that recorded a
  failed call or a suppressed one, the real call of the retry is made and paid for while the
  recorded spend of the lead, of the day and of the month stays what it was.
\<close>

theorem retried_live_call_not_ledgered:
  assumes "call_provider E t p ref a = (a', Inr None)"
    and "\<exists>row \<in> set (ld_calls (aq_db a)). pc_key row = live_idempotency_key (ae_job_id E) (vp_name p) ref"
  shows "(\<exists>r. vp_fetch p ref = Inr r \<and> aq_cost a' = aq_cost a + pr_cost r)
    \<and> aq_called a' = aq_called a @ [vp_name p] \<and> ld_calls (aq_db a') = ld_calls (aq_db a)"
proof -
  from assms(1) obtain r0 where r0: "vp_fetch p ref = Inr r0"
    by (cases "vp_fetch p ref") (auto simp: call_provider_def)
  with assms(1) obtain r v where v: "validate_person_match (ae_identity E) p r0 = Inr (r, v)"
    by (cases "validate_person_match (ae_identity E) p r0") (auto simp: call_provider_def)
  with assms(1) r0 obtain d where d: "record_live (lt_write t) (live_charge E (vp_name p) ref r) (aq_db a) = Inr d"
    by (cases "record_live (lt_write t) (live_charge E (vp_name p) ref r) (aq_db a)")
      (auto simp: call_provider_def Let_def)
  let ?a = "a\<lparr>aq_findings := aq_findings a @ finding_of (vp_name p) v,
      aq_called := aq_called a @ [vp_name p], aq_cost := aq_cost a + pr_cost r, aq_db := d,
      aq_failed := aq_failed a @ (if pr_status r \<in> {ERROR, TIMEOUT} then [vp_name p] else [])\<rparr>"
  from assms(1) r0 v d have st: "store_result E p ref r ?a = (a', Inr None)"
    by (simp add: call_provider_def Let_def)
  have key: "ch_key (live_charge E (vp_name p) ref r) = live_idempotency_key (ae_job_id E) (vp_name p) ref"
    by (simp add: live_charge_def Let_def)
  have "\<exists>x. find (\<lambda>r. pc_key r = live_idempotency_key (ae_job_id E) (vp_name p) ref) (ld_calls (aq_db a)) = Some x"
    using assms(2) by (auto simp: find_None_iff not_None_eq [symmetric])
  then have "ld_calls d = ld_calls (aq_db a)"
    using d key by (auto simp: record_live_def sum_bind_Inr record_provider_call_Inr)
  moreover have "aq_cost a' = aq_cost a + pr_cost r" "aq_called a' = aq_called a @ [vp_name p]"
    "ld_calls (aq_db a') = ld_calls d"
    using st by (auto simp: store_result_def Let_def split: if_splits sum.splits)
  ultimately show ?thesis using r0 validate_person_match_keeps [OF v] by auto
qed

definition refused_row :: provider_call where
  "refused_row = provider_row (lt_write frugal_tick)
     (live_charge frugal_env ''abstract_company_enrichment'' \<lparr>lr_type = Company, lr_id = 4, lr_key = ''acme.com''\<rparr>
       (industry_result\<lparr>pr_fields := [], pr_cost := 0, pr_status := ERROR, pr_error_kind := Some ''rate_limited''\<rparr>))"

theorem retried_live_call_not_ledgered_witness:
  "\<exists>a'. call_provider frugal_env frugal_tick industry_provider \<lparr>lr_type = Company, lr_id = 4, lr_key = ''acme.com''\<rparr>
       (start_acquisition frugal_env \<lparr>ld_evidence = [], ld_calls = [refused_row]\<rparr>) = (a', Inr None)
     \<and> aq_cost a' = 0.00165 \<and> lead_spent 7 (ld_calls (aq_db a')) = 0"
proof -
  let ?ref = "\<lparr>lr_type = Company, lr_id = 4, lr_key = ''acme.com''\<rparr>"
  let ?a = "start_acquisition frugal_env \<lparr>ld_evidence = [], ld_calls = [refused_row]\<rparr>"
  let ?key = "live_idempotency_key (ae_job_id frugal_env) (vp_name industry_provider) ?ref"
  have calls: "ld_calls (aq_db ?a) = [refused_row]" "aq_cost ?a = 0"
    by (simp_all add: start_acquisition_def Let_def)
  have key: "pc_key refused_row = ?key" and free: "pc_cost refused_row = 0"
    by (simp_all add: refused_row_def provider_row_def live_charge_def industry_provider_def
        industry_result_def Let_def)
  have items: "list_all evidence_allowed (live_evidence_items frugal_env (vp_name industry_provider) ?ref industry_result)"
    by (simp add: live_evidence_items_def industry_result_def evidence_allowed_def ttl_for_field_def
        FIELD_TTL_SECONDS_def)
  have valid: "validate_person_match (ae_identity frugal_env) industry_provider industry_result = Inr (industry_result, None)"
    by (simp add: validate_person_match_def industry_provider_def)
  have fetch: "vp_fetch industry_provider ?ref = Inr industry_result" by (simp add: industry_provider_def)
  have "basis_allowed (Some ''modelled_list_price'')" by code_simp
  then have basis: "basis_allowed (pc_cost_basis (provider_row w (live_charge frugal_env n ?ref industry_result)))" for w n
    by (simp add: provider_row_def live_charge_def industry_result_def as_text_def Let_def)
  have "ch_key (live_charge frugal_env (vp_name industry_provider) ?ref industry_result) = ?key"
    by (simp add: live_charge_def Let_def)
  then have rec: "record_live (lt_write frugal_tick) (live_charge frugal_env (vp_name industry_provider) ?ref industry_result)
      (aq_db ?a) = Inr (aq_db ?a)"
    using key basis by (simp add: record_live_def record_provider_call_def calls Let_def)
  have stored: "\<exists>a'. store_result frugal_env industry_provider ?ref industry_result x = (a', Inr None)" for x
    by (simp add: store_result_def put_many_def items Let_def)
  obtain a' where a': "call_provider frugal_env frugal_tick industry_provider ?ref ?a = (a', Inr None)"
    using stored by (simp add: call_provider_def fetch valid Let_def rec) blast
  from retried_live_call_not_ledgered [OF a'] key calls fetch
  have "aq_cost a' = 0.00165" "ld_calls (aq_db a') = [refused_row]" by (auto simp: industry_result_def)
  then show ?thesis using a' free by (simp add: lead_spent_def sum_of_def)
qed

end
