(* ===== verification/Live_Evaluation.thy ===== *)
theory Live_Evaluation
  imports Live_Acquisition
begin

text \<open>
  \<open>arie.live.evaluation\<close> and the \<open>evaluation_parallel\<close> strategy of \<open>arie.jobs.handlers\<close>: the
  company providers one after the other, then every person provider the caps admit, fetched
  concurrently and recorded in provider order. The fetches share no state, so the order in which
  they return is not observable; what a record of a call keeps for the reader only (latency, raw
  title, unmapped terms) is not modelled.
\<close>

subsection \<open>Agreement between providers\<close>

definition AGREE :: string where "AGREE = ''agree''"
definition APPROXIMATE_AGREEMENT :: string where "APPROXIMATE_AGREEMENT = ''approximate_agreement''"
definition PARTIAL :: string where "PARTIAL = ''partial''"
definition CONFLICT :: string where "CONFLICT = ''conflict''"
definition UNKNOWN_AGREEMENT :: string where "UNKNOWN_AGREEMENT = ''unknown''"

definition SEVERITY :: "string list" where
  "SEVERITY = [CONFLICT, AGREE, PARTIAL, UNKNOWN_AGREEMENT]"

text \<open>One value per provider that was asked; \<open>None\<close> is an absent key.\<close>

definition classify_field :: "pyval option list \<Rightarrow> string" where
  "classify_field vs =
     (let answered = filter (\<lambda>v. \<not> is_unknown v) vs
      in if answered = [] then UNKNOWN_AGREEMENT
         else if length answered = 1 then PARTIAL
         else if length (remdups (map (\<lambda>v. py_str (the v)) answered)) = 1 then AGREE
         else CONFLICT)"

type_synonym answers = "(string \<times> (string \<times> pyval) list) list"

definition classify_agreement :: "answers \<Rightarrow> string list \<Rightarrow> (string \<times> string) list" where
  "classify_agreement per_provider names =
     map (\<lambda>name. (name, classify_field (map (\<lambda>(_, fs). map_of fs name) per_provider))) names"

definition overall_agreement :: "(string \<times> string) list \<Rightarrow> string" where
  "overall_agreement cs =
     (case filter (\<lambda>label. label \<in> snd ` set cs) SEVERITY of
        [] \<Rightarrow> UNKNOWN_AGREEMENT
      | label # _ \<Rightarrow> label)"

definition classify_numeric_agreement :: "real list \<Rightarrow> real \<Rightarrow> real \<Rightarrow> string" where
  "classify_numeric_agreement answered agree_tolerance approximate_tolerance =
     (if length answered < 2 then UNKNOWN_AGREEMENT
      else
        (let smallest = Min (set answered); largest = Max (set answered)
         in if largest = 0 then AGREE
            else (let gap = (largest - smallest) / largest
                  in if gap \<le> agree_tolerance then AGREE
                     else if gap \<le> approximate_tolerance then APPROXIMATE_AGREEMENT
                     else CONFLICT)))"

subsection \<open>The evaluation strategy\<close>

definition EVALUATION_COMPLETE :: string where
  "EVALUATION_COMPLETE = ''evaluation_complete''"

record evaluation = acquisition +
  ev_budget_stop :: "string option"
  ev_pending :: real
  ev_admitted :: "(live_provider \<times> live_ref \<times> live_tick) list"
  ev_fields :: answers
  ev_records :: "(string \<times> string) list"
  ev_bug :: "error option"

text \<open>\<open>a or b\<close>, the first reason being kept.\<close>

definition first_reason :: "string option \<Rightarrow> string option \<Rightarrow> string option" where
  "first_reason a b = (if a = None then b else a)"

definition note_record :: "string \<Rightarrow> string \<Rightarrow> evaluation \<Rightarrow> evaluation" where
  "note_record name served a = a\<lparr>ev_records := AList.update name served (ev_records a)\<rparr>"

definition eval_company_step ::
  "live_env \<Rightarrow> live_provider \<times> live_tick \<Rightarrow> evaluation \<Rightarrow> evaluation \<times> (error + string option)" where
  "eval_company_step E pt a =
     (case pt of (p, t) \<Rightarrow>
        case live_entity_refs (ae_identity E) (vp_entity_type p) of
          None \<Rightarrow> (a\<lparr>aq_unreachable := aq_unreachable a @ [vp_name p]\<rparr>, Inr None)
        | Some ref \<Rightarrow>
            (let held = aq_evidence a (lr_type ref);
                 own = filter (\<lambda>e. ev_source e = vp_name p) held;
                 calls = ld_calls (aq_db a); org = ae_organization_id E
             in if set (vp_provides p) \<subseteq> ev_field ` set held \<or> own \<noteq> [] then
                  if own \<noteq> [] then
                    suppress_call E t p ref SUCCESS
                      (if set (vp_provides p) \<subseteq> ev_field ` set own then None else Some RECENT_PARTIAL) a
                  else (a, Inr None)
                else if recent_miss (ae_ttls E) (vp_name p) (lr_type ref) (lr_id ref) org (lt_miss t) calls \<noteq> None
                  then suppress_call E t p ref MISS (Some RECENT_MISS) a
                else if recent_uncertain_outcome (ae_ttls E) (vp_name p) (lr_type ref) (lr_id ref) org
                     (lt_uncertain t) calls \<noteq> None
                  then suppress_call E t p ref ERROR (Some UNCERTAIN_OUTCOME) a
                else if cooling_down_until (ae_cooldown E) (vp_name p) org (lt_cooldown t) calls \<noteq> None
                  then (a\<lparr>aq_unavailable := aq_unavailable a @ [vp_name p]\<rparr>, Inr None)
                else
                  (let allow = spend_allowance_for (ae_budget E) org (ae_lead_id E) (vp_base_cost p) (lt_budget t) calls;
                       org_allow = map_option (\<lambda>orgs. org_allowance_for org (vp_base_cost p) (lt_org t) orgs calls)
                         (ae_org_guard E)
                   in if \<not> sa_permitted allow
                      then (a\<lparr>ev_budget_stop := first_reason (ev_budget_stop a) (sa_reason allow)\<rparr>, Inr None)
                      else case org_allow of
                        Some oa \<Rightarrow>
                          if \<not> oa_permitted oa
                          then (a\<lparr>ev_budget_stop := first_reason (ev_budget_stop a) (oa_reason oa)\<rparr>, Inr None)
                          else call_provider E t p ref a
                      | None \<Rightarrow> call_provider E t p ref a)))"

text \<open>A person provider answered without a call: its ledger row, then its record.\<close>

definition serve_person ::
  "live_env \<Rightarrow> live_tick \<Rightarrow> live_provider \<Rightarrow> live_ref \<Rightarrow> provider_status \<Rightarrow> string option \<Rightarrow> string
     \<Rightarrow> (evaluation \<Rightarrow> evaluation) \<Rightarrow> evaluation \<Rightarrow> evaluation \<times> (error + string option)" where
  "serve_person E t p ref st reason served keep a =
     (case suppress_call E t p ref st reason a of
        (a', Inl e) \<Rightarrow> (a', Inl e)
      | (a', Inr x) \<Rightarrow> (keep (note_record (vp_name p) served a'), Inr x))"

definition admit_person ::
  "live_env \<Rightarrow> live_provider \<times> live_tick \<Rightarrow> evaluation \<Rightarrow> evaluation \<times> (error + string option)" where
  "admit_person E pt a =
     (case pt of (p, t) \<Rightarrow>
        case live_entity_refs (ae_identity E) (vp_entity_type p) of
          None \<Rightarrow> (a\<lparr>aq_unreachable := aq_unreachable a @ [vp_name p]\<rparr>, Inr None)
        | Some ref \<Rightarrow>
            (let own = filter (\<lambda>e. ev_source e = vp_name p) (aq_evidence a (lr_type ref));
                 calls = ld_calls (aq_db a); org = ae_organization_id E
             in if own \<noteq> [] then
                  serve_person E t p ref SUCCESS
                    (if set (vp_provides p) \<subseteq> ev_field ` set own then None else Some RECENT_PARTIAL) ''cache''
                    (\<lambda>a. a\<lparr>ev_fields := AList.update (vp_name p) (rev (map (\<lambda>e. (ev_field e, ev_value e)) own)) (ev_fields a)\<rparr>) a
                else if recent_miss (ae_ttls E) (vp_name p) (lr_type ref) (lr_id ref) org (lt_miss t) calls \<noteq> None
                  then serve_person E t p ref MISS (Some RECENT_MISS) ''suppressed_recent_miss'' id a
                else if recent_uncertain_outcome (ae_ttls E) (vp_name p) (lr_type ref) (lr_id ref) org
                     (lt_uncertain t) calls \<noteq> None
                  then serve_person E t p ref ERROR (Some UNCERTAIN_OUTCOME) ''suppressed_uncertain_outcome'' id a
                else if cooling_down_until (ae_cooldown E) (vp_name p) org (lt_cooldown t) calls \<noteq> None
                  then (note_record (vp_name p) ''skipped_quota_cooldown''
                          (a\<lparr>aq_unavailable := aq_unavailable a @ [vp_name p]\<rparr>), Inr None)
                else
                  (let estimate = vp_base_cost p + ev_pending a;
                       allow = spend_allowance_for (ae_budget E) org (ae_lead_id E) estimate (lt_budget t) calls;
                       org_allow = map_option (\<lambda>orgs. org_allowance_for org estimate (lt_org t) orgs calls)
                         (ae_org_guard E);
                       admitted = a\<lparr>ev_pending := ev_pending a + vp_base_cost p,
                                    ev_admitted := ev_admitted a @ [(p, ref, t)]\<rparr>
                   in if \<not> sa_permitted allow
                      then (note_record (vp_name p) ''skipped_budget''
                        (a\<lparr>ev_budget_stop := first_reason (ev_budget_stop a) (sa_reason allow)\<rparr>), Inr None)
                      else case org_allow of
                        Some oa \<Rightarrow>
                          if \<not> oa_permitted oa
                          then (note_record (vp_name p) ''skipped_budget''
                            (a\<lparr>ev_budget_stop := first_reason (ev_budget_stop a) (oa_reason oa)\<rparr>), Inr None)
                          else (admitted, Inr None)
                      | None \<Rightarrow> (admitted, Inr None))))"

text \<open>A crashed fetch is remembered; any other result is recorded and kept.\<close>

definition record_person ::
  "live_env \<Rightarrow> live_provider \<times> live_ref \<times> live_tick \<Rightarrow> evaluation \<Rightarrow> evaluation \<times> (error + string option)" where
  "record_person E prt a =
     (case prt of (p, ref, t) \<Rightarrow>
        case vp_fetch p ref of
          Inl e \<Rightarrow> (a\<lparr>ev_bug := (if ev_bug a = None then Some e else ev_bug a)\<rparr>, Inr None)
        | Inr r0 \<Rightarrow>
            (case call_provider E t p ref a of
               (a', Inl e) \<Rightarrow> (a', Inl e)
             | (a', Inr x) \<Rightarrow>
                 (case validate_person_match (ae_identity E) p r0 of
                    Inl e \<Rightarrow> (a', Inl e)
                  | Inr (r, _) \<Rightarrow>
                      (note_record (vp_name p) ''live_call''
                         (a'\<lparr>ev_fields := AList.update (vp_name p) (pr_fields r) (ev_fields a')\<rparr>), Inr None))))"

fun run_each :: "('b \<Rightarrow> 'a \<Rightarrow> 'a \<times> (error + string option)) \<Rightarrow> 'b list \<Rightarrow> 'a \<Rightarrow> 'a \<times> (error + unit)" where
  "run_each f [] a = (a, Inr ())"
| "run_each f (x # xs) a =
     (case f x a of (a', Inl e) \<Rightarrow> (a', Inl e) | (a', Inr _) \<Rightarrow> run_each f xs a')"

definition start_evaluation :: "live_env \<Rightarrow> live_db \<Rightarrow> evaluation" where
  "start_evaluation E d =
     acquisition.extend (start_acquisition E d)
       \<lparr>ev_budget_stop = None, ev_pending = 0, ev_admitted = [], ev_fields = [], ev_records = [], ev_bug = None\<rparr>"

definition evaluation_stop_reason :: "evaluation \<Rightarrow> string" where
  "evaluation_stop_reason a =
     (case ev_budget_stop a of
        Some r \<Rightarrow> r
      | None \<Rightarrow> if aq_failed a \<noteq> [] then STOP_PROVIDER_FAILED
                else if aq_unavailable a \<noteq> [] then PROVIDER_UNAVAILABLE
                else EVALUATION_COMPLETE)"

definition evaluation_agreement :: "evaluation \<Rightarrow> (string \<times> string) list" where
  "evaluation_agreement a =
     (let compared = filter (\<lambda>(name, _). map_of (ev_records a) name \<in> {Some ''live_call'', Some ''cache''}) (ev_fields a);
          agreement = classify_agreement compared [''title_seniority'', ''title_function'']
      in agreement @ [(''overall'', overall_agreement agreement)])"

definition acquire_evaluation_parallel ::
  "live_env \<Rightarrow> (live_provider \<times> live_tick) list \<Rightarrow> live_db
     \<Rightarrow> evaluation \<times> (error + string \<times> (string \<times> string) list)" where
  "acquire_evaluation_parallel E ps d =
     (case run_each (eval_company_step E) (filter (\<lambda>(p, _). vp_entity_type p = Company) ps) (start_evaluation E d) of
        (a, Inl e) \<Rightarrow> (a, Inl e)
      | (a1, Inr _) \<Rightarrow>
          (case run_each (admit_person E) (filter (\<lambda>(p, _). vp_entity_type p = Person) ps) a1 of
             (a, Inl e) \<Rightarrow> (a, Inl e)
           | (a2, Inr _) \<Rightarrow>
               (case run_each (record_person E) (ev_admitted a2) a2 of
                  (a, Inl e) \<Rightarrow> (a, Inl e)
                | (a3, Inr _) \<Rightarrow>
                    (case ev_bug a3 of
                       Some e \<Rightarrow> (a3, Inl e)
                     | None \<Rightarrow>
                         (let ev = read_evidence E (aq_db a3);
                              a4 = a3\<lparr>aq_evidence := ev, aq_scoring := score_held E ev\<rparr>
                          in (a4, Inr (evaluation_stop_reason a4, evaluation_agreement a4)))))))"

subsection \<open>The caps hold under concurrent calls\<close>

text \<open>A turn that may spend at most \<open>room\<close>: what it does to the recorded spend.\<close>

lemma suppressed_caps:
  assumes "suppress_call E t p ref st reason a = (a', res)" and "caps_leave E now room (ld_calls (aq_db a))"
  shows "caps_leave E now room (ld_calls (aq_db a'))"
  using suppress_call_db [OF assms(1)] caps_leave_snoc [of E now 0 room] assms(2) by auto

lemma called_caps:
  assumes "call_provider E t p ref a = (a', res)" and "list_price_holds p"
    and "caps_leave E now (vp_base_cost p + room) (ld_calls (aq_db a))"
  shows "caps_leave E now room (ld_calls (aq_db a'))"
  using call_provider_calls [OF assms(1)]
proof
  assume "ld_calls (aq_db a') = ld_calls (aq_db a)"
  moreover have "room \<le> vp_base_cost p + room" using assms(2) by (simp add: list_price_holds_def)
  ultimately show ?thesis using caps_leave_less [OF assms(3)] by simp
next
  assume "\<exists>row r. ld_calls (aq_db a') = ld_calls (aq_db a) @ [row] \<and> vp_fetch p ref = Inr r \<and> pc_cost row = pr_cost r"
  then obtain row r where row: "ld_calls (aq_db a') = ld_calls (aq_db a) @ [row]"
    and r: "vp_fetch p ref = Inr r" "pc_cost row = pr_cost r" by blast
  have "0 \<le> pc_cost row" "pc_cost row \<le> vp_base_cost p"
    using assms(2) r by (auto simp: list_price_holds_def)
  with caps_leave_snoc [OF assms(3)] row show ?thesis by simp
qed

definition same_day :: "instant \<Rightarrow> live_tick \<Rightarrow> bool" where
  "same_day now t \<longleftrightarrow> day_start (lt_budget t) = day_start now \<and> month_start (lt_org t) = month_start now"

lemma eval_company_caps:
  assumes step: "eval_company_step E (p, t) a = (a', res)" and "list_price_holds p" and day: "same_day now t"
    and w: "caps_leave E now 0 (ld_calls (aq_db a))"
  shows "caps_leave E now 0 (ld_calls (aq_db a'))"
proof (cases "live_entity_refs (ae_identity E) (vp_entity_type p)")
  case None
  with step w show ?thesis by (auto simp: eval_company_step_def)
next
  case (Some ref)
  let ?calls = "ld_calls (aq_db a)" and ?org = "ae_organization_id E"
  let ?allow = "spend_allowance_for (ae_budget E) ?org (ae_lead_id E) (vp_base_cost p) (lt_budget t) ?calls"
  consider "ld_calls (aq_db a') = ?calls"
    | st reason where "suppress_call E t p ref st reason a = (a', res)"
    | "call_permitted E t (vp_base_cost p) ?calls" "call_provider E t p ref a = (a', res)"
  proof (cases "sa_permitted ?allow")
    case True
    show ?thesis
      using step Some True that unfolding eval_company_step_def call_permitted_def Let_def
      by (auto split: if_splits option.splits)
  next
    case False
    show ?thesis
      using step Some False that unfolding eval_company_step_def Let_def
      by (auto split: if_splits)
  qed
  then show ?thesis
  proof cases
    case 1
    with w show ?thesis by simp
  next
    case 2
    with suppressed_caps w show ?thesis by blast
  next
    case 3
    with called_caps [OF 3(2) assms(2), of now 0] permitted_room [OF 3(1)] day show ?thesis
      by (simp add: same_day_def)
  qed
qed

lemma run_each_invariant:
  assumes "run_each f xs a = (a', res)" and "Inv a"
    and "\<And>x a a' r. x \<in> set xs \<Longrightarrow> Inv a \<Longrightarrow> f x a = (a', r) \<Longrightarrow> Inv a'"
  shows "Inv a'"
  using assms
proof (induction xs arbitrary: a)
  case (Cons x xs)
  obtain a1 r1 where step: "f x a = (a1, r1)" by fastforce
  with Cons.prems(2,3) have inv: "Inv a1" by (metis list.set_intros(1))
  show ?case
  proof (cases r1)
    case (Inl e)
    with Cons.prems(1) step inv show ?thesis by simp
  next
    case (Inr y)
    with Cons.prems(1) step have "run_each f xs a1 = (a', res)" by simp
    with Cons.IH [OF _ inv] Cons.prems(3) show ?thesis by (metis list.set_intros(2))
  qed
qed simp

text \<open>What an admission leaves to be spent: the list prices of the providers admitted so far.\<close>

definition admitted_price :: "(live_provider \<times> live_ref \<times> live_tick) list \<Rightarrow> real" where
  "admitted_price xs = sum_list (map (\<lambda>(p, _, _). vp_base_cost p) xs)"

definition admission_ok :: "live_env \<Rightarrow> instant \<Rightarrow> evaluation \<Rightarrow> bool" where
  "admission_ok E now a \<longleftrightarrow>
     ev_pending a = admitted_price (ev_admitted a)
     \<and> (\<forall>(p, ref, t) \<in> set (ev_admitted a). list_price_holds p)
     \<and> caps_leave E now (ev_pending a) (ld_calls (aq_db a))"

text \<open>An admission step writes at most one zero-cost row and admits at most one provider,
  which then fits beside those admitted before it.\<close>

lemma suppress_call_more:
  "suppress_call E t p ref st reason a = (a', res) \<Longrightarrow> acquisition.more a' = acquisition.more a"
  by (auto simp: suppress_call_def split: sum.splits)

lemma evaluation_more:
  fixes a a' :: evaluation
  assumes "acquisition.more a' = acquisition.more a"
  shows "ev_pending a' = ev_pending a \<and> ev_admitted a' = ev_admitted a \<and> ev_bug a' = ev_bug a"
  using assms by (cases a; cases a') simp

lemma serve_person_ok:
  assumes "serve_person E t p ref st reason served keep a = (a', res)" and "admission_ok E now a"
    and keep: "\<And>x. ev_pending (keep x) = ev_pending x \<and> ev_admitted (keep x) = ev_admitted x \<and> aq_db (keep x) = aq_db x"
  shows "admission_ok E now a'"
proof -
  obtain a1 r where s: "suppress_call E t p ref st reason a = (a1, r)" by fastforce
  note m = evaluation_more [OF suppress_call_more [OF s]]
  have c: "caps_leave E now (ev_pending a) (ld_calls (aq_db a1))"
    using suppressed_caps [OF s] assms(2) unfolding admission_ok_def by blast
  have "a' = a1 \<or> a' = keep (note_record (vp_name p) served a1)"
    using assms(1) s by (auto simp: serve_person_def split: sum.splits)
  then show ?thesis
    using assms(2) keep c m by (auto simp: admission_ok_def note_record_def)
qed

lemma admit_person_cases:
  assumes "admit_person E (p, t) a = (a', res)"
  obtains
    (kept) "ev_pending a' = ev_pending a" "ev_admitted a' = ev_admitted a" "aq_db a' = aq_db a"
  | (served) ref st reason w keep where "serve_person E t p ref st reason w keep a = (a', res)"
      "\<And>x. ev_pending (keep x) = ev_pending x \<and> ev_admitted (keep x) = ev_admitted x \<and> aq_db (keep x) = aq_db x"
  | (admitted) ref where "call_permitted E t (vp_base_cost p + ev_pending a) (ld_calls (aq_db a))"
      "a' = a\<lparr>ev_pending := ev_pending a + vp_base_cost p, ev_admitted := ev_admitted a @ [(p, ref, t)]\<rparr>"
proof (cases "live_entity_refs (ae_identity E) (vp_entity_type p)")
  case None
  with assms that(1) show ?thesis by (auto simp: admit_person_def)
next
  case (Some ref)
  let ?own = "filter (\<lambda>e. ev_source e = vp_name p) (aq_evidence a (lr_type ref))"
  let ?calls = "ld_calls (aq_db a)" and ?org = "ae_organization_id E"
  let ?est = "vp_base_cost p + ev_pending a"
  show ?thesis
  proof (cases "?own = []")
    case False
    with assms Some have "serve_person E t p ref SUCCESS
        (if set (vp_provides p) \<subseteq> ev_field ` set ?own then None else Some RECENT_PARTIAL) ''cache''
        (\<lambda>a. a\<lparr>ev_fields := AList.update (vp_name p) (rev (map (\<lambda>e. (ev_field e, ev_value e)) ?own)) (ev_fields a)\<rparr>) a
        = (a', res)"
      unfolding admit_person_def Let_def by simp
    then show ?thesis by (rule that(2)) simp
  next
    case own: True
    show ?thesis
    proof (cases "recent_miss (ae_ttls E) (vp_name p) (lr_type ref) (lr_id ref) ?org (lt_miss t) ?calls \<noteq> None
        \<or> recent_uncertain_outcome (ae_ttls E) (vp_name p) (lr_type ref) (lr_id ref) ?org (lt_uncertain t) ?calls \<noteq> None")
      case True
      with assms Some own have
        "serve_person E t p ref MISS (Some RECENT_MISS) ''suppressed_recent_miss'' id a = (a', res)
         \<or> serve_person E t p ref ERROR (Some UNCERTAIN_OUTCOME) ''suppressed_uncertain_outcome'' id a = (a', res)"
        unfolding admit_person_def Let_def by (auto split: if_splits)
      then show ?thesis using that(2) by force
    next
      case False
      show ?thesis
      proof (cases "cooling_down_until (ae_cooldown E) (vp_name p) ?org (lt_cooldown t) ?calls \<noteq> None
          \<or> \<not> call_permitted E t ?est ?calls")
        case True
        with assms Some own False have "ev_pending a' = ev_pending a \<and> ev_admitted a' = ev_admitted a \<and> aq_db a' = aq_db a"
          unfolding admit_person_def call_permitted_def Let_def
          by (auto simp: note_record_def split: if_splits option.splits)
        then show ?thesis using that(1) by blast
      next
        case permitted: False
        with assms Some own False have
          "a' = a\<lparr>ev_pending := ev_pending a + vp_base_cost p, ev_admitted := ev_admitted a @ [(p, ref, t)]\<rparr>"
          unfolding admit_person_def call_permitted_def Let_def
          by (auto split: if_splits option.splits)
        then show ?thesis using that(3) permitted by blast
      qed
    qed
  qed
qed

lemma admit_person_ok:
  assumes "admit_person E (p, t) a = (a', res)" and "admission_ok E now a" and "list_price_holds p"
    and "same_day now t"
  shows "admission_ok E now a'"
  using assms(1)
proof (cases rule: admit_person_cases)
  case kept
  with assms(2) show ?thesis unfolding admission_ok_def by auto
next
  case (served ref st reason w keep)
  from serve_person_ok [OF served(1) assms(2) served(2)] show ?thesis .
next
  case (admitted ref)
  from permitted_room [OF admitted(1)] assms(4)
  have "caps_leave E now (vp_base_cost p + ev_pending a) (ld_calls (aq_db a))" by (simp add: same_day_def)
  with admitted(2) assms(2,3) show ?thesis
    by (auto simp: admission_ok_def admitted_price_def add.commute)
qed

lemma record_person_caps:
  assumes "record_person E (p, ref, t) a = (a', res)" and "list_price_holds p"
    and "caps_leave E now (vp_base_cost p + room) (ld_calls (aq_db a))"
  shows "caps_leave E now room (ld_calls (aq_db a'))"
proof (cases "vp_fetch p ref")
  case (Inl e)
  have "room \<le> vp_base_cost p + room" using assms(2) by (simp add: list_price_holds_def)
  with Inl assms(1) caps_leave_less [OF assms(3)] show ?thesis by (auto simp: record_person_def)
next
  case (Inr r0)
  obtain a1 r where c: "call_provider E t p ref a = (a1, r)" by fastforce
  have "aq_db a' = aq_db a1"
    using assms(1) Inr c by (auto simp: record_person_def note_record_def split: sum.splits prod.splits)
  with called_caps [OF c assms(2,3)] show ?thesis by simp
qed

lemma record_persons_caps:
  assumes "run_each (record_person E) xs a = (a', res)" and "\<forall>(p, ref, t) \<in> set xs. list_price_holds p"
    and "caps_leave E now (admitted_price xs) (ld_calls (aq_db a))"
  shows "caps_leave E now 0 (ld_calls (aq_db a'))"
  using assms
proof (induction xs arbitrary: a)
  case Nil
  then show ?case by (simp add: admitted_price_def)
next
  case (Cons x xs)
  obtain p ref t where x: "x = (p, ref, t)" by (cases x) auto
  obtain a1 r1 where step: "record_person E (p, ref, t) a = (a1, r1)" by fastforce
  have price: "list_price_holds p" and rest: "\<forall>(p, ref, t) \<in> set xs. list_price_holds p"
    using Cons.prems(2) x by auto
  from record_person_caps [OF step price] Cons.prems(3)
  have c: "caps_leave E now (admitted_price xs) (ld_calls (aq_db a1))" by (simp add: admitted_price_def x)
  have "0 \<le> admitted_price xs"
    using rest unfolding admitted_price_def by (intro sum_list_nonneg_map) (auto simp: list_price_holds_def)
  with c have c0: "caps_leave E now 0 (ld_calls (aq_db a1))" by (rule caps_leave_less)
  show ?case
  proof (cases r1)
    case (Inl e)
    with Cons.prems(1) step x c0 show ?thesis by simp
  next
    case (Inr y)
    with Cons.prems(1) step x have "run_each (record_person E) xs a1 = (a', res)" by simp
    from Cons.IH [OF this rest c] show ?thesis .
  qed
qed

lemma start_evaluation_simps [simp]:
  "aq_db (start_evaluation E d) = d" "ev_pending (start_evaluation E d) = 0"
  "ev_admitted (start_evaluation E d) = []"
  by (simp_all add: start_evaluation_def start_acquisition_def acquisition.defs Let_def)

lemma eval_company_admits_none:
  assumes "eval_company_step E (p, t) a = (a', res)"
  shows "ev_pending a' = ev_pending a \<and> ev_admitted a' = ev_admitted a"
proof -
  have s: "suppress_call E t p ref st reason a = (a', res) \<Longrightarrow> ?thesis" for ref st reason
    using evaluation_more suppress_call_more by blast
  have c: "call_provider E t p ref a = (a', res) \<Longrightarrow> ?thesis" for ref
    by (rule evaluation_more [THEN conjunct1, THEN conjI, OF _ evaluation_more [THEN conjunct2, THEN conjunct1]])
      (auto simp: call_provider_def store_result_def Let_def split: sum.splits prod.splits if_splits)
  show ?thesis
    using assms s c unfolding eval_company_step_def Let_def
    by (auto split: option.splits if_splits)
qed

text \<open>
  The caps hold under concurrent calls as well. The evaluation strategy submits several
  person providers at once, each admitted against the prices of those admitted before it: on one
  calendar day, with calls that never cost more than the list price, the recorded spend stays
  within the per-lead, the daily and the monthly cap, whatever the fetches answer and also when
  one of them crashes.
\<close>

theorem concurrent_spend_within_caps:
  assumes "\<forall>(p, t) \<in> set ps. list_price_holds p \<and> same_day now t"
    and "within_caps E now (ld_calls d)"
    and "acquire_evaluation_parallel E ps d = (a, res)"
  shows "within_caps E now (ld_calls (aq_db a))"
proof -
  let ?cs = "filter (\<lambda>(p, _). vp_entity_type p = Company) ps"
  let ?ps = "filter (\<lambda>(p, _). vp_entity_type p = Person) ps"
  define Inv0 where "Inv0 = (\<lambda>a :: evaluation. ev_pending a = 0 \<and> ev_admitted a = []
    \<and> caps_leave E now 0 (ld_calls (aq_db a)))"
  obtain a1 r1 where 1: "run_each (eval_company_step E) ?cs (start_evaluation E d) = (a1, r1)" by fastforce
  have "Inv0 (start_evaluation E d)" using assms(2) by (simp add: Inv0_def within_caps_def)
  then have i1: "Inv0 a1"
  proof (rule run_each_invariant [OF 1])
    fix x a a' r
    assume "x \<in> set ?cs" and i: "Inv0 a" and s: "eval_company_step E x a = (a', r)"
    then obtain p t where x: "x = (p, t)" "(p, t) \<in> set ps" by auto
    with assms(1) have "list_price_holds p" "same_day now t" by auto
    with eval_company_caps [OF s [unfolded x]] eval_company_admits_none [OF s [unfolded x]] i
    show "Inv0 a'" by (simp add: Inv0_def)
  qed
  obtain a2 r2 where 2: "run_each (admit_person E) ?ps a1 = (a2, r2)" by fastforce
  have "admission_ok E now a1" using i1 by (simp add: Inv0_def admission_ok_def admitted_price_def)
  then have i2: "admission_ok E now a2"
  proof (rule run_each_invariant [OF 2])
    fix x a a' r
    assume "x \<in> set ?ps" and i: "admission_ok E now a" and s: "admit_person E x a = (a', r)"
    then obtain p t where x: "x = (p, t)" "(p, t) \<in> set ps" by auto
    with assms(1) admit_person_ok [OF s [unfolded x] i] show "admission_ok E now a'" by auto
  qed
  have "0 \<le> admitted_price (ev_admitted a2)"
    using i2 unfolding admitted_price_def
    by (intro sum_list_nonneg_map) (auto simp: list_price_holds_def admission_ok_def)
  then have c2: "caps_leave E now 0 (ld_calls (aq_db a2))"
    using i2 caps_leave_less unfolding admission_ok_def by metis
  obtain a3 r3 where 3: "run_each (record_person E) (ev_admitted a2) a2 = (a3, r3)" by fastforce
  have c3: "caps_leave E now 0 (ld_calls (aq_db a3))"
    using record_persons_caps [OF 3] i2 unfolding admission_ok_def by auto
  have "aq_db a \<in> {aq_db a1, aq_db a2, aq_db a3}"
    using assms(3) 1 2 3
    by (auto simp: acquire_evaluation_parallel_def Let_def split: sum.splits option.splits)
  with i1 c2 c3 show ?thesis by (auto simp: within_caps_def Inv0_def)
qed

definition silent_person :: "string \<Rightarrow> live_provider" where
  "silent_person name = title_provider
     \<lparr>vp_name := name,
      vp_fetch := \<lambda>_. Inr (industry_result\<lparr>pr_fields := [], pr_cost := 0.0196, pr_status := ERROR\<rparr>)\<rparr>"

definition tight_env :: live_env where
  "tight_env = frugal_env\<lparr>ae_budget := \<lparr>lb_per_lead = 0.03, lb_daily = 1\<rparr>\<rparr>"

text \<open>Two providers that fit one by one but not together: one is called, the other refused.\<close>

theorem concurrent_spend_within_caps_witness:
  "aq_called (fst (acquire_evaluation_parallel tight_env
       [(silent_person ''a'', frugal_tick), (silent_person ''b'', frugal_tick)] no_live_rows)) = [''a'']
   \<and> within_caps tight_env 20 (ld_calls (aq_db (fst (acquire_evaluation_parallel tight_env
       [(silent_person ''a'', frugal_tick), (silent_person ''b'', frugal_tick)] no_live_rows))))"
proof -
  let ?ps = "[(silent_person ''a'', frugal_tick), (silent_person ''b'', frugal_tick)]"
  obtain a res where run: "acquire_evaluation_parallel tight_env ?ps no_live_rows = (a, res)" by fastforce
  have called: "aq_called (fst (acquire_evaluation_parallel tight_env ?ps no_live_rows)) = [''a'']"
    by code_simp
  have "list_price_holds (silent_person n)" for n
    by (simp add: list_price_holds_def silent_person_def title_provider_def industry_result_def)
  then have p: "\<forall>(p, t) \<in> set ?ps. list_price_holds p \<and> same_day 20 t"
    by (simp add: frugal_tick_def same_day_def)
  have w: "within_caps tight_env 20 (ld_calls no_live_rows)"
    by (simp add: within_caps_def caps_leave_def no_live_rows_def lead_spent_def daily_spent_def
        month_to_date_spent_def sum_of_def tight_env_def frugal_env_def demo_orgs_def)
  from concurrent_spend_within_caps [OF p w run] run called show ?thesis by simp
qed

end
