(* ===== verification/Live_Handler.thy ===== *)
theory Live_Handler
  imports Live_Evaluation
begin

text \<open>
  The live \<open>compute_score\<close> handler of \<open>arie.jobs.handlers\<close> with what it is configured by:
  \<open>arie.live.strategy\<close>, \<open>arie.live.provider_availability\<close> and the pacing of
  \<open>arie.live.rate_limit\<close>. The simulated path, which an organization in simulated mode takes, is
  a parameter here (it is \<open>run_simulated_acquisition\<close> of \<open>Live_Safety\<close>); so are the credential
  vault and the adapters built from a credential.
\<close>

subsection \<open>Strategy\<close>

definition OPTIMIZED :: string where "OPTIMIZED = ''optimized''"
definition EVALUATION_PARALLEL :: string where "EVALUATION_PARALLEL = ''evaluation_parallel''"
definition OPTIMIZED_POLICY_NAME :: string where "OPTIMIZED_POLICY_NAME = ''live_optimized''"
definition EVALUATION_POLICY_NAME :: string where
  "EVALUATION_POLICY_NAME = ''live_evaluation_parallel''"
definition LEGACY_LIVE_POLICY_NAME :: string where
  "LEGACY_LIVE_POLICY_NAME = ''live_single_provider''"

definition LIVE_POLICY_NAMES :: "string set" where
  "LIVE_POLICY_NAMES = {LEGACY_LIVE_POLICY_NAME, OPTIMIZED_POLICY_NAME, EVALUATION_POLICY_NAME}"

definition resolve_strategy :: "string \<Rightarrow> error + string" where
  "resolve_strategy strategy =
     (if strategy = OPTIMIZED then Inr OPTIMIZED
      else if strategy = EVALUATION_PARALLEL then Inr EVALUATION_PARALLEL
      else Inl (UnsupportedLiveStrategyError strategy))"

subsection \<open>The organization's providers\<close>

definition SIMULATED_MODE :: string where "SIMULATED_MODE = ''simulated''"
definition LIVE_SHADOW :: string where "LIVE_SHADOW = ''live_shadow''"
definition LIVE_HUMAN_ONLY :: string where "LIVE_HUMAN_ONLY = ''live_human_only''"

definition PROVIDER_NOT_CONFIGURED :: string where
  "PROVIDER_NOT_CONFIGURED = ''provider_not_configured''"
definition PROVIDER_DISABLED :: string where "PROVIDER_DISABLED = ''provider_disabled''"
definition CREDENTIAL_UNAVAILABLE :: string where "CREDENTIAL_UNAVAILABLE = ''credential_unavailable''"
definition PROVIDER_MODE_DISALLOWS_LIVE :: string where
  "PROVIDER_MODE_DISALLOWS_LIVE = ''provider_mode_disallows_live''"
definition CREDENTIAL_SOURCE_ORGANIZATION :: string where
  "CREDENTIAL_SOURCE_ORGANIZATION = ''organization''"

text \<open>\<open>get_execution_mode\<close>: an organization that is not there is simulated.\<close>

definition get_execution_mode :: "(uuid \<Rightarrow> string option) \<Rightarrow> uuid \<Rightarrow> string" where
  "get_execution_mode modes org = (case modes org of None \<Rightarrow> SIMULATED_MODE | Some m \<Rightarrow> m)"

record provider_source =
  ps_configured :: "string \<Rightarrow> bool"
  ps_enabled :: "string \<Rightarrow> bool"
  ps_credential :: "string \<Rightarrow> string option"
  ps_builder :: "string \<Rightarrow> (string \<Rightarrow> live_provider) option"

fun resolve_each :: "provider_source \<Rightarrow> string list \<Rightarrow> live_provider list \<times> (string \<times> string) list" where
  "resolve_each src [] = ([], [])"
| "resolve_each src (name # names) =
     (case resolve_each src names of (ps, un) \<Rightarrow>
        if \<not> ps_configured src name then (ps, (name, PROVIDER_NOT_CONFIGURED) # un)
        else if \<not> ps_enabled src name then (ps, (name, PROVIDER_DISABLED) # un)
        else case ps_credential src name of
          None \<Rightarrow> (ps, (name, CREDENTIAL_UNAVAILABLE) # un)
        | Some c \<Rightarrow>
            (case ps_builder src name of
               None \<Rightarrow> (ps, (name, PROVIDER_NOT_CONFIGURED) # un)
             | Some build \<Rightarrow> (build c # ps, un)))"

definition resolve_organization_providers ::
  "provider_source \<Rightarrow> string \<Rightarrow> string list \<Rightarrow> live_provider list \<times> (string \<times> string) list" where
  "resolve_organization_providers src execution_mode names =
     (if execution_mode = SIMULATED_MODE
      then ([], map (\<lambda>name. (name, PROVIDER_MODE_DISALLOWS_LIVE)) names)
      else resolve_each src names)"

subsection \<open>Pacing\<close>

record pacer =
  pa_min_interval :: real
  pa_next_call :: "real option"
  pa_retry_until :: "real option"

definition later_of :: "real \<Rightarrow> real option \<Rightarrow> real" where
  "later_of t d = (case d of None \<Rightarrow> t | Some x \<Rightarrow> max t x)"

text \<open>\<open>wait\<close>: the delay it sleeps, and the pacer afterwards.\<close>

definition pacer_wait :: "real \<Rightarrow> pacer \<Rightarrow> real \<times> pacer" where
  "pacer_wait now p =
     (let deadline = later_of (later_of now (pa_next_call p)) (pa_retry_until p)
      in (deadline - now, p\<lparr>pa_next_call := Some (deadline + pa_min_interval p)\<rparr>))"

definition note_retry_after :: "real \<Rightarrow> real \<Rightarrow> pacer \<Rightarrow> pacer" where
  "note_retry_after now seconds p =
     p\<lparr>pa_retry_until := Some (max (case pa_retry_until p of None \<Rightarrow> 0 | Some t \<Rightarrow> t) (now + max 0 seconds))\<rparr>"

subsection \<open>The handler\<close>

record live_job =
  lj_env :: live_env
  lj_strategy :: string
  lj_injected :: "live_provider list option"
  lj_execution_mode :: string
  lj_source :: provider_source
  lj_order :: "string list"
  lj_orgs :: organizations
  lj_tick :: "nat \<Rightarrow> live_tick"

text \<open>The active providers, the environment they run in, and whether the lead counts as shadow.\<close>

definition active_providers :: "live_job \<Rightarrow> error + live_provider list \<times> live_env \<times> bool" where
  "active_providers J =
     (let E = lj_env J; shadow = li_is_shadow (ae_identity E)
      in case lj_injected J of
           Some ps \<Rightarrow> Inr (ps, E\<lparr>ae_org_guard := None, ae_credential_source := None\<rparr>, shadow)
         | None \<Rightarrow>
             sum_bind (acquisition_order (lj_order J)
                 (fst (resolve_organization_providers (lj_source J) (lj_execution_mode J)
                         REGISTERED_LIVE_PROVIDER_NAMES)))
               (\<lambda>ps. Inr (ps,
                  (if ps \<noteq> [] then E\<lparr>ae_org_guard := Some (lj_orgs J),
                                    ae_credential_source := Some CREDENTIAL_SOURCE_ORGANIZATION\<rparr>
                   else E\<lparr>ae_org_guard := None, ae_credential_source := None\<rparr>),
                  shadow \<or> lj_execution_mode J = LIVE_SHADOW)))"

definition ticked :: "live_job \<Rightarrow> live_provider list \<Rightarrow> (live_provider \<times> live_tick) list" where
  "ticked J ps = zip ps (map (lj_tick J) [0..<length ps])"

text \<open>The acquisition under the configured strategy: tables, score and stop reason.\<close>

definition run_acquisition ::
  "live_job \<Rightarrow> live_provider list \<Rightarrow> live_env \<Rightarrow> live_db \<Rightarrow> live_db \<times> (error + scoring_result \<times> string)" where
  "run_acquisition J ps E ld =
     (if lj_strategy J = EVALUATION_PARALLEL then
        (case acquire_evaluation_parallel E (ticked J ps) ld of
           (a, Inl e) \<Rightarrow> (aq_db a, Inl e)
         | (a, Inr (reason, _)) \<Rightarrow> (aq_db a, Inr (aq_scoring a, reason)))
      else
        (case acquire_live_evidence E (ticked J ps) ld of
           (a, Inl e) \<Rightarrow> (aq_db a, Inl e)
         | (a, Inr (reason, _)) \<Rightarrow> (aq_db a, Inr (aq_scoring a, reason))))"

definition live_policy_name :: "live_job \<Rightarrow> string" where
  "live_policy_name J =
     (if lj_strategy J = EVALUATION_PARALLEL then EVALUATION_POLICY_NAME else OPTIMIZED_POLICY_NAME)"

definition record_live_decision ::
  "live_job \<Rightarrow> uuid \<Rightarrow> scoring_result \<Rightarrow> string \<Rightarrow> real \<Rightarrow> bool
     \<Rightarrow> 'a decision_db_scheme \<Rightarrow> 'a decision_db_scheme" where
  "record_live_decision J lead_id scoring stop_reason confidence autonomous d =
     (let E = lj_env J; org = li_organization_id (ae_identity E)
      in d\<lparr>scores := scores d @
             [\<lparr>sc_organization_id = org, sc_lead_id = lead_id, sc_total_score = sr_total scoring,
               sc_confidence = confidence, sc_breakdown = components (breakdown scoring),
               sc_model_version = model_version (breakdown scoring)\<rparr>],
           receipts := receipts d @
             [\<lparr>rc_organization_id = org, rc_lead_id = lead_id,
               rc_decision = decision_str (sr_decision scoring), rc_autonomous = autonomous,
               rc_confidence = confidence, rc_tau = tau (ae_model E),
               rc_score_value = bd_current (bounds scoring), rc_score_lower = bd_lower (bounds scoring),
               rc_score_upper = bd_upper (bounds scoring), rc_stop_reason = stop_reason,
               rc_policy_name = live_policy_name J,
               rc_scorer_version = model_version (breakdown scoring),
               rc_icp_profile_id = profile_id (ae_config E),
               rc_icp_profile_version = profile_version (ae_config E)\<rparr>]\<rparr>)"

definition compute_score_live ::
  "(live_db \<Rightarrow> 'a decision_db_scheme \<Rightarrow> live_db \<times> (error + 'a decision_db_scheme \<times> lead_status))
     \<Rightarrow> live_job \<Rightarrow> uuid \<Rightarrow> uuid option \<Rightarrow> lead_status option \<Rightarrow> int option
     \<Rightarrow> live_db \<Rightarrow> 'a decision_db_scheme \<Rightarrow> live_db \<times> (error + 'a decision_db_scheme \<times> lead_status)" where
  "compute_score_live simulated J fresh lead_id st v ld d =
     (case (lead_id, st, v) of
        (Some i, Some NEW, Some ver) \<Rightarrow>
          if lj_injected J = None \<and> lj_execution_mode J = SIMULATED_MODE then simulated ld d
          else
            (case walk_to_decision (\<lambda>_. []) i NEW ver d of
               Inl e \<Rightarrow> (ld, Inl e)
             | Inr (d1, v1) \<Rightarrow>
                 (case active_providers J of
                    Inl e \<Rightarrow> (ld, Inl e)
                  | Inr (ps, E, shadow) \<Rightarrow>
                      (case run_acquisition J ps E ld of
                         (ld', Inl e) \<Rightarrow> (ld', Inl e)
                       | (ld', Inr (scoring, reason)) \<Rightarrow>
                           (let confidence = predict (ae_model E) (ae_config E) scoring;
                                model_autonomous = (confidence \<ge> tau (ae_model E));
                                allowed = autonomy_allowed_for ''live'';
                                d2 = record_live_decision J i scoring reason confidence
                                       (model_autonomous \<and> allowed) d1
                            in (ld',
                                sum_bind (finalize_decision fresh i (li_organization_id (ae_identity E)) v1
                                            (sr_decision scoring) model_autonomous shadow allowed d2)
                                  (\<lambda>(d3, final).
                                    sum_bind (verify_live_status final) (\<lambda>s. Inr (d3, s))))))))
      | _ \<Rightarrow> (ld, Inl ValueError))"

subsection \<open>A live lead ends with a human\<close>

lemma record_live_decision_frame:
  "leads (record_live_decision J i scoring reason c au d) = leads d"
  "length (scores (record_live_decision J i scoring reason c au d)) = Suc (length (scores d))"
  "\<exists>row. receipts (record_live_decision J i scoring reason c au d) = receipts d @ [row]
     \<and> rc_lead_id row = i \<and> rc_autonomous row = au \<and> rc_decision row = decision_str (sr_decision scoring)
     \<and> rc_stop_reason row = reason"
  by (simp_all add: record_live_decision_def Let_def)

lemma live_autonomy_off [simp]: "autonomy_allowed_for ''live'' = False"
  by (simp add: autonomy_allowed_for_def LIVE_AUTONOMY_ENABLED_def)

lemma live_final_status:
  "final_status dec au shadow False = (if shadow then SHADOW_EVALUATED else AWAITING_HUMAN)"
  by (simp add: final_status_def)


definition injected_job :: live_job where
  "injected_job =
     \<lparr>lj_env = frugal_env, lj_strategy = OPTIMIZED, lj_injected = Some [industry_provider],
      lj_execution_mode = LIVE_HUMAN_ONLY,
      lj_source = \<lparr>ps_configured = \<lambda>_. False, ps_enabled = \<lambda>_. False, ps_credential = \<lambda>_. None,
                   ps_builder = \<lambda>_. None\<rparr>,
      lj_order = [], lj_orgs = demo_orgs, lj_tick = \<lambda>_. frugal_tick\<rparr>"


subsection \<open>Calls are paced\<close>

lemma later_of_le: "t \<le> later_of t d" "d = Some x \<Longrightarrow> x \<le> later_of t d"
  by (simp_all add: later_of_def split: option.split)

text \<open>The instants at which consecutive waits let their calls go.\<close>

fun released :: "pacer \<Rightarrow> real list \<Rightarrow> real list" where
  "released p [] = []"
| "released p (now # nows) =
     (case pacer_wait now p of (delay, p') \<Rightarrow> (now + delay) # released p' nows)"

lemma pacer_wait_release:
  assumes "pacer_wait now p = (delay, p')"
  shows "0 \<le> delay \<and> (\<forall>x. pa_next_call p = Some x \<longrightarrow> x \<le> now + delay)
    \<and> (\<forall>x. pa_retry_until p = Some x \<longrightarrow> x \<le> now + delay)
    \<and> pa_next_call p' = Some (now + delay + pa_min_interval p)
    \<and> pa_min_interval p' = pa_min_interval p \<and> pa_retry_until p' = pa_retry_until p"
  using assms by (auto simp: pacer_wait_def later_of_def Let_def split: option.splits)

lemma released_after:
  "x \<in> set (released p nows) \<Longrightarrow> pa_next_call p = Some y \<Longrightarrow> 0 \<le> pa_min_interval p \<Longrightarrow> y \<le> x"
proof (induction p nows arbitrary: y rule: released.induct)
  case (2 p now nows)
  obtain delay p' where w: "pacer_wait now p = (delay, p')" by fastforce
  note r = pacer_wait_release [OF w]
  from 2(2) w consider "x = now + delay" | "x \<in> set (released p' nows)" by auto
  then show ?case
  proof cases
    case 1
    with r 2(3) show ?thesis by simp
  next
    case 2
    from 2(1) "2.IH" [OF w [symmetric]] r \<open>0 \<le> pa_min_interval p\<close>
    have "now + delay + pa_min_interval p \<le> x" by simp
    moreover have "y \<le> now + delay" using r \<open>pa_next_call p = Some y\<close> by simp
    ultimately show ?thesis using \<open>0 \<le> pa_min_interval p\<close> by simp
  qed
qed simp

lemma calls_are_paced:
  assumes "0 \<le> pa_min_interval p"
  shows "sorted_wrt (\<lambda>x y. x + pa_min_interval p \<le> y) (released p nows)"
  using assms
proof (induction p nows rule: released.induct)
  case (2 p now nows)
  obtain delay p' where w: "pacer_wait now p = (delay, p')" by fastforce
  note r = pacer_wait_release [OF w]
  have "now + delay + pa_min_interval p \<le> y" if "y \<in> set (released p' nows)" for y
    using released_after [OF that, of "now + delay + pa_min_interval p"] r 2(2) by simp
  with "2.IH" [OF w [symmetric]] r 2(2) w show ?case by simp
qed simp

end
