(* ===== verification/Live_Adapters.thy ===== *)
theory Live_Adapters
  imports Provider_Contract Live_Handler
begin

text \<open>
  The three real enrichment adapters: Abstract (\<open>providers/live_abstract.py\<close>), Hunter
  (\<open>hunter_contract.py\<close>, \<open>live_hunter.py\<close>) and Apollo (\<open>apollo_contract.py\<close>,
  \<open>live_apollo.py\<close>). The HTTP client is a parameter, a function from the request to what
  \<open>httpx\<close> gives back: a timeout, a transport error by its type name, or a response with its
  status, its decoded body and its \<open>Retry-After\<close> header. \<open>rep\<close> is \<open>str()\<close> of the floats and
  containers of a body, and the measured latency is an argument.
\<close>

subsection \<open>Requests and answers\<close>

record http_request =
  hq_method :: string
  hq_url :: string
  hq_headers :: "(string \<times> string) list"
  hq_params :: "(string \<times> string) list"

record http_response =
  hs_status :: int
  hs_json :: "json option"
  hs_retry_after :: "string option"

datatype http_answer = Timed_Out | Transport_Failed string | Answered http_response

text \<open>The result of an adapter, with the entries of \<open>raw\<close> that are only shown.\<close>

record adapter_identity = matched_identity +
  mi_title :: "string option"
  mi_linkedin_url :: "string option"

record adapter_result = live_result +
  ad_provider :: string
  ad_entity :: string
  ad_normalization :: "normalization_report option"
  ad_company_preview :: "normalization_report option"

subsection \<open>Bodies\<close>

definition as_obj :: "json \<Rightarrow> json_dict" where
  "as_obj j = (case j of JObj d \<Rightarrow> d | _ \<Rightarrow> [])"

definition has_key :: "json_dict \<Rightarrow> string \<Rightarrow> bool" where
  "has_key d k \<longleftrightarrow> map_of d k \<noteq> None"

definition clean_text :: "json \<Rightarrow> string option" where
  "clean_text j =
     (case j of JStr s \<Rightarrow> (let t = py_strip s in if t = [] then None else Some t) | _ \<Rightarrow> None)"

definition json_py :: "(json \<Rightarrow> string) \<Rightarrow> json \<Rightarrow> pyval" where
  "json_py rep j = raw_py (raw_of_json rep j)"

text \<open>The value, or the parts joined by a blank, or nothing.\<close>

definition full_name_of :: "string option \<Rightarrow> string option list \<Rightarrow> string option" where
  "full_name_of name parts =
     (case name of
        Some n \<Rightarrow> Some n
      | None \<Rightarrow> (let joined = join_words (List.map_filter id parts)
                 in if joined = [] then None else Some joined))"

subsection \<open>Hunter's contract\<close>

definition HUNTER_PROVIDER_NAME :: string where
  "HUNTER_PROVIDER_NAME = ''hunter_combined_enrichment''"

definition HUNTER_PROVIDES_FIELDS :: "string list" where
  "HUNTER_PROVIDES_FIELDS = [''title_seniority'', ''title_function'']"

definition person_payload :: "json_dict \<Rightarrow> json_dict" where
  "person_payload body =
     (case json_get body ''data'' of
        JObj d \<Rightarrow> if has_key d ''person'' \<or> has_key d ''company'' then as_obj (json_get d ''person'') else d
      | _ \<Rightarrow> [])"

definition company_payload :: "json_dict \<Rightarrow> json_dict" where
  "company_payload body =
     (case json_get body ''data'' of JObj d \<Rightarrow> as_obj (json_get d ''company'') | _ \<Rightarrow> [])"

definition employment_of :: "json_dict \<Rightarrow> json_dict" where
  "employment_of person = as_obj (json_get person ''employment'')"

definition hunter_role :: "json_dict \<Rightarrow> json" where
  "hunter_role job =
     (if json_truthy (json_get job ''role'') then json_get job ''role'' else json_get job ''subRole'')"

definition extract_hunter_person :: "(json \<Rightarrow> string) \<Rightarrow> json_dict \<Rightarrow> (string \<times> raw_value) list" where
  "extract_hunter_person rep body =
     (let job = employment_of (person_payload body);
          title = json_get job ''title'';
          seniority_enum = json_get job ''seniority'';
          parsed_seniority = seniority_from_title (json_py rep title);
          role = hunter_role job;
          parsed_function = function_from_title (json_py rep title)
      in (if parsed_seniority \<noteq> UNKNOWN then [(''title_seniority'', Raw (VStr parsed_seniority))]
          else if normalize_seniority (json_py rep seniority_enum) \<noteq> UNKNOWN
          then [(''title_seniority'', raw_of_json rep seniority_enum)]
          else if seniority_enum \<noteq> JNull \<or> title \<noteq> JNull
          then [(''title_seniority'', raw_of_json rep (if seniority_enum \<noteq> JNull then seniority_enum else title))]
          else [])
       @ (if normalize_function (json_py rep role) \<noteq> UNKNOWN
          then [(''title_function'', raw_of_json rep role)]
          else if parsed_function \<noteq> UNKNOWN then [(''title_function'', Raw (VStr parsed_function))]
          else if role \<noteq> JNull \<or> title \<noteq> JNull
          then [(''title_function'', raw_of_json rep (if role \<noteq> JNull then role else title))]
          else []))"

definition extract_hunter_company :: "(json \<Rightarrow> string) \<Rightarrow> json_dict \<Rightarrow> (string \<times> raw_value) list" where
  "extract_hunter_company rep body =
     (let company = company_payload body;
          employees = json_get (as_obj (json_get company ''metrics'')) ''employees'';
          industry = json_get (as_obj (json_get company ''category'')) ''industry''
      in (if employees \<noteq> JNull then [(''employee_count'', raw_of_json rep employees)] else [])
       @ (if industry \<noteq> JNull then [(''industry'', raw_of_json rep industry)] else []))"

definition normalize_hunter_person :: "(json \<Rightarrow> string) \<Rightarrow> json_dict \<Rightarrow> normalization_report" where
  "normalize_hunter_person rep body =
     normalize_provider_fields HUNTER_PROVIDER_NAME Person (extract_hunter_person rep body)"

definition normalize_hunter_company :: "(json \<Rightarrow> string) \<Rightarrow> json_dict \<Rightarrow> normalization_report" where
  "normalize_hunter_company rep body =
     normalize_provider_fields HUNTER_PROVIDER_NAME Company (extract_hunter_company rep body)"

definition hunter_identity :: "json_dict \<Rightarrow> adapter_identity" where
  "hunter_identity body =
     (let person = person_payload body;
          name_map = as_obj (json_get person ''name'');
          job = employment_of person
      in \<lparr>mi_full_name = full_name_of (clean_text (json_get name_map ''fullName''))
            [clean_text (json_get name_map ''givenName''), clean_text (json_get name_map ''familyName'')],
          mi_email = clean_text (json_get person ''email''),
          mi_employer_domain = clean_text (json_get job ''domain''), mi_organization_domain = None,
          mi_employer_name = clean_text (json_get job ''name''), mi_organization_name = None,
          mi_title = clean_text (json_get job ''title''), mi_linkedin_url = None\<rparr>)"

subsection \<open>Apollo's contract\<close>

definition APOLLO_PROVIDER_NAME :: string where
  "APOLLO_PROVIDER_NAME = ''apollo_person_enrichment''"

definition APOLLO_PROVIDES_FIELDS :: "string list" where
  "APOLLO_PROVIDES_FIELDS = [''title_seniority'', ''title_function'']"

definition first_string :: "json \<Rightarrow> string option" where
  "first_string values =
     (case values of
        JStr s \<Rightarrow> clean_text (JStr s)
      | JList xs \<Rightarrow> (case List.map_filter clean_text xs of [] \<Rightarrow> None | t # _ \<Rightarrow> Some t)
      | _ \<Rightarrow> None)"

definition apollo_person_payload :: "json_dict \<Rightarrow> json_dict" where
  "apollo_person_payload body =
     (case json_get body ''person'' of
        JObj p \<Rightarrow> p
      | _ \<Rightarrow> if has_key body ''title'' \<or> has_key body ''seniority'' then body else [])"

definition json_of_text :: "string option \<Rightarrow> json" where
  "json_of_text t = (case t of None \<Rightarrow> JNull | Some s \<Rightarrow> JStr s)"

definition prefer_enum_then_title ::
  "(json \<Rightarrow> string) \<Rightarrow> json \<Rightarrow> json \<Rightarrow> (pyval \<Rightarrow> string) \<Rightarrow> (pyval \<Rightarrow> string) \<Rightarrow> json" where
  "prefer_enum_then_title rep enum_value title normalize_enum parse_title =
     (let parsed = parse_title (json_py rep title)
      in if normalize_enum (json_py rep enum_value) \<noteq> UNKNOWN then enum_value
         else if parsed \<noteq> UNKNOWN then JStr parsed
         else if enum_value \<noteq> JNull then enum_value else title)"

definition apollo_departments :: "json_dict \<Rightarrow> json" where
  "apollo_departments person =
     json_of_text (case first_string (json_get person ''departments'') of
                     Some s \<Rightarrow> Some s
                   | None \<Rightarrow> first_string (json_get person ''subdepartments''))"

definition extract_apollo_person :: "(json \<Rightarrow> string) \<Rightarrow> json_dict \<Rightarrow> (string \<times> raw_value) list" where
  "extract_apollo_person rep body =
     (let person = apollo_person_payload body;
          title = json_get person ''title'';
          seniority = prefer_enum_then_title rep (json_get person ''seniority'') title
            normalize_seniority seniority_from_title;
          func = prefer_enum_then_title rep (apollo_departments person) title
            normalize_function function_from_title
      in (if seniority \<noteq> JNull then [(''title_seniority'', raw_of_json rep seniority)] else [])
       @ (if func \<noteq> JNull then [(''title_function'', raw_of_json rep func)] else []))"

definition normalize_apollo_person :: "(json \<Rightarrow> string) \<Rightarrow> json_dict \<Rightarrow> normalization_report" where
  "normalize_apollo_person rep body =
     normalize_provider_fields APOLLO_PROVIDER_NAME Person (extract_apollo_person rep body)"

definition apollo_identity :: "json_dict \<Rightarrow> adapter_identity" where
  "apollo_identity body =
     (let person = apollo_person_payload body;
          org = as_obj (json_get person ''organization'')
      in \<lparr>mi_full_name = full_name_of (clean_text (json_get person ''name''))
            [clean_text (json_get person ''first_name''), clean_text (json_get person ''last_name'')],
          mi_email = clean_text (json_get person ''email''),
          mi_employer_domain = None,
          mi_organization_domain = (case clean_text (json_get org ''primary_domain'') of
                                      Some d \<Rightarrow> Some d
                                    | None \<Rightarrow> clean_text (json_get org ''website_url'')),
          mi_employer_name = None, mi_organization_name = clean_text (json_get org ''name''),
          mi_title = clean_text (json_get person ''title''),
          mi_linkedin_url = clean_text (json_get person ''linkedin_url'')\<rparr>)"


subsection \<open>Results\<close>

definition missing_key :: "string \<Rightarrow> bool \<Rightarrow> bool" where
  "missing_key api_key client_given \<longleftrightarrow> \<not> client_given \<and> api_key = []"

text \<open>The six failures every adapter reports without a field and without a cost.\<close>

definition failed_result ::
  "string \<Rightarrow> live_ref \<Rightarrow> real \<Rightarrow> provider_status \<Rightarrow> string option \<Rightarrow> adapter_result" where
  "failed_result name ref latency st kind =
     \<lparr>pr_fields = [], pr_confidence = 0, pr_cost = 0, pr_latency = latency, pr_status = st,
      pr_matched = None, pr_error_kind = kind, lv_credits = None, lv_cost_basis = None,
      lv_vendor_billed = None, ad_provider = name, ad_entity = lr_key ref, ad_normalization = None,
      ad_company_preview = None\<rparr>"

definition transport_error :: "string \<Rightarrow> string" where
  "transport_error type_name = ''transport_error:'' @ type_name"

definition unexpected_status :: "int \<Rightarrow> string" where
  "unexpected_status sc = ''unexpected_status:'' @ py_str_int sc"

text \<open>The body of a 200 as a dictionary; \<open>None\<close> is the malformed response.\<close>

definition body_of :: "http_response \<Rightarrow> json_dict option" where
  "body_of resp = (case hs_json resp of Some (JObj d) \<Rightarrow> Some d | _ \<Rightarrow> None)"

subsection \<open>Abstract\<close>

definition ABSTRACT_PROVIDER_NAME :: string where
  "ABSTRACT_PROVIDER_NAME = ''abstract_company_enrichment''"

definition ABSTRACT_PROVIDES_FIELDS :: "string list" where
  "ABSTRACT_PROVIDES_FIELDS = [''employee_count'', ''industry'']"

definition ABSTRACT_DECLARED_CONFIDENCE :: real where "ABSTRACT_DECLARED_CONFIDENCE = 0.80"

record abstract_config =
  ac_api_key :: string
  ac_base_url :: string
  ac_cost_per_call :: real
  ac_min_interval :: real

datatype build_error = Configuration_Error string

definition build_abstract :: "abstract_config \<Rightarrow> bool \<Rightarrow> build_error + abstract_config \<times> pacer" where
  "build_abstract cfg client_given =
     (if missing_key (ac_api_key cfg) client_given
      then Inl (Configuration_Error ''ABSTRACT_COMPANY_API_KEY'')
      else Inr (cfg, \<lparr>pa_min_interval = ac_min_interval cfg, pa_next_call = None, pa_retry_until = None\<rparr>))"

definition abstract_request :: "abstract_config \<Rightarrow> live_ref \<Rightarrow> http_request" where
  "abstract_request cfg ref =
     \<lparr>hq_method = ''GET'', hq_url = ac_base_url cfg, hq_headers = [],
      hq_params = [(''api_key'', ac_api_key cfg), (''domain'', lr_key ref)]\<rparr>"

text \<open>\<open>_parse_retry_after_seconds\<close>: only the form in seconds; a NaN is refused by the comparison.\<close>

definition parse_retry_after_seconds :: "string option \<Rightarrow> pyfloat option" where
  "parse_retry_after_seconds header =
     (case header of
        None \<Rightarrow> None
      | Some h \<Rightarrow>
          (case float_of_string (py_strip h) of
             None \<Rightarrow> None
           | Some x \<Rightarrow> (case x of
                          Fin s \<Rightarrow> if 0 \<le> s then Some x else None
                        | PInf \<Rightarrow> Some x
                        | _ \<Rightarrow> None)))"

definition abstract_report :: "(json \<Rightarrow> string) \<Rightarrow> json_dict \<Rightarrow> normalization_report" where
  "abstract_report rep body =
     normalize_provider_fields ABSTRACT_PROVIDER_NAME Company
       (map (\<lambda>key. (key, raw_of_json rep (json_get body key))) ABSTRACT_PROVIDES_FIELDS)"

definition abstract_delivered ::
  "abstract_config \<Rightarrow> live_ref \<Rightarrow> real \<Rightarrow> normalization_report \<Rightarrow> adapter_result" where
  "abstract_delivered cfg ref latency report =
     (failed_result ABSTRACT_PROVIDER_NAME ref latency
        (if has_usable_fields report then SUCCESS else MISS) None)
       \<lparr>pr_fields := (if has_usable_fields report then nr_fields report else []),
        pr_confidence := (if has_usable_fields report then ABSTRACT_DECLARED_CONFIDENCE else 0),
        pr_cost := ac_cost_per_call cfg,
        lv_cost_basis := (if 0 < ac_cost_per_call cfg then Some (VStr (cost_basis_str Modelled_List_Price)) else None),
        ad_normalization := Some report\<rparr>"

definition abstract_error_kind :: "int \<Rightarrow> string option" where
  "abstract_error_kind sc =
     (if sc = 401 \<or> sc = 403 then Some ''authentication_failed''
      else if sc = 429 then Some ''rate_limited''
      else if sc = 422 then Some ''insufficient_credits''
      else if 500 \<le> sc then Some ''server_error''
      else if sc \<noteq> 200 then Some (unexpected_status sc)
      else None)"

text \<open>The result, and what \<open>note_retry_after\<close> is told.\<close>

definition abstract_answer ::
  "abstract_config \<Rightarrow> (json \<Rightarrow> string) \<Rightarrow> real \<Rightarrow> live_ref \<Rightarrow> http_answer \<Rightarrow> adapter_result \<times> pyfloat option" where
  "abstract_answer cfg rep latency ref answer =
     (let failed = failed_result ABSTRACT_PROVIDER_NAME ref latency
      in case answer of
           Timed_Out \<Rightarrow> (failed TIMEOUT (Some ''timeout''), None)
         | Transport_Failed type_name \<Rightarrow> (failed ERROR (Some (transport_error type_name)), None)
         | Answered resp \<Rightarrow>
             (case abstract_error_kind (hs_status resp) of
                Some kind \<Rightarrow>
                  (failed ERROR (Some kind),
                   if hs_status resp = 429 then parse_retry_after_seconds (hs_retry_after resp) else None)
              | None \<Rightarrow>
                  (case body_of resp of
                     None \<Rightarrow> (failed ERROR (Some ''malformed_response''), None)
                   | Some body \<Rightarrow> (abstract_delivered cfg ref latency (abstract_report rep body), None))))"

definition abstract_fetch ::
  "abstract_config \<Rightarrow> (json \<Rightarrow> string) \<Rightarrow> (http_request \<Rightarrow> http_answer) \<Rightarrow> real \<Rightarrow> live_ref
     \<Rightarrow> error + adapter_result \<times> pyfloat option" where
  "abstract_fetch cfg rep http latency ref =
     (if lr_type ref \<noteq> Company then Inl ValueError
      else Inr (abstract_answer cfg rep latency ref (http (abstract_request cfg ref))))"

text \<open>
  The same with the pacer: the delay slept before the request, the result, and the pacer after
  it. The clock is a real number, so an infinite \<open>Retry-After\<close>, which makes the next \<open>sleep\<close>
  raise, is left out.
\<close>

definition abstract_paced_fetch ::
  "abstract_config \<Rightarrow> (json \<Rightarrow> string) \<Rightarrow> (http_request \<Rightarrow> http_answer) \<Rightarrow> real \<Rightarrow> real \<Rightarrow> real \<Rightarrow> pacer
     \<Rightarrow> live_ref \<Rightarrow> error + real \<times> adapter_result \<times> pacer" where
  "abstract_paced_fetch cfg rep http latency now after p ref =
     (if lr_type ref \<noteq> Company then Inl ValueError
      else case pacer_wait now p of
        (delay, p1) \<Rightarrow>
          (case abstract_answer cfg rep latency ref (http (abstract_request cfg ref)) of
             (r, note) \<Rightarrow>
               Inr (delay, r, case note of Some (Fin s) \<Rightarrow> note_retry_after after s p1 | _ \<Rightarrow> p1)))"

definition abstract_provider ::
  "abstract_config \<Rightarrow> (json \<Rightarrow> string) \<Rightarrow> (http_request \<Rightarrow> http_answer) \<Rightarrow> real \<Rightarrow> live_provider" where
  "abstract_provider cfg rep http latency =
     \<lparr>vp_name = ABSTRACT_PROVIDER_NAME, vp_entity_type = Company, vp_provides = ABSTRACT_PROVIDES_FIELDS,
      vp_base_cost = ac_cost_per_call cfg,
      vp_fetch = (\<lambda>ref. sum_bind (abstract_fetch cfg rep http latency ref)
                          (\<lambda>(r, _). Inr (live_result.truncate r)))\<rparr>"

subsection \<open>The two person adapters\<close>

record person_config =
  pn_api_key :: string
  pn_base_url :: string
  pn_cost_per_success :: real
  pn_credits :: pyval

definition PERSON_DECLARED_CONFIDENCE :: real where "PERSON_DECLARED_CONFIDENCE = 0.75"

text \<open>A delivered record: paid for, with the fields that map, if any.\<close>

definition person_delivered ::
  "string \<Rightarrow> person_config \<Rightarrow> live_ref \<Rightarrow> real \<Rightarrow> normalization_report \<Rightarrow> adapter_identity
     \<Rightarrow> normalization_report option \<Rightarrow> adapter_result" where
  "person_delivered name cfg ref latency report idn company =
     (failed_result name ref latency (if has_usable_fields report then SUCCESS else MISS) None)
       \<lparr>pr_fields := (if has_usable_fields report then nr_fields report else []),
        pr_confidence := (if has_usable_fields report then PERSON_DECLARED_CONFIDENCE else 0),
        pr_cost := pn_cost_per_success cfg,
        pr_matched := Some (matched_identity.truncate idn),
        lv_credits := (if 0 < pn_cost_per_success cfg then Some (pn_credits cfg) else None),
        lv_cost_basis := (if 0 < pn_cost_per_success cfg
                          then Some (VStr (cost_basis_str Modelled_Credit_Equivalent)) else None),
        ad_normalization := Some report, ad_company_preview := company\<rparr>"

definition hunter_request :: "person_config \<Rightarrow> live_ref \<Rightarrow> http_request" where
  "hunter_request cfg ref =
     \<lparr>hq_method = ''GET'', hq_url = pn_base_url cfg,
      hq_headers = [(''X-API-KEY'', pn_api_key cfg), (''Accept'', ''application/json'')],
      hq_params = [(''email'', lr_key ref)]\<rparr>"

definition hunter_error_kind :: "int \<Rightarrow> string option" where
  "hunter_error_kind sc =
     (if sc = 200 then None
      else if sc = 401 then Some ''authentication_failed''
      else if sc = 403 then Some ''rate_limited''
      else if sc = 429 then Some ''quota_exhausted''
      else if sc = 400 \<or> sc = 422 then Some ''unprocessable_request''
      else if 500 \<le> sc then Some ''server_error''
      else Some (unexpected_status sc))"

definition build_hunter :: "person_config \<Rightarrow> bool \<Rightarrow> build_error + person_config" where
  "build_hunter cfg client_given =
     (if missing_key (pn_api_key cfg) client_given then Inl (Configuration_Error ''HUNTER_API_KEY'') else Inr cfg)"

text \<open>The audit of the company half, when it says anything.\<close>

definition company_preview :: "normalization_report \<Rightarrow> normalization_report option" where
  "company_preview r = (if nr_mapped r \<noteq> [] \<or> nr_unmapped r \<noteq> [] then Some r else None)"

definition hunter_answer ::
  "person_config \<Rightarrow> (json \<Rightarrow> string) \<Rightarrow> real \<Rightarrow> live_ref \<Rightarrow> http_answer \<Rightarrow> adapter_result" where
  "hunter_answer cfg rep latency ref answer =
     (let failed = failed_result HUNTER_PROVIDER_NAME ref latency
      in case answer of
           Timed_Out \<Rightarrow> failed TIMEOUT (Some ''timeout'')
         | Transport_Failed type_name \<Rightarrow> failed ERROR (Some (transport_error type_name))
         | Answered resp \<Rightarrow>
             if hs_status resp = 404 then failed MISS None
             else (case hunter_error_kind (hs_status resp) of
                Some kind \<Rightarrow> failed ERROR (Some kind)
              | None \<Rightarrow>
                  (case body_of resp of
                     None \<Rightarrow> failed ERROR (Some ''malformed_response'')
                   | Some body \<Rightarrow>
                       if person_payload body = [] \<and> company_payload body = [] then failed MISS None
                       else person_delivered HUNTER_PROVIDER_NAME cfg ref latency
                              (normalize_hunter_person rep body) (hunter_identity body)
                              (company_preview (normalize_hunter_company rep body)))))"

definition hunter_fetch ::
  "person_config \<Rightarrow> (json \<Rightarrow> string) \<Rightarrow> (http_request \<Rightarrow> http_answer) \<Rightarrow> real \<Rightarrow> live_ref \<Rightarrow> error + adapter_result" where
  "hunter_fetch cfg rep http latency ref =
     (if lr_type ref \<noteq> Person then Inl ValueError
      else Inr (hunter_answer cfg rep latency ref (http (hunter_request cfg ref))))"

definition hunter_provider ::
  "person_config \<Rightarrow> (json \<Rightarrow> string) \<Rightarrow> (http_request \<Rightarrow> http_answer) \<Rightarrow> real \<Rightarrow> live_provider" where
  "hunter_provider cfg rep http latency =
     \<lparr>vp_name = HUNTER_PROVIDER_NAME, vp_entity_type = Person, vp_provides = HUNTER_PROVIDES_FIELDS,
      vp_base_cost = pn_cost_per_success cfg,
      vp_fetch = (\<lambda>ref. sum_bind (hunter_fetch cfg rep http latency ref) (\<lambda>r. Inr (live_result.truncate r)))\<rparr>"

definition match_params :: "string \<Rightarrow> (string \<times> string) list" where
  "match_params email =
     [(''email'', email), (''reveal_personal_emails'', ''false''), (''reveal_phone_number'', ''false'')]"

definition apollo_request :: "person_config \<Rightarrow> live_ref \<Rightarrow> http_request" where
  "apollo_request cfg ref =
     \<lparr>hq_method = ''POST'', hq_url = pn_base_url cfg,
      hq_headers = [(''x-api-key'', pn_api_key cfg), (''accept'', ''application/json'')],
      hq_params = match_params (lr_key ref)\<rparr>"

definition apollo_error_kind :: "int \<Rightarrow> string option" where
  "apollo_error_kind sc =
     (if sc = 200 then None
      else if sc = 401 \<or> sc = 403 then Some ''authentication_failed''
      else if sc = 402 then Some ''quota_exhausted''
      else if sc = 429 then Some ''rate_limited''
      else if sc = 422 then Some ''unprocessable_request''
      else if 500 \<le> sc then Some ''server_error''
      else Some (unexpected_status sc))"

definition build_apollo :: "person_config \<Rightarrow> bool \<Rightarrow> build_error + person_config" where
  "build_apollo cfg client_given =
     (if missing_key (pn_api_key cfg) client_given then Inl (Configuration_Error ''APOLLO_API_KEY'') else Inr cfg)"

definition apollo_person_matched :: "json_dict \<Rightarrow> bool" where
  "apollo_person_matched body =
     (if has_key body ''person'' then as_obj (json_get body ''person'') \<noteq> []
      else json_truthy (json_get body ''title'') \<or> json_truthy (json_get body ''seniority'')
           \<or> json_truthy (json_get body ''departments''))"

text \<open>A miss carries the empty identity audit.\<close>

definition no_identity :: matched_identity where
  "no_identity = \<lparr>mi_full_name = None, mi_email = None, mi_employer_domain = None,
     mi_organization_domain = None, mi_employer_name = None, mi_organization_name = None\<rparr>"

definition apollo_answer ::
  "person_config \<Rightarrow> (json \<Rightarrow> string) \<Rightarrow> real \<Rightarrow> live_ref \<Rightarrow> http_answer \<Rightarrow> adapter_result" where
  "apollo_answer cfg rep latency ref answer =
     (let failed = failed_result APOLLO_PROVIDER_NAME ref latency
      in case answer of
           Timed_Out \<Rightarrow> failed TIMEOUT (Some ''timeout'')
         | Transport_Failed type_name \<Rightarrow> failed ERROR (Some (transport_error type_name))
         | Answered resp \<Rightarrow>
             (case apollo_error_kind (hs_status resp) of
                Some kind \<Rightarrow> failed ERROR (Some kind)
              | None \<Rightarrow>
                  (case body_of resp of
                     None \<Rightarrow> failed ERROR (Some ''malformed_response'')
                   | Some body \<Rightarrow>
                       if \<not> apollo_person_matched body then (failed MISS None)\<lparr>pr_matched := Some no_identity\<rparr>
                       else person_delivered APOLLO_PROVIDER_NAME cfg ref latency
                              (normalize_apollo_person rep body) (apollo_identity body) None)))"

definition apollo_fetch ::
  "person_config \<Rightarrow> (json \<Rightarrow> string) \<Rightarrow> (http_request \<Rightarrow> http_answer) \<Rightarrow> real \<Rightarrow> live_ref \<Rightarrow> error + adapter_result" where
  "apollo_fetch cfg rep http latency ref =
     (if lr_type ref \<noteq> Person then Inl ValueError
      else Inr (apollo_answer cfg rep latency ref (http (apollo_request cfg ref))))"

definition apollo_provider ::
  "person_config \<Rightarrow> (json \<Rightarrow> string) \<Rightarrow> (http_request \<Rightarrow> http_answer) \<Rightarrow> real \<Rightarrow> live_provider" where
  "apollo_provider cfg rep http latency =
     \<lparr>vp_name = APOLLO_PROVIDER_NAME, vp_entity_type = Person, vp_provides = APOLLO_PROVIDES_FIELDS,
      vp_base_cost = pn_cost_per_success cfg,
      vp_fetch = (\<lambda>ref. sum_bind (apollo_fetch cfg rep http latency ref) (\<lambda>r. Inr (live_result.truncate r)))\<rparr>"


subsection \<open>What every adapter promises\<close>

text \<open>A result is honest when its fields, status, confidence and cost fit together: fields exactly
  with a success and all of them canonical, an error kind exactly with a failure, and a cost, the
  declared price, never with a failure.\<close>

definition honest_result :: "entity_type \<Rightarrow> real \<Rightarrow> 'a provider_result_scheme \<Rightarrow> bool" where
  "honest_result t price r \<longleftrightarrow>
     (pr_status r = SUCCESS \<longleftrightarrow> pr_fields r \<noteq> [])
     \<and> list_all (canonical_field t) (pr_fields r)
     \<and> (pr_error_kind r \<noteq> None \<longleftrightarrow> pr_status r = ERROR \<or> pr_status r = TIMEOUT)
     \<and> (pr_cost r = 0 \<or> pr_cost r = price \<and> pr_error_kind r = None)
     \<and> (pr_status r \<noteq> SUCCESS \<longrightarrow> pr_confidence r = 0)"

lemma report_fields_canonical: "list_all (canonical_field t) (nr_fields (normalize_provider_fields p t raw))"
  using normalize_provider_fields_ok [of t raw p] by (simp add: report_ok_def)

lemma truncated_result:
  "pr_fields (live_result.truncate r) = pr_fields r" "pr_status (live_result.truncate r) = pr_status r"
  "pr_cost (live_result.truncate r) = pr_cost r" "pr_confidence (live_result.truncate r) = pr_confidence r"
  "pr_error_kind (live_result.truncate r) = pr_error_kind r" "pr_matched (live_result.truncate r) = pr_matched r"
  by (simp_all add: live_result.truncate_def)

lemma failed_honest: "st = MISS \<and> kind = None \<or> st \<in> {ERROR, TIMEOUT} \<and> kind \<noteq> None \<Longrightarrow>
    honest_result t price (failed_result name ref latency st kind)"
  by (auto simp: honest_result_def failed_result_def)

lemma abstract_answer_honest: "honest_result Company (ac_cost_per_call cfg) (fst (abstract_answer cfg rep latency ref a))"
proof -
  have delivered: "honest_result Company (ac_cost_per_call cfg) (abstract_delivered cfg ref latency (abstract_report rep body))" for body
    using report_fields_canonical
    by (auto simp: honest_result_def abstract_delivered_def failed_result_def has_usable_fields_def abstract_report_def)
  show ?thesis
    using delivered failed_honest
    by (simp add: abstract_answer_def Let_def split: http_answer.split option.split)
qed

lemma person_delivered_honest:
  "list_all (canonical_field Person) (nr_fields report) \<Longrightarrow>
     honest_result Person (pn_cost_per_success cfg) (person_delivered name cfg ref latency report idn company)"
  by (auto simp: honest_result_def person_delivered_def failed_result_def has_usable_fields_def)

lemma hunter_answer_honest: "honest_result Person (pn_cost_per_success cfg) (hunter_answer cfg rep latency ref a)"
  using person_delivered_honest [OF report_fields_canonical] failed_honest
  by (simp add: hunter_answer_def Let_def normalize_hunter_person_def split: http_answer.split option.split)

lemma apollo_answer_honest: "honest_result Person (pn_cost_per_success cfg) (apollo_answer cfg rep latency ref a)"
proof -
  have miss: "honest_result Person price ((failed_result name ref latency MISS None)\<lparr>pr_matched := m\<rparr>)" for price name m
    by (simp add: honest_result_def failed_result_def)
  show ?thesis
    using person_delivered_honest [OF report_fields_canonical] failed_honest miss
    by (simp add: apollo_answer_def Let_def normalize_apollo_person_def split: http_answer.split option.split)
qed

lemma honest_truncate: "honest_result t price r \<Longrightarrow> honest_result t price (live_result.truncate r)"
  by (simp add: honest_result_def truncated_result)

text \<open>The adapters as the worker registers them, in the order of their price.\<close>

record adapters =
  ap_abstract :: abstract_config
  ap_hunter :: person_config
  ap_apollo :: person_config
  ap_rep :: "json \<Rightarrow> string"
  ap_http :: "http_request \<Rightarrow> http_answer"
  ap_latency :: real

definition shipped_providers :: "adapters \<Rightarrow> live_provider list" where
  "shipped_providers A =
     [abstract_provider (ap_abstract A) (ap_rep A) (ap_http A) (ap_latency A),
      hunter_provider (ap_hunter A) (ap_rep A) (ap_http A) (ap_latency A),
      apollo_provider (ap_apollo A) (ap_rep A) (ap_http A) (ap_latency A)]"

lemma shipped_fetch:
  assumes "p \<in> set (shipped_providers A)"
  shows "if lr_type ref = vp_entity_type p
         then (\<exists>r. vp_fetch p ref = Inr r \<and> honest_result (vp_entity_type p) (vp_base_cost p) r)
         else vp_fetch p ref = Inl ValueError"
proof -
  have "p = abstract_provider (ap_abstract A) (ap_rep A) (ap_http A) (ap_latency A)
      \<or> p = hunter_provider (ap_hunter A) (ap_rep A) (ap_http A) (ap_latency A)
      \<or> p = apollo_provider (ap_apollo A) (ap_rep A) (ap_http A) (ap_latency A)"
    using assms by (simp add: shipped_providers_def)
  then show ?thesis
  proof (elim disjE)
    assume p: "p = abstract_provider (ap_abstract A) (ap_rep A) (ap_http A) (ap_latency A)"
    show ?thesis
      using honest_truncate [OF abstract_answer_honest [of "ap_abstract A" "ap_rep A" "ap_latency A" ref
          "ap_http A (abstract_request (ap_abstract A) ref)"]]
      by (simp add: p abstract_provider_def abstract_fetch_def case_prod_beta)
  next
    assume p: "p = hunter_provider (ap_hunter A) (ap_rep A) (ap_http A) (ap_latency A)"
    show ?thesis
      using honest_truncate [OF hunter_answer_honest]
      by (simp add: p hunter_provider_def hunter_fetch_def)
  next
    assume p: "p = apollo_provider (ap_apollo A) (ap_rep A) (ap_http A) (ap_latency A)"
    show ?thesis
      using honest_truncate [OF apollo_answer_honest]
      by (simp add: p apollo_provider_def apollo_fetch_def)
  qed
qed


text \<open>Nothing is paid for but a decoded record of a 200.\<close>

definition delivered_by :: "adapters \<Rightarrow> http_request \<Rightarrow> bool" where
  "delivered_by A q \<longleftrightarrow>
     (case ap_http A q of
        Answered resp \<Rightarrow> hs_status resp = 200 \<and> body_of resp \<noteq> None
      | _ \<Rightarrow> False)"

lemma error_kind_200:
  "abstract_error_kind n = None \<longleftrightarrow> n = 200" "hunter_error_kind n = None \<longleftrightarrow> n = 200"
  "apollo_error_kind n = None \<longleftrightarrow> n = 200"
  by (auto simp: abstract_error_kind_def hunter_error_kind_def apollo_error_kind_def)

lemma failed_free: "pr_cost (failed_result name ref latency st kind) = 0"
  by (simp add: failed_result_def)

lemma paid_is_delivered:
  assumes p: "p \<in> set (shipped_providers A)" and r: "vp_fetch p ref = Inr r" and paid: "pr_cost r \<noteq> 0"
  shows "\<exists>q. delivered_by A q \<and> lr_key ref \<in> snd ` set (hq_params q)"
proof -
  from p consider
      (abstract) "p = abstract_provider (ap_abstract A) (ap_rep A) (ap_http A) (ap_latency A)"
    | (hunter) "p = hunter_provider (ap_hunter A) (ap_rep A) (ap_http A) (ap_latency A)"
    | (apollo) "p = apollo_provider (ap_apollo A) (ap_rep A) (ap_http A) (ap_latency A)"
    by (auto simp: shipped_providers_def)
  then show ?thesis
  proof cases
    case abstract
    let ?q = "abstract_request (ap_abstract A) ref"
    have "delivered_by A ?q"
      using r paid error_kind_200 failed_free
      by (auto simp: abstract abstract_provider_def abstract_fetch_def abstract_answer_def Let_def
          delivered_by_def truncated_result split: if_splits http_answer.splits option.splits)
    then show ?thesis by (intro exI [of _ ?q]) (simp add: abstract_request_def)
  next
    case hunter
    let ?q = "hunter_request (ap_hunter A) ref"
    have "delivered_by A ?q"
      using r paid error_kind_200 failed_free
      by (auto simp: hunter hunter_provider_def hunter_fetch_def hunter_answer_def Let_def
          delivered_by_def truncated_result split: if_splits http_answer.splits option.splits)
    then show ?thesis by (intro exI [of _ ?q]) (simp add: hunter_request_def)
  next
    case apollo
    let ?q = "apollo_request (ap_apollo A) ref"
    have "delivered_by A ?q"
      using r paid error_kind_200 failed_free
      by (auto simp: apollo apollo_provider_def apollo_fetch_def apollo_answer_def Let_def
          delivered_by_def truncated_result failed_result_def split: if_splits http_answer.splits option.splits)
    then show ?thesis by (intro exI [of _ ?q]) (simp add: apollo_request_def match_params_def)
  qed
qed


subsection \<open>Which of two answers counts\<close>

definition first_known :: "string \<Rightarrow> string \<Rightarrow> pyval option" where
  "first_known a b =
     (if a \<noteq> UNKNOWN then Some (VStr a) else if b \<noteq> UNKNOWN then Some (VStr b) else None)"

lemma title_unknown:
  "seniority_from_title v = UNKNOWN \<Longrightarrow> normalize_seniority v = UNKNOWN"
  "function_from_title v = UNKNOWN \<Longrightarrow> normalize_function v = UNKNOWN"
  by (auto simp: seniority_from_title_def normalize_seniority_def function_from_title_def
      normalize_function_def Let_def split: if_splits option.splits)

lemma parsed_fixed:
  "normalize_seniority (VStr (seniority_from_title v)) = seniority_from_title v"
  "normalize_function (VStr (function_from_title v)) = function_from_title v"
  using normalized_canonical canonical_fixed by blast+

lemma json_py_raw [simp]: "raw_py (raw_of_json rep j) = json_py rep j" "raw_py (Raw v) = v"
  by (simp_all add: json_py_def raw_py_def)

lemma json_py_parsed [simp]: "json_py rep (JStr s) = VStr s" "json_py rep JNull = VNone"
  by (simp_all add: json_py_def raw_py_def raw_of_json_def)

lemma nothing_normalized [simp]:
  "normalize_seniority VNone = UNKNOWN" "normalize_function VNone = UNKNOWN"
  "seniority_from_title VNone = UNKNOWN" "function_from_title VNone = UNKNOWN"
  by (simp_all add: normalize_seniority_def normalize_function_def seniority_from_title_def
      function_from_title_def canonical_key_def)

text \<open>
  Which vendor answer becomes evidence. Hunter's seniority is the rung read from the job
  title when the title names one and the rung of the coarse seniority enum otherwise; its
  function is the role enum first and the title second. Apollo's two fields both prefer the
  structured enum and fall back to the title. When neither is understood there is no evidence.
\<close>

theorem person_evidence_precedence:
  "(let job = employment_of (person_payload body); v = (\<lambda>k. json_py rep (json_get job k));
        fields = map_of (nr_fields (normalize_hunter_person rep body))
    in fields ''title_seniority'' = first_known (seniority_from_title (v ''title'')) (normalize_seniority (v ''seniority''))
       \<and> fields ''title_function''
           = first_known (normalize_function (json_py rep (hunter_role job))) (function_from_title (v ''title'')))
   \<and> (let person = apollo_person_payload body; v = (\<lambda>k. json_py rep (json_get person k));
        fields = map_of (nr_fields (normalize_apollo_person rep body))
    in fields ''title_seniority'' = first_known (normalize_seniority (v ''seniority'')) (seniority_from_title (v ''title''))
       \<and> fields ''title_function''
           = first_known (normalize_function (json_py rep (apollo_departments person))) (function_from_title (v ''title'')))"
proof -
  have d: "distinct (map fst (extract_hunter_person rep body))" "distinct (map fst (extract_apollo_person rep body))"
    by (simp_all add: extract_hunter_person_def extract_apollo_person_def Let_def)
  note look = person_lookup [OF d(1), of HUNTER_PROVIDER_NAME] person_lookup [OF d(2), of APOLLO_PROVIDER_NAME]
  let ?job = "employment_of (person_payload body)" and ?person = "apollo_person_payload body"
  note raws = extract_hunter_person_def extract_apollo_person_def Let_def
  have "map_of (nr_fields (normalize_hunter_person rep body)) ''title_seniority''
      = first_known (seniority_from_title (json_py rep (json_get ?job ''title''))) (normalize_seniority (json_py rep (json_get ?job ''seniority'')))"
    unfolding normalize_hunter_person_def look(1)
    by (cases "seniority_from_title (json_py rep (json_get ?job ''title'')) = UNKNOWN";
        cases "normalize_seniority (json_py rep (json_get ?job ''seniority'')) = UNKNOWN")
      (auto simp: raws first_known_def title_unknown parsed_fixed)
  moreover have "map_of (nr_fields (normalize_hunter_person rep body)) ''title_function''
      = first_known (normalize_function (json_py rep (hunter_role ?job))) (function_from_title (json_py rep (json_get ?job ''title'')))"
    unfolding normalize_hunter_person_def look(2)
    by (cases "normalize_function (json_py rep (hunter_role ?job)) = UNKNOWN";
        cases "function_from_title (json_py rep (json_get ?job ''title'')) = UNKNOWN")
      (auto simp: raws first_known_def title_unknown parsed_fixed)
  moreover have "map_of (nr_fields (normalize_apollo_person rep body)) ''title_seniority''
      = first_known (normalize_seniority (json_py rep (json_get ?person ''seniority''))) (seniority_from_title (json_py rep (json_get ?person ''title'')))"
    unfolding normalize_apollo_person_def look(3)
    by (cases "seniority_from_title (json_py rep (json_get ?person ''title'')) = UNKNOWN";
        cases "normalize_seniority (json_py rep (json_get ?person ''seniority'')) = UNKNOWN")
      (auto simp: raws first_known_def title_unknown parsed_fixed prefer_enum_then_title_def)
  moreover have "map_of (nr_fields (normalize_apollo_person rep body)) ''title_function''
      = first_known (normalize_function (json_py rep (apollo_departments ?person))) (function_from_title (json_py rep (json_get ?person ''title'')))"
    unfolding normalize_apollo_person_def look(4)
    by (cases "normalize_function (json_py rep (apollo_departments ?person)) = UNKNOWN";
        cases "function_from_title (json_py rep (json_get ?person ''title'')) = UNKNOWN")
      (auto simp: raws first_known_def title_unknown parsed_fixed prefer_enum_then_title_def)
  ultimately show ?thesis unfolding Let_def by blast
qed


text \<open>An infinite \<open>Retry-After\<close> is taken over as it is; a flat Apollo body that has only
  departments counts as a match, though none of its fields is read.\<close>

lemma infinite_retry_after: "parse_retry_after_seconds (Some ''inf'') = Some PInf"
  by code_simp

lemma departments_alone_are_billed:
  "apollo_person_matched [(''departments'', JList [JStr ''sales''])]"
  "apollo_person_payload [(''departments'', JList [JStr ''sales''])] = []"
  by (simp_all add: apollo_person_matched_def apollo_person_payload_def has_key_def json_get_or_def)

subsection \<open>A matched executive\<close>

definition demo_adapters :: adapters where
  "demo_adapters =
     \<lparr>ap_abstract = \<lparr>ac_api_key = ''k'', ac_base_url = ''a'', ac_cost_per_call = 0.00165, ac_min_interval = 1\<rparr>,
      ap_hunter = \<lparr>pn_api_key = ''k'', pn_base_url = ''h'', pn_cost_per_success = 0.0049,
        pn_credits = VFloat 0.2 ''0.2''\<rparr>,
      ap_apollo = \<lparr>pn_api_key = ''k'', pn_base_url = ''p'', pn_cost_per_success = 0.0196, pn_credits = VInt 1\<rparr>,
      ap_rep = (\<lambda>_. []),
      ap_http = (\<lambda>q. if hq_url q = ''h''
        then Answered \<lparr>hs_status = 200,
               hs_json = Some (JObj [(''data'', JObj [(''employment'',
                 JObj [(''title'', JStr ''vp''), (''seniority'', JStr ''executive'')])])]),
               hs_retry_after = None\<rparr>
        else if hq_url q = ''a'' then Timed_Out else Transport_Failed ''ConnectError''),
      ap_latency = 120\<rparr>"


end
