(* ===== verification/Accounts.thy ===== *)
theory Accounts
  imports Json_Value Live_Guards
begin

text \<open>
  What an organization owns outside the pipeline: its row of settings
  (\<open>arie.organizations\<close>), its limits, its billing row, members, invitations, API keys and the
  append-only audit log (\<open>arie.audit\<close>). The tables are lists of rows in the order of their
  insertion; the three limit columns of \<open>organizations\<close> are the map of \<open>arie.limits\<close>. A
  function that raises leaves the tables as they were, unless it committed before; the
  database's clock and fresh identifiers are arguments.
\<close>

definition ROLES :: "string list" where
  "ROLES = [''owner'', ''admin'', ''analyst_reviewer'']"

datatype account_error =
    CoreError error
  | TypeError
  | DatabaseError
  | InvalidOrganizationSettingsError
  | InvalidExecutionModeError string
  | InvalidMemberRoleError string
  | CannotActOnSelfError
  | LastOwnerError
  | InvalidInvitationRoleError string
  | DuplicateInvitationError string
  | InvitationNotFoundError
  | InvitationExpiredError uuid
  | MismatchedInvitationEmailError
  | MemberQuotaExceededError string int nat
  | InvalidOrganizationNameError
  | SlugGenerationExhaustedError
  | AuthenticationError
  | NotAMemberError uuid
  | InvalidApiKeyError
  | RevokedApiKeyError uuid
  | RuntimeError
  | StripeNotConfiguredError
  | UnknownPlanError string
  | PurchasableUnknownPlanError string
  | NoStripeCustomerError uuid

subsection \<open>Rows\<close>

record org_row =
  or_organization_id :: uuid
  or_name :: string
  or_slug :: string
  or_status :: string
  or_timezone :: string
  or_company_domain :: "string option"
  or_execution_mode :: string
  or_onboarding_completed_at :: "instant option"
  or_created_at :: instant
  or_updated_at :: instant

record billing_row =
  bl_organization_id :: uuid
  bl_stripe_customer_id :: "string option"
  bl_stripe_subscription_id :: "string option"
  bl_plan :: string
  bl_status :: string
  bl_period_start :: "instant option"
  bl_period_end :: "instant option"
  bl_cancel_at_period_end :: bool
  bl_canceled_at :: "instant option"
  bl_last_event_created_at :: "instant option"
  bl_updated_at :: instant

record webhook_event_row =
  we_event_id :: string
  we_event_type :: string
  we_stripe_created_at :: instant
  we_payload_hash :: string
  we_organization_id :: "uuid option"
  we_received_at :: instant
  we_processed_at :: "instant option"
  we_processing_status :: string
  we_sanitized_error :: "string option"

record member_row =
  mb_organization_id :: uuid
  mb_user_id :: uuid
  mb_role :: string
  mb_status :: string
  mb_created_at :: instant
  mb_updated_at :: instant

record invitation_row =
  iv_invitation_id :: uuid
  iv_organization_id :: uuid
  iv_email :: string
  iv_role :: string
  iv_token_hash :: string
  iv_status :: string
  iv_invited_by :: uuid
  iv_created_at :: instant
  iv_expires_at :: instant
  iv_accepted_at :: "instant option"
  iv_revoked_at :: "instant option"
  iv_email_status :: string
  iv_email_error :: "string option"
  iv_email_sent_at :: "instant option"

record api_key_row =
  ak_key_id :: uuid
  ak_organization_id :: uuid
  ak_label :: string
  ak_key_prefix :: string
  ak_key_hash :: string
  ak_scopes :: "string list"
  ak_created_by :: uuid
  ak_created_at :: instant
  ak_last_used_at :: "instant option"
  ak_revoked_at :: "instant option"

record audit_event =
  au_organization_id :: uuid
  au_actor_user_id :: uuid
  au_event_type :: string
  au_payload :: json_dict

record account_db =
  org_rows :: "org_row list"
  org_limits :: organizations
  billing_rows :: "billing_row list"
  webhook_events :: "webhook_event_row list"
  member_rows :: "member_row list"
  invitation_rows :: "invitation_row list"
  api_key_rows :: "api_key_row list"
  audit_events :: "audit_event list"

subsection \<open>The audit log\<close>

definition SYSTEM_ACTOR_ID :: uuid where
  "SYSTEM_ACTOR_ID = 0"

text \<open>The payload is only ever read as a whole; \<open>payload or {}\<close> is the dictionary itself.\<close>

definition record_event :: "uuid \<Rightarrow> uuid \<Rightarrow> string \<Rightarrow> json_dict \<Rightarrow> account_db \<Rightarrow> account_db" where
  "record_event org actor event_type payload db =
     db\<lparr>audit_events := audit_events db @
       [\<lparr>au_organization_id = org, au_actor_user_id = actor, au_event_type = event_type,
         au_payload = payload\<rparr>]\<rparr>"

subsection \<open>Settings of an organization\<close>

definition UPDATABLE_FIELDS :: "string list" where
  "UPDATABLE_FIELDS = [''name'', ''timezone'', ''company_domain'']"

definition EXECUTION_MODES :: "string list" where
  "EXECUTION_MODES = [''simulated'', ''live_shadow'', ''live_human_only'']"

definition get_organization :: "uuid \<Rightarrow> account_db \<Rightarrow> org_row option" where
  "get_organization org db = find (\<lambda>r. or_organization_id r = org) (org_rows db)"

definition validate_timezone :: "(string \<Rightarrow> bool) \<Rightarrow> string option \<Rightarrow> account_error + unit" where
  "validate_timezone known tz =
     (case tz of Some t \<Rightarrow> if known t then Inr () else Inl InvalidOrganizationSettingsError
      | None \<Rightarrow> Inl InvalidOrganizationSettingsError)"

definition set_organization :: "uuid \<Rightarrow> (org_row \<Rightarrow> org_row) \<Rightarrow> account_db \<Rightarrow> account_db" where
  "set_organization org f db =
     db\<lparr>org_rows := map (\<lambda>r. if or_organization_id r = org then f r else r) (org_rows db)\<rparr>"

text \<open>The SET clause of the UPDATE, for the fields that the request named. The request model
  admits a string or null for each of them.\<close>

definition apply_updates :: "(string \<times> string option) list \<Rightarrow> org_row \<Rightarrow> org_row" where
  "apply_updates updates r =
     r\<lparr>or_name := (case map_of updates ''name'' of Some (Some n) \<Rightarrow> n | _ \<Rightarrow> or_name r),
       or_timezone := (case map_of updates ''timezone'' of Some (Some t) \<Rightarrow> t | _ \<Rightarrow> or_timezone r),
       or_company_domain := (case map_of updates ''company_domain'' of Some d \<Rightarrow> d
                             | None \<Rightarrow> or_company_domain r)\<rparr>"

definition name_refused :: "string option option \<Rightarrow> bool" where
  "name_refused u \<longleftrightarrow>
     (case u of None \<Rightarrow> False | Some None \<Rightarrow> True | Some (Some n) \<Rightarrow> py_strip n = [])"

definition update_organization ::
    "(string \<Rightarrow> bool) \<Rightarrow> uuid \<Rightarrow> (string \<times> string option) list \<Rightarrow> instant \<Rightarrow> account_db
     \<Rightarrow> (account_error + org_row option) \<times> account_db" where
  "update_organization known org updates now db =
     (if \<exists>k \<in> set (map fst updates). k \<notin> set UPDATABLE_FIELDS
      then (Inl InvalidOrganizationSettingsError, db)
      else if updates = [] then (Inr (get_organization org db), db)
      else if name_refused (map_of updates ''name'') then (Inl InvalidOrganizationSettingsError, db)
      else
        (case (case map_of updates ''timezone'' of None \<Rightarrow> Inr () | Some tz \<Rightarrow> validate_timezone known tz) of
           Inl e \<Rightarrow> (Inl e, db)
         | Inr _ \<Rightarrow>
             (if get_organization org db = None then (Inr None, db)
              else let db' = set_organization org
                       (\<lambda>r. (apply_updates updates r)\<lparr>or_updated_at := now\<rparr>) db
                   in (Inr (get_organization org db'), db'))))"

definition get_execution_mode_of :: "uuid \<Rightarrow> account_db \<Rightarrow> string" where
  "get_execution_mode_of org db =
     (case get_organization org db of None \<Rightarrow> ''simulated'' | Some r \<Rightarrow> or_execution_mode r)"

definition set_execution_mode ::
    "uuid \<Rightarrow> string \<Rightarrow> uuid \<Rightarrow> instant \<Rightarrow> account_db \<Rightarrow> (account_error + org_row option) \<times> account_db" where
  "set_execution_mode org mode actor now db =
     (if mode \<notin> set EXECUTION_MODES then (Inl (InvalidExecutionModeError mode), db)
      else if get_organization org db = None then (Inr None, db)
      else let db' = set_organization org (\<lambda>r. r\<lparr>or_execution_mode := mode, or_updated_at := now\<rparr>) db;
               db'' = record_event org actor ''organization.execution_mode_changed''
                        [(''execution_mode'', JStr mode)] db'
           in (Inr (get_organization org db'), db''))"

subsection \<open>The onboarding checklist\<close>

text \<open>\<open>arie.onboarding\<close>: derived from the tables of other components, each an argument: does
  the organization have a profile, a provider configuration, a batch, a lead past \<open>NEW\<close>?\<close>

record onboarding_facts =
  has_icp_profile :: bool
  has_provider_config :: bool
  has_batch :: bool
  has_processed_lead :: bool

record onboarding_status =
  os_account_created :: bool
  os_organization_configured :: bool
  os_icp_configured :: bool
  os_provider_configured :: bool
  os_first_upload_completed :: bool
  os_first_batch_processed :: bool
  os_completed :: bool
  os_completed_at :: "instant option"

definition get_onboarding_status ::
    "uuid \<Rightarrow> onboarding_facts \<Rightarrow> instant \<Rightarrow> account_db
     \<Rightarrow> (account_error + onboarding_status) \<times> account_db" where
  "get_onboarding_status org facts now db =
     (case get_organization org db of
        None \<Rightarrow> (Inl (CoreError AssertionError), db)
      | Some r \<Rightarrow>
          (let completed = has_icp_profile facts \<and> has_batch facts \<and> has_processed_lead facts;
               stamp = completed \<and> or_onboarding_completed_at r = None;
               db' = (if stamp
                      then set_organization org (\<lambda>r. if or_onboarding_completed_at r = None
                             then r\<lparr>or_onboarding_completed_at := Some now\<rparr> else r) db
                      else db)
           in (Inr \<lparr>os_account_created = True, os_organization_configured = (or_name r \<noteq> []),
                    os_icp_configured = has_icp_profile facts,
                    os_provider_configured = has_provider_config facts,
                    os_first_upload_completed = has_batch facts,
                    os_first_batch_processed = has_processed_lead facts,
                    os_completed = completed,
                    os_completed_at = (if stamp then Some now else or_onboarding_completed_at r)\<rparr>,
               db')))"

subsection \<open>Lemmas\<close>

lemma record_event_frame [simp]:
  "org_rows (record_event org a t p db) = org_rows db"
  "org_limits (record_event org a t p db) = org_limits db"
  "billing_rows (record_event org a t p db) = billing_rows db"
  "webhook_events (record_event org a t p db) = webhook_events db"
  "member_rows (record_event org a t p db) = member_rows db"
  "invitation_rows (record_event org a t p db) = invitation_rows db"
  "api_key_rows (record_event org a t p db) = api_key_rows db"
  by (simp_all add: record_event_def)

lemma set_organization_frame [simp]:
  "org_limits (set_organization org f db) = org_limits db"
  "billing_rows (set_organization org f db) = billing_rows db"
  "webhook_events (set_organization org f db) = webhook_events db"
  "member_rows (set_organization org f db) = member_rows db"
  "invitation_rows (set_organization org f db) = invitation_rows db"
  "api_key_rows (set_organization org f db) = api_key_rows db"
  "audit_events (set_organization org f db) = audit_events db"
  by (simp_all add: set_organization_def)

lemma get_organization_set:
  assumes "\<And>r. or_organization_id (f r) = or_organization_id r"
  shows "get_organization o' (set_organization org f db)
    = (if o' = org then map_option f (get_organization org db) else get_organization o' db)"
proof -
  have "find (\<lambda>r. or_organization_id r = o') (map (\<lambda>r. if or_organization_id r = org then f r else r) rs)
      = (if o' = org then map_option f (find (\<lambda>r. or_organization_id r = org) rs)
         else find (\<lambda>r. or_organization_id r = o') rs)" for rs
    by (induction rs) (auto simp: assms)
  then show ?thesis by (simp add: get_organization_def set_organization_def)
qed

text \<open>Onboarding is a milestone: once stamped, the time of completion never changes.\<close>

lemma onboarding_stamp_is_permanent:
  assumes "get_organization org db = Some r" "or_onboarding_completed_at r = Some t"
  shows "get_onboarding_status org facts now db
    = (Inr \<lparr>os_account_created = True, os_organization_configured = (or_name r \<noteq> []),
            os_icp_configured = has_icp_profile facts,
            os_provider_configured = has_provider_config facts,
            os_first_upload_completed = has_batch facts,
            os_first_batch_processed = has_processed_lead facts,
            os_completed = (has_icp_profile facts \<and> has_batch facts \<and> has_processed_lead facts),
            os_completed_at = Some t\<rparr>, db)"
  using assms by (simp add: get_onboarding_status_def Let_def)

end
