(* ===== verification/Billing.thy ===== *)
theory Billing
  imports Accounts
begin

text \<open>
  \<open>arie.billing.models\<close>, \<open>arie.billing.repository\<close> and \<open>arie.billing.plans\<close>: the billing row
  of an organization, the log of webhook deliveries, and the one resolution from plan and
  subscription status to entitlements, which is written onto the limit columns whenever a
  billing row changes. The constraints of the tables are branches that raise
  \<open>DatabaseError\<close>.
\<close>

definition PLANS :: "string list" where
  "PLANS = [''internal'', ''starter'', ''growth'', ''pro'']"

definition SUBSCRIBED_STATUSES :: "string list" where
  "SUBSCRIBED_STATUSES = [''active'', ''trialing'']"

definition BILLING_STATUSES :: "string list" where
  "BILLING_STATUSES = [''none'', ''incomplete'', ''incomplete_expired'', ''trialing'', ''active'',
     ''past_due'', ''canceled'', ''unpaid'', ''paused'']"

definition is_subscribed :: "billing_row \<Rightarrow> bool" where
  "is_subscribed b \<longleftrightarrow> bl_plan b = ''internal'' \<or> bl_status b \<in> set SUBSCRIBED_STATUSES"

subsection \<open>The billing row\<close>

definition billing_of :: "uuid \<Rightarrow> account_db \<Rightarrow> billing_row option" where
  "billing_of org db = find (\<lambda>b. bl_organization_id b = org) (billing_rows db)"

definition get_billing :: "uuid \<Rightarrow> account_db \<Rightarrow> account_error + billing_row" where
  "get_billing org db =
     (case billing_of org db of None \<Rightarrow> Inl (CoreError AssertionError) | Some b \<Rightarrow> Inr b)"

definition resolve_organization_id_by_customer :: "string \<Rightarrow> account_db \<Rightarrow> uuid option" where
  "resolve_organization_id_by_customer customer db =
     map_option bl_organization_id (find (\<lambda>b. bl_stripe_customer_id b = Some customer) (billing_rows db))"

definition set_billing :: "uuid \<Rightarrow> (billing_row \<Rightarrow> billing_row) \<Rightarrow> account_db \<Rightarrow> account_db" where
  "set_billing org f db =
     db\<lparr>billing_rows := map (\<lambda>b. if bl_organization_id b = org then f b else b) (billing_rows db)\<rparr>"

definition update_billing_stripe_customer ::
    "uuid \<Rightarrow> string \<Rightarrow> instant \<Rightarrow> account_db \<Rightarrow> account_error + account_db" where
  "update_billing_stripe_customer org customer now db =
     (if billing_of org db \<noteq> None
         \<and> list_ex (\<lambda>b. bl_organization_id b \<noteq> org \<and> bl_stripe_customer_id b = Some customer) (billing_rows db)
      then Inl DatabaseError
      else Inr (set_billing org (\<lambda>b. b\<lparr>bl_stripe_customer_id := Some customer, bl_updated_at := now\<rparr>) db))"

record subscription_snapshot =
  ss_subscription_id :: "string option"
  ss_plan :: string
  ss_status :: "string option"
  ss_period_start :: "instant option"
  ss_period_end :: "instant option"
  ss_cancel_at_period_end :: bool
  ss_canceled_at :: "instant option"

definition apply_snapshot :: "subscription_snapshot \<Rightarrow> instant \<Rightarrow> instant \<Rightarrow> billing_row \<Rightarrow> billing_row" where
  "apply_snapshot s stripe_created_at now b =
     b\<lparr>bl_stripe_subscription_id := ss_subscription_id s, bl_plan := ss_plan s,
       bl_status := the (ss_status s), bl_period_start := ss_period_start s,
       bl_period_end := ss_period_end s, bl_cancel_at_period_end := ss_cancel_at_period_end s,
       bl_canceled_at := ss_canceled_at s, bl_last_event_created_at := Some stripe_created_at,
       bl_updated_at := now\<rparr>"

text \<open>\<open>last_event_created_at IS NULL OR last_event_created_at <= stripe_created_at\<close>\<close>

definition event_is_current :: "instant \<Rightarrow> billing_row \<Rightarrow> bool" where
  "event_is_current stripe_created_at b \<longleftrightarrow>
     (case bl_last_event_created_at b of None \<Rightarrow> True | Some t \<Rightarrow> t \<le> stripe_created_at)"

definition snapshot_refused :: "uuid \<Rightarrow> subscription_snapshot \<Rightarrow> account_db \<Rightarrow> bool" where
  "snapshot_refused org s db \<longleftrightarrow>
     ss_plan s \<notin> set PLANS
     \<or> (case ss_status s of None \<Rightarrow> True | Some st \<Rightarrow> st \<notin> set BILLING_STATUSES)
     \<or> (ss_subscription_id s \<noteq> None
        \<and> list_ex (\<lambda>b. bl_organization_id b \<noteq> org \<and> bl_stripe_subscription_id b = ss_subscription_id s)
            (billing_rows db))"

definition update_billing_from_subscription ::
    "uuid \<Rightarrow> subscription_snapshot \<Rightarrow> instant \<Rightarrow> instant \<Rightarrow> account_db
     \<Rightarrow> account_error + (bool \<times> account_db)" where
  "update_billing_from_subscription org s stripe_created_at now db =
     (case billing_of org db of
        None \<Rightarrow> Inr (False, db)
      | Some b \<Rightarrow>
          (if \<not> event_is_current stripe_created_at b then Inr (False, db)
           else if snapshot_refused org s db then Inl DatabaseError
           else Inr (True, set_billing org (apply_snapshot s stripe_created_at now) db)))"

subsection \<open>The log of webhook deliveries\<close>

definition event_recorded :: "string \<Rightarrow> account_db \<Rightarrow> bool" where
  "event_recorded event_id db \<longleftrightarrow> list_ex (\<lambda>w. we_event_id w = event_id) (webhook_events db)"

text \<open>\<open>INSERT ... ON CONFLICT (event_id) DO NOTHING\<close>: true when the row is new. The
  organization is a foreign key.\<close>

definition record_webhook_event ::
    "string \<Rightarrow> string \<Rightarrow> instant \<Rightarrow> string \<Rightarrow> uuid option \<Rightarrow> instant \<Rightarrow> account_db
     \<Rightarrow> account_error + (bool \<times> account_db)" where
  "record_webhook_event event_id event_type stripe_created_at payload_hash org now db =
     (if event_recorded event_id db then Inr (False, db)
      else if (case org of None \<Rightarrow> False | Some i \<Rightarrow> get_organization i db = None) then Inl DatabaseError
      else Inr (True, db\<lparr>webhook_events := webhook_events db @
             [\<lparr>we_event_id = event_id, we_event_type = event_type,
               we_stripe_created_at = stripe_created_at, we_payload_hash = payload_hash,
               we_organization_id = org, we_received_at = now, we_processed_at = None,
               we_processing_status = ''pending'', we_sanitized_error = None\<rparr>]\<rparr>))"

definition mark_webhook_event_processed ::
    "string \<Rightarrow> string \<Rightarrow> uuid option \<Rightarrow> string option \<Rightarrow> instant \<Rightarrow> account_db \<Rightarrow> account_db" where
  "mark_webhook_event_processed event_id outcome org err now db =
     db\<lparr>webhook_events := map (\<lambda>w. if we_event_id w = event_id
          then w\<lparr>we_processing_status := outcome, we_processed_at := Some now,
                 we_sanitized_error := err,
                 we_organization_id := (case we_organization_id w of None \<Rightarrow> org | Some i \<Rightarrow> Some i)\<rparr>
          else w) (webhook_events db)\<rparr>"

subsection \<open>Entitlements\<close>

record entitlements =
  en_plan :: string
  en_max_leads :: int
  en_max_csv_rows :: int
  en_max_spend :: real
  en_max_members :: int
  en_live_allowed :: bool

definition entitlement :: "string \<Rightarrow> int \<Rightarrow> int \<Rightarrow> real \<Rightarrow> int \<Rightarrow> bool \<Rightarrow> entitlements" where
  "entitlement plan max_leads max_csv max_spend max_members allowed =
     \<lparr>en_plan = plan, en_max_leads = max_leads, en_max_csv_rows = max_csv,
      en_max_spend = max_spend, en_max_members = max_members, en_live_allowed = allowed\<rparr>"

definition UNSUBSCRIBED :: entitlements where
  "UNSUBSCRIBED = entitlement ''unsubscribed'' 25 10 1 1 False"

definition PLAN_DEFINITIONS :: "(string \<times> entitlements) list" where
  "PLAN_DEFINITIONS =
     [(''internal'', entitlement ''internal'' 5000 200 50 25 True),
      (''starter'', entitlement ''starter'' 500 50 10 3 True),
      (''growth'', entitlement ''growth'' 5000 200 50 10 True),
      (''pro'', entitlement ''pro'' 25000 200 250 50 True)]"

definition plan_definition :: "string \<Rightarrow> account_error + entitlements" where
  "plan_definition plan =
     (case map_of PLAN_DEFINITIONS plan of None \<Rightarrow> Inl (CoreError KeyError) | Some e \<Rightarrow> Inr e)"

definition entitlements_of :: "billing_row \<Rightarrow> account_error + entitlements" where
  "entitlements_of b =
     (if bl_plan b = ''internal'' then plan_definition ''internal''
      else if is_subscribed b then plan_definition (bl_plan b)
      else Inr UNSUBSCRIBED)"

definition resolve_organization_entitlements :: "uuid \<Rightarrow> account_db \<Rightarrow> account_error + entitlements" where
  "resolve_organization_entitlements org db = sum_bind (get_billing org db) entitlements_of"

definition limits_of :: "entitlements \<Rightarrow> organization_limits" where
  "limits_of e = \<lparr>ol_max_leads = en_max_leads e, ol_max_csv_rows = en_max_csv_rows e,
                  ol_max_spend = en_max_spend e\<rparr>"

definition sync_organization_limits :: "uuid \<Rightarrow> account_db \<Rightarrow> account_error + account_db" where
  "sync_organization_limits org db =
     sum_bind (resolve_organization_entitlements org db) (\<lambda>e.
       Inr (db\<lparr>org_limits := set_limits org (limits_of e) (org_limits db)\<rparr>))"

definition active_member :: "uuid \<Rightarrow> member_row \<Rightarrow> bool" where
  "active_member org m \<longleftrightarrow> mb_organization_id m = org \<and> mb_status m = ''active''"

definition count_active_members :: "uuid \<Rightarrow> account_db \<Rightarrow> nat" where
  "count_active_members org db = length (filter (active_member org) (member_rows db))"

definition enforce_member_quota :: "uuid \<Rightarrow> account_db \<Rightarrow> account_error + unit" where
  "enforce_member_quota org db =
     sum_bind (resolve_organization_entitlements org db) (\<lambda>e.
       if int (count_active_members org db) \<ge> en_max_members e
       then Inl (MemberQuotaExceededError (en_plan e) (en_max_members e) (count_active_members org db))
       else Inr ())"

definition is_live_provider_feature_allowed :: "uuid \<Rightarrow> account_db \<Rightarrow> account_error + bool" where
  "is_live_provider_feature_allowed org db =
     sum_bind (resolve_organization_entitlements org db) (\<lambda>e. Inr (en_live_allowed e))"

subsection \<open>Lemmas\<close>

lemma set_billing_frame [simp]:
  "org_rows (set_billing org f db) = org_rows db"
  "org_limits (set_billing org f db) = org_limits db"
  "webhook_events (set_billing org f db) = webhook_events db"
  "member_rows (set_billing org f db) = member_rows db"
  "invitation_rows (set_billing org f db) = invitation_rows db"
  "api_key_rows (set_billing org f db) = api_key_rows db"
  "audit_events (set_billing org f db) = audit_events db"
  by (simp_all add: set_billing_def)

lemma mark_frame [simp]:
  "org_rows (mark_webhook_event_processed i s org e now db) = org_rows db"
  "org_limits (mark_webhook_event_processed i s org e now db) = org_limits db"
  "billing_rows (mark_webhook_event_processed i s org e now db) = billing_rows db"
  "member_rows (mark_webhook_event_processed i s org e now db) = member_rows db"
  "audit_events (mark_webhook_event_processed i s org e now db) = audit_events db"
  by (simp_all add: mark_webhook_event_processed_def)

lemma event_recorded_iff: "event_recorded i db \<longleftrightarrow> i \<in> set (map we_event_id (webhook_events db))"
  by (auto simp: event_recorded_def list_ex_iff)

lemma map_event_id_mark [simp]:
  "map we_event_id (webhook_events (mark_webhook_event_processed j s org e now db))
     = map we_event_id (webhook_events db)"
  by (simp add: mark_webhook_event_processed_def)

lemma event_recorded_mark [simp]:
  "event_recorded i (mark_webhook_event_processed j s org e now db) = event_recorded i db"
  by (simp only: event_recorded_iff map_event_id_mark)

lemma billing_of_frame:
  "billing_rows db' = billing_rows db \<Longrightarrow> billing_of org db' = billing_of org db"
  by (simp add: billing_of_def)

lemma billing_of_set:
  assumes "\<And>b. bl_organization_id (f b) = bl_organization_id b"
  shows "billing_of o' (set_billing org f db)
    = (if o' = org then map_option f (billing_of org db) else billing_of o' db)"
proof -
  have "find (\<lambda>b. bl_organization_id b = o') (map (\<lambda>b. if bl_organization_id b = org then f b else b) bs)
      = (if o' = org then map_option f (find (\<lambda>b. bl_organization_id b = org) bs)
         else find (\<lambda>b. bl_organization_id b = o') bs)" for bs
    by (induction bs) (auto simp: assms)
  then show ?thesis by (simp add: billing_of_def set_billing_def)
qed

lemma billing_of_snapshot [simp]:
  "billing_of o' (set_billing org (apply_snapshot s t now) db)
    = (if o' = org then map_option (apply_snapshot s t now) (billing_of org db) else billing_of o' db)"
  by (rule billing_of_set) (simp add: apply_snapshot_def)

text \<open>The limit columns of an organization are those of its entitlements.\<close>

definition in_sync :: "uuid \<Rightarrow> account_db \<Rightarrow> bool" where
  "in_sync org db \<longleftrightarrow>
     (case resolve_organization_entitlements org db of
        Inl _ \<Rightarrow> False | Inr e \<Rightarrow> org_limits db org = Some (limits_of e))"

lemma in_sync_cong:
  "billing_of org db' = billing_of org db \<Longrightarrow> org_limits db' org = org_limits db org
     \<Longrightarrow> in_sync org db' = in_sync org db"
  by (simp add: in_sync_def resolve_organization_entitlements_def get_billing_def split: sum.split)

lemma sync_frame:
  assumes "sync_organization_limits org db = Inr db'"
  shows "billing_rows db' = billing_rows db" "webhook_events db' = webhook_events db"
    "member_rows db' = member_rows db" "org_rows db' = org_rows db" "audit_events db' = audit_events db"
  using assms by (auto simp: sync_organization_limits_def sum_bind_Inr)

lemma sync_in_sync:
  assumes "sync_organization_limits org db = Inr db'" "org_limits db org \<noteq> None"
  shows "in_sync org db'"
proof -
  from assms(1) obtain e where e: "resolve_organization_entitlements org db = Inr e"
    and db': "db' = db\<lparr>org_limits := set_limits org (limits_of e) (org_limits db)\<rparr>"
    by (auto simp: sync_organization_limits_def sum_bind_Inr)
  have "resolve_organization_entitlements org db' = Inr e"
    using e by (simp add: resolve_organization_entitlements_def get_billing_def db' billing_of_def)
  with assms(2) show ?thesis
    by (simp add: in_sync_def db' set_limits_def)
qed

lemma sync_other:
  assumes "sync_organization_limits org db = Inr db'" "o' \<noteq> org"
  shows "org_limits db' o' = org_limits db o'"
  using assms by (auto simp: sync_organization_limits_def sum_bind_Inr set_limits_def)

lemma sync_dom:
  assumes "sync_organization_limits org db = Inr db'"
  shows "org_limits db' o' = None \<longleftrightarrow> org_limits db o' = None"
  using assms by (auto simp: sync_organization_limits_def sum_bind_Inr set_limits_def split: if_splits)

lemma plan_definition_known: "plan \<in> set PLANS \<Longrightarrow> \<exists>e. plan_definition plan = Inr e"
  by (auto simp: PLANS_def plan_definition_def PLAN_DEFINITIONS_def)

end
