(* ===== verification/Billing_Webhooks.thy ===== *)
theory Billing_Webhooks
  imports Billing
begin

text \<open>
  \<open>arie.billing.service\<close> and the parts of \<open>arie.billing.stripe_gateway\<close> it rests on: opening a
  checkout or the portal, and one webhook delivery from signature to commit. Stripe is a
  parameter: what verifies and parses a delivery, and what creates customers and sessions. A
  verified event has the documented shape (a string id and type, an integer time, an object);
  the object's own entries are read dynamically, as the code does. A statement that fails is
  rolled back to the state before the delivery: every call that can raise comes before the
  commit inside \<open>sync_organization_limits\<close>. Identifiers are printed and parsed in decimal.
\<close>

definition PURCHASABLE_PLANS :: "string list" where
  "PURCHASABLE_PLANS = [''starter'', ''growth'', ''pro'']"

record stripe_config =
  st_secret_key :: string
  st_webhook_secret :: string
  st_price_starter :: string
  st_price_growth :: string
  st_price_pro :: string

definition configured :: "stripe_config \<Rightarrow> bool" where
  "configured cfg \<longleftrightarrow> st_secret_key cfg \<noteq> []"

definition webhook_configured :: "stripe_config \<Rightarrow> bool" where
  "webhook_configured cfg \<longleftrightarrow> st_webhook_secret cfg \<noteq> []"

definition price_id_for_plan :: "stripe_config \<Rightarrow> string \<Rightarrow> string option" where
  "price_id_for_plan cfg plan =
     (case map_of [(''starter'', st_price_starter cfg), (''growth'', st_price_growth cfg),
                   (''pro'', st_price_pro cfg)] plan of
        None \<Rightarrow> None
      | Some p \<Rightarrow> if p = [] then None else Some p)"

subsection \<open>Checkout and portal\<close>

record stripe_api =
  create_customer :: "string \<Rightarrow> string \<Rightarrow> uuid \<Rightarrow> string"
  create_session :: "string \<Rightarrow> string \<Rightarrow> uuid \<Rightarrow> string \<times> string option"
  create_portal :: "string \<Rightarrow> string \<Rightarrow> string"

definition get_or_create_customer ::
    "stripe_config \<Rightarrow> stripe_api \<Rightarrow> string option \<Rightarrow> string \<Rightarrow> uuid \<Rightarrow> string \<Rightarrow> account_error + string" where
  "get_or_create_customer cfg api existing email org name =
     (if \<not> configured cfg then Inl StripeNotConfiguredError
      else case existing of
        Some c \<Rightarrow> if c \<noteq> [] then Inr c else Inr (create_customer api email name org)
      | None \<Rightarrow> Inr (create_customer api email name org))"

definition create_checkout_session ::
    "stripe_config \<Rightarrow> stripe_api \<Rightarrow> string \<Rightarrow> string \<Rightarrow> uuid \<Rightarrow> account_error + (string \<times> string)" where
  "create_checkout_session cfg api customer plan org =
     (if \<not> configured cfg then Inl StripeNotConfiguredError
      else case price_id_for_plan cfg plan of
        None \<Rightarrow> Inl (UnknownPlanError plan)
      | Some price \<Rightarrow>
          (case create_session api customer price org of
             (sid, None) \<Rightarrow> Inl (CoreError AssertionError)
           | (sid, Some url) \<Rightarrow> Inr (sid, url)))"

definition start_checkout ::
    "stripe_config \<Rightarrow> stripe_api \<Rightarrow> uuid \<Rightarrow> uuid \<Rightarrow> string \<Rightarrow> string \<Rightarrow> instant \<Rightarrow> account_db
     \<Rightarrow> (account_error + string) \<times> account_db" where
  "start_checkout cfg api org actor email plan now db =
     (if plan \<notin> set PURCHASABLE_PLANS then (Inl (PurchasableUnknownPlanError plan), db)
      else case get_organization org db of
        None \<Rightarrow> (Inl (CoreError AssertionError), db)
      | Some row \<Rightarrow>
          (case sum_bind (get_billing org db) (\<lambda>b.
                sum_bind (get_or_create_customer cfg api (bl_stripe_customer_id b) email org (or_name row)) (\<lambda>c.
                sum_bind (if Some c \<noteq> bl_stripe_customer_id b
                          then update_billing_stripe_customer org c now db else Inr db) (\<lambda>db1.
                sum_bind (create_checkout_session cfg api c plan org) (\<lambda>(sid, url).
                  Inr (url, record_event org actor ''billing.checkout_started''
                    [(''plan'', JStr plan), (''checkout_session_id'', JStr sid)] db1))))) of
             Inl e \<Rightarrow> (Inl e, db)
           | Inr (url, db') \<Rightarrow> (Inr url, db')))"

definition open_billing_portal ::
    "stripe_config \<Rightarrow> stripe_api \<Rightarrow> string \<Rightarrow> uuid \<Rightarrow> uuid \<Rightarrow> string option \<Rightarrow> account_db
     \<Rightarrow> (account_error + string) \<times> account_db" where
  "open_billing_portal cfg api base_url org actor return_url db =
     (case get_billing org db of
        Inl e \<Rightarrow> (Inl e, db)
      | Inr b \<Rightarrow>
          (case bl_stripe_customer_id b of
             None \<Rightarrow> (Inl (NoStripeCustomerError org), db)
           | Some c \<Rightarrow>
               (if \<not> configured cfg then (Inl StripeNotConfiguredError, db)
                else (Inr (create_portal api c
                        (case return_url of Some u \<Rightarrow> if u = [] then base_url @ ''/settings'' else u
                         | None \<Rightarrow> base_url @ ''/settings'')),
                      record_event org actor ''billing.portal_opened'' [] db))))"

subsection \<open>Reading a subscription\<close>

definition first_item :: "json_dict \<Rightarrow> json_dict option" where
  "first_item subscription =
     (case json_get_or subscription ''items'' (JObj []) of
        JObj items \<Rightarrow>
          (case json_get items ''data'' of
             JList (JObj first # _) \<Rightarrow> Some first
           | _ \<Rightarrow> None)
      | _ \<Rightarrow> None)"

definition first_item_price_id :: "json_dict \<Rightarrow> json" where
  "first_item_price_id subscription =
     (case first_item subscription of
        None \<Rightarrow> JNull
      | Some first \<Rightarrow>
          (case json_get first ''price'' of JObj price \<Rightarrow> json_get price ''id'' | _ \<Rightarrow> JNull))"

definition plan_for_price_id :: "stripe_config \<Rightarrow> json \<Rightarrow> string option" where
  "plan_for_price_id cfg price_id =
     (case price_id of
        JStr p \<Rightarrow> find (\<lambda>plan. price_id_for_plan cfg plan = Some p) PURCHASABLE_PLANS
      | _ \<Rightarrow> None)"

definition scheduled_to_cancel :: "json_dict \<Rightarrow> bool" where
  "scheduled_to_cancel subscription \<longleftrightarrow>
     json_truthy (json_get_or subscription ''cancel_at_period_end'' (JBool False))
     \<or> json_get subscription ''cancel_at'' \<noteq> JNull"

text \<open>\<open>datetime.fromtimestamp(v, tz=UTC) if isinstance(v, int) else None\<close>; a year outside 1
  to 9999 raises.\<close>

definition timestamp :: "int \<Rightarrow> account_error + instant" where
  "timestamp i = (if - 62135596800 \<le> i \<and> i \<le> 253402300799 then Inr (of_int i)
                  else Inl (CoreError ValueError))"

definition json_timestamp :: "json \<Rightarrow> account_error + instant option" where
  "json_timestamp v =
     (case v of
        JInt i \<Rightarrow> sum_bind (timestamp i) (\<lambda>t. Inr (Some t))
      | JBool b \<Rightarrow> Inr (Some (if b then 1 else 0))
      | _ \<Rightarrow> Inr None)"

definition subscription_period_bounds ::
    "json_dict \<Rightarrow> account_error + (instant option \<times> instant option)" where
  "subscription_period_bounds subscription =
     (case first_item subscription of
        None \<Rightarrow> Inr (None, None)
      | Some first \<Rightarrow>
          sum_bind (json_timestamp (json_get first ''current_period_start'')) (\<lambda>s.
          sum_bind (json_timestamp (json_get first ''current_period_end'')) (\<lambda>e. Inr (s, e))))"

text \<open>A text column given a value of a subscription: Stripe sends a string or null.\<close>

definition text_value :: "json \<Rightarrow> account_error + string option" where
  "text_value v = (case v of JStr s \<Rightarrow> Inr (Some s) | JNull \<Rightarrow> Inr None | _ \<Rightarrow> Inl DatabaseError)"

definition apply_subscription ::
    "stripe_config \<Rightarrow> uuid \<Rightarrow> json_dict \<Rightarrow> instant \<Rightarrow> instant \<Rightarrow> account_db
     \<Rightarrow> account_error + (string option \<times> account_db)" where
  "apply_subscription cfg org subscription stripe_created_at now db =
     (case plan_for_price_id cfg (first_item_price_id subscription) of
        None \<Rightarrow> Inr (Some ''subscription price id does not map to a configured plan'', db)
      | Some plan \<Rightarrow>
          sum_bind (subscription_period_bounds subscription) (\<lambda>(p_start, p_end).
          sum_bind (json_timestamp (json_get subscription ''canceled_at'')) (\<lambda>canceled.
          sum_bind (case map_of subscription ''id'' of None \<Rightarrow> Inl (CoreError KeyError)
                    | Some v \<Rightarrow> text_value v) (\<lambda>sub_id.
          sum_bind (text_value (json_get_or subscription ''status'' (JStr ''active''))) (\<lambda>sub_status.
          sum_bind (update_billing_from_subscription org
             \<lparr>ss_subscription_id = sub_id, ss_plan = plan, ss_status = sub_status,
              ss_period_start = p_start, ss_period_end = p_end,
              ss_cancel_at_period_end = scheduled_to_cancel subscription, ss_canceled_at = canceled\<rparr>
             stripe_created_at now db) (\<lambda>(applied, db1).
          sum_bind (if applied then sync_organization_limits org db1 else Inr db1) (\<lambda>db2.
            Inr (None, db2))))))))"

subsection \<open>One delivery\<close>

record stripe_event =
  se_id :: string
  se_type :: string
  se_created :: int
  se_object :: json_dict

definition HANDLED_EVENT_TYPES :: "string list" where
  "HANDLED_EVENT_TYPES =
     [''checkout.session.completed'', ''customer.subscription.created'',
      ''customer.subscription.updated'', ''customer.subscription.deleted'',
      ''invoice.paid'', ''invoice.payment_failed'']"

definition uuid_of_string :: "string \<Rightarrow> uuid option" where
  "uuid_of_string s = (if s \<noteq> [] \<and> list_all is_digit s then Some (digits_value s) else None)"

definition resolve_by_reference :: "json_dict \<Rightarrow> uuid option" where
  "resolve_by_reference obj =
     (case json_get obj ''client_reference_id'' of JStr s \<Rightarrow> uuid_of_string s | _ \<Rightarrow> None)"

definition resolve_organization :: "json_dict \<Rightarrow> account_db \<Rightarrow> uuid option" where
  "resolve_organization obj db =
     (case json_get obj ''customer'' of
        JStr c \<Rightarrow>
          (case resolve_organization_id_by_customer c db of
             Some org \<Rightarrow> Some org
           | None \<Rightarrow> resolve_by_reference obj)
      | _ \<Rightarrow> resolve_by_reference obj)"

definition handle_subscription_change ::
    "stripe_config \<Rightarrow> uuid \<Rightarrow> string \<Rightarrow> json_dict \<Rightarrow> instant \<Rightarrow> instant \<Rightarrow> account_db
     \<Rightarrow> account_error + (string option \<times> account_db)" where
  "handle_subscription_change cfg org audit_type obj stripe_created_at now db =
     sum_bind (apply_subscription cfg org obj stripe_created_at now db) (\<lambda>(err, db1).
       Inr (err, if err = None
                 then record_event org SYSTEM_ACTOR_ID audit_type
                        [(''status'', json_get_or obj ''status'' (JStr [])),
                         (''cancel_at_period_end'', JBool (scheduled_to_cancel obj))] db1
                 else db1))"

definition handle_subscription_deleted ::
    "uuid \<Rightarrow> json_dict \<Rightarrow> instant \<Rightarrow> instant \<Rightarrow> instant \<Rightarrow> account_db
     \<Rightarrow> account_error + (string option \<times> account_db)" where
  "handle_subscription_deleted org obj stripe_created_at utcnow now db =
     sum_bind (get_billing org db) (\<lambda>b.
     sum_bind (text_value (json_get_or obj ''id'' (JStr []))) (\<lambda>sub_id.
     sum_bind (update_billing_from_subscription org
        \<lparr>ss_subscription_id = sub_id, ss_plan = bl_plan b, ss_status = Some ''canceled'',
         ss_period_start = bl_period_start b, ss_period_end = bl_period_end b,
         ss_cancel_at_period_end = False, ss_canceled_at = Some utcnow\<rparr>
        stripe_created_at now db) (\<lambda>(applied, db1).
     sum_bind (sync_organization_limits org db1) (\<lambda>db2.
       Inr (None, record_event org SYSTEM_ACTOR_ID ''billing.subscription_canceled'' [] db2)))))"

definition handle_event ::
    "stripe_config \<Rightarrow> uuid \<Rightarrow> stripe_event \<Rightarrow> instant \<Rightarrow> instant \<Rightarrow> instant \<Rightarrow> account_db
     \<Rightarrow> account_error + (string option \<times> account_db)" where
  "handle_event cfg org ev stripe_created_at utcnow now db =
     (if se_type ev = ''checkout.session.completed'' then
        Inr (None, record_event org SYSTEM_ACTOR_ID ''billing.checkout_completed''
          [(''checkout_session_id'', json_get_or (se_object ev) ''id'' (JStr []))] db)
      else if se_type ev = ''customer.subscription.created'' then
        handle_subscription_change cfg org ''billing.subscription_activated'' (se_object ev)
          stripe_created_at now db
      else if se_type ev = ''customer.subscription.updated'' then
        handle_subscription_change cfg org ''billing.subscription_changed'' (se_object ev)
          stripe_created_at now db
      else if se_type ev = ''customer.subscription.deleted'' then
        handle_subscription_deleted org (se_object ev) stripe_created_at utcnow now db
      else if se_type ev = ''invoice.payment_failed'' then
        Inr (None, record_event org SYSTEM_ACTOR_ID ''billing.payment_failed'' [] db)
      else Inr (None, db))"

text \<open>\<open>process_webhook_event\<close> on a verified event.\<close>

definition process_event ::
    "stripe_config \<Rightarrow> string \<Rightarrow> stripe_event \<Rightarrow> instant \<Rightarrow> instant \<Rightarrow> account_db
     \<Rightarrow> (account_error + (nat \<times> string)) \<times> account_db" where
  "process_event cfg payload_hash ev utcnow now db =
     (case timestamp (se_created ev) of
        Inl e \<Rightarrow> (Inl e, db)
      | Inr created \<Rightarrow>
       (if se_type ev \<notin> set HANDLED_EVENT_TYPES then
          (case record_webhook_event (se_id ev) (se_type ev) created payload_hash None now db of
             Inl e \<Rightarrow> (Inl e, db)
           | Inr (_, db1) \<Rightarrow>
               (Inr (200, ''event type not handled''),
                mark_webhook_event_processed (se_id ev) ''ignored'' None None now db1))
        else
          (let org = resolve_organization (se_object ev) db
           in case record_webhook_event (se_id ev) (se_type ev) created payload_hash org now db of
                Inl e \<Rightarrow> (Inl e, db)
              | Inr (False, _) \<Rightarrow> (Inr (200, ''duplicate event''), db)
              | Inr (True, db1) \<Rightarrow>
                  (case org of
                     None \<Rightarrow>
                       (Inr (200, ''organization not resolvable''),
                        mark_webhook_event_processed (se_id ev) ''failed'' None
                          (Some ''could not resolve organization for this event'') now db1)
                   | Some i \<Rightarrow>
                       (case handle_event cfg i ev created utcnow now db1 of
                          Inr (err, db2) \<Rightarrow>
                            (Inr (200, case err of None \<Rightarrow> ''processed'' | Some m \<Rightarrow> m),
                             mark_webhook_event_processed (se_id ev)
                               (if err = None then ''processed'' else ''failed'') (Some i) err now db2)
                        | Inl _ \<Rightarrow>
                            (Inr (500, ''internal error processing webhook''),
                             mark_webhook_event_processed (se_id ev) ''failed'' (Some i)
                               (Some ''internal error during processing'') now db))))))"

definition construct_event ::
    "stripe_config \<Rightarrow> (string \<Rightarrow> string \<Rightarrow> string \<Rightarrow> stripe_event option) \<Rightarrow> string \<Rightarrow> string
     \<Rightarrow> account_error + stripe_event option" where
  "construct_event cfg verify raw_body signature =
     (if \<not> configured cfg then Inl StripeNotConfiguredError
      else if \<not> webhook_configured cfg then Inr None
      else Inr (verify raw_body signature (st_webhook_secret cfg)))"

definition process_webhook_event ::
    "stripe_config \<Rightarrow> (string \<Rightarrow> string \<Rightarrow> string \<Rightarrow> stripe_event option) \<Rightarrow> (string \<Rightarrow> string)
     \<Rightarrow> string \<Rightarrow> string \<Rightarrow> instant \<Rightarrow> instant \<Rightarrow> account_db
     \<Rightarrow> (account_error + (nat \<times> string)) \<times> account_db" where
  "process_webhook_event cfg verify sha256 raw_body signature utcnow now db =
     (case construct_event cfg verify raw_body signature of
        Inl _ \<Rightarrow> (Inr (503, ''stripe webhook signing secret is not configured''), db)
      | Inr None \<Rightarrow> (Inr (400, ''invalid signature''), db)
      | Inr (Some ev) \<Rightarrow> process_event cfg (sha256 raw_body) ev utcnow now db)"

subsection \<open>What a delivery can change\<close>

lemmas webhook_case_simps = sum_bind_Inr split_paired_Ex prod.case

text \<open>An update from a subscription either leaves the tables alone or writes the billing row
  of the one organization.\<close>

lemma update_billing_cases:
  assumes "update_billing_from_subscription org s t now db = Inr (applied, db')"
  obtains "\<not> applied" "db' = db"
  | b where "applied" "billing_of org db = Some b" "event_is_current t b"
      "\<not> snapshot_refused org s db" "db' = set_billing org (apply_snapshot s t now) db"
proof (cases "billing_of org db")
  case None
  with assms that(1) show ?thesis
    by (simp add: update_billing_from_subscription_def)
next
  case (Some b)
  note eq = assms [unfolded update_billing_from_subscription_def Some option.case]
  show ?thesis
  proof (cases "event_is_current t b")
    case False
    with eq that(1) show ?thesis by simp
  next
    case True
    with eq have "\<not> snapshot_refused org s db" by (cases "snapshot_refused org s db") simp_all
    with eq True Some that(2) show ?thesis by simp
  qed
qed

text \<open>What every step of a delivery keeps, for the organization it is about.\<close>

definition delivery_ok :: "uuid \<Rightarrow> instant \<Rightarrow> account_db \<Rightarrow> account_db \<Rightarrow> bool" where
  "delivery_ok org t db db' \<longleftrightarrow>
     (\<forall>o'. o' \<noteq> org \<longrightarrow> billing_of o' db' = billing_of o' db \<and> org_limits db' o' = org_limits db o')
     \<and> (\<forall>o'. org_limits db' o' = None \<longleftrightarrow> org_limits db o' = None)
     \<and> (in_sync org db \<longrightarrow> in_sync org db')
     \<and> (\<forall>b. billing_of org db = Some b \<longrightarrow> (\<exists>b'. billing_of org db' = Some b'
          \<and> (bl_plan b' = bl_plan b \<or> bl_plan b' \<in> set PURCHASABLE_PLANS)
          \<and> (b' = b \<or> event_is_current t b \<and> bl_last_event_created_at b' = Some t)))
     \<and> member_rows db' = member_rows db \<and> org_rows db' = org_rows db
     \<and> webhook_events db' = webhook_events db"

lemma delivery_ok_unchanged:
  assumes "billing_rows db' = billing_rows db" "org_limits db' = org_limits db"
    "member_rows db' = member_rows db" "org_rows db' = org_rows db"
    "webhook_events db' = webhook_events db"
  shows "delivery_ok org t db db'"
  using assms in_sync_cong [of org db' db]
  by (simp add: delivery_ok_def billing_of_frame [OF assms(1)])

lemma in_sync_limits: "in_sync org db \<Longrightarrow> org_limits db org \<noteq> None"
  by (simp add: in_sync_def split: sum.splits)

text \<open>An applied update followed by the synchronization of the limits.\<close>

lemma applied_then_synced:
  assumes upd: "update_billing_from_subscription org s t now db = Inr (True, db1)"
    and plan: "\<And>b. billing_of org db = Some b \<Longrightarrow> ss_plan s = bl_plan b \<or> ss_plan s \<in> set PURCHASABLE_PLANS"
    and sync: "sync_organization_limits org db1 = Inr db2"
  shows "delivery_ok org t db db2"
proof -
  from upd obtain b where b: "billing_of org db = Some b" "event_is_current t b"
    and db1: "db1 = set_billing org (apply_snapshot s t now) db"
    by (rule update_billing_cases) auto
  note frame = sync_frame [OF sync]
  have bill: "billing_of o' db2 = (if o' = org then Some (apply_snapshot s t now b) else billing_of o' db)" for o'
    using b by (simp add: billing_of_frame [OF frame(1)] db1)
  have lim: "org_limits db1 = org_limits db" by (simp add: db1)
  have "in_sync org db \<longrightarrow> in_sync org db2"
    using sync_in_sync [OF sync] in_sync_limits [of org db] by (simp add: lim)
  moreover have "bl_plan (apply_snapshot s t now b) = ss_plan s"
    "bl_last_event_created_at (apply_snapshot s t now b) = Some t"
    by (simp_all add: apply_snapshot_def)
  ultimately show ?thesis
    unfolding delivery_ok_def
    using b plan [OF b(1)] frame sync_other [OF sync] sync_dom [OF sync]
    by (simp add: bill lim db1)
qed

lemma synced_only:
  assumes sync: "sync_organization_limits org db = Inr db2"
  shows "delivery_ok org t db db2"
proof -
  note frame = sync_frame [OF sync]
  have "in_sync org db \<longrightarrow> in_sync org db2"
    using sync_in_sync [OF sync] in_sync_limits [of org db] by blast
  then show ?thesis
    unfolding delivery_ok_def
    using frame sync_other [OF sync] sync_dom [OF sync]
    by (simp add: billing_of_frame [OF frame(1)])
qed

lemma delivery_ok_record: "delivery_ok org t db db' \<Longrightarrow> delivery_ok org t db (record_event i a ty p db')"
proof -
  have "billing_of o' (record_event i a ty p db') = billing_of o' db'" for o'
    by (rule billing_of_frame) simp
  moreover from this have "in_sync org (record_event i a ty p db') = in_sync org db'"
    by (intro in_sync_cong) simp_all
  ultimately show "delivery_ok org t db db' \<Longrightarrow> delivery_ok org t db (record_event i a ty p db')"
    by (simp add: delivery_ok_def)
qed

lemma delivery_ok_refl: "delivery_ok org t db db"
  by (rule delivery_ok_unchanged) simp_all

lemma apply_subscription_ok:
  assumes "apply_subscription cfg org sub t now db = Inr (err, db')"
  shows "delivery_ok org t db db'"
proof (cases "plan_for_price_id cfg (first_item_price_id sub)")
  case None
  with assms show ?thesis by (simp add: apply_subscription_def delivery_ok_refl)
next
  case (Some plan)
  then have plan: "plan \<in> set PURCHASABLE_PLANS"
    by (auto simp: plan_for_price_id_def find_Some_iff split: json.splits)
  from assms Some obtain sub_id sub_status ps pe canceled applied db1 where
      upd: "update_billing_from_subscription org
             \<lparr>ss_subscription_id = sub_id, ss_plan = plan, ss_status = sub_status,
              ss_period_start = ps, ss_period_end = pe,
              ss_cancel_at_period_end = scheduled_to_cancel sub, ss_canceled_at = canceled\<rparr>
             t now db = Inr (applied, db1)"
    and fin: "(if applied then sync_organization_limits org db1 else Inr db1) = Inr db'"
    unfolding apply_subscription_def by (auto simp: webhook_case_simps)
  show ?thesis
  proof (cases applied)
    case True
    with upd fin plan show ?thesis by (auto intro: applied_then_synced)
  next
    case False
    with fin have "db' = db1" by simp
    moreover from upd False have "db1 = db" by (auto elim: update_billing_cases)
    ultimately show ?thesis by (simp add: delivery_ok_refl)
  qed
qed

lemma handle_subscription_change_ok:
  assumes "handle_subscription_change cfg org ty obj t now db = Inr (err, db')"
  shows "delivery_ok org t db db'"
proof -
  from assms obtain db1 where ap: "apply_subscription cfg org obj t now db = Inr (err, db1)"
    and db': "db' = (if err = None then record_event org SYSTEM_ACTOR_ID ty
        [(''status'', json_get_or obj ''status'' (JStr [])),
         (''cancel_at_period_end'', JBool (scheduled_to_cancel obj))] db1 else db1)"
    unfolding handle_subscription_change_def by (auto simp: webhook_case_simps)
  from apply_subscription_ok [OF ap] show ?thesis
    unfolding db' by (simp add: delivery_ok_record)
qed

lemma handle_subscription_deleted_ok:
  assumes "handle_subscription_deleted org obj t utcnow now db = Inr (err, db')"
  shows "delivery_ok org t db db'"
proof -
  from assms obtain b sub_id applied db1 db2 where b: "get_billing org db = Inr b"
    and upd: "update_billing_from_subscription org
        \<lparr>ss_subscription_id = sub_id, ss_plan = bl_plan b, ss_status = Some ''canceled'',
         ss_period_start = bl_period_start b, ss_period_end = bl_period_end b,
         ss_cancel_at_period_end = False, ss_canceled_at = Some utcnow\<rparr> t now db = Inr (applied, db1)"
    and sync: "sync_organization_limits org db1 = Inr db2"
    and db': "db' = record_event org SYSTEM_ACTOR_ID ''billing.subscription_canceled'' [] db2"
    unfolding handle_subscription_deleted_def by (auto simp: webhook_case_simps)
  have "delivery_ok org t db db2"
  proof (cases applied)
    case True
    from b have "billing_of org db = Some b"
      by (simp add: get_billing_def split: option.splits)
    with True upd sync show ?thesis by (auto intro: applied_then_synced)
  next
    case False
    with upd have "db1 = db" by (auto elim: update_billing_cases)
    with sync show ?thesis by (auto intro: synced_only)
  qed
  then show ?thesis unfolding db' by (rule delivery_ok_record)
qed

lemma handle_event_ok:
  assumes "handle_event cfg org ev t utcnow now db = Inr (err, db')"
  shows "delivery_ok org t db db'"
  using assms unfolding handle_event_def
  by (auto split: if_splits intro: delivery_ok_record delivery_ok_refl
      handle_subscription_change_ok handle_subscription_deleted_ok)

subsection \<open>A delivery, and its redelivery\<close>

lemma record_webhook_event_frame:
  assumes "record_webhook_event i ty t h org now db = Inr (new, db1)"
  shows "billing_rows db1 = billing_rows db" "org_limits db1 = org_limits db"
    "member_rows db1 = member_rows db" "org_rows db1 = org_rows db" "audit_events db1 = audit_events db"
    "event_recorded i db1" "new \<longleftrightarrow> \<not> event_recorded i db" "\<not> new \<Longrightarrow> db1 = db"
  using assms unfolding record_webhook_event_def
  by (auto simp: event_recorded_def split: if_splits)

lemma mark_unrecorded:
  assumes "\<not> event_recorded i db"
  shows "mark_webhook_event_processed i s org e now db = db"
proof -
  have "map (\<lambda>w. if we_event_id w = i then f w else w) ws = ws"
    if "i \<notin> set (map we_event_id ws)" for f and ws :: "webhook_event_row list"
    using that by (induction ws) auto
  with assms show ?thesis
    by (simp add: event_recorded_iff mark_webhook_event_processed_def)
qed

text \<open>The ways a delivery of a verified event can end.\<close>

lemma process_event_cases:
  assumes "process_event cfg h ev utcnow now db = (res, db')"
  obtains (refused) e where "res = Inl e" "db' = db"
  | (duplicate) "res = Inr (200, ''duplicate event'')" "db' = db"
      "event_recorded (se_id ev) db" "se_type ev \<in> set HANDLED_EVENT_TYPES"
  | (failed) "res = Inr (500, ''internal error processing webhook'')" "db' = db"
      "\<not> event_recorded (se_id ev) db"
  | (ignored) s m new db1 org e where "res = Inr (200, m)" "m \<noteq> ''duplicate event''"
      "record_webhook_event (se_id ev) (se_type ev) (of_int (se_created ev)) h org now db = Inr (new, db1)"
      "se_type ev \<in> set HANDLED_EVENT_TYPES \<longrightarrow> new"
      "db' = mark_webhook_event_processed (se_id ev) s org e now db1"
  | (handled) org db1 db2 err m s where "res = Inr (200, m)"
      "resolve_organization (se_object ev) db = Some org"
      "record_webhook_event (se_id ev) (se_type ev) (of_int (se_created ev)) h (Some org) now db = Inr (True, db1)"
      "handle_event cfg org ev (of_int (se_created ev)) utcnow now db1 = Inr (err, db2)"
      "db' = mark_webhook_event_processed (se_id ev) s (Some org) err now db2"
proof (cases "timestamp (se_created ev)")
  case (Inl e)
  with assms [symmetric] refused show ?thesis by (simp add: process_event_def)
next
  case (Inr created)
  then have t: "timestamp (se_created ev) = Inr (of_int (se_created ev))"
    by (simp add: timestamp_def split: if_splits)
  note eq = assms [symmetric, unfolded process_event_def t sum.case]
  show ?thesis
  proof (cases "se_type ev \<in> set HANDLED_EVENT_TYPES")
    case False
    show ?thesis
    proof (cases "record_webhook_event (se_id ev) (se_type ev) (of_int (se_created ev)) h None now db")
      case (Inl e)
      with eq False refused show ?thesis by simp
    next
      case (Inr r)
      with eq False ignored [of "''event type not handled''" None "fst r" "snd r" "''ignored''" None]
      show ?thesis by (simp add: split_beta)
    qed
  next
    case True
    define org where "org = resolve_organization (se_object ev) db"
    note eq = eq [folded org_def, unfolded Let_def]
    show ?thesis
    proof (cases "record_webhook_event (se_id ev) (se_type ev) (of_int (se_created ev)) h org now db")
      case (Inl e)
      with eq True refused show ?thesis by simp
    next
      case (Inr r)
      obtain new db1 where r: "r = (new, db1)" by (cases r)
      note rec = Inr [unfolded r]
      note fr = record_webhook_event_frame [OF rec]
      show ?thesis
      proof (cases new)
        case False
        with eq True rec fr(7) duplicate show ?thesis by simp
      next
        case new: True
        show ?thesis
        proof (cases org)
          case None
          with eq True rec new
            ignored [of "''organization not resolvable''" None True db1 "''failed''"
              "Some ''could not resolve organization for this event''"]
          show ?thesis by simp
        next
          case (Some i)
          show ?thesis
          proof (cases "handle_event cfg i ev (of_int (se_created ev)) utcnow now db1")
            case (Inl e)
            have "\<not> event_recorded (se_id ev) db" using fr(7) new by simp
            with eq True rec new Some Inl failed show ?thesis
              by (simp add: mark_unrecorded)
          next
            case (Inr q)
            obtain err db2 where q: "q = (err, db2)" by (cases q)
            with eq True rec new Some Inr show ?thesis
              by (intro handled [of _ i db1 err db2 "if err = None then ''processed'' else ''failed''"])
                (simp_all add: org_def [symmetric])
          qed
        qed
      qed
    qed
  qed
qed

text \<open>What holds for every organization after any delivery of a verified event.\<close>

lemma process_event_ok:
  assumes run: "process_event cfg h ev utcnow now db = (res, db')"
  shows "(in_sync o' db \<longrightarrow> in_sync o' db')
    \<and> (\<forall>b. billing_of o' db = Some b \<longrightarrow> (\<exists>b'. billing_of o' db' = Some b'
         \<and> (bl_plan b' = bl_plan b \<or> bl_plan b' \<in> set PURCHASABLE_PLANS)
         \<and> (b' = b \<or> resolve_organization (se_object ev) db = Some o'
              \<and> event_is_current (of_int (se_created ev)) b
              \<and> bl_last_event_created_at b' = Some (of_int (se_created ev)))))"
proof -
  have same: ?thesis if "billing_rows db' = billing_rows db" "org_limits db' = org_limits db"
  proof -
    have "billing_of o' db' = billing_of o' db" using that(1) by (rule billing_of_frame)
    with that(2) in_sync_cong [OF this] show ?thesis by simp
  qed
  from run show ?thesis
  proof (cases rule: process_event_cases)
    case (ignored s m new db1 org e)
    note fr = record_webhook_event_frame [OF ignored(3)]
    show ?thesis by (rule same) (simp_all add: ignored(5) fr)
  next
    case (handled org db1 db2 err m s)
    note fr = record_webhook_event_frame [OF handled(3)]
    have ok: "delivery_ok org (of_int (se_created ev)) db1 db2"
      using handled(4) by (rule handle_event_ok)
    have pre: "billing_of x db1 = billing_of x db" for x
      using fr(1) by (rule billing_of_frame)
    have post: "billing_of x db' = billing_of x db2" for x
      by (rule billing_of_frame) (simp add: handled(5))
    have sync1: "in_sync x db1 = in_sync x db" for x
      by (rule in_sync_cong [OF pre]) (simp add: fr(2))
    have sync2: "in_sync x db' = in_sync x db2" for x
      by (rule in_sync_cong [OF post]) (simp add: handled(5))
    show ?thesis
    proof (cases "o' = org")
      case True
      with ok handled(2) show ?thesis
        unfolding post sync2 delivery_ok_def pre sync1 by blast
    next
      case False
      with ok have eq: "billing_of o' db2 = billing_of o' db1" "org_limits db2 o' = org_limits db1 o'"
        unfolding delivery_ok_def by blast+
      then have "in_sync o' db2 = in_sync o' db1" by (rule in_sync_cong)
      then show ?thesis by (simp add: post sync2 eq(1) pre sync1)
    qed
  qed (simp_all add: same)
qed

lemma process_webhook_event_cases:
  assumes "process_webhook_event cfg verify sha raw sig utcnow now db = (res, db')"
  obtains "res = Inr (503, ''stripe webhook signing secret is not configured'')" "db' = db"
      "\<not> configured cfg"
  | "res = Inr (400, ''invalid signature'')" "db' = db" "construct_event cfg verify raw sig = Inr None"
  | ev where "construct_event cfg verify raw sig = Inr (Some ev)"
      "process_event cfg (sha raw) ev utcnow now db = (res, db')"
proof (cases "construct_event cfg verify raw sig")
  case (Inl e)
  then have "\<not> configured cfg" by (simp add: construct_event_def split: if_splits)
  with assms [symmetric] Inl that(1) show ?thesis by (simp add: process_webhook_event_def)
next
  case (Inr r)
  with assms [symmetric] that(2,3) show ?thesis
    by (cases r) (simp_all add: process_webhook_event_def)
qed

text \<open>
  C30. The limits that the pipeline enforces stay those of the plan: whatever arrives at the
  webhook endpoint, an organization whose limit columns match its entitlements before the
  delivery has matching columns after it.
\<close>

theorem webhook_keeps_limits_in_sync:
  assumes "in_sync org db"
  shows "in_sync org (snd (process_webhook_event cfg verify sha raw sig utcnow now db))"
proof -
  obtain res db' where run: "process_webhook_event cfg verify sha raw sig utcnow now db = (res, db')"
    by fastforce
  then have "in_sync org db'"
  proof (cases rule: process_webhook_event_cases)
    case (3 ev)
    with assms process_event_ok [OF 3(2)] show ?thesis by blast
  qed (use assms in simp_all)
  with run show ?thesis by simp
qed

text \<open>
  C31. A delivery changes the billing row of an organization only if it resolves to that
  organization and is not older than the last event applied to it; it then stamps its own
  time, so the time of the last applied event never decreases. It never grants the internal
  plan, and a delivery without a valid signature changes nothing.
\<close>

theorem webhook_billing_change_is_authorized:
  assumes run: "process_webhook_event cfg verify sha raw sig utcnow now db = (res, db')"
    and b: "billing_of org db = Some b" and changed: "billing_of org db' \<noteq> Some b"
  shows "\<exists>ev b'. construct_event cfg verify raw sig = Inr (Some ev) \<and> billing_of org db' = Some b'
    \<and> resolve_organization (se_object ev) db = Some org
    \<and> (bl_plan b' = ''internal'' \<longrightarrow> bl_plan b = ''internal'')
    \<and> (\<forall>t. bl_last_event_created_at b = Some t \<longrightarrow> t \<le> of_int (se_created ev))
    \<and> bl_last_event_created_at b' = Some (of_int (se_created ev))"
  using run
proof (cases rule: process_webhook_event_cases)
  case (3 ev)
  from process_event_ok [OF 3(2), of org] b obtain b' where b': "billing_of org db' = Some b'"
    "bl_plan b' = bl_plan b \<or> bl_plan b' \<in> set PURCHASABLE_PLANS"
    "b' = b \<or> resolve_organization (se_object ev) db = Some org
       \<and> event_is_current (of_int (se_created ev)) b
       \<and> bl_last_event_created_at b' = Some (of_int (se_created ev))"
    by blast
  with changed have cur: "resolve_organization (se_object ev) db = Some org"
      "event_is_current (of_int (se_created ev)) b"
      "bl_last_event_created_at b' = Some (of_int (se_created ev))"
    by auto
  have "bl_plan b' = ''internal'' \<longrightarrow> bl_plan b = ''internal''"
    using b'(2) by (auto simp: PURCHASABLE_PLANS_def)
  moreover have "\<forall>t. bl_last_event_created_at b = Some t \<longrightarrow> t \<le> of_int (se_created ev)"
    using cur(2) by (auto simp: event_is_current_def)
  ultimately show ?thesis using 3(1) b'(1) cur(1,3) by blast
qed (use b changed in simp_all)


text \<open>
  Delivering a webhook again is harmless: once a delivery has been answered with 200, the
  same payload is answered with 200 again and changes neither billing, limits, members nor
  the audit log.
\<close>

theorem redelivery_changes_nothing:
  assumes first: "process_webhook_event cfg verify sha raw sig utcnow now db = (Inr (200, m), db')"
  shows "\<exists>m' db''. process_webhook_event cfg verify sha raw sig utcnow' now' db' = (Inr (200, m'), db'')
    \<and> billing_rows db'' = billing_rows db' \<and> org_limits db'' = org_limits db'
    \<and> member_rows db'' = member_rows db' \<and> audit_events db'' = audit_events db'"
  using first
proof (cases rule: process_webhook_event_cases)
  case (3 ev)
  from 3(2) have rec: "event_recorded (se_id ev) db'"
  proof (cases rule: process_event_cases)
    case (ignored s m new db1 org e)
    then show ?thesis using record_webhook_event_frame(6) [OF ignored(3)] by simp
  next
    case (handled org db1 db2 err m s)
    have "webhook_events db2 = webhook_events db1"
      using handle_event_ok [OF handled(4)] by (simp add: delivery_ok_def)
    then have "event_recorded (se_id ev) db2"
      using record_webhook_event_frame(6) [OF handled(3)] by (simp add: event_recorded_def)
    with handled(5) show ?thesis by simp
  qed simp_all
  from 3(2) have t: "timestamp (se_created ev) = Inr (of_int (se_created ev))"
    by (auto simp: process_event_def timestamp_def split: if_splits)
  have dup: "record_webhook_event (se_id ev) ty tm h org nw db' = Inr (False, db')" for ty tm h org nw
    using rec by (simp add: record_webhook_event_def)
  have "process_event cfg (sha raw) ev utcnow' now' db'
      = (if se_type ev \<in> set HANDLED_EVENT_TYPES then (Inr (200, ''duplicate event''), db')
         else (Inr (200, ''event type not handled''),
               mark_webhook_event_processed (se_id ev) ''ignored'' None None now' db'))"
    by (simp add: process_event_def t dup)
  then show ?thesis
    using 3(1) by (simp add: process_webhook_event_def)
qed simp_all

subsection \<open>Witnesses\<close>

definition demo_config :: stripe_config where
  "demo_config = \<lparr>st_secret_key = ''sk'', st_webhook_secret = ''whsec'', st_price_starter = ''p1'',
     st_price_growth = ''p2'', st_price_pro = ''p3''\<rparr>"

definition demo_org :: org_row where
  "demo_org = \<lparr>or_organization_id = 7, or_name = ''Acme'', or_slug = ''acme'', or_status = ''active'',
     or_timezone = ''UTC'', or_company_domain = None, or_execution_mode = ''simulated'',
     or_onboarding_completed_at = None, or_created_at = 0, or_updated_at = 0\<rparr>"

definition demo_billing :: billing_row where
  "demo_billing = \<lparr>bl_organization_id = 7, bl_stripe_customer_id = Some ''cus'',
     bl_stripe_subscription_id = None, bl_plan = ''starter'', bl_status = ''none'',
     bl_period_start = None, bl_period_end = None, bl_cancel_at_period_end = False,
     bl_canceled_at = None, bl_last_event_created_at = Some 50, bl_updated_at = 0\<rparr>"

definition demo_accounts :: account_db where
  "demo_accounts = \<lparr>org_rows = [demo_org], org_limits = [7 \<mapsto> limits_of UNSUBSCRIBED],
     billing_rows = [demo_billing], webhook_events = [], member_rows = [], invitation_rows = [],
     api_key_rows = [], audit_events = []\<rparr>"

definition demo_subscription :: json_dict where
  "demo_subscription =
     [(''id'', JStr ''sub''), (''customer'', JStr ''cus''), (''status'', JStr ''active''),
      (''items'', JObj [(''data'', JList [JObj [(''price'', JObj [(''id'', JStr ''p2'')])]])])]"

definition demo_event :: stripe_event where
  "demo_event = \<lparr>se_id = ''evt'', se_type = ''customer.subscription.updated'', se_created = 100,
     se_object = demo_subscription\<rparr>"

abbreviation demo_delivery :: "(account_error + nat \<times> string) \<times> account_db" where
  "demo_delivery \<equiv> process_webhook_event demo_config (\<lambda>_ _ _. Some demo_event) (\<lambda>x. x)
     ''{}'' ''sig'' 200 200 demo_accounts"

lemma demo_delivery_result: "fst demo_delivery = Inr (200, ''processed'')"
  by code_simp

lemma demo_delivery_plan:
  "map_option bl_plan (billing_of 7 (snd demo_delivery)) = Some ''growth''"
  by code_simp

lemma webhook_keeps_limits_in_sync_witness:
  "in_sync 7 demo_accounts \<and> in_sync 7 (snd demo_delivery)"
proof -
  have "in_sync 7 demo_accounts"
    by (simp add: in_sync_def resolve_organization_entitlements_def get_billing_def billing_of_def
        demo_accounts_def demo_billing_def entitlements_of_def is_subscribed_def SUBSCRIBED_STATUSES_def)
  with webhook_keeps_limits_in_sync [OF this] show ?thesis by blast
qed

lemma webhook_billing_change_is_authorized_witness:
  "\<exists>b'. billing_of 7 (snd demo_delivery) = Some b' \<and> bl_last_event_created_at b' = Some 100"
proof -
  have run: "demo_delivery = (Inr (200, ''processed''), snd demo_delivery)"
    using demo_delivery_result by (metis prod.collapse)
  have b: "billing_of 7 demo_accounts = Some demo_billing"
    by (simp add: billing_of_def demo_accounts_def demo_billing_def)
  have "bl_plan demo_billing \<noteq> ''growth''" by (simp add: demo_billing_def)
  then have "billing_of 7 (snd demo_delivery) \<noteq> Some demo_billing"
    using demo_delivery_plan by auto
  from webhook_billing_change_is_authorized [OF run b this]
  obtain ev b' where "construct_event demo_config (\<lambda>_ _ _. Some demo_event) ''{}'' ''sig'' = Inr (Some ev)"
    "billing_of 7 (snd demo_delivery) = Some b'"
    "bl_last_event_created_at b' = Some (of_int (se_created ev))" by blast
  then show ?thesis
    by (auto simp: construct_event_def configured_def webhook_configured_def demo_config_def demo_event_def
        split: if_splits)
qed


lemma redelivery_changes_nothing_witness:
  "\<exists>m' db''. process_webhook_event demo_config (\<lambda>_ _ _. Some demo_event) (\<lambda>x. x) ''{}'' ''sig'' 300 300
      (snd demo_delivery) = (Inr (200, m'), db'')
    \<and> audit_events db'' = audit_events (snd demo_delivery)"
proof -
  have "demo_delivery = (Inr (200, ''processed''), snd demo_delivery)"
    using demo_delivery_result by (metis prod.collapse)
  from redelivery_changes_nothing [OF this, of 300 300] show ?thesis by blast
qed

subsection \<open>Where the code departs from its documentation\<close>

text \<open>
  A missing signing secret is documented to be answered with 503; with the API key configured
  it is answered with 400.
\<close>

lemma missing_webhook_secret_is_400:
  "configured cfg \<Longrightarrow> \<not> webhook_configured cfg \<Longrightarrow>
     process_webhook_event cfg verify sha raw sig utcnow now db = (Inr (400, ''invalid signature''), db)"
  by (simp add: process_webhook_event_def construct_event_def)

text \<open>A stale deletion leaves the billing row alone and is still audited as a cancellation.\<close>

lemma stale_deletion_is_audited:
  assumes b: "billing_of org db = Some b" and stale: "\<not> event_is_current t b"
    and id: "text_value (json_get_or obj ''id'' (JStr [])) = Inr sub_id"
    and ent: "sync_organization_limits org db = Inr db2"
  shows "handle_subscription_deleted org obj t utcnow now db
    = Inr (None, record_event org SYSTEM_ACTOR_ID ''billing.subscription_canceled'' [] db2)"
proof -
  have "get_billing org db = Inr b" using b by (simp add: get_billing_def)
  then show ?thesis
    unfolding handle_subscription_deleted_def
    by (simp add: id update_billing_from_subscription_def b stale ent)
qed

text \<open>An event of an unknown customer is resolved by its reference alone, whatever its type.\<close>

lemma reference_alone_resolves:
  "json_get obj ''customer'' = JStr c \<Longrightarrow> resolve_organization_id_by_customer c db = None
    \<Longrightarrow> resolve_organization obj db = resolve_by_reference obj"
  by (simp add: resolve_organization_def)

end
