(* ===== verification/Members.thy ===== *)
theory Members
  imports Billing Identity
begin

text \<open>
  \<open>arie.members\<close> and \<open>arie.invitations\<close>: changing and removing the members of an
  organization, and the life of an invitation from its creation to its acceptance. SHA-256,
  the random token, the mail service's answer, the application's clock (\<open>utcnow\<close>) and the
  database's clock are arguments. A row of \<open>organization_members\<close> is identified by the
  organization and the user; removal keeps the row.
\<close>

subsection \<open>Members\<close>

definition find_active :: "uuid \<Rightarrow> uuid \<Rightarrow> account_db \<Rightarrow> member_row option" where
  "find_active org user db = find (\<lambda>m. active_member org m \<and> mb_user_id m = user) (member_rows db)"

definition active_owner :: "uuid \<Rightarrow> member_row \<Rightarrow> bool" where
  "active_owner org m \<longleftrightarrow> active_member org m \<and> mb_role m = ''owner''"

definition count_active_owners :: "uuid \<Rightarrow> account_db \<Rightarrow> nat" where
  "count_active_owners org db = length (filter (active_owner org) (member_rows db))"

definition list_members :: "uuid \<Rightarrow> account_db \<Rightarrow> member_row list" where
  "list_members org db = sort_key mb_created_at (filter (active_member org) (member_rows db))"

definition set_active_member ::
    "uuid \<Rightarrow> uuid \<Rightarrow> (member_row \<Rightarrow> member_row) \<Rightarrow> account_db \<Rightarrow> account_db" where
  "set_active_member org user f db =
     db\<lparr>member_rows := map (\<lambda>m. if active_member org m \<and> mb_user_id m = user then f m else m)
          (member_rows db)\<rparr>"

definition uuid_str :: "uuid \<Rightarrow> string" where
  "uuid_str u = show_nat_digits u []"

definition update_member_role ::
    "uuid \<Rightarrow> uuid \<Rightarrow> string \<Rightarrow> uuid \<Rightarrow> instant \<Rightarrow> account_db
     \<Rightarrow> (account_error + member_row option) \<times> account_db" where
  "update_member_role org target new_role actor now db =
     (if new_role \<notin> set ROLES then (Inl (InvalidMemberRoleError new_role), db)
      else if target = actor then (Inl CannotActOnSelfError, db)
      else case find_active org target db of
        None \<Rightarrow> (Inr None, db)
      | Some current \<Rightarrow>
          (if mb_role current = ''owner'' \<and> new_role \<noteq> ''owner'' \<and> count_active_owners org db \<le> 1
           then (Inl LastOwnerError, db)
           else
             (let db1 = set_active_member org target (\<lambda>m. m\<lparr>mb_role := new_role, mb_updated_at := now\<rparr>) db
              in (Inr (find_active org target db1),
                  record_event org actor ''member.role_changed''
                    [(''user_id'', JStr (uuid_str target)), (''previous_role'', JStr (mb_role current)),
                     (''new_role'', JStr new_role)] db1))))"

definition remove_member ::
    "uuid \<Rightarrow> uuid \<Rightarrow> uuid \<Rightarrow> instant \<Rightarrow> account_db
     \<Rightarrow> (account_error + member_row option) \<times> account_db" where
  "remove_member org target actor now db =
     (if target = actor then (Inl CannotActOnSelfError, db)
      else case find_active org target db of
        None \<Rightarrow> (Inr None, db)
      | Some current \<Rightarrow>
          (if mb_role current = ''owner'' \<and> count_active_owners org db \<le> 1
           then (Inl LastOwnerError, db)
           else
             (let removed = (\<lambda>m. m\<lparr>mb_status := ''removed'', mb_updated_at := now\<rparr>);
                  db1 = set_active_member org target removed db
              in (Inr (Some (removed current)),
                  record_event org actor ''member.removed''
                    [(''user_id'', JStr (uuid_str target)),
                     (''previous_role'', JStr (mb_role current))] db1))))"

subsection \<open>Invitations\<close>

definition DEFAULT_EXPIRY :: real where
  "DEFAULT_EXPIRY = 7 * 86400"

definition pending_invitation :: "uuid \<Rightarrow> string \<Rightarrow> invitation_row \<Rightarrow> bool" where
  "pending_invitation org email v \<longleftrightarrow>
     iv_organization_id v = org \<and> iv_email v = email \<and> iv_status v = ''pending''"

definition create_invitation ::
    "(string \<Rightarrow> string) \<Rightarrow> uuid \<Rightarrow> uuid \<Rightarrow> string \<Rightarrow> string \<Rightarrow> uuid \<Rightarrow> string \<Rightarrow> instant \<Rightarrow> instant
     \<Rightarrow> account_db \<Rightarrow> (account_error + (string \<times> invitation_row)) \<times> account_db" where
  "create_invitation sha256 org inviter email role fresh raw_token utcnow now db =
     (if role \<notin> set ROLES then (Inl (InvalidInvitationRoleError role), db)
      else case normalize_email email of
        Inl e \<Rightarrow> (Inl (CoreError e), db)
      | Inr normalized \<Rightarrow>
          (case enforce_member_quota org db of
             Inl e \<Rightarrow> (Inl e, db)
           | Inr _ \<Rightarrow>
               (if list_ex (pending_invitation org normalized) (invitation_rows db)
                   \<or> list_ex (\<lambda>v. iv_token_hash v = sha256 raw_token \<or> iv_invitation_id v = fresh)
                       (invitation_rows db)
                then (Inl (DuplicateInvitationError normalized), db)
                else
                  (let row = \<lparr>iv_invitation_id = fresh, iv_organization_id = org, iv_email = normalized,
                              iv_role = role, iv_token_hash = sha256 raw_token,
                              iv_status = ''pending'', iv_invited_by = inviter, iv_created_at = now,
                              iv_expires_at = utcnow + DEFAULT_EXPIRY, iv_accepted_at = None,
                              iv_revoked_at = None, iv_email_status = ''pending'',
                              iv_email_error = None, iv_email_sent_at = None\<rparr>
                   in (Inr (raw_token, row),
                       record_event org inviter ''member.invited''
                         [(''invitation_id'', JStr (uuid_str fresh)), (''email'', JStr normalized),
                          (''role'', JStr role)]
                         (db\<lparr>invitation_rows := invitation_rows db @ [row]\<rparr>))))))"

definition list_invitations :: "uuid \<Rightarrow> account_db \<Rightarrow> invitation_row list" where
  "list_invitations org db =
     sort_key (\<lambda>v. - iv_created_at v) (filter (\<lambda>v. iv_organization_id v = org) (invitation_rows db))"

definition set_invitation ::
    "(invitation_row \<Rightarrow> bool) \<Rightarrow> (invitation_row \<Rightarrow> invitation_row) \<Rightarrow> account_db \<Rightarrow> account_db" where
  "set_invitation P f db =
     db\<lparr>invitation_rows := map (\<lambda>v. if P v then f v else v) (invitation_rows db)\<rparr>"

definition revoke_invitation ::
    "uuid \<Rightarrow> uuid \<Rightarrow> uuid \<Rightarrow> instant \<Rightarrow> account_db \<Rightarrow> invitation_row option \<times> account_db" where
  "revoke_invitation org invitation_id actor now db =
     (let P = (\<lambda>v. iv_invitation_id v = invitation_id \<and> iv_organization_id v = org
                 \<and> iv_status v = ''pending'');
          f = (\<lambda>v. v\<lparr>iv_status := ''revoked'', iv_revoked_at := Some now\<rparr>)
      in case find P (invitation_rows db) of
           None \<Rightarrow> (None, db)
         | Some v \<Rightarrow>
             (Some (f v), record_event org actor ''invitation.revoked''
                [(''invitation_id'', JStr (uuid_str invitation_id))] (set_invitation P f db)))"

text \<open>\<open>INSERT ... ON CONFLICT (organization_id, user_id) DO UPDATE\<close>\<close>

definition upsert_membership :: "uuid \<Rightarrow> uuid \<Rightarrow> string \<Rightarrow> instant \<Rightarrow> account_db \<Rightarrow> account_db" where
  "upsert_membership org user role now db =
     db\<lparr>member_rows :=
       (if list_ex (\<lambda>m. mb_organization_id m = org \<and> mb_user_id m = user) (member_rows db)
        then map (\<lambda>m. if mb_organization_id m = org \<and> mb_user_id m = user
                      then m\<lparr>mb_role := role, mb_status := ''active'', mb_updated_at := now\<rparr> else m)
               (member_rows db)
        else member_rows db @
          [\<lparr>mb_organization_id = org, mb_user_id = user, mb_role = role, mb_status = ''active'',
            mb_created_at = now, mb_updated_at = now\<rparr>])\<rparr>"

definition with_id :: "uuid \<Rightarrow> invitation_row \<Rightarrow> bool" where
  "with_id i v \<longleftrightarrow> iv_invitation_id v = i"

definition accept_invitation ::
    "(string \<Rightarrow> string) \<Rightarrow> string \<Rightarrow> string \<Rightarrow> uuid \<Rightarrow> instant \<Rightarrow> instant \<Rightarrow> account_db
     \<Rightarrow> (account_error + invitation_row option) \<times> account_db" where
  "accept_invitation sha256 raw_token verified_email user utcnow now db =
     (case find (\<lambda>v. iv_token_hash v = sha256 raw_token) (invitation_rows db) of
        None \<Rightarrow> (Inl InvitationNotFoundError, db)
      | Some v \<Rightarrow>
          (if iv_status v \<noteq> ''pending'' then (Inl InvitationNotFoundError, db)
           else if iv_expires_at v \<le> utcnow then
             (Inl (InvitationExpiredError (iv_invitation_id v)),
              set_invitation (with_id (iv_invitation_id v)) (\<lambda>w. w\<lparr>iv_status := ''expired''\<rparr>) db)
           else case normalize_email verified_email of
             Inl e \<Rightarrow> (Inl (CoreError e), db)
           | Inr email \<Rightarrow>
               (if email \<noteq> iv_email v then (Inl MismatchedInvitationEmailError, db)
                else case (if find_active (iv_organization_id v) user db \<noteq> None then Inr ()
                           else enforce_member_quota (iv_organization_id v) db) of
                  Inl e \<Rightarrow> (Inl e, db)
                | Inr _ \<Rightarrow>
                    (let db1 = upsert_membership (iv_organization_id v) user (iv_role v) now db;
                         db2 = set_invitation (with_id (iv_invitation_id v))
                           (\<lambda>w. w\<lparr>iv_status := ''accepted'', iv_accepted_at := Some now\<rparr>) db1;
                         db3 = record_event (iv_organization_id v) user ''invitation.accepted''
                           [(''invitation_id'', JStr (uuid_str (iv_invitation_id v))),
                            (''role'', JStr (iv_role v))] db2
                     in (Inr (find (\<lambda>w. iv_invitation_id w = iv_invitation_id v
                                \<and> iv_organization_id w = iv_organization_id v) (invitation_rows db3)),
                         db3)))))"

definition mark_invitation_email_status ::
    "uuid \<Rightarrow> string \<Rightarrow> string option \<Rightarrow> instant \<Rightarrow> account_db \<Rightarrow> account_db" where
  "mark_invitation_email_status invitation_id email_status email_error now db =
     set_invitation (with_id invitation_id)
       (\<lambda>w. w\<lparr>iv_email_status := email_status, iv_email_error := email_error,
              iv_email_sent_at := (if email_status = ''sent'' then Some now else iv_email_sent_at w)\<rparr>) db"

text \<open>The notifier's answer: delivered, or the error.\<close>

definition send_invitation_email ::
    "invitation_row \<Rightarrow> bool \<Rightarrow> string option \<Rightarrow> instant \<Rightarrow> account_db \<Rightarrow> account_db" where
  "send_invitation_email v delivered err now db =
     record_event (iv_organization_id v) (iv_invited_by v)
       (if delivered then ''invitation.email_sent'' else ''invitation.email_failed'')
       [(''invitation_id'', JStr (uuid_str (iv_invitation_id v)))]
       (mark_invitation_email_status (iv_invitation_id v)
          (if delivered then ''sent'' else ''failed'') (if delivered then None else err) now db)"

subsection \<open>An organization keeps an owner\<close>

definition has_owner :: "uuid \<Rightarrow> account_db \<Rightarrow> bool" where
  "has_owner org db \<longleftrightarrow> 0 < count_active_owners org db"

lemma has_owner_iff: "has_owner org db \<longleftrightarrow> (\<exists>m \<in> set (member_rows db). active_owner org m)"
  by (auto simp: has_owner_def count_active_owners_def filter_empty_conv)

lemma has_owner_cong: "member_rows db' = member_rows db \<Longrightarrow> has_owner org db' = has_owner org db"
  by (simp add: has_owner_def count_active_owners_def)

text \<open>A second active owner, when there are at least two.\<close>

lemma another_owner:
  assumes many: "1 < length (filter P xs)"
    and uniq: "\<And>a b. a \<in> set xs \<Longrightarrow> b \<in> set xs \<Longrightarrow> P a \<Longrightarrow> P b \<Longrightarrow> key a = key b \<Longrightarrow> a = b"
    and dist: "distinct (filter P xs)"
  shows "\<exists>m \<in> set xs. P m \<and> key m \<noteq> k"
proof (rule ccontr)
  assume "\<not> ?thesis"
  then have all: "\<forall>m \<in> set (filter P xs). key m = k" by auto
  obtain a b ys where ab: "filter P xs = a # b # ys"
    using many by (cases "filter P xs" rule: list.exhaust; cases "tl (filter P xs)") auto
  then have "a \<in> set (filter P xs)" "b \<in> set (filter P xs)" "a \<noteq> b"
    using dist by auto
  with all uniq [of a b] show False by auto
qed

text \<open>The primary key of \<open>organization_members\<close>.\<close>

definition members_keyed :: "account_db \<Rightarrow> bool" where
  "members_keyed db \<longleftrightarrow> distinct (map (\<lambda>m. (mb_organization_id m, mb_user_id m)) (member_rows db))"

lemma members_keyed_unique:
  assumes "members_keyed db" "a \<in> set (member_rows db)" "b \<in> set (member_rows db)"
    "mb_organization_id a = mb_organization_id b" "mb_user_id a = mb_user_id b"
  shows "a = b"
  using assms by (auto simp: members_keyed_def distinct_map inj_on_def)

lemma second_owner:
  assumes keyed: "members_keyed db" and many: "\<not> count_active_owners org db \<le> 1"
  shows "\<exists>m \<in> set (member_rows db). active_owner org m \<and> mb_user_id m \<noteq> target"
proof (rule another_owner [where key = mb_user_id])
  show "1 < length (filter (active_owner org) (member_rows db))"
    using many by (simp add: count_active_owners_def)
  show "distinct (filter (active_owner org) (member_rows db))"
    using keyed by (simp add: members_keyed_def distinct_map)
  fix a b
  assume "a \<in> set (member_rows db)" "b \<in> set (member_rows db)" "active_owner org a" "active_owner org b"
    "mb_user_id a = mb_user_id b"
  then show "a = b"
    by (intro members_keyed_unique [OF keyed]) (simp_all add: active_owner_def active_member_def)
qed

lemma set_active_member_rows:
  "member_rows (set_active_member org user f db)
     = map (\<lambda>m. if active_member org m \<and> mb_user_id m = user then f m else m) (member_rows db)"
  by (simp add: set_active_member_def)

lemma members_keyed_set_active:
  assumes "\<And>m. mb_organization_id (f m) = mb_organization_id m" "\<And>m. mb_user_id (f m) = mb_user_id m"
    and "members_keyed db"
  shows "members_keyed (set_active_member org user f db)"
proof -
  have "map (\<lambda>m. (mb_organization_id m, mb_user_id m))
      (map (\<lambda>m. if active_member org m \<and> mb_user_id m = user then f m else m) ms)
    = map (\<lambda>m. (mb_organization_id m, mb_user_id m)) ms" for ms
    by (induction ms) (simp_all add: assms(1,2))
  with assms(3) show ?thesis by (simp only: members_keyed_def set_active_member_rows)
qed

text \<open>An owner other than the one that is changed stays.\<close>

lemma owner_survives:
  assumes "m \<in> set (member_rows db)" "active_owner o' m" "o' \<noteq> org \<or> mb_user_id m \<noteq> user"
  shows "has_owner o' (set_active_member org user f db)"
proof -
  have "\<not> (active_member org m \<and> mb_user_id m = user)"
    using assms(2,3) by (auto simp: active_owner_def active_member_def)
  then have "m \<in> set (member_rows (set_active_member org user f db))"
    using assms(1) by (force simp: set_active_member_rows)
  with assms(2) show ?thesis by (auto simp: has_owner_iff)
qed

lemma find_active_Some:
  assumes "find_active org user db = Some m"
  shows "m \<in> set (member_rows db)" "active_member org m" "mb_user_id m = user"
  using assms by (auto simp: find_active_def find_Some_iff)

text \<open>Only the target is affected; and when the target is an owner that steps down, there is
  another one.\<close>

lemma set_member_keeps_owner:
  assumes keyed: "members_keyed db" and cur: "find_active org target db = Some current"
    and guard: "\<not> (mb_role current = ''owner'' \<and> steps_down \<and> count_active_owners org db \<le> 1)"
    and stays: "\<not> steps_down \<Longrightarrow> active_owner org (f current)"
    and owner: "has_owner o' db"
  shows "has_owner o' (set_active_member org target f db)"
proof -
  note c = find_active_Some [OF cur]
  obtain m where m: "m \<in> set (member_rows db)" "active_owner o' m"
    using owner by (auto simp: has_owner_iff)
  show ?thesis
  proof (cases "o' \<noteq> org \<or> mb_user_id m \<noteq> target")
    case True
    with m show ?thesis by (rule owner_survives)
  next
    case False
    with m c have "m = current"
      by (intro members_keyed_unique [OF keyed]) (auto simp: active_owner_def active_member_def)
    show ?thesis
    proof (cases steps_down)
      case True
      with guard m False \<open>m = current\<close> have "\<not> count_active_owners org db \<le> 1"
        by (auto simp: active_owner_def)
      from second_owner [OF keyed this, of target] False show ?thesis
        by (auto intro: owner_survives)
    next
      case sd: False
      have "f current \<in> set (member_rows (set_active_member org target f db))"
        using c by (force simp: set_active_member_rows)
      with stays [OF sd] False show ?thesis by (auto simp: has_owner_iff)
    qed
  qed
qed

lemma update_member_role_keeps_owner:
  assumes "members_keyed db" "has_owner o' db"
  shows "has_owner o' (snd (update_member_role org target new_role actor now db))"
proof (cases "find_active org target db")
  case None
  with assms show ?thesis by (simp add: update_member_role_def)
next
  case (Some current)
  have "has_owner o' (set_active_member org target (\<lambda>m. m\<lparr>mb_role := new_role, mb_updated_at := now\<rparr>) db)"
    if "\<not> (mb_role current = ''owner'' \<and> new_role \<noteq> ''owner'' \<and> count_active_owners org db \<le> 1)"
    using assms(1) Some that
  proof (rule set_member_keeps_owner)
    show "active_owner org (current\<lparr>mb_role := new_role, mb_updated_at := now\<rparr>)"
      if "\<not> new_role \<noteq> ''owner''"
      using find_active_Some(2) [OF Some] that by (simp add: active_owner_def active_member_def)
  qed (rule assms(2))
  with assms(2) Some show ?thesis
    unfolding update_member_role_def Let_def
    by (simp add: has_owner_cong [OF record_event_frame(5)])
qed

lemma remove_member_keeps_owner:
  assumes "members_keyed db" "has_owner o' db"
  shows "has_owner o' (snd (remove_member org target actor now db))"
proof (cases "find_active org target db")
  case None
  with assms show ?thesis by (simp add: remove_member_def)
next
  case (Some current)
  have "has_owner o' (set_active_member org target (\<lambda>m. m\<lparr>mb_status := ''removed'', mb_updated_at := now\<rparr>) db)"
    if "\<not> (mb_role current = ''owner'' \<and> count_active_owners org db \<le> 1)"
    using assms(1) Some
  proof (rule set_member_keeps_owner [where steps_down = True])
    show "\<not> (mb_role current = ''owner'' \<and> True \<and> count_active_owners org db \<le> 1)"
      using that by simp
  qed (use assms(2) in simp_all)
  with assms(2) Some show ?thesis
    unfolding remove_member_def Let_def
    by (simp add: has_owner_cong [OF record_event_frame(5)])
qed

lemma members_keyed_cong: "member_rows db' = member_rows db \<Longrightarrow> members_keyed db' = members_keyed db"
  by (simp add: members_keyed_def)

lemma members_keyed_update:
  "members_keyed db \<Longrightarrow> members_keyed (snd (update_member_role org target new_role actor now db))"
  unfolding update_member_role_def Let_def
  by (auto simp: members_keyed_cong [OF record_event_frame(5)] intro: members_keyed_set_active
      split: option.split)

lemma members_keyed_remove:
  "members_keyed db \<Longrightarrow> members_keyed (snd (remove_member org target actor now db))"
  unfolding remove_member_def Let_def
  by (auto simp: members_keyed_cong [OF record_event_frame(5)] intro: members_keyed_set_active
      split: option.split)

subsection \<open>Accepting an invitation\<close>

lemma set_invitation_members [simp]: "member_rows (set_invitation P f db) = member_rows db"
  by (simp add: set_invitation_def)

lemma upsert_rows:
  "member_rows (upsert_membership org user role now db) =
    (if list_ex (\<lambda>m. mb_organization_id m = org \<and> mb_user_id m = user) (member_rows db)
     then map (\<lambda>m. if mb_organization_id m = org \<and> mb_user_id m = user
                   then m\<lparr>mb_role := role, mb_status := ''active'', mb_updated_at := now\<rparr> else m)
            (member_rows db)
     else member_rows db @
       [\<lparr>mb_organization_id = org, mb_user_id = user, mb_role = role, mb_status = ''active'',
         mb_created_at = now, mb_updated_at = now\<rparr>])"
  by (simp add: upsert_membership_def)

lemma members_keyed_upsert:
  assumes "members_keyed db"
  shows "members_keyed (upsert_membership org user role now db)"
proof -
  let ?k = "\<lambda>m. (mb_organization_id m, mb_user_id m)"
  have "map ?k (map (\<lambda>m. if mb_organization_id m = org \<and> mb_user_id m = user
                   then m\<lparr>mb_role := role, mb_status := ''active'', mb_updated_at := now\<rparr> else m) ms)
      = map ?k ms" for ms :: "member_row list"
    by (induction ms) simp_all
  moreover have "(org, user) \<notin> set (map ?k (member_rows db))"
    if "\<not> list_ex (\<lambda>m. mb_organization_id m = org \<and> mb_user_id m = user) (member_rows db)"
    using that by (auto simp: list_ex_iff)
  ultimately show ?thesis
    using assms by (simp only: members_keyed_def upsert_rows split: if_split) simp
qed

text \<open>The row of another user, or of another organization, is not touched.\<close>

lemma upsert_other:
  "m \<in> set (member_rows db) \<Longrightarrow> mb_organization_id m \<noteq> org \<or> mb_user_id m \<noteq> user
    \<Longrightarrow> m \<in> set (member_rows (upsert_membership org user role now db))"
  by (force simp: upsert_rows)

lemma upsert_keeps_owner:
  assumes owner: "has_owner o' db"
    and other: "\<And>m. find_active org user db = Some m \<Longrightarrow> mb_role m = ''owner'' \<Longrightarrow> role = ''owner''"
    and keyed: "members_keyed db"
  shows "has_owner o' (upsert_membership org user role now db)"
proof -
  from owner obtain m where m: "m \<in> set (member_rows db)" "active_owner o' m"
    by (auto simp: has_owner_iff)
  show ?thesis
  proof (cases "mb_organization_id m = org \<and> mb_user_id m = user")
    case False
    with m(1) have "m \<in> set (member_rows (upsert_membership org user role now db))"
      by (intro upsert_other) auto
    with m(2) show ?thesis by (auto simp: has_owner_iff)
  next
    case True
    with m have "\<exists>x \<in> set (member_rows db). active_member org x \<and> mb_user_id x = user"
      by (auto simp: active_owner_def active_member_def)
    then obtain m' where m': "find_active org user db = Some m'"
      by (cases "find_active org user db") (auto simp: find_active_def find_None_iff)
    note c = find_active_Some [OF m']
    have "m' = m"
      using c True m by (intro members_keyed_unique [OF keyed]) (auto simp: active_member_def)
    with other [OF m'] m(2) have "role = ''owner''" by (simp add: active_owner_def)
    moreover from True m(1) have "m\<lparr>mb_role := role, mb_status := ''active'', mb_updated_at := now\<rparr>
        \<in> set (member_rows (upsert_membership org user role now db))"
      by (force simp: upsert_rows list_ex_iff)
    moreover from m(2) have "role = ''owner'' \<Longrightarrow>
        active_owner o' (m\<lparr>mb_role := role, mb_status := ''active'', mb_updated_at := now\<rparr>)"
      by (simp add: active_owner_def active_member_def)
    ultimately show ?thesis
      unfolding has_owner_iff by blast
  qed
qed

text \<open>What a successful acceptance has checked and done.\<close>

lemma accept_success:
  assumes run: "accept_invitation sha token email user utcnow now db = (Inr r, db')"
  obtains v where "find (\<lambda>v. iv_token_hash v = sha token) (invitation_rows db) = Some v"
    and "iv_status v = ''pending''" "utcnow < iv_expires_at v" "normalize_email email = Inr (iv_email v)"
    and "find_active (iv_organization_id v) user db \<noteq> None
         \<or> enforce_member_quota (iv_organization_id v) db = Inr ()"
    and "member_rows db' = member_rows (upsert_membership (iv_organization_id v) user (iv_role v) now db)"
    and "invitation_rows db' = map (\<lambda>w. if with_id (iv_invitation_id v) w
           then w\<lparr>iv_status := ''accepted'', iv_accepted_at := Some now\<rparr> else w) (invitation_rows db)"
proof (cases "find (\<lambda>v. iv_token_hash v = sha token) (invitation_rows db)")
  case None
  with run show ?thesis by (simp add: accept_invitation_def)
next
  case (Some v)
  note eq = run [symmetric, unfolded accept_invitation_def Some option.case]
  show ?thesis
  proof (cases "iv_status v = ''pending'' \<and> utcnow < iv_expires_at v \<and> normalize_email email = Inr (iv_email v)")
    case False
    with eq show ?thesis by (auto split: if_splits sum.splits)
  next
    case True
    define q where "q = (if find_active (iv_organization_id v) user db \<noteq> None then Inr ()
                         else enforce_member_quota (iv_organization_id v) db)"
    show ?thesis
    proof (cases q)
      case (Inl e)
      with eq True show ?thesis by (simp add: q_def)
    next
      case (Inr u)
      with True have "find_active (iv_organization_id v) user db \<noteq> None
          \<or> enforce_member_quota (iv_organization_id v) db = Inr ()"
        by (auto simp: q_def split: if_splits)
      moreover have db': "db' = record_event (iv_organization_id v) user ''invitation.accepted''
          [(''invitation_id'', JStr (uuid_str (iv_invitation_id v))), (''role'', JStr (iv_role v))]
          (set_invitation (with_id (iv_invitation_id v))
             (\<lambda>w. w\<lparr>iv_status := ''accepted'', iv_accepted_at := Some now\<rparr>)
             (upsert_membership (iv_organization_id v) user (iv_role v) now db))"
        using eq True Inr by (simp add: q_def Let_def)
      ultimately show ?thesis
        using Some True
        by (intro that [of v]) (simp_all add: set_invitation_def upsert_membership_def)
    qed
  qed
qed

lemma accept_failure:
  "accept_invitation sha token email user utcnow now db = (Inl e, db') \<Longrightarrow> member_rows db' = member_rows db"
  unfolding accept_invitation_def Let_def
  by (auto split: option.splits if_splits sum.splits)

subsection \<open>The accounts as a state machine\<close>

text \<open>
  One request against the members and invitations of an organization. An acceptance by
  someone who is an active owner and would become something else is left out; it is the one
  request that can take the last owner away (below).
\<close>

inductive member_step :: "(string \<Rightarrow> string) \<Rightarrow> account_db \<Rightarrow> account_db \<Rightarrow> bool" for sha where
  change_role: "member_step sha db (snd (update_member_role org target role actor now db))"
| remove: "member_step sha db (snd (remove_member org target actor now db))"
| invite: "member_step sha db (snd (create_invitation sha org inviter email role fresh token utcnow now db))"
| revoke: "member_step sha db (snd (revoke_invitation org i actor now db))"
| mail: "member_step sha db (send_invitation_email v delivered err now db)"
| accept: "(\<And>v m. find (\<lambda>v. iv_token_hash v = sha token) (invitation_rows db) = Some v
      \<Longrightarrow> find_active (iv_organization_id v) user db = Some m \<Longrightarrow> mb_role m = ''owner''
      \<Longrightarrow> iv_role v = ''owner'')
    \<Longrightarrow> member_step sha db (snd (accept_invitation sha token email user utcnow now db))"

inductive members_reachable :: "(string \<Rightarrow> string) \<Rightarrow> account_db \<Rightarrow> account_db \<Rightarrow> bool" for sha db0 where
  start: "members_reachable sha db0 db0"
| member: "members_reachable sha db0 db \<Longrightarrow> member_step sha db db' \<Longrightarrow> members_reachable sha db0 db'"

lemma create_invitation_members [simp]:
  "member_rows (snd (create_invitation sha org inviter email role fresh token utcnow now db)) = member_rows db"
  by (simp add: create_invitation_def Let_def split: sum.split)

lemma revoke_invitation_members [simp]:
  "member_rows (snd (revoke_invitation org i actor now db)) = member_rows db"
  by (simp add: revoke_invitation_def Let_def split: option.split)

lemma send_invitation_members [simp]:
  "member_rows (send_invitation_email v delivered err now db) = member_rows db"
  by (simp add: send_invitation_email_def mark_invitation_email_status_def)

definition keeps_owner :: "uuid \<Rightarrow> account_db \<Rightarrow> bool" where
  "keeps_owner org db \<longleftrightarrow> members_keyed db \<and> has_owner org db"

lemma keeps_owner_cong: "member_rows db' = member_rows db \<Longrightarrow> keeps_owner org db' = keeps_owner org db"
  unfolding keeps_owner_def by (simp only: has_owner_cong [of db' db] members_keyed_cong [of db' db])

lemma accept_keeps_owner:
  assumes inv: "keeps_owner org db"
    and guard: "\<And>v m. find (\<lambda>v. iv_token_hash v = sha token) (invitation_rows db) = Some v
      \<Longrightarrow> find_active (iv_organization_id v) user db = Some m \<Longrightarrow> mb_role m = ''owner''
      \<Longrightarrow> iv_role v = ''owner''"
  shows "keeps_owner org (snd (accept_invitation sha token email user utcnow now db))"
proof (cases "accept_invitation sha token email user utcnow now db")
  case (Pair r db')
  show ?thesis
  proof (cases r)
    case (Inl e)
    with Pair have "member_rows db' = member_rows db" by (auto dest: accept_failure)
    from keeps_owner_cong [OF this] inv Pair show ?thesis by simp
  next
    case (Inr x)
    with Pair have run: "accept_invitation sha token email user utcnow now db = (Inr x, db')" by simp
    obtain v where v: "find (\<lambda>v. iv_token_hash v = sha token) (invitation_rows db) = Some v"
      and rows: "member_rows db' = member_rows (upsert_membership (iv_organization_id v) user (iv_role v) now db)"
      using run by (rule accept_success) blast
    have "keeps_owner org (upsert_membership (iv_organization_id v) user (iv_role v) now db)"
      using inv guard [OF v] by (auto simp: keeps_owner_def intro: upsert_keeps_owner members_keyed_upsert)
    with keeps_owner_cong [OF rows] Pair show ?thesis by simp
  qed
qed

lemma member_step_keeps_owner: "member_step sha db db' \<Longrightarrow> keeps_owner org db \<Longrightarrow> keeps_owner org db'"
proof (induction rule: member_step.induct)
  case (change_role db o' target role actor now)
  then show ?case
    by (simp add: keeps_owner_def update_member_role_keeps_owner members_keyed_update)
next
  case (remove db o' target actor now)
  then show ?case
    by (simp add: keeps_owner_def remove_member_keeps_owner members_keyed_remove)
next
  case (accept token db user email utcnow now)
  show ?case by (rule accept_keeps_owner [OF accept.prems accept.hyps])
next
  case invite
  then show ?case by (simp only: keeps_owner_cong [OF create_invitation_members])
next
  case revoke
  then show ?case by (simp only: keeps_owner_cong [OF revoke_invitation_members])
next
  case mail
  then show ?case by (simp only: keeps_owner_cong [OF send_invitation_members])
qed

text \<open>
  C33. An organization never loses its last owner: from any state in which it has an active
  owner, every sequence of role changes, removals, invitations, revocations and acceptances
  (those by an active owner of a lesser role excepted) leads to a state in which it has one.
\<close>

theorem organization_keeps_an_owner:
  assumes "members_reachable sha db0 db" and "members_keyed db0" and "has_owner org db0"
  shows "has_owner org db"
proof -
  from assms(1) have "keeps_owner org db"
    by induction (use assms(2,3) member_step_keeps_owner in \<open>auto simp: keeps_owner_def\<close>)
  then show ?thesis by (simp add: keeps_owner_def)
qed

text \<open>
  An invitation is good for one acceptance: after a successful one, the same token is
  answered as unknown, whoever presents it and whenever.
\<close>

theorem invitation_accepted_once:
  assumes "accept_invitation sha token email user utcnow now db = (Inr r, db')"
  shows "accept_invitation sha token email' user' utcnow' now' db' = (Inl InvitationNotFoundError, db')"
proof -
  obtain v where v: "find (\<lambda>v. iv_token_hash v = sha token) (invitation_rows db) = Some v"
    and rows: "invitation_rows db' = map (\<lambda>w. if with_id (iv_invitation_id v) w
           then w\<lparr>iv_status := ''accepted'', iv_accepted_at := Some now\<rparr> else w) (invitation_rows db)"
    using assms by (rule accept_success) blast
  have "find P (map f xs) = map_option f (find P xs)" if "\<And>x. P (f x) = P x" for P :: "invitation_row \<Rightarrow> bool" and f xs
    using that by (induction xs) auto
  from this [of "\<lambda>w. iv_token_hash w = sha token"]
  have "find (\<lambda>w. iv_token_hash w = sha token) (invitation_rows db')
      = Some (v\<lparr>iv_status := ''accepted'', iv_accepted_at := Some now\<rparr>)"
    unfolding rows by (simp add: v with_id_def)
  then show ?thesis by (simp add: accept_invitation_def)
qed

text \<open>
  Accepting an invitation never takes an organization over its plan: if the number of
  active members grows at all, it ends within the plan's ceiling.
\<close>

lemma count_upsert:
  assumes keyed: "members_keyed db" and absent: "find_active org user db = None"
  shows "count_active_members org (upsert_membership org user role now db) \<le> Suc (count_active_members org db)"
proof -
  let ?P = "\<lambda>m. mb_organization_id m = org \<and> mb_user_id m = user"
  let ?f = "\<lambda>m. if ?P m then m\<lparr>mb_role := role, mb_status := ''active'', mb_updated_at := now\<rparr> else m"
  have none: "length (filter (active_member org) (map ?f ms)) = length (filter (active_member org) ms)"
    if "\<not> list_ex ?P ms" for ms
    using that by (induction ms) auto
  have one: "length (filter (active_member org) (map ?f ms)) \<le> Suc (length (filter (active_member org) ms))"
    if "distinct (map (\<lambda>m. (mb_organization_id m, mb_user_id m)) ms)" for ms
    using that
  proof (induction ms)
    case (Cons m ms)
    show ?case
    proof (cases "?P m")
      case True
      with Cons.prems have "(org, user) \<notin> (\<lambda>m. (mb_organization_id m, mb_user_id m)) ` set ms"
        by simp
      then have "\<not> list_ex ?P ms" by (auto simp: list_ex_iff)
      from none [OF this] True show ?thesis by (simp del: length_filter_map)
    next
      case False
      with Cons show ?thesis by (auto simp del: length_filter_map)
    qed
  qed simp
  from keyed one [of "member_rows db"] show ?thesis
    by (simp add: count_active_members_def upsert_rows members_keyed_def del: length_filter_map)
qed

theorem acceptance_respects_member_quota:
  assumes keyed: "members_keyed db"
    and run: "accept_invitation sha token email user utcnow now db = (Inr r, db')"
    and grew: "count_active_members org db < count_active_members org db'"
  shows "\<exists>e. resolve_organization_entitlements org db = Inr e
    \<and> int (count_active_members org db') \<le> en_max_members e"
proof -
  obtain v :: invitation_row where v: "find_active (iv_organization_id v) user db \<noteq> None
         \<or> enforce_member_quota (iv_organization_id v) db = Inr ()"
    and rows: "member_rows db' = member_rows (upsert_membership (iv_organization_id v) user (iv_role v) now db)"
    using run by (rule accept_success) (rule that, assumption+)
  have eq: "count_active_members org db'
      = count_active_members org (upsert_membership (iv_organization_id v) user (iv_role v) now db)"
    by (simp add: count_active_members_def rows)
  have org: "org = iv_organization_id v"
  proof (rule ccontr)
    assume "org \<noteq> iv_organization_id v"
    then have "filter (active_member org) (map (\<lambda>m. if mb_organization_id m = iv_organization_id v \<and> mb_user_id m = user
        then m\<lparr>mb_role := iv_role v, mb_status := ''active'', mb_updated_at := now\<rparr> else m) ms)
      = filter (active_member org) ms" for ms
      by (induction ms) (auto simp: active_member_def)
    with \<open>org \<noteq> iv_organization_id v\<close> grew eq show False
      by (simp add: count_active_members_def upsert_rows active_member_def split: if_splits)
  qed
  have absent: "find_active org user db = None"
  proof (rule ccontr)
    assume "find_active org user db \<noteq> None"
    then obtain m where m: "find_active org user db = Some m" by blast
    note c = find_active_Some [OF m]
    have "filter (active_member org) (map (\<lambda>m. if mb_organization_id m = org \<and> mb_user_id m = user
        then m\<lparr>mb_role := iv_role v, mb_status := ''active'', mb_updated_at := now\<rparr> else m) ms)
      = map (\<lambda>m. if mb_organization_id m = org \<and> mb_user_id m = user
        then m\<lparr>mb_role := iv_role v, mb_status := ''active'', mb_updated_at := now\<rparr> else m)
          (filter (active_member org) ms)"
      if "\<And>x. x \<in> set ms \<Longrightarrow> mb_organization_id x = org \<Longrightarrow> mb_user_id x = user \<Longrightarrow> active_member org x" for ms
      using that by (induction ms) (auto simp: active_member_def)
    moreover have "active_member org x" if "x \<in> set (member_rows db)" "mb_organization_id x = org" "mb_user_id x = user" for x
    proof -
      have "x = m"
        using that c by (intro members_keyed_unique [OF keyed]) (auto simp: active_member_def)
      with c show ?thesis by simp
    qed
    moreover have "list_ex (\<lambda>m. mb_organization_id m = org \<and> mb_user_id m = user) (member_rows db)"
      using c by (auto simp: list_ex_iff active_member_def)
    ultimately have "count_active_members org db' = count_active_members org db"
      unfolding eq by (simp add: count_active_members_def upsert_rows flip: org)
    with grew show False by simp
  qed
  with v have "enforce_member_quota org db = Inr ()" by (simp flip: org)
  then obtain e where e: "resolve_organization_entitlements org db = Inr e"
    "int (count_active_members org db) < en_max_members e"
    by (auto simp: enforce_member_quota_def sum_bind_Inr split: if_splits)
  with count_upsert [OF keyed absent, of "iv_role v" now] show ?thesis
    by (intro exI [of _ e]) (simp add: eq flip: org)
qed

subsection \<open>Witnesses, and the last owner that accepts\<close>

definition demo_member :: "uuid \<Rightarrow> string \<Rightarrow> member_row" where
  "demo_member user role = \<lparr>mb_organization_id = 7, mb_user_id = user, mb_role = role,
     mb_status = ''active'', mb_created_at = 0, mb_updated_at = 0\<rparr>"

definition demo_invitation :: "string \<Rightarrow> string \<Rightarrow> invitation_row" where
  "demo_invitation email role = \<lparr>iv_invitation_id = 1, iv_organization_id = 7, iv_email = email,
     iv_role = role, iv_token_hash = ''tok'', iv_status = ''pending'', iv_invited_by = 3,
     iv_created_at = 0, iv_expires_at = DEFAULT_EXPIRY, iv_accepted_at = None,
     iv_revoked_at = None, iv_email_status = ''sent'', iv_email_error = None, iv_email_sent_at = None\<rparr>"

definition demo_billing_row :: billing_row where
  "demo_billing_row = \<lparr>bl_organization_id = 7, bl_stripe_customer_id = None,
     bl_stripe_subscription_id = None, bl_plan = ''growth'', bl_status = ''active'',
     bl_period_start = None, bl_period_end = None, bl_cancel_at_period_end = False,
     bl_canceled_at = None, bl_last_event_created_at = None, bl_updated_at = 0\<rparr>"

definition demo_members :: "member_row list \<Rightarrow> invitation_row list \<Rightarrow> account_db" where
  "demo_members ms ivs = \<lparr>org_rows = [], org_limits = Map.empty, billing_rows = [demo_billing_row],
     webhook_events = [], member_rows = ms, invitation_rows = ivs, api_key_rows = [],
     audit_events = []\<rparr>"

abbreviation two_owners :: account_db where
  "two_owners \<equiv> demo_members [demo_member 1 ''owner'', demo_member 2 ''owner''] []"

lemma organization_keeps_an_owner_witness:
  "has_owner 7 (snd (remove_member 7 1 2 5 two_owners))
   \<and> fst (remove_member 7 1 2 5 (snd (update_member_role 7 1 ''admin'' 2 4 two_owners))) \<noteq> Inl LastOwnerError
   \<and> fst (remove_member 7 2 1 5 (snd (remove_member 7 1 2 5 two_owners))) = Inl LastOwnerError"
proof -
  have "members_reachable (\<lambda>x. x) two_owners (snd (remove_member 7 1 2 5 two_owners))"
    by (rule members_reachable.member [OF members_reachable.start member_step.remove])
  moreover have "members_keyed two_owners" by code_simp
  moreover have "has_owner 7 two_owners" by code_simp
  ultimately have "has_owner 7 (snd (remove_member 7 1 2 5 two_owners))"
    by (rule organization_keeps_an_owner)
  moreover have "fst (remove_member 7 1 2 5 (snd (update_member_role 7 1 ''admin'' 2 4 two_owners)))
      \<noteq> Inl LastOwnerError" by code_simp
  moreover have "fst (remove_member 7 2 1 5 (snd (remove_member 7 1 2 5 two_owners))) = Inl LastOwnerError"
    by code_simp
  ultimately show ?thesis by blast
qed

abbreviation one_invited :: account_db where
  "one_invited \<equiv> demo_members [demo_member 1 ''owner''] [demo_invitation ''a@b.c'' ''admin'']"

abbreviation demo_accept :: "(account_error + invitation_row option) \<times> account_db" where
  "demo_accept \<equiv> accept_invitation (\<lambda>x. x) ''tok'' ''A@b.c'' 2 9 9 one_invited"

lemma demo_accept_result:
  "\<not> isl (fst demo_accept)" "count_active_members 7 one_invited < count_active_members 7 (snd demo_accept)"
  by code_simp+

lemma demo_accept_run: "\<exists>r. demo_accept = (Inr r, snd demo_accept)"
  using demo_accept_result(1) by (metis (no_types, lifting) prod.collapse sum.collapse(2))

lemma invitation_accepted_once_witness:
  "accept_invitation (\<lambda>x. x) ''tok'' ''A@b.c'' 2 10 10 (snd demo_accept)
     = (Inl InvitationNotFoundError, snd demo_accept)"
proof -
  obtain r where "demo_accept = (Inr r, snd demo_accept)" using demo_accept_run by blast
  then show ?thesis by (rule invitation_accepted_once)
qed

lemma acceptance_respects_member_quota_witness:
  "\<exists>e. resolve_organization_entitlements 7 one_invited = Inr e
     \<and> int (count_active_members 7 (snd demo_accept)) \<le> en_max_members e"
proof -
  obtain r where run: "demo_accept = (Inr r, snd demo_accept)" using demo_accept_run by blast
  have "members_keyed one_invited" by code_simp
  then show ?thesis
    using run demo_accept_result(2) by (rule acceptance_respects_member_quota)
qed

text \<open>
  The case the invariant leaves out is real: the sole owner of an organization who accepts an
  invitation to a lesser role, sent to their own address, is demoted by the upsert, and the
  organization has no owner any more, which the guards of role changes and removals exist to
  prevent.
\<close>

lemma accepting_can_remove_last_owner:
  defines "db \<equiv> demo_members [demo_member 1 ''owner''] [demo_invitation ''a@b.c'' ''analyst_reviewer'']"
  shows "has_owner 7 db
    \<and> \<not> isl (fst (accept_invitation (\<lambda>x. x) ''tok'' ''a@b.c'' 1 9 9 db))
    \<and> \<not> has_owner 7 (snd (accept_invitation (\<lambda>x. x) ''tok'' ''a@b.c'' 1 9 9 db))"
  unfolding db_def by code_simp

end
