(* ===== verification/Access.thy ===== *)
theory Access
  imports Members
begin

text \<open>
  Who may call, and for which organization: \<open>arie.auth\<close> (a Supabase token and a membership),
  \<open>arie.apikeys\<close> (a machine credential that carries its own organization and scopes),
  \<open>arie.provisioning\<close> (a new organization with its owner) and \<open>arie.data_class\<close> (what a
  caller may claim about the origin of a lead). The verification of a token, SHA-256 and the
  random draws are parameters; a token's \<open>sub\<close> claim is a string.
\<close>

subsection \<open>API keys\<close>

definition API_KEY_PREFIX :: string where
  "API_KEY_PREFIX = ''arie_''"

definition PREFIX_STORED_LENGTH :: nat where
  "PREFIX_STORED_LENGTH = 12"

definition SCOPES :: "string list" where
  "SCOPES = [''leads:write'', ''leads:read'', ''reviews:read'', ''reviews:write'']"

record generated_api_key =
  gk_raw_key :: string
  gk_key_prefix :: string
  gk_key_hash :: string

definition generate_api_key :: "(string \<Rightarrow> string) \<Rightarrow> string \<Rightarrow> generated_api_key" where
  "generate_api_key sha256 token =
     (let raw = API_KEY_PREFIX @ token
      in \<lparr>gk_raw_key = raw, gk_key_prefix = take PREFIX_STORED_LENGTH raw, gk_key_hash = sha256 raw\<rparr>)"

definition looks_like_api_key :: "string \<Rightarrow> bool" where
  "looks_like_api_key token \<longleftrightarrow> starts_with token API_KEY_PREFIX"

text \<open>The INSERT: \<open>None\<close> is the UniqueViolation that the loop retries.\<close>

definition insert_api_key :: "api_key_row \<Rightarrow> account_db \<Rightarrow> account_error + account_db option" where
  "insert_api_key r db =
     (if \<not> (set (ak_scopes r) \<subseteq> set SCOPES) then Inl DatabaseError
      else if list_ex (\<lambda>k. ak_key_id k = ak_key_id r \<or> ak_key_prefix k = ak_key_prefix r) (api_key_rows db)
      then Inr None
      else Inr (Some (db\<lparr>api_key_rows := api_key_rows db @ [r]\<rparr>)))"

fun create_api_key_loop ::
    "(string \<Rightarrow> string) \<Rightarrow> uuid \<Rightarrow> uuid \<Rightarrow> string \<Rightarrow> string list \<Rightarrow> instant \<Rightarrow> (uuid \<times> string) list
     \<Rightarrow> account_db \<Rightarrow> (account_error + (api_key_row \<times> string)) \<times> account_db" where
  "create_api_key_loop sha256 org user label scopes now [] db = (Inl RuntimeError, db)"
| "create_api_key_loop sha256 org user label scopes now ((fresh, token) # draws) db =
     (let g = generate_api_key sha256 token;
          r = \<lparr>ak_key_id = fresh, ak_organization_id = org, ak_label = label,
               ak_key_prefix = gk_key_prefix g, ak_key_hash = gk_key_hash g, ak_scopes = scopes,
               ak_created_by = user, ak_created_at = now, ak_last_used_at = None,
               ak_revoked_at = None\<rparr>
      in case insert_api_key r db of
           Inl e \<Rightarrow> (Inl e, db)
         | Inr (Some db') \<Rightarrow> (Inr (r, gk_raw_key g), db')
         | Inr None \<Rightarrow> create_api_key_loop sha256 org user label scopes now draws db)"

definition create_api_key ::
    "(string \<Rightarrow> string) \<Rightarrow> uuid \<Rightarrow> uuid \<Rightarrow> string \<Rightarrow> string list \<Rightarrow> instant \<Rightarrow> (nat \<Rightarrow> uuid \<times> string)
     \<Rightarrow> account_db \<Rightarrow> (account_error + (api_key_row \<times> string)) \<times> account_db" where
  "create_api_key sha256 org user label scopes now draw db =
     create_api_key_loop sha256 org user label scopes now (map draw [0..<5]) db"

definition list_api_keys :: "uuid \<Rightarrow> account_db \<Rightarrow> api_key_row list" where
  "list_api_keys org db =
     sort_key (\<lambda>k. - ak_created_at k) (filter (\<lambda>k. ak_organization_id k = org) (api_key_rows db))"

definition set_api_key ::
    "(api_key_row \<Rightarrow> bool) \<Rightarrow> (api_key_row \<Rightarrow> api_key_row) \<Rightarrow> account_db \<Rightarrow> account_db" where
  "set_api_key P f db = db\<lparr>api_key_rows := map (\<lambda>k. if P k then f k else k) (api_key_rows db)\<rparr>"

definition owned_key :: "uuid \<Rightarrow> uuid \<Rightarrow> api_key_row \<Rightarrow> bool" where
  "owned_key org i k \<longleftrightarrow> ak_key_id k = i \<and> ak_organization_id k = org"

definition revoke_api_key :: "uuid \<Rightarrow> uuid \<Rightarrow> instant \<Rightarrow> account_db \<Rightarrow> api_key_row option \<times> account_db" where
  "revoke_api_key org i now db =
     (let P = (\<lambda>k. owned_key org i k \<and> ak_revoked_at k = None);
          f = (\<lambda>k. k\<lparr>ak_revoked_at := Some now\<rparr>)
      in case find P (api_key_rows db) of
           Some k \<Rightarrow> (Some (f k), set_api_key P f db)
         | None \<Rightarrow> (find (owned_key org i) (api_key_rows db), db))"

record verified_api_key =
  vk_key_id :: uuid
  vk_organization_id :: uuid
  vk_scopes :: "string set"

definition verify_api_key ::
    "(string \<Rightarrow> string) \<Rightarrow> string \<Rightarrow> instant \<Rightarrow> account_db \<Rightarrow> (account_error + verified_api_key) \<times> account_db" where
  "verify_api_key sha256 raw_key now db =
     (case find (\<lambda>k. ak_key_prefix k = take PREFIX_STORED_LENGTH raw_key) (api_key_rows db) of
        None \<Rightarrow> (Inl InvalidApiKeyError, db)
      | Some k \<Rightarrow>
          (if ak_key_hash k \<noteq> sha256 raw_key then (Inl InvalidApiKeyError, db)
           else if ak_revoked_at k \<noteq> None then (Inl (RevokedApiKeyError (ak_key_id k)), db)
           else (Inr \<lparr>vk_key_id = ak_key_id k, vk_organization_id = ak_organization_id k,
                      vk_scopes = set (ak_scopes k)\<rparr>,
                 set_api_key (\<lambda>r. ak_key_id r = ak_key_id k) (\<lambda>r. r\<lparr>ak_last_used_at := Some now\<rparr>) db)))"

subsection \<open>The caller of a request\<close>

datatype auth_method = JwtSession | ApiKeyCredential

record auth_context =
  ac_organization_id :: uuid
  ac_auth_method :: auth_method
  ac_user_id :: "uuid option"
  ac_role :: "string option"
  ac_api_key_id :: "uuid option"
  ac_scopes :: "string set option"

definition has_scope :: "auth_context \<Rightarrow> string \<Rightarrow> bool" where
  "has_scope ctx scope \<longleftrightarrow>
     (if ac_auth_method ctx = JwtSession then True
      else case ac_scopes ctx of None \<Rightarrow> False | Some ss \<Rightarrow> scope \<in> ss)"

definition is_org_admin :: "auth_context \<Rightarrow> bool" where
  "is_org_admin ctx \<longleftrightarrow>
     ac_auth_method ctx = JwtSession \<and> ac_role ctx \<in> {Some ''owner'', Some ''admin''}"

text \<open>\<open>decode\<close> is the verification of the token: the claims, or nothing for every failure.\<close>

definition decode_supabase_jwt ::
    "bool \<Rightarrow> (string \<Rightarrow> json_dict option) \<Rightarrow> string \<Rightarrow> account_error + json_dict" where
  "decode_supabase_jwt configured decode token =
     (if \<not> configured then Inl AuthenticationError
      else case decode token of None \<Rightarrow> Inl AuthenticationError | Some claims \<Rightarrow> Inr claims)"

definition uuid_of_text :: "string \<Rightarrow> uuid option" where
  "uuid_of_text s = (if s \<noteq> [] \<and> list_all is_digit s then Some (digits_value s) else None)"

definition subject_of :: "json_dict \<Rightarrow> account_error + uuid" where
  "subject_of claims =
     (case json_get claims ''sub'' of
        JStr s \<Rightarrow> (case uuid_of_text s of None \<Rightarrow> Inl AuthenticationError | Some u \<Rightarrow> Inr u)
      | _ \<Rightarrow> Inl AuthenticationError)"

definition resolve_auth_context ::
    "bool \<Rightarrow> (string \<Rightarrow> json_dict option) \<Rightarrow> string \<Rightarrow> uuid \<Rightarrow> account_db \<Rightarrow> account_error + auth_context" where
  "resolve_auth_context configured decode token org db =
     sum_bind (decode_supabase_jwt configured decode token) (\<lambda>claims.
     sum_bind (subject_of claims) (\<lambda>user.
       case find_active org user db of
         None \<Rightarrow> Inl (NotAMemberError org)
       | Some m \<Rightarrow> Inr \<lparr>ac_organization_id = org, ac_auth_method = JwtSession,
             ac_user_id = Some user, ac_role = Some (mb_role m), ac_api_key_id = None,
             ac_scopes = None\<rparr>))"

definition resolve_verified_identity ::
    "bool \<Rightarrow> (string \<Rightarrow> json_dict option) \<Rightarrow> string \<Rightarrow> account_error + (uuid \<times> string)" where
  "resolve_verified_identity configured decode token =
     sum_bind (decode_supabase_jwt configured decode token) (\<lambda>claims.
     sum_bind (subject_of claims) (\<lambda>user.
       case json_get claims ''email'' of
         JStr e \<Rightarrow> if e = [] then Inl AuthenticationError else Inr (user, e)
       | _ \<Rightarrow> Inl AuthenticationError))"

definition resolve_api_key_context ::
    "(string \<Rightarrow> string) \<Rightarrow> string \<Rightarrow> instant \<Rightarrow> account_db \<Rightarrow> (account_error + auth_context) \<times> account_db" where
  "resolve_api_key_context sha256 raw_key now db =
     (case verify_api_key sha256 raw_key now db of
        (Inl e, db') \<Rightarrow> (Inl e, db')
      | (Inr v, db') \<Rightarrow>
          (Inr \<lparr>ac_organization_id = vk_organization_id v, ac_auth_method = ApiKeyCredential,
                ac_user_id = None, ac_role = None, ac_api_key_id = Some (vk_key_id v),
                ac_scopes = Some (vk_scopes v)\<rparr>, db'))"

subsection \<open>A new organization\<close>

text \<open>\<open>re.sub("[^a-z0-9]+", "-", s)\<close>\<close>

definition slug_char :: "char \<Rightarrow> bool" where
  "slug_char c \<longleftrightarrow> (97 \<le> code c \<and> code c \<le> 122) \<or> is_digit c"

fun dash_runs :: "bool \<Rightarrow> string \<Rightarrow> string" where
  "dash_runs in_run [] = []"
| "dash_runs in_run (c # cs) =
     (if slug_char c then c # dash_runs False cs
      else if in_run then dash_runs True cs else CHR ''-'' # dash_runs True cs)"

definition strip_dashes :: "string \<Rightarrow> string" where
  "strip_dashes s = rev (dropWhile (\<lambda>c. c = CHR ''-'') (rev (dropWhile (\<lambda>c. c = CHR ''-'') s)))"

definition slugify :: "string \<Rightarrow> string" where
  "slugify name =
     (let base = strip_dashes (dash_runs False (py_lower (py_strip name)))
      in if base = [] then ''organization'' else base)"

definition MAX_SLUG_ATTEMPTS :: nat where
  "MAX_SLUG_ATTEMPTS = 8"

definition candidate_slug :: "string \<Rightarrow> (nat \<Rightarrow> string) \<Rightarrow> nat \<Rightarrow> string" where
  "candidate_slug base suffix attempt = (if attempt = 0 then base else base @ ''-'' @ suffix attempt)"

definition free_slug :: "account_db \<Rightarrow> string \<Rightarrow> bool" where
  "free_slug db s \<longleftrightarrow> \<not> list_ex (\<lambda>r. or_slug r = s) (org_rows db)"

text \<open>The column defaults of migration 26, and the billing row of the trigger of migration 33.\<close>

definition default_limits :: organization_limits where
  "default_limits = \<lparr>ol_max_leads = 5000, ol_max_csv_rows = 200, ol_max_spend = 50\<rparr>"

definition insert_organization :: "uuid \<Rightarrow> string \<Rightarrow> string \<Rightarrow> instant \<Rightarrow> account_db \<Rightarrow> account_db" where
  "insert_organization org name slug now db =
     db\<lparr>org_rows := org_rows db @
          [\<lparr>or_organization_id = org, or_name = name, or_slug = slug, or_status = ''active'',
            or_timezone = ''UTC'', or_company_domain = None, or_execution_mode = ''simulated'',
            or_onboarding_completed_at = None, or_created_at = now, or_updated_at = now\<rparr>],
        org_limits := (org_limits db)(org \<mapsto> default_limits),
        billing_rows := (if list_ex (\<lambda>b. bl_organization_id b = org) (billing_rows db)
          then billing_rows db else billing_rows db @
          [\<lparr>bl_organization_id = org, bl_stripe_customer_id = None, bl_stripe_subscription_id = None,
            bl_plan = ''starter'', bl_status = ''none'', bl_period_start = None, bl_period_end = None,
            bl_cancel_at_period_end = False, bl_canceled_at = None, bl_last_event_created_at = None,
            bl_updated_at = now\<rparr>])\<rparr>"

definition insert_owner :: "uuid \<Rightarrow> uuid \<Rightarrow> instant \<Rightarrow> account_db \<Rightarrow> account_db" where
  "insert_owner org user now db =
     db\<lparr>member_rows := member_rows db @
          [\<lparr>mb_organization_id = org, mb_user_id = user, mb_role = ''owner'', mb_status = ''active'',
            mb_created_at = now, mb_updated_at = now\<rparr>]\<rparr>"

definition create_customer_organization ::
    "uuid \<Rightarrow> string \<Rightarrow> (nat \<Rightarrow> string) \<Rightarrow> uuid \<Rightarrow> instant \<Rightarrow> account_db
     \<Rightarrow> (account_error + (uuid \<times> string)) \<times> account_db" where
  "create_customer_organization owner organization_name suffix fresh now db =
     (let name = py_strip organization_name
      in if name = [] then (Inl InvalidOrganizationNameError, db)
         else case find (free_slug db) (map (candidate_slug (slugify name) suffix) [0..<MAX_SLUG_ATTEMPTS]) of
           None \<Rightarrow> (Inl SlugGenerationExhaustedError, db)
         | Some slug \<Rightarrow>
             (case sync_organization_limits fresh
                (record_event fresh owner ''organization.created'' [(''name'', JStr name), (''slug'', JStr slug)]
                  (insert_owner fresh owner now (insert_organization fresh name slug now db))) of
                Inl e \<Rightarrow> (Inl e, db)
              | Inr db' \<Rightarrow> (Inr (fresh, slug), db')))"

subsection \<open>Where a lead comes from\<close>

datatype lead_data_class =
  PRODUCTION | INTEGRATION_TEST | LOAD_TEST | CANARY | BENCHMARK | SYNTHETIC_FIXTURE
  | QUARANTINED | UNKNOWN_CLASS

definition DATA_CLASSES :: "(string \<times> lead_data_class) list" where
  "DATA_CLASSES =
     [(''production'', PRODUCTION), (''integration_test'', INTEGRATION_TEST),
      (''load_test'', LOAD_TEST), (''canary'', CANARY), (''benchmark'', BENCHMARK),
      (''synthetic_fixture'', SYNTHETIC_FIXTURE), (''quarantined'', QUARANTINED),
      (''unknown'', UNKNOWN_CLASS)]"

definition assignable_by_caller :: "string \<Rightarrow> error + lead_data_class" where
  "assignable_by_caller value =
     (case map_of DATA_CLASSES value of
        None \<Rightarrow> Inl ValueError
      | Some c \<Rightarrow> if c = PRODUCTION then Inl ValueError else Inr c)"

subsection \<open>Keys\<close>

lemma create_api_key_loop_success:
  assumes "create_api_key_loop sha org user label scopes now draws db = (Inr (r, raw), db')"
  shows "db' = db\<lparr>api_key_rows := api_key_rows db @ [r]\<rparr>"
    and "\<forall>k \<in> set (api_key_rows db). ak_key_prefix k \<noteq> ak_key_prefix r \<and> ak_key_id k \<noteq> ak_key_id r"
    and "ak_key_prefix r = take PREFIX_STORED_LENGTH raw" "ak_key_hash r = sha raw"
    and "ak_organization_id r = org" "ak_scopes r = scopes" "ak_revoked_at r = None"
    and "set scopes \<subseteq> set SCOPES"
proof -
  have "db' = db\<lparr>api_key_rows := api_key_rows db @ [r]\<rparr>
    \<and> (\<forall>k \<in> set (api_key_rows db). ak_key_prefix k \<noteq> ak_key_prefix r \<and> ak_key_id k \<noteq> ak_key_id r)
    \<and> ak_key_prefix r = take PREFIX_STORED_LENGTH raw \<and> ak_key_hash r = sha raw
    \<and> ak_organization_id r = org \<and> ak_scopes r = scopes \<and> ak_revoked_at r = None
    \<and> set scopes \<subseteq> set SCOPES"
    using assms
  proof (induction draws)
    case Nil
    then show ?case by simp
  next
    case (Cons d draws)
    obtain fresh token where d: "d = (fresh, token)" by (cases d)
    define g where "g = generate_api_key sha token"
    define q where "q = \<lparr>ak_key_id = fresh, ak_organization_id = org, ak_label = label,
        ak_key_prefix = gk_key_prefix g, ak_key_hash = gk_key_hash g, ak_scopes = scopes,
        ak_created_by = user, ak_created_at = now, ak_last_used_at = None, ak_revoked_at = None\<rparr>"
    note eq = Cons.prems [unfolded d create_api_key_loop.simps Let_def, folded g_def, folded q_def]
    show ?case
    proof (cases "insert_api_key q db")
      case (Inl e)
      with eq show ?thesis by simp
    next
      case (Inr o')
      show ?thesis
      proof (cases o')
        case None
        with eq Inr have "create_api_key_loop sha org user label scopes now draws db = (Inr (r, raw), db')"
          by simp
        then show ?thesis by (rule Cons.IH)
      next
        case (Some db1)
        with eq Inr have res: "r = q" "raw = gk_raw_key g" "db' = db1" by auto
        from Inr Some have ins: "set (ak_scopes q) \<subseteq> set SCOPES"
          "\<not> list_ex (\<lambda>k. ak_key_id k = ak_key_id q \<or> ak_key_prefix k = ak_key_prefix q) (api_key_rows db)"
          "db1 = db\<lparr>api_key_rows := api_key_rows db @ [q]\<rparr>"
          by (auto simp: insert_api_key_def split: if_splits)
        have q: "ak_key_prefix q = take PREFIX_STORED_LENGTH (gk_raw_key g)" "ak_key_hash q = sha (gk_raw_key g)"
          "ak_organization_id q = org" "ak_scopes q = scopes" "ak_revoked_at q = None"
          by (simp_all add: q_def g_def generate_api_key_def Let_def)
        show ?thesis
          unfolding res ins(3) using ins(1,2) q by (auto simp: list_ex_iff)
      qed
    qed
  qed
  then show "db' = db\<lparr>api_key_rows := api_key_rows db @ [r]\<rparr>"
    and "\<forall>k \<in> set (api_key_rows db). ak_key_prefix k \<noteq> ak_key_prefix r \<and> ak_key_id k \<noteq> ak_key_id r"
    and "ak_key_prefix r = take PREFIX_STORED_LENGTH raw" "ak_key_hash r = sha raw"
    and "ak_organization_id r = org" "ak_scopes r = scopes" "ak_revoked_at r = None"
    and "set scopes \<subseteq> set SCOPES" by blast+
qed

lemma find_appended_key:
  assumes "\<forall>k \<in> set ks. ak_key_prefix k \<noteq> ak_key_prefix r"
  shows "find (\<lambda>k. ak_key_prefix k = ak_key_prefix r) (ks @ [r]) = Some r"
  using assms by (induction ks) auto

text \<open>
  C34. The raw key a creation returns authenticates: presenting it yields the organization and
  exactly the scopes it was created with, whatever the digest and the draws.
\<close>

theorem api_key_round_trip:
  assumes "create_api_key sha org user label scopes now draw db = (Inr (r, raw), db')"
  shows "fst (resolve_api_key_context sha raw now' db')
    = Inr \<lparr>ac_organization_id = org, ac_auth_method = ApiKeyCredential, ac_user_id = None,
           ac_role = None, ac_api_key_id = Some (ak_key_id r), ac_scopes = Some (set scopes)\<rparr>"
proof -
  note c = create_api_key_loop_success [OF assms [unfolded create_api_key_def]]
  have "find (\<lambda>k. ak_key_prefix k = take PREFIX_STORED_LENGTH raw) (api_key_rows db') = Some r"
    using c(2) find_appended_key [of "api_key_rows db" r] by (simp add: c(1) c(3) [symmetric])
  then show ?thesis
    by (simp add: resolve_api_key_context_def verify_api_key_def c(4-7))
qed

text \<open>
  A machine credential is never more than its row: whenever a raw key authenticates, a
  key that is not revoked carries its digest, the organization and the scopes of the request
  are that row's, and it can never administer the organization; and once revoked it is
  refused.
\<close>

theorem api_key_grants_only_its_row:
  assumes run: "fst (resolve_api_key_context sha raw now db) = Inr ctx"
  shows "\<not> is_org_admin ctx
    \<and> (\<exists>k \<in> set (api_key_rows db). ak_key_hash k = sha raw \<and> ak_revoked_at k = None
        \<and> ac_organization_id ctx = ak_organization_id k
        \<and> (\<forall>s. has_scope ctx s \<longleftrightarrow> s \<in> set (ak_scopes k))
        \<and> fst (resolve_api_key_context sha raw now'
              (snd (revoke_api_key (ak_organization_id k) (ak_key_id k) now' db)))
            = Inl (RevokedApiKeyError (ak_key_id k)))"
proof (cases "find (\<lambda>k. ak_key_prefix k = take PREFIX_STORED_LENGTH raw) (api_key_rows db)")
  case None
  with run show ?thesis by (simp add: resolve_api_key_context_def verify_api_key_def)
next
  case (Some k)
  let ?P = "\<lambda>k. ak_key_prefix k = take PREFIX_STORED_LENGTH raw"
  from Some have k: "k \<in> set (api_key_rows db)" by (auto simp: find_Some_iff)
  from run Some have live: "ak_key_hash k = sha raw" "ak_revoked_at k = None"
    and ctx: "ctx = \<lparr>ac_organization_id = ak_organization_id k, ac_auth_method = ApiKeyCredential,
         ac_user_id = None, ac_role = None, ac_api_key_id = Some (ak_key_id k),
         ac_scopes = Some (set (ak_scopes k))\<rparr>"
    by (auto simp: resolve_api_key_context_def verify_api_key_def split: if_splits)
  have revoked: "fst (resolve_api_key_context sha raw now'
        (snd (revoke_api_key (ak_organization_id k) (ak_key_id k) now' db)))
      = Inl (RevokedApiKeyError (ak_key_id k))"
  proof -
    let ?Q = "\<lambda>r. owned_key (ak_organization_id k) (ak_key_id k) r \<and> ak_revoked_at r = None"
    have "?Q k" using live by (simp add: owned_key_def)
    then obtain k' where found: "find ?Q (api_key_rows db) = Some k'"
      using k by (cases "find ?Q (api_key_rows db)") (auto simp: find_None_iff)
    have "find P (map (\<lambda>r. if Q r then r\<lparr>ak_revoked_at := Some now'\<rparr> else r) ks)
        = map_option (\<lambda>r. if Q r then r\<lparr>ak_revoked_at := Some now'\<rparr> else r) (find P ks)"
      if "\<And>r t. P (r\<lparr>ak_revoked_at := t\<rparr>) = P r" for P Q and ks :: "api_key_row list"
      using that by (induction ks) auto
    from this [of ?P ?Q "api_key_rows db"] Some \<open>?Q k\<close>
    have "find ?P (map (\<lambda>r. if ?Q r then r\<lparr>ak_revoked_at := Some now'\<rparr> else r) (api_key_rows db))
        = Some (k\<lparr>ak_revoked_at := Some now'\<rparr>)"
      by simp
    with found live(1) show ?thesis
      by (simp add: resolve_api_key_context_def verify_api_key_def revoke_api_key_def set_api_key_def
          Let_def)
  qed
  show ?thesis
    using k live revoked by (intro conjI bexI [of _ k]) (auto simp: ctx is_org_admin_def has_scope_def)
qed

subsection \<open>Provisioning\<close>

lemma insert_organization_frame [simp]:
  "member_rows (insert_organization org name slug now db) = member_rows db"
  "member_rows (insert_owner org user now db)
     = member_rows db @ [\<lparr>mb_organization_id = org, mb_user_id = user, mb_role = ''owner'',
         mb_status = ''active'', mb_created_at = now, mb_updated_at = now\<rparr>]"
  "billing_rows (insert_owner org user now db) = billing_rows db"
  "org_limits (insert_owner org user now db) = org_limits db"
  "org_rows (insert_owner org user now db) = org_rows db"
  by (simp_all add: insert_organization_def insert_owner_def)

text \<open>
  A provisioned organization starts complete and on the floor: it has its creator as
  owner, a free slug, the billing row of no subscription, and limit columns that are those of
  the unsubscribed plan (not the generous column defaults); every other organization keeps
  its members, billing and limits.
\<close>

theorem provisioned_organization_starts_unsubscribed:
  assumes run: "create_customer_organization owner name suffix fresh now db = (Inr (org, slug), db')"
    and fresh: "billing_of fresh db = None"
  shows "org = fresh \<and> has_owner org db' \<and> free_slug db slug
    \<and> resolve_organization_entitlements org db' = Inr UNSUBSCRIBED
    \<and> org_limits db' org = Some (limits_of UNSUBSCRIBED)
    \<and> (\<forall>o'. o' \<noteq> org \<longrightarrow> billing_of o' db' = billing_of o' db \<and> org_limits db' o' = org_limits db o'
          \<and> filter (\<lambda>m. mb_organization_id m = o') (member_rows db')
            = filter (\<lambda>m. mb_organization_id m = o') (member_rows db))"
proof -
  let ?cands = "map (candidate_slug (slugify (py_strip name)) suffix) [0..<MAX_SLUG_ATTEMPTS]"
  have ne: "py_strip name \<noteq> []"
    using run by (auto simp: create_customer_organization_def)
  then obtain s where s: "find (free_slug db) ?cands = Some s"
    using run by (cases "find (free_slug db) ?cands") (auto simp: create_customer_organization_def)
  define db1 where "db1 = record_event fresh owner ''organization.created''
      [(''name'', JStr (py_strip name)), (''slug'', JStr s)]
      (insert_owner fresh owner now (insert_organization fresh (py_strip name) s now db))"
  have "\<exists>db2. sync_organization_limits fresh db1 = Inr db2 \<and> org = fresh \<and> slug = s \<and> db' = db2"
    using run ne s unfolding create_customer_organization_def Let_def
    by (auto simp: db1_def [symmetric] split: sum.splits)
  then have sync: "sync_organization_limits fresh db1 = Inr db'" and res: "org = fresh" "slug = s"
    by blast+
  note fr = sync_frame [OF sync]
  have slug: "free_slug db s" using s by (auto simp: find_Some_iff)
  from fresh have none: "\<not> list_ex (\<lambda>b. bl_organization_id b = fresh) (billing_rows db)"
    by (auto simp: billing_of_def find_None_iff list_ex_iff)
  have bill: "billing_of o' db1 = (if o' = fresh then Some \<lparr>bl_organization_id = fresh,
        bl_stripe_customer_id = None, bl_stripe_subscription_id = None, bl_plan = ''starter'',
        bl_status = ''none'', bl_period_start = None, bl_period_end = None,
        bl_cancel_at_period_end = False, bl_canceled_at = None, bl_last_event_created_at = None,
        bl_updated_at = now\<rparr> else billing_of o' db)" for o'
    using none fresh
    by (simp add: billing_of_def db1_def insert_organization_def find_append split: option.split)
  have ent: "resolve_organization_entitlements fresh db1 = Inr UNSUBSCRIBED"
    by (simp add: resolve_organization_entitlements_def get_billing_def bill entitlements_of_def
        is_subscribed_def SUBSCRIBED_STATUSES_def)
  have lim: "org_limits db1 = (org_limits db)(fresh \<mapsto> default_limits)"
    by (simp add: db1_def insert_organization_def)
  have db': "db' = db1\<lparr>org_limits := (org_limits db1)(fresh \<mapsto> limits_of UNSUBSCRIBED)\<rparr>"
    using sync by (simp add: sync_organization_limits_def ent set_limits_def lim)
  have rows: "member_rows db' = member_rows db @ [\<lparr>mb_organization_id = fresh, mb_user_id = owner,
      mb_role = ''owner'', mb_status = ''active'', mb_created_at = now, mb_updated_at = now\<rparr>]"
    by (simp add: fr(3)) (simp add: db1_def)
  have "has_owner fresh db'"
    by (simp add: has_owner_iff rows active_owner_def active_member_def)
  moreover have "billing_of o' db' = billing_of o' db1" for o'
    using fr(1) by (rule billing_of_frame)
  moreover from this have "resolve_organization_entitlements fresh db' = Inr UNSUBSCRIBED"
    using ent by (simp add: resolve_organization_entitlements_def get_billing_def)
  moreover have "org_limits db' o' = (if o' = fresh then Some (limits_of UNSUBSCRIBED) else org_limits db o')" for o'
    by (simp add: db' lim)
  ultimately show ?thesis
    using slug by (simp add: res bill rows)
qed

subsection \<open>What a caller may claim\<close>

lemma caller_never_assigns_production:
  "assignable_by_caller value = Inr c \<Longrightarrow> c \<noteq> PRODUCTION \<and> map_of DATA_CLASSES value = Some c"
  by (auto simp: assignable_by_caller_def split: option.splits if_splits)

subsection \<open>Witnesses\<close>

definition no_accounts :: account_db where
  "no_accounts = \<lparr>org_rows = [], org_limits = Map.empty, billing_rows = [], webhook_events = [],
     member_rows = [], invitation_rows = [], api_key_rows = [], audit_events = []\<rparr>"

abbreviation demo_key :: "(account_error + (api_key_row \<times> string)) \<times> account_db" where
  "demo_key \<equiv> create_api_key (\<lambda>x. x) 7 3 ''n8n'' [''leads:read''] 0 (\<lambda>n. (n, ''0123456789'')) no_accounts"

definition demo_key_row :: api_key_row where
  "demo_key_row = \<lparr>ak_key_id = 0, ak_organization_id = 7, ak_label = ''n8n'',
     ak_key_prefix = ''arie_0123456'', ak_key_hash = ''arie_0123456789'', ak_scopes = [''leads:read''],
     ak_created_by = 3, ak_created_at = 0, ak_last_used_at = None, ak_revoked_at = None\<rparr>"

lemma demo_key_run:
  "demo_key = (Inr (demo_key_row, ''arie_0123456789''), no_accounts\<lparr>api_key_rows := [demo_key_row]\<rparr>)"
proof -
  have "upt 0 5 = [0::nat, 1, 2, 3, 4]" by (simp add: upt_rec)
  then show ?thesis
    by (simp add: create_api_key_def generate_api_key_def Let_def API_KEY_PREFIX_def
        PREFIX_STORED_LENGTH_def insert_api_key_def SCOPES_def no_accounts_def demo_key_row_def)
qed

lemma api_key_round_trip_witness:
  "fst (resolve_api_key_context (\<lambda>x. x) ''arie_0123456789'' 5 (no_accounts\<lparr>api_key_rows := [demo_key_row]\<rparr>))
   = Inr \<lparr>ac_organization_id = 7, ac_auth_method = ApiKeyCredential, ac_user_id = None, ac_role = None,
          ac_api_key_id = Some 0, ac_scopes = Some {''leads:read''}\<rparr>"
  using api_key_round_trip [OF demo_key_run, of 5] by (simp add: demo_key_row_def)

lemma demo_key_context:
  "fst (resolve_api_key_context (\<lambda>x. x) ''arie_0123456789'' 5 (no_accounts\<lparr>api_key_rows := [demo_key_row]\<rparr>))
   = Inr \<lparr>ac_organization_id = 7, ac_auth_method = ApiKeyCredential, ac_user_id = None, ac_role = None,
          ac_api_key_id = Some 0, ac_scopes = Some {''leads:read''}\<rparr>"
  by (simp add: resolve_api_key_context_def verify_api_key_def demo_key_row_def PREFIX_STORED_LENGTH_def)

lemma api_key_grants_only_its_row_witness:
  "\<exists>k \<in> set (api_key_rows (no_accounts\<lparr>api_key_rows := [demo_key_row]\<rparr>)). ak_revoked_at k = None"
  using api_key_grants_only_its_row [OF demo_key_context] by blast

lemma demo_provisioning:
  "map_sum id fst (fst (create_customer_organization 3 '' Acme Co '' (\<lambda>_. ''ab12cd'') 7 0 no_accounts))
     = Inr 7"
  "map_sum id snd (fst (create_customer_organization 3 '' Acme Co '' (\<lambda>_. ''ab12cd'') 7 0 no_accounts))
     = Inr ''acme-co''"
  by code_simp+

lemma provisioned_organization_starts_unsubscribed_witness:
  "has_owner 7 (snd (create_customer_organization 3 '' Acme Co '' (\<lambda>_. ''ab12cd'') 7 0 no_accounts))"
proof -
  obtain r db' where run: "create_customer_organization 3 '' Acme Co '' (\<lambda>_. ''ab12cd'') 7 0 no_accounts = (r, db')"
    by fastforce
  with demo_provisioning obtain slug where "r = Inr (7, slug)"
    by (cases r) auto
  moreover have "billing_of 7 no_accounts = None" by (simp add: billing_of_def no_accounts_def)
  ultimately show ?thesis
    using run provisioned_organization_starts_unsubscribed [of 3 "'' Acme Co ''" "\<lambda>_. ''ab12cd''" 7 0
        no_accounts 7 slug db'] by simp
qed

end
