(* ===== verification/LLM_Structured.thy ===== *)
theory LLM_Structured
  imports PyValue "HOL-Library.Sublist"
begin

text \<open>
  \<open>arie.llm.structured\<close> with the data of \<open>arie.llm.provider\<close>: how text that ARIE did not
  write is fenced before a model reads it, and the bounded loop that asks a provider for an
  object until an answer validates. A provider is a parameter: what it answers to its n-th
  request is a function of the messages. The Pydantic model is a parameter too: its JSON schema
  and its check of a response. The lemmas show that no fenced text can open or close a fence,
  and what the loop sends, counts and returns.
\<close>

subsection \<open>Substring replacement\<close>

definition LF :: char where
  "LF = CHR 0x0A"

text \<open>\<open>str.replace(old, new)\<close> for a nonempty \<open>old\<close>: leftmost, not overlapping.\<close>

function py_replace :: "string \<Rightarrow> string \<Rightarrow> string \<Rightarrow> string" where
  "py_replace old new s =
     (case s of
        [] \<Rightarrow> []
      | c # cs \<Rightarrow>
          if old \<noteq> [] \<and> starts_with s old then new @ py_replace old new (drop (length old) s)
          else c # py_replace old new cs)"
  by pat_completeness auto
termination
  by (relation "measure (\<lambda>(_, _, s). length s)") auto

declare py_replace.simps [simp del]

text \<open>Three times the same bracket becomes the bracket with blanks between.\<close>

definition spaced :: "char \<Rightarrow> string" where
  "spaced b = [b, CHR '' '', b, CHR '' '', b]"

definition break_up :: "char \<Rightarrow> string \<Rightarrow> string" where
  "break_up b = py_replace [b, b, b] (spaced b)"

lemma break_up_Nil [simp]: "break_up b [] = []"
  by (simp add: break_up_def py_replace.simps)

lemma break_up_run: "break_up b (b # b # b # s) = spaced b @ break_up b s"
  by (simp add: break_up_def py_replace.simps [of _ _ "b # b # b # s"])

lemma break_up_Cons:
  "\<not> starts_with (c # s) [b, b, b] \<Longrightarrow> break_up b (c # s) = c # break_up b s"
  by (auto simp: break_up_def py_replace.simps [of _ _ "c # s"])

text \<open>The way through a string that \<open>break_up\<close> takes.\<close>

lemma break_up_induct [case_names Nil Run Char]:
  assumes "P []" and "\<And>s. P s \<Longrightarrow> P (b # b # b # s)"
    and "\<And>c s. \<not> starts_with (c # s) [b, b, b] \<Longrightarrow> P s \<Longrightarrow> P (c # s)"
  shows "P s"
proof (induction s rule: length_induct)
  case (1 s)
  show ?case
  proof (cases s)
    case (Cons c cs)
    show ?thesis
    proof (cases "starts_with s [b, b, b]")
      case True
      then obtain t where "s = b # b # b # t" by (auto simp: starts_with_iff)
      with 1 assms(2) show ?thesis by simp
    next
      case False
      with 1 assms(3) Cons show ?thesis by simp
    qed
  qed (use assms(1) in simp)
qed

lemma break_up_starts:
  assumes "b \<noteq> CHR '' ''"
  shows "starts_with (break_up b s) [b] \<Longrightarrow> starts_with s [b]"
    and "starts_with (break_up b s) [b, b] \<Longrightarrow> starts_with s [b, b]"
proof -
  have one: "starts_with (break_up b s) [b] \<longrightarrow> starts_with s [b]" for s
    by (induction s rule: break_up_induct [of _ b]) (simp_all add: break_up_run break_up_Cons)
  then show "starts_with (break_up b s) [b] \<Longrightarrow> starts_with s [b]" by blast
  have "starts_with (break_up b s) [b, b] \<longrightarrow> starts_with s [b, b]"
    using one by (induction s rule: break_up_induct [of _ b])
      (simp_all add: break_up_run break_up_Cons spaced_def assms)
  then show "starts_with (break_up b s) [b, b] \<Longrightarrow> starts_with s [b, b]" by blast
qed

lemma break_up_no_start:
  assumes "b \<noteq> CHR '' ''"
  shows "\<not> starts_with (break_up b s) [b, b, b]"
  using assms break_up_starts(2) [OF assms]
  by (induction s rule: break_up_induct [of _ b])
    (auto simp: break_up_run break_up_Cons spaced_def)

lemma sublist_Cons_iff: "sublist m (c # s) \<longleftrightarrow> prefix m (c # s) \<or> sublist m s"
  by (rule sublist_Cons_right)

text \<open>After a character that is neither a blank nor the bracket, no run of three follows.\<close>

lemma break_up_no_run:
  assumes "b \<noteq> CHR '' ''" and "c \<noteq> CHR '' ''" and "c \<noteq> b"
  shows "\<not> sublist [c, b, b, b] (break_up b s)"
proof (induction s rule: break_up_induct [of _ b])
  case (Run s)
  with assms show ?case by (simp add: break_up_run spaced_def sublist_Cons_right)
next
  case (Char d s)
  moreover have "\<not> prefix [b, b, b] (break_up b s)"
    using break_up_no_start [OF assms(1)] by (auto simp: starts_with_iff prefix_def)
  ultimately show ?case by (simp add: break_up_Cons sublist_Cons_right)
qed simp

text \<open>What holds neither the bracket nor a blank was there before.\<close>

lemma break_up_keeps:
  assumes "b \<notin> set m" and "CHR '' '' \<notin> set m"
  shows "sublist m (break_up b s) \<Longrightarrow> sublist m s"
    and "prefix m (break_up b s) \<Longrightarrow> prefix m s"
proof -
  have head: "prefix m (break_up b s) \<longrightarrow> prefix m s" if "b \<notin> set m" "CHR '' '' \<notin> set m" for m s
    using that
  proof (induction s arbitrary: m rule: break_up_induct [of _ b])
    case (Run s)
    then show ?case by (cases m) (auto simp: break_up_run spaced_def)
  next
    case (Char c s)
    then show ?case by (cases m) (auto simp: break_up_Cons)
  qed simp
  then show "prefix m (break_up b s) \<Longrightarrow> prefix m s" using assms by blast
  show "sublist m (break_up b s) \<Longrightarrow> sublist m s"
  proof (induction s rule: break_up_induct [of _ b])
    case (Run s)
    then show ?case
      using assms by (cases m) (auto simp: break_up_run spaced_def sublist_Cons_right)
  next
    case (Char c s)
    with head [OF assms, of "c # s"] show ?case by (auto simp: break_up_Cons sublist_Cons_right)
  qed simp
qed

subsection \<open>Sanitized text\<close>

text \<open>\<open>_CONTROL_CHARS\<close>\<close>

definition control_char :: "char \<Rightarrow> bool" where
  "control_char c \<longleftrightarrow> code c \<le> 8 \<or> code c = 11 \<or> code c = 12 \<or> (14 \<le> code c \<and> code c \<le> 31) \<or> code c = 127"

definition sanitize_untrusted :: "string \<Rightarrow> string" where
  "sanitize_untrusted text =
     break_up (CHR ''>'') (break_up (CHR ''<'') (filter (\<lambda>c. \<not> control_char c) text))"

text \<open>
  The documentation calls the sentinel unreconstructable after sanitizing; five brackets in a
  row leave three.
\<close>

lemma sanitized_run_survives: "sanitize_untrusted ''<<<<<'' = ''< < <<<''"
  by code_simp

lemma sanitized_no_run_left:
  assumes "c \<noteq> CHR '' ''" and "c \<noteq> CHR ''<''" and "c \<noteq> CHR ''>''"
  shows "\<not> sublist (c # ''<<<'') (sanitize_untrusted s)"
  unfolding sanitize_untrusted_def
  using break_up_keeps(1) [of "CHR ''>''" "c # ''<<<''"] break_up_no_run [of "CHR ''<''" c] assms by auto

lemma sanitized_no_start_left: "\<not> prefix ''<<<'' (sanitize_untrusted s)"
  unfolding sanitize_untrusted_def
  using break_up_keeps(2) [of "CHR ''>''" "''<<<''"] break_up_no_start [of "CHR ''<''"]
  by (auto simp: starts_with_iff prefix_def)

lemma sanitized_no_run_right:
  "c \<noteq> CHR '' '' \<Longrightarrow> c \<noteq> CHR ''>'' \<Longrightarrow> \<not> sublist (c # ''>>>'') (sanitize_untrusted s)"
  unfolding sanitize_untrusted_def by (rule break_up_no_run) simp_all

subsection \<open>Fences\<close>

definition label_char :: "char \<Rightarrow> bool" where
  "label_char c \<longleftrightarrow> (97 \<le> code c \<and> code c \<le> 122) \<or> is_digit c \<or> c = CHR ''_''"

text \<open>\<open>re.sub(r"[^a-z0-9_]+", "_", s)\<close>\<close>

function sub_runs :: "string \<Rightarrow> string" where
  "sub_runs s =
     (case s of
        [] \<Rightarrow> []
      | c # cs \<Rightarrow> if label_char c then c # sub_runs cs
                  else CHR ''_'' # sub_runs (dropWhile (\<lambda>x. \<not> label_char x) cs))"
  by pat_completeness auto
termination
  by (relation "measure length") (auto simp: length_dropWhile_le less_Suc_eq_le)

declare sub_runs.simps [simp del]

definition strip_char :: "char \<Rightarrow> string \<Rightarrow> string" where
  "strip_char c s = rev (dropWhile (\<lambda>x. x = c) (rev (dropWhile (\<lambda>x. x = c) s)))"

definition slug :: "string \<Rightarrow> string" where
  "slug label =
     (let s = take 48 (strip_char (CHR ''_'') (sub_runs (py_lower (py_strip label))))
      in if s = [] then ''data'' else s)"

record untrusted_block =
  ub_label :: string
  ub_text :: string

definition fence_open :: "string \<Rightarrow> string" where
  "fence_open label = ''<<<UNTRUSTED_DATA name='' @ label @ ''>>>''"

definition fence_close :: "string \<Rightarrow> string" where
  "fence_close label = ''<<<END_UNTRUSTED_DATA name='' @ label @ ''>>>''"

definition fenced :: "string \<Rightarrow> string \<Rightarrow> string" where
  "fenced label body = fence_open label @ [LF] @ body @ [LF] @ fence_close label"

definition TRUNCATION_NOTICE :: string where
  "TRUNCATION_NOTICE = LF # ''[... truncated by ARIE: this block is incomplete ...]''"

text \<open>The loop of \<open>render_untrusted\<close>: the labelled bodies and whether anything was dropped.\<close>

fun render_blocks :: "untrusted_block list \<Rightarrow> nat \<Rightarrow> (string \<times> string) list \<times> bool" where
  "render_blocks [] remaining = ([], False)"
| "render_blocks (block # blocks) remaining =
     (let label = slug (ub_label block); body = sanitize_untrusted (ub_text block)
      in if remaining = 0 then ([], True)
         else if remaining < length body then
           ((label, take remaining body @ TRUNCATION_NOTICE) # fst (render_blocks blocks 0), True)
         else
           (let (parts, truncated) = render_blocks blocks (remaining - length body)
            in ((label, body) # parts, truncated)))"

fun join_with :: "string \<Rightarrow> string list \<Rightarrow> string" where
  "join_with sep [] = []"
| "join_with sep [x] = x"
| "join_with sep (x # y # xs) = x @ sep @ join_with sep (y # xs)"

definition render_untrusted :: "untrusted_block list \<Rightarrow> int \<Rightarrow> string \<times> bool" where
  "render_untrusted blocks max_chars =
     (if max_chars \<le> 0 then ([], blocks \<noteq> [])
      else (let (parts, truncated) = render_blocks blocks (nat max_chars)
            in (join_with [LF, LF] (map (\<lambda>(l, b). fenced l b) parts), truncated)))"

subsection \<open>No fence is opened or closed from the inside\<close>

lemma label_chars: "slug label \<noteq> [] \<and> list_all label_char (slug label)"
proof -
  have mark: "label_char (CHR ''_'')" by (simp add: label_char_def)
  have sub: "list_all label_char (sub_runs s)" for s
  proof (induction s rule: sub_runs.induct)
    case (1 s)
    then show ?case
      by (subst sub_runs.simps) (auto split: list.split simp: mark)
  qed
  have "list_all label_char s \<Longrightarrow> list_all label_char (strip_char c s)" for c s
    by (auto simp: list_all_iff strip_char_def dest!: set_dropWhileD)
  with sub have "list_all label_char (strip_char c (sub_runs s))" for c s
    by blast
  then have "list_all label_char (take 48 (strip_char c (sub_runs s)))" for c s
    by (auto simp: list_all_iff dest: in_set_takeD)
  moreover have "list_all label_char ''data''" by code_simp
  ultimately show ?thesis by (simp add: slug_def Let_def)
qed

text \<open>Text in which no line begins like a fence and no label ends one.\<close>

definition fence_free :: "string \<Rightarrow> bool" where
  "fence_free b \<longleftrightarrow>
     \<not> prefix ''<<<'' b \<and> \<not> sublist (LF # ''<<<'') b
     \<and> (\<forall>c. label_char c \<longrightarrow> \<not> sublist (c # ''>>>'') b)"

lemma sublist_avoid:
  assumes "x \<notin> set m"
  shows "sublist m (a @ x # b) \<longleftrightarrow> sublist m a \<or> sublist m b"
proof
  assume "sublist m (a @ x # b)"
  then show "sublist m a \<or> sublist m b"
  proof (induction a)
    case Nil
    with assms show ?case by (cases m) (auto simp: sublist_Cons_right)
  next
    case (Cons y a)
    from Cons.prems consider "prefix m (y # a @ x # b)" | "sublist m (a @ x # b)"
      by (auto simp: sublist_Cons_right)
    then show ?case
    proof cases
      case 1
      have "prefix m ((y # a) @ x # b)" using 1 by simp
      then have "prefix m (y # a)"
        unfolding prefix_append prefix_Cons using assms by auto
      then show ?thesis by (auto simp: prefix_imp_sublist)
    qed (use Cons.IH in \<open>auto simp: sublist_Cons_right\<close>)
  qed
next
  assume "sublist m a \<or> sublist m b"
  then show "sublist m (a @ x # b)"
    by (auto simp: sublist_append sublist_Cons_right)
qed


lemma prefix_fence_free:
  assumes "fence_free (b @ c)"
  shows "fence_free b"
  using assms sublist_append by (auto simp: fence_free_def)

lemma sanitized_fence_free: "fence_free (sanitize_untrusted s)"
proof -
  have "label_char c \<Longrightarrow> c \<noteq> CHR '' '' \<and> c \<noteq> CHR ''>''" for c
    by (auto simp: label_char_def is_digit_def code_def)
  then show ?thesis
    using sanitized_no_start_left sanitized_no_run_left [of LF] sanitized_no_run_right
    by (auto simp: fence_free_def LF_def)
qed

lemma truncated_fence_free:
  assumes "fence_free b"
  shows "fence_free (b @ TRUNCATION_NOTICE)"
proof -
  let ?n = "''[... truncated by ARIE: this block is incomplete ...]''"
  have brackets: "CHR ''<'' \<notin> set ?n" "CHR ''>'' \<notin> set ?n" by simp_all
  have no: "\<not> sublist m ?n" if "CHR ''<'' \<in> set m \<or> CHR ''>'' \<in> set m" for m
    using set_mono_sublist [of m ?n] brackets that by blast
  have left: "\<not> sublist (LF # ''<<<'') (b @ TRUNCATION_NOTICE)"
  proof
    assume "sublist (LF # ''<<<'') (b @ TRUNCATION_NOTICE)"
    then consider "sublist (LF # ''<<<'') b" | "sublist (LF # ''<<<'') TRUNCATION_NOTICE"
      | xs ys where "LF # ''<<<'' = xs @ ys" "suffix xs b" "prefix ys TRUNCATION_NOTICE"
      unfolding sublist_append by blast
    then show False
    proof cases
      case 1
      with assms show False by (simp add: fence_free_def)
    next
      case 2
      with no show False by (simp add: TRUNCATION_NOTICE_def sublist_Cons_right)
    next
      case 3
      then show False
      proof (cases ys)
        case Nil
        with 3 assms show False by (auto simp: fence_free_def suffix_imp_sublist)
      next
        case (Cons y zs)
        with 3(3) have "y = LF" by (simp add: TRUNCATION_NOTICE_def)
        with 3(1) Cons have "ys = LF # ''<<<''" by (auto simp: Cons_eq_append_conv LF_def)
        with 3(3) show False by (simp add: TRUNCATION_NOTICE_def)
      qed
    qed
  qed
  have right: "\<not> sublist (c # ''>>>'') (b @ TRUNCATION_NOTICE)" if c: "label_char c" for c
  proof -
    have "c \<noteq> LF" using c by (auto simp: label_char_def is_digit_def code_def LF_def)
    then have "LF \<notin> set (c # ''>>>'')" by (simp add: LF_def)
    then show ?thesis
      unfolding TRUNCATION_NOTICE_def using assms no c by (simp add: sublist_avoid fence_free_def)
  qed
  have "\<not> prefix ''<<<'' (b @ TRUNCATION_NOTICE)"
    using assms by (auto simp: fence_free_def prefix_append TRUNCATION_NOTICE_def LF_def prefix_Cons
        Cons_eq_append_conv)
  with left right show ?thesis by (simp add: fence_free_def)
qed

lemma render_blocks_free:
  "\<forall>(l, b) \<in> set (fst (render_blocks blocks n)). fence_free b \<and> l \<in> range slug"
proof (induction blocks n rule: render_blocks.induct)
  case (2 block blocks n)
  let ?body = "sanitize_untrusted (ub_text block)"
  have "fence_free (take n ?body)" for n
    using prefix_fence_free [of "take n ?body" "drop n ?body"] sanitized_fence_free by simp
  with 2 sanitized_fence_free truncated_fence_free show ?case
    by (auto simp: Let_def split: prod.splits)
qed simp

lemma render_blocks_size:
  "sum_list (map (length \<circ> snd) (fst (render_blocks blocks n))) \<le> n + length TRUNCATION_NOTICE"
proof (induction blocks n rule: render_blocks.induct)
  case (2 block blocks n)
  let ?body = "sanitize_untrusted (ub_text block)"
  have none: "fst (render_blocks blocks 0) = []" for blocks by (cases blocks) (simp_all add: Let_def)
  consider "n = 0" | "0 < n" "n < length ?body" | "0 < n" "length ?body \<le> n" by linarith
  then show ?case
  proof cases
    case 3
    with 2 [OF refl refl] have "sum_list (map (length \<circ> snd) (fst (render_blocks blocks (n - length ?body))))
        \<le> n - length ?body + length TRUNCATION_NOTICE" by (simp add: comp_def)
    with 3 show ?thesis by (auto simp: Let_def comp_def split: prod.splits)
  qed (simp_all add: Let_def none)
qed simp

text \<open>
  C36. Business data cannot leave its fence. Whatever the blocks hold, the text put into the
  prompt is a sequence of fences that ARIE wrote, under labels it wrote, and in none of the
  bodies does a line begin like a fence or a label end one, so no body holds the opening or the
  closing marker of any label; and all bodies together are no longer than the configured bound
  and one truncation notice.
\<close>

theorem untrusted_text_stays_fenced:
  "\<exists>parts. fst (render_untrusted blocks max_chars)
      = join_with [LF, LF] (map (\<lambda>(l, b). fence_open l @ [LF] @ b @ [LF] @ fence_close l) parts)
    \<and> list_all (\<lambda>(l, b). l \<in> range slug \<and> \<not> prefix ''<<<'' b \<and> \<not> sublist (LF # ''<<<'') b
        \<and> (\<forall>name. \<not> sublist (fence_close (slug name)) b \<and> \<not> sublist (fence_open (slug name)) b)) parts
    \<and> sum_list (map (length \<circ> snd) parts) \<le> nat max_chars + length TRUNCATION_NOTICE"
proof -
  have marker: "\<not> sublist (x @ slug name @ ''>>>'') b" if free: "fence_free b" for x name b
  proof
    assume "sublist (x @ slug name @ ''>>>'') b"
    then obtain ps ss where b: "b = ps @ (x @ slug name @ ''>>>'') @ ss" by (auto simp: sublist_def)
    obtain l c where slug: "slug name = l @ [c]" "label_char c"
      using label_chars [of name] by (cases "slug name" rule: rev_cases) auto
    have "b = (ps @ x @ l) @ (c # ''>>>'') @ ss" by (simp add: b slug(1))
    then have "sublist (c # ''>>>'') b" unfolding sublist_def by blast
    with free slug(2) show False by (simp add: fence_free_def)
  qed
  have body: "l \<in> range slug \<and> \<not> prefix ''<<<'' b \<and> \<not> sublist (LF # ''<<<'') b
        \<and> (\<forall>name. \<not> sublist (fence_close (slug name)) b \<and> \<not> sublist (fence_open (slug name)) b)"
    if "fence_free b" "l \<in> range slug" for l b
    using that marker [OF that(1), of "''<<<END_UNTRUSTED_DATA name=''"]
      marker [OF that(1), of "''<<<UNTRUSTED_DATA name=''"]
    by (simp add: fence_free_def fence_close_def fence_open_def)
  show ?thesis
  proof (cases "max_chars \<le> 0")
    case True
    then show ?thesis by (intro exI [of _ "[]"]) (simp add: render_untrusted_def)
  next
    case False
    let ?parts = "fst (render_blocks blocks (nat max_chars))"
    have "fst (render_untrusted blocks max_chars) = join_with [LF, LF] (map (\<lambda>(l, b). fenced l b) ?parts)"
      using False by (simp add: render_untrusted_def split: prod.split)
    moreover have "list_all (\<lambda>(l, b). l \<in> range slug \<and> \<not> prefix ''<<<'' b \<and> \<not> sublist (LF # ''<<<'') b
        \<and> (\<forall>name. \<not> sublist (fence_close (slug name)) b \<and> \<not> sublist (fence_open (slug name)) b)) ?parts"
      using render_blocks_free [of blocks "nat max_chars"] body unfolding list_all_iff by blast
    ultimately show ?thesis
      using render_blocks_size [of blocks "nat max_chars"]
      by (intro exI [of _ ?parts]) (simp add: fenced_def)
  qed
qed

subsection \<open>Messages, usage, completions\<close>

datatype message_role = System_Role | User_Role

record llm_message =
  lm_role :: message_role
  lm_content :: string

record llm_usage =
  lu_prompt_tokens :: int
  lu_completion_tokens :: int
  lu_guardrail_units :: int
  lu_guardrail_cost :: real

definition no_usage :: llm_usage where
  "no_usage = \<lparr>lu_prompt_tokens = 0, lu_completion_tokens = 0, lu_guardrail_units = 0, lu_guardrail_cost = 0\<rparr>"

definition usage_add :: "llm_usage \<Rightarrow> llm_usage \<Rightarrow> llm_usage" where
  "usage_add a b =
     \<lparr>lu_prompt_tokens = lu_prompt_tokens a + lu_prompt_tokens b,
      lu_completion_tokens = lu_completion_tokens a + lu_completion_tokens b,
      lu_guardrail_units = lu_guardrail_units a + lu_guardrail_units b,
      lu_guardrail_cost = lu_guardrail_cost a + lu_guardrail_cost b\<rparr>"

record llm_completion =
  co_text :: string
  co_usage :: llm_usage
  co_latency :: real
  co_finish_reason :: "string option"

definition completion_truncated :: "llm_completion \<Rightarrow> bool" where
  "completion_truncated c \<longleftrightarrow> co_finish_reason c = Some ''length''"

text \<open>A failed call: \<open>str(exc)\<close>, and the usage an exception carries when the call was billed.\<close>

datatype llm_failure =
    LLMTransportError string
  | LLMResponseError string "llm_usage option"
  | LLMGuardrailInterventionError string "llm_usage option"
  | LLMProviderError string "llm_usage option"

text \<open>A provider: its n-th answer to a list of messages, a schema and a bound on the output.\<close>

record llm_provider =
  lp_name :: string
  lp_model :: string
  lp_generate :: "nat \<Rightarrow> llm_message list \<Rightarrow> string \<Rightarrow> int \<Rightarrow> llm_failure + llm_completion"
  lp_guardrail :: "int \<Rightarrow> real"

text \<open>The Pydantic model: \<open>schema_json\<close>, and \<open>model_validate_json\<close> with its error text.\<close>

record 'v model_type =
  mt_schema :: string
  mt_validate :: "string \<Rightarrow> string + 'v"

record structured_attempt =
  sa_usage :: llm_usage
  sa_latency :: real
  sa_billable :: bool
  sa_error :: "string option"

record 'v structured_outcome =
  so_value :: "'v option"
  so_attempts :: "structured_attempt list"
  so_model :: string
  so_provider :: string
  so_failure :: "string option"

definition outcome_usage :: "'v structured_outcome \<Rightarrow> llm_usage" where
  "outcome_usage o' = foldl usage_add no_usage (map sa_usage (so_attempts o'))"

definition billable_attempts :: "'v structured_outcome \<Rightarrow> structured_attempt list" where
  "billable_attempts o' = filter sa_billable (so_attempts o')"

subsection \<open>Reading a response\<close>

definition lang_char :: "char \<Rightarrow> bool" where
  "lang_char c \<longleftrightarrow> (97 \<le> code c \<and> code c \<le> 122) \<or> (65 \<le> code c \<and> code c \<le> 90) \<or> is_digit c
     \<or> c \<in> {CHR ''_'', CHR ''+'', CHR ''-''}"

definition drop_one :: "char \<Rightarrow> string \<Rightarrow> string" where
  "drop_one c s = (case s of d # r \<Rightarrow> if d = c then r else s | [] \<Rightarrow> [])"

text \<open>
  \<open>_CODE_FENCE\<close>, matched against the whole text: three backticks, a language tag, blanks, the
  end of the line, the body, and three backticks at the very end.
\<close>

definition code_fence_body :: "string \<Rightarrow> string option" where
  "code_fence_body s =
     (let ticks = [CHR 0x60, CHR 0x60, CHR 0x60];
          r = drop_one (CHR 0x0D) (dropWhile (\<lambda>c. c = CHR '' '' \<or> c = CHR 0x09) (dropWhile lang_char (drop 3 s)))
      in if \<not> starts_with s ticks then None
         else (case r of
                 c # body \<Rightarrow>
                   if c = LF \<and> 3 \<le> length body \<and> drop (length body - 3) body = ticks
                   then Some (take (length body - 3) body) else None
               | [] \<Rightarrow> None))"

definition strip_code_fence :: "string \<Rightarrow> string" where
  "strip_code_fence text =
     (let stripped = py_strip text
      in case code_fence_body stripped of Some body \<Rightarrow> py_strip body | None \<Rightarrow> stripped)"

definition validate_completion :: "'v model_type \<Rightarrow> llm_completion \<Rightarrow> string + 'v" where
  "validate_completion mt c =
     (if completion_truncated c
      then Inl ''the response was cut off at the output-token limit, so its JSON is incomplete''
      else (let text = strip_code_fence (co_text c)
            in if text = [] then Inl ''the model returned an empty response''
               else mt_validate mt text))"

subsection \<open>One bounded repair\<close>

definition repair_note :: "string \<Rightarrow> string" where
  "repair_note err =
     ''Your previous response could not be used. It failed validation with: '' @ take 800 err @ [LF, LF]
       @ ''Return a single JSON object that satisfies the schema exactly. ''
       @ ''Output the JSON object and nothing else.''"

definition base_messages :: "string \<Rightarrow> string \<Rightarrow> string \<Rightarrow> llm_message list" where
  "base_messages data_rule instructions rendered =
     [\<lparr>lm_role = System_Role, lm_content = data_rule\<rparr>, \<lparr>lm_role = System_Role, lm_content = instructions\<rparr>,
      \<lparr>lm_role = User_Role,
       lm_content = (if rendered \<noteq> [] then rendered else ''(no business data was supplied)'')\<rparr>]"

definition messages_for :: "llm_message list \<Rightarrow> string option \<Rightarrow> llm_message list" where
  "messages_for base failure =
     (case failure of
        None \<Rightarrow> base
      | Some e \<Rightarrow> base @ [\<lparr>lm_role = System_Role, lm_content = repair_note e\<rparr>])"

definition failed_attempt :: "llm_usage option \<Rightarrow> string \<Rightarrow> structured_attempt" where
  "failed_attempt u e =
     \<lparr>sa_usage = (case u of None \<Rightarrow> no_usage | Some x \<Rightarrow> x), sa_latency = 0, sa_billable = (u \<noteq> None),
      sa_error = Some e\<rparr>"

text \<open>The loop over \<open>range(attempts_allowed)\<close>, from request \<open>index\<close> on.\<close>

fun attempt_loop ::
  "llm_provider \<Rightarrow> 'v model_type \<Rightarrow> llm_message list \<Rightarrow> int \<Rightarrow> nat \<Rightarrow> nat \<Rightarrow> string option
     \<Rightarrow> 'v option \<times> structured_attempt list \<times> string option" where
  "attempt_loop p mt base max_tokens index 0 failure = (None, [], failure)"
| "attempt_loop p mt base max_tokens index (Suc n) failure =
     (let again = (\<lambda>a e. case attempt_loop p mt base max_tokens (Suc index) n (Some e) of
                           (value, rest, f) \<Rightarrow> (value, a # rest, f))
      in case lp_generate p index (messages_for base failure) (mt_schema mt) max_tokens of
           Inl (LLMTransportError m) \<Rightarrow>
             (let e = ''transport: '' @ m in again (failed_attempt None e) e)
         | Inl (LLMResponseError m u) \<Rightarrow>
             (let e = ''provider: '' @ m in again (failed_attempt u e) e)
         | Inl (LLMProviderError m u) \<Rightarrow>
             (let e = ''provider: '' @ m in again (failed_attempt u e) e)
         | Inl (LLMGuardrailInterventionError m u) \<Rightarrow>
             (let e = ''provider: '' @ m in (None, [failed_attempt u e], Some e))
         | Inr c \<Rightarrow>
             (case validate_completion mt c of
                Inr value \<Rightarrow>
                  (Some value, [\<lparr>sa_usage = co_usage c, sa_latency = co_latency c, sa_billable = True,
                                 sa_error = None\<rparr>], None)
              | Inl e \<Rightarrow>
                  again \<lparr>sa_usage = co_usage c, sa_latency = co_latency c, sa_billable = True,
                         sa_error = Some e\<rparr> e))"

text \<open>The settings of \<open>IntelligenceConfig\<close> that the layer reads.\<close>

record intelligence_config =
  ic_provider :: string
  ic_model :: string
  ic_max_attempts :: int
  ic_max_output_tokens :: int
  ic_max_untrusted_chars :: int
  ic_copilot_provider :: string
  ic_copilot_model :: string

text \<open>\<open>max_output_tokens or settings.max_output_tokens\<close>\<close>

definition output_bound :: "int option \<Rightarrow> intelligence_config \<Rightarrow> int" where
  "output_bound max_tokens cfg =
     (case max_tokens of None \<Rightarrow> ic_max_output_tokens cfg
      | Some n \<Rightarrow> if n = 0 then ic_max_output_tokens cfg else n)"

definition generate_structured ::
  "llm_provider \<Rightarrow> 'v model_type \<Rightarrow> string \<Rightarrow> string \<Rightarrow> untrusted_block list \<Rightarrow> intelligence_config
     \<Rightarrow> int option \<Rightarrow> int option \<Rightarrow> 'v structured_outcome" where
  "generate_structured p mt data_rule instructions untrusted cfg max_attempts max_tokens =
     (let allowed = nat (max 1 (case max_attempts of None \<Rightarrow> ic_max_attempts cfg | Some n \<Rightarrow> n));
          rendered = fst (render_untrusted untrusted (ic_max_untrusted_chars cfg));
          (value, attempts, failure) =
            attempt_loop p mt (base_messages data_rule instructions rendered) (output_bound max_tokens cfg)
              0 allowed None
      in \<lparr>so_value = value, so_attempts = attempts, so_model = lp_model p, so_provider = lp_name p,
          so_failure = failure\<rparr>)"

subsection \<open>What the loop does\<close>

text \<open>A step answers, is blocked for good, or goes on with a note on its error.\<close>

lemma attempt_loop_step:
  obtains (answer) c x a where
      "lp_generate p i (messages_for base f) (mt_schema mt) mx = Inr c" "validate_completion mt c = Inr x"
      "attempt_loop p mt base mx i (Suc n) f = (Some x, [a], None)" "sa_error a = None"
    | (blocked) a e where "attempt_loop p mt base mx i (Suc n) f = (None, [a], Some e)" "sa_error a = Some e"
    | (again) a e v rest g where "attempt_loop p mt base mx (Suc i) n (Some e) = (v, rest, g)"
      "attempt_loop p mt base mx i (Suc n) f = (v, a # rest, g)" "sa_error a = Some e"
proof (cases "lp_generate p i (messages_for base f) (mt_schema mt) mx")
  case (Inl failure)
  show thesis
  proof (cases failure)
    case (LLMTransportError m)
    obtain v rest g where "attempt_loop p mt base mx (Suc i) n (Some (''transport: '' @ m)) = (v, rest, g)"
      by (metis surj_pair)
    with Inl LLMTransportError show thesis
      by (intro again [where a = "failed_attempt None (''transport: '' @ m)" and e = "''transport: '' @ m"])
        (auto simp: failed_attempt_def Let_def)
  next
    case (LLMResponseError m u)
    obtain v rest g where "attempt_loop p mt base mx (Suc i) n (Some (''provider: '' @ m)) = (v, rest, g)"
      by (metis surj_pair)
    with Inl LLMResponseError show thesis
      by (intro again [where a = "failed_attempt u (''provider: '' @ m)" and e = "''provider: '' @ m"])
        (auto simp: failed_attempt_def Let_def)
  next
    case (LLMProviderError m u)
    obtain v rest g where "attempt_loop p mt base mx (Suc i) n (Some (''provider: '' @ m)) = (v, rest, g)"
      by (metis surj_pair)
    with Inl LLMProviderError show thesis
      by (intro again [where a = "failed_attempt u (''provider: '' @ m)" and e = "''provider: '' @ m"])
        (auto simp: failed_attempt_def Let_def)
  next
    case (LLMGuardrailInterventionError m u)
    with Inl show thesis
      by (intro blocked [where a = "failed_attempt u (''provider: '' @ m)" and e = "''provider: '' @ m"])
        (auto simp: failed_attempt_def Let_def)
  qed
next
  case (Inr c)
  let ?a = "\<lambda>e. \<lparr>sa_usage = co_usage c, sa_latency = co_latency c, sa_billable = True, sa_error = e\<rparr>"
  show thesis
  proof (cases "validate_completion mt c")
    case (Inl e)
    obtain v rest g where "attempt_loop p mt base mx (Suc i) n (Some e) = (v, rest, g)"
      by (metis surj_pair)
    with Inr Inl show thesis by (intro again [where a = "?a (Some e)" and e = e]) auto
  next
    case (Inr x)
    with \<open>lp_generate p i (messages_for base f) (mt_schema mt) mx = Inr c\<close> show thesis
      by (intro answer [where a = "?a None"]) auto
  qed
qed

declare attempt_loop.simps(2) [simp del]

definition completed_by ::
  "llm_provider \<Rightarrow> 'v model_type \<Rightarrow> llm_message list \<Rightarrow> int \<Rightarrow> nat \<Rightarrow> 'v \<Rightarrow> bool" where
  "completed_by p mt base mx k x \<longleftrightarrow>
     (\<exists>f c. lp_generate p k (messages_for base f) (mt_schema mt) mx = Inr c
        \<and> validate_completion mt c = Inr x)"

lemma attempt_loop_spec:
  assumes "attempt_loop p mt base mx i n f = (v, attempts, g)"
  shows "length attempts \<le> n" and "0 < n \<Longrightarrow> attempts \<noteq> []"
    and "n = 0 \<or> (v = None \<longleftrightarrow> g \<noteq> None)"
    and "v = Some x \<Longrightarrow> attempts \<noteq> [] \<and> completed_by p mt base mx (i + length attempts - 1) x"
    and "\<forall>a \<in> set (butlast attempts). sa_error a \<noteq> None"
  using assms
proof (induction n arbitrary: i f v attempts g)
  case (Suc n)
  {
    case 1
    show ?case
      by (rule attempt_loop_step [where p = p and i = i and base = base and f = f and mt = mt and mx = mx and n = n]) (use 1 Suc.IH(1) in force)+
  next
    case 2
    show ?case
      by (rule attempt_loop_step [where p = p and i = i and base = base and f = f and mt = mt and mx = mx and n = n]) (use 2 in force)+
  next
    case 3
    show ?case
    proof (rule attempt_loop_step [where p = p and i = i and base = base and f = f and mt = mt and mx = mx and n = n])
      fix a e w rest h
      assume rec: "attempt_loop p mt base mx (Suc i) n (Some e) = (w, rest, h)"
        and "attempt_loop p mt base mx i (Suc n) f = (w, a # rest, h)"
      with 3 have eq: "w = v" "h = g" by auto
      show ?case
      proof (cases "n = 0")
        case True
        with rec eq show ?thesis by auto
      qed (use Suc.IH(3) [OF rec] eq in auto)
    qed (use 3 in auto)
  next
    case 4
    show ?case
    proof (rule attempt_loop_step [where p = p and i = i and base = base and f = f and mt = mt and mx = mx and n = n])
      fix a e w rest h
      assume rec: "attempt_loop p mt base mx (Suc i) n (Some e) = (w, rest, h)"
        and "attempt_loop p mt base mx i (Suc n) f = (w, a # rest, h)"
      with 4 have eq: "w = Some x" "attempts = a # rest" by auto
      with Suc.IH(4) [OF eq(1) rec] show ?case by (cases rest) auto
    next
      fix c y a
      assume "lp_generate p i (messages_for base f) (mt_schema mt) mx = Inr c"
        "validate_completion mt c = Inr y"
        "attempt_loop p mt base mx i (Suc n) f = (Some y, [a], None)"
      with 4 show ?case unfolding completed_by_def by auto blast
    qed (use 4 in auto)
  next
    case 5
    show ?case
    proof (rule attempt_loop_step [where p = p and i = i and base = base and f = f and mt = mt and mx = mx and n = n])
      fix a e w rest h
      assume rec: "attempt_loop p mt base mx (Suc i) n (Some e) = (w, rest, h)"
        and "attempt_loop p mt base mx i (Suc n) f = (w, a # rest, h)" and "sa_error a = Some e"
      with 5 Suc.IH(5) [OF rec] show ?case by (auto split: if_splits)
    qed (use 5 in auto)
  }
qed auto

text \<open>
  A structured generation asks at least once and at most as often as configured, whatever the
  provider does. It returns a value exactly if it reports no failure, the value is what the schema
  accepted in the answer to its last request, and every earlier attempt failed.
\<close>

theorem structured_generation_validates:
  assumes "generate_structured p mt rule instructions untrusted cfg max_attempts max_tokens = out"
  shows "1 \<le> length (so_attempts out)
    \<and> int (length (so_attempts out)) \<le> max 1 (case max_attempts of None \<Rightarrow> ic_max_attempts cfg | Some n \<Rightarrow> n)
    \<and> (so_value out = None \<longleftrightarrow> so_failure out \<noteq> None)
    \<and> (\<forall>a \<in> set (butlast (so_attempts out)). sa_error a \<noteq> None)
    \<and> (\<forall>x. so_value out = Some x \<longrightarrow> (\<exists>failure c.
          lp_generate p (length (so_attempts out) - 1)
            (messages_for (base_messages rule instructions
                (fst (render_untrusted untrusted (ic_max_untrusted_chars cfg)))) failure)
            (mt_schema mt) (output_bound max_tokens cfg) = Inr c
          \<and> \<not> completion_truncated c \<and> mt_validate mt (strip_code_fence (co_text c)) = Inr x))"
proof -
  let ?n = "nat (max 1 (case max_attempts of None \<Rightarrow> ic_max_attempts cfg | Some n \<Rightarrow> n))"
  let ?base = "base_messages rule instructions (fst (render_untrusted untrusted (ic_max_untrusted_chars cfg)))"
  let ?mx = "output_bound max_tokens cfg"
  obtain v attempts g where loop: "attempt_loop p mt ?base ?mx 0 ?n None = (v, attempts, g)"
    by (metis surj_pair)
  with assms have out: "so_value out = v" "so_attempts out = attempts" "so_failure out = g"
    by (auto simp: generate_structured_def Let_def)
  note spec = attempt_loop_spec [OF loop]
  have pos: "0 < ?n" by simp
  have last: "\<exists>failure c. lp_generate p (length attempts - 1) (messages_for ?base failure) (mt_schema mt) ?mx = Inr c
      \<and> \<not> completion_truncated c \<and> mt_validate mt (strip_code_fence (co_text c)) = Inr x" if x: "v = Some x" for x
  proof -
    from attempt_loop_spec(4) [OF loop x] obtain f c where
      "lp_generate p (length attempts - 1) (messages_for ?base f) (mt_schema mt) ?mx = Inr c"
      "validate_completion mt c = Inr x"
      by (auto simp: completed_by_def)
    then show ?thesis by (auto simp: validate_completion_def Let_def split: if_splits)
  qed
  have "1 \<le> length attempts" using spec(2) [OF pos] by (cases attempts) auto
  moreover have "int (length attempts) \<le> max 1 (case max_attempts of None \<Rightarrow> ic_max_attempts cfg | Some n \<Rightarrow> n)"
    using spec(1) by linarith
  moreover have "v = None \<longleftrightarrow> g \<noteq> None"
    using spec(3) gr_implies_not0 [OF pos] by blast
  ultimately show ?thesis using spec(5) last by (simp add: out)
qed

definition demo_completion :: "string \<Rightarrow> llm_completion" where
  "demo_completion text =
     \<lparr>co_text = text, co_usage = \<lparr>lu_prompt_tokens = 40, lu_completion_tokens = 5, lu_guardrail_units = 0,
        lu_guardrail_cost = 0\<rparr>, co_latency = 1, co_finish_reason = None\<rparr>"

definition prose_then_json :: llm_provider where
  "prose_then_json =
     \<lparr>lp_name = ''deepseek'', lp_model = ''deepseek-chat'',
      lp_generate = (\<lambda>n _ _ _. Inr (demo_completion (if n = 0 then ''Sure!'' else ''{}''))),
      lp_guardrail = (\<lambda>_. 0)\<rparr>"

definition demo_model_type :: "nat model_type" where
  "demo_model_type = \<lparr>mt_schema = ''{}'', mt_validate = (\<lambda>t. if t = ''{}'' then Inr 7 else Inl ''bad'')\<rparr>"

definition demo_intelligence :: intelligence_config where
  "demo_intelligence =
     \<lparr>ic_provider = ''deepseek'', ic_model = ''deepseek-chat'', ic_max_attempts = 2,
      ic_max_output_tokens = 10, ic_max_untrusted_chars = 100, ic_copilot_provider = [], ic_copilot_model = []\<rparr>"

theorem structured_generation_validates_witness:
  "length (so_attempts (generate_structured prose_then_json demo_model_type ''rule'' ''do'' [] demo_intelligence
      None None)) \<in> {1, 2}
   \<and> so_value (generate_structured prose_then_json demo_model_type ''rule'' ''do'' [] demo_intelligence
      None None) = Some 7"
proof -
  let ?out = "generate_structured prose_then_json demo_model_type ''rule'' ''do'' [] demo_intelligence None None"
  have "so_value ?out = Some 7" by code_simp
  moreover have "1 \<le> length (so_attempts ?out)" "int (length (so_attempts ?out)) \<le> max 1 2"
    using structured_generation_validates [OF refl, of prose_then_json demo_model_type "''rule''" "''do''" "[]"
        demo_intelligence None None] by (simp_all add: demo_intelligence_def)
  ultimately show ?thesis by auto
qed

end
