(* ===== verification/LLM_Access.thy ===== *)
theory LLM_Access
  imports LLM_Structured Live_Guards
begin

text \<open>
  \<open>arie.llm.budget\<close>, \<open>arie.llm.factory\<close> and \<open>arie.llm.service\<close>: the ceilings of an
  organization and what it has spent, read from the ledger of model calls; which provider is
  built; and the one path by which a feature reaches a model: price the worst case, ask the
  budget, call, record every billed attempt. The constructors of the vendors' clients are a
  parameter, as is the text of the standing rule about untrusted data, which is only measured
  and sent. Tracing is not modelled, and a generation runs alone between the budget's question
  and its rows.
\<close>

subsection \<open>Ceilings and spend\<close>

datatype llm_budget_reason =
    ALLOWED | BATCH_CALL_LIMIT_REACHED | BATCH_COST_LIMIT_REACHED | MONTHLY_COST_LIMIT_REACHED
  | LLM_DISABLED | PROVIDER_UNAVAILABLE

record llm_limits =
  ll_max_calls_per_batch :: int
  ll_max_cost_per_batch :: real
  ll_max_cost_per_month :: real
  ll_preferred_model :: "string option"

record llm_spend =
  ls_batch_calls :: nat
  ls_batch_cost :: real
  ls_month_cost :: real

record budget_decision =
  bd_allowed :: bool
  bd_reason :: llm_budget_reason
  bd_detail :: string
  bd_estimated_cost :: real
  bd_limits :: "llm_limits option"
  bd_spend :: "llm_spend option"

definition decision_provider_unavailable :: "string \<Rightarrow> budget_decision" where
  "decision_provider_unavailable detail =
     \<lparr>bd_allowed = False, bd_reason = PROVIDER_UNAVAILABLE, bd_detail = detail, bd_estimated_cost = 0,
      bd_limits = None, bd_spend = None\<rparr>"

text \<open>The columns of \<open>organizations\<close> that hold the ceilings.\<close>

type_synonym llm_organizations = "uuid \<Rightarrow> llm_limits option"

definition llm_calendar_month_bounds :: "instant \<Rightarrow> instant \<times> instant" where
  "llm_calendar_month_bounds now = (month_start now, next_month_start now)"

definition get_llm_limits :: "uuid \<Rightarrow> llm_organizations \<Rightarrow> error + llm_limits" where
  "get_llm_limits org orgs = (case orgs org of None \<Rightarrow> Inl AssertionError | Some l \<Rightarrow> Inr l)"

definition set_llm_limits :: "uuid \<Rightarrow> llm_limits \<Rightarrow> llm_organizations \<Rightarrow> llm_organizations" where
  "set_llm_limits org l orgs = (if orgs org = None then orgs else orgs(org \<mapsto> l))"

definition of_batch :: "uuid \<Rightarrow> uuid \<Rightarrow> model_call \<Rightarrow> bool" where
  "of_batch org b r \<longleftrightarrow> mc_organization_id r = org \<and> mc_batch_id r = Some b"

definition of_month :: "uuid \<Rightarrow> instant \<Rightarrow> model_call \<Rightarrow> bool" where
  "of_month org now r \<longleftrightarrow> mc_organization_id r = org
     \<and> fst (llm_calendar_month_bounds now) \<le> mc_created_at r
     \<and> mc_created_at r < snd (llm_calendar_month_bounds now)"

definition get_llm_spend :: "uuid \<Rightarrow> instant \<Rightarrow> uuid option \<Rightarrow> model_call list \<Rightarrow> llm_spend" where
  "get_llm_spend org now batch rows =
     \<lparr>ls_batch_calls = (case batch of None \<Rightarrow> 0 | Some b \<Rightarrow> count_of (of_batch org b) rows),
      ls_batch_cost = (case batch of None \<Rightarrow> 0 | Some b \<Rightarrow> sum_of mc_cost (of_batch org b) rows),
      ls_month_cost = sum_of mc_cost (of_month org now) rows\<rparr>"

text \<open>\<open>money\<close> prints an amount inside a sentence for the customer.\<close>

definition evaluate_budget ::
  "(real \<Rightarrow> string) \<Rightarrow> llm_limits \<Rightarrow> llm_spend \<Rightarrow> real \<Rightarrow> bool \<Rightarrow> budget_decision" where
  "evaluate_budget money l s estimate batch_scoped =
     (let refuse = (\<lambda>reason detail.
            \<lparr>bd_allowed = False, bd_reason = reason, bd_detail = detail, bd_estimated_cost = estimate,
             bd_limits = Some l, bd_spend = Some s\<rparr>)
      in if ll_max_calls_per_batch l = 0 \<or> ll_max_cost_per_batch l = 0 \<or> ll_max_cost_per_month l = 0
         then refuse LLM_DISABLED
           ''AI assistance is switched off for this organization (an LLM limit is set to zero).''
         else if batch_scoped \<and> int (ls_batch_calls s) + 1 > ll_max_calls_per_batch l
         then refuse BATCH_CALL_LIMIT_REACHED
           (''this batch has already used its '' @ py_str_int (ll_max_calls_per_batch l) @ '' AI calls.'')
         else if batch_scoped \<and> ls_batch_cost s + estimate > ll_max_cost_per_batch l
         then refuse BATCH_COST_LIMIT_REACHED
           (''this batch has reached its $'' @ money (ll_max_cost_per_batch l) @ '' AI spend limit.'')
         else if ls_month_cost s + estimate > ll_max_cost_per_month l
         then refuse MONTHLY_COST_LIMIT_REACHED
           (''this organization has reached its $'' @ money (ll_max_cost_per_month l)
              @ '' monthly AI spend limit.'')
         else \<lparr>bd_allowed = True, bd_reason = ALLOWED, bd_detail = ''within configured AI budgets.'',
               bd_estimated_cost = estimate, bd_limits = Some l, bd_spend = Some s\<rparr>)"

definition authorize_llm_call ::
  "(real \<Rightarrow> string) \<Rightarrow> uuid \<Rightarrow> real \<Rightarrow> instant \<Rightarrow> uuid option \<Rightarrow> llm_organizations \<Rightarrow> model_call list
     \<Rightarrow> error + budget_decision" where
  "authorize_llm_call money org estimate now batch orgs rows =
     sum_bind (get_llm_limits org orgs) (\<lambda>l.
       Inr (evaluate_budget money l (get_llm_spend org now batch rows) estimate (batch \<noteq> None)))"

subsection \<open>Which provider\<close>

definition SUPPORTED_PROVIDERS :: "string list" where
  "SUPPORTED_PROVIDERS = [''agentcore'', ''bedrock'', ''deepseek'', ''fake'', ''none'']"

definition BEDROCK_MODELS :: "string list" where
  "BEDROCK_MODELS = [''amazon.nova-micro-v1:0'', ''google.gemma-3-4b-it'']"

definition DEFAULT_BEDROCK_MODEL :: string where
  "DEFAULT_BEDROCK_MODEL = ''amazon.nova-micro-v1:0''"

definition FAKE_MODEL :: string where
  "FAKE_MODEL = ''fake-llm''"

definition priced :: "string \<Rightarrow> bool" where
  "priced model \<longleftrightarrow> map_of MODEL_PRICES model \<noteq> None"

text \<open>An unavailable provider is \<open>Inl\<close> of \<open>str(exc)\<close>, a sentence that stops here at its dash;
  \<open>preferred_model and ...\<close> ignores an empty name.\<close>

definition resolve_model :: "intelligence_config \<Rightarrow> string option \<Rightarrow> string + string" where
  "resolve_model cfg preferred =
     (if preferred \<noteq> None \<and> preferred \<noteq> Some [] \<and> priced (the preferred) then Inr (the preferred)
      else if \<not> priced (ic_model cfg)
      then Inl (''LLM_MODEL='' @ [CHR 0x27] @ ic_model cfg @ [CHR 0x27] @ '' has no price in arie.ledger.pricing.MODEL_PRICES'')
      else Inr (ic_model cfg))"

definition resolve_bedrock_model :: "intelligence_config \<Rightarrow> string option \<Rightarrow> string + string" where
  "resolve_bedrock_model cfg preferred =
     (if preferred \<noteq> None \<and> preferred \<noteq> Some [] \<and> the preferred \<in> set BEDROCK_MODELS then Inr (the preferred)
      else if ic_model cfg \<in> set BEDROCK_MODELS then Inr (ic_model cfg)
      else if \<not> priced DEFAULT_BEDROCK_MODEL
      then Inl (''the default Bedrock model '' @ DEFAULT_BEDROCK_MODEL @ '' has no price'')
      else Inr DEFAULT_BEDROCK_MODEL)"

definition copilot_config :: "intelligence_config \<Rightarrow> string + intelligence_config" where
  "copilot_config cfg =
     (let override = py_lower (py_strip (ic_copilot_provider cfg))
      in if override = [] then Inr cfg
         else if override \<notin> set SUPPORTED_PROVIDERS
         then Inl (''COPILOT_LLM_PROVIDER='' @ [CHR 0x27] @ ic_copilot_provider cfg @ [CHR 0x27] @ '' is not one of the supported'')
         else (let named = py_strip (ic_copilot_model cfg);
                   model = (if named \<noteq> [] then named
                            else if override = ''bedrock'' \<or> override = ''agentcore'' then DEFAULT_BEDROCK_MODEL
                            else ic_model cfg)
               in Inr (cfg\<lparr>ic_provider := override, ic_model := model\<rparr>)))"

text \<open>The vendors' constructors: a client for a model, or why it cannot be built.\<close>

record llm_clients =
  cl_fake :: "string \<Rightarrow> llm_provider"
  cl_deepseek :: "intelligence_config \<Rightarrow> string + llm_provider"
  cl_bedrock :: "intelligence_config \<Rightarrow> string + llm_provider"
  cl_agentcore :: "intelligence_config \<Rightarrow> string + llm_provider"

definition sum_then :: "string + 'a \<Rightarrow> ('a \<Rightarrow> string + 'b) \<Rightarrow> string + 'b" where
  "sum_then m f = (case m of Inl e \<Rightarrow> Inl e | Inr x \<Rightarrow> f x)"

definition build_llm_provider ::
  "llm_clients \<Rightarrow> intelligence_config \<Rightarrow> string option \<Rightarrow> string + llm_provider" where
  "build_llm_provider clients cfg preferred =
     (let provider = py_lower (ic_provider cfg)
      in if provider = ''none'' then
           Inl ''LLM_PROVIDER=none: the intelligence layer is switched off for this deployment''
         else if provider = ''fake'' then Inr (cl_fake clients FAKE_MODEL)
         else if provider = ''deepseek'' then
           sum_then (resolve_model cfg preferred) (\<lambda>m. cl_deepseek clients (cfg\<lparr>ic_model := m\<rparr>))
         else if provider = ''bedrock'' then
           sum_then (resolve_bedrock_model cfg preferred) (\<lambda>m. cl_bedrock clients (cfg\<lparr>ic_model := m\<rparr>))
         else if provider = ''agentcore'' then
           sum_then (resolve_bedrock_model cfg preferred) (\<lambda>m. cl_agentcore clients (cfg\<lparr>ic_model := m\<rparr>))
         else Inl (''LLM_PROVIDER='' @ [CHR 0x27] @ ic_provider cfg @ [CHR 0x27] @ '' is not one of the supported''))"

subsection \<open>The one path to a model\<close>

record 'v intelligence_result =
  ir_value :: "'v option"
  ir_reason :: llm_budget_reason
  ir_detail :: string
  ir_cost :: real
  ir_usage :: llm_usage
  ir_provider :: "string option"
  ir_model :: "string option"
  ir_call_ids :: "uuid list"
  ir_outcome :: "'v structured_outcome option"

definition refused_result :: "budget_decision \<Rightarrow> 'v intelligence_result" where
  "refused_result dec =
     \<lparr>ir_value = None, ir_reason = bd_reason dec, ir_detail = bd_detail dec, ir_cost = 0, ir_usage = no_usage,
      ir_provider = None, ir_model = None, ir_call_ids = [], ir_outcome = None\<rparr>"

record 'v llm_request =
  lq_organization_id :: uuid
  lq_purpose :: string
  lq_model_type :: "'v model_type"
  lq_instructions :: string
  lq_now :: instant
  lq_untrusted :: "untrusted_block list"
  lq_batch_id :: "uuid option"
  lq_lead_id :: "uuid option"
  lq_key :: "string option"
  lq_max_output_tokens :: "int option"

text \<open>A service: a pinned provider or the means to build one, its settings, and what the model is
  told about untrusted data. \<open>sv_write\<close> is the id and the instant of the n-th row it writes.\<close>

record llm_service =
  sv_provider :: "llm_provider option"
  sv_clients :: llm_clients
  sv_config :: intelligence_config
  sv_data_rule :: string
  sv_money :: "real \<Rightarrow> string"
  sv_write :: "nat \<Rightarrow> write_env"

definition CHARS_PER_TOKEN :: nat where
  "CHARS_PER_TOKEN = 4"

text \<open>\<open>Inr\<close> of \<open>Inl\<close> is the unavailable provider that \<open>generate\<close> catches.\<close>

definition resolve_provider :: "llm_service \<Rightarrow> uuid \<Rightarrow> llm_organizations \<Rightarrow> error + (string + llm_provider)" where
  "resolve_provider sv org orgs =
     (case sv_provider sv of
        Some p \<Rightarrow> Inr (Inr p)
      | None \<Rightarrow> sum_bind (get_llm_limits org orgs) (\<lambda>l.
          Inr (build_llm_provider (sv_clients sv) (sv_config sv) (ll_preferred_model l))))"

definition prompt_chars :: "llm_service \<Rightarrow> 'v llm_request \<Rightarrow> nat" where
  "prompt_chars sv q =
     length (sv_data_rule sv) + length (lq_instructions q)
     + length (fst (render_untrusted (lq_untrusted q) (ic_max_untrusted_chars (sv_config sv))))
     + length (mt_schema (lq_model_type q))"

definition estimate_attempt :: "llm_service \<Rightarrow> llm_provider \<Rightarrow> 'v llm_request \<Rightarrow> error + real" where
  "estimate_attempt sv p q =
     sum_bind (model_call_cost_usd (lp_model p) (int (prompt_chars sv q div CHARS_PER_TOKEN) + 1)
                 (output_bound (lq_max_output_tokens q) (sv_config sv)))
       (\<lambda>tokens. Inr (tokens + lp_guardrail p
          (int (length (fst (render_untrusted (lq_untrusted q) (ic_max_untrusted_chars (sv_config sv))))))))"

definition estimate_cost :: "llm_service \<Rightarrow> llm_provider \<Rightarrow> 'v llm_request \<Rightarrow> error + real" where
  "estimate_cost sv p q =
     sum_bind (estimate_attempt sv p q) (\<lambda>x.
       Inr (x * of_int (max 1 (ic_max_attempts (sv_config sv)))))"

text \<open>What one billed attempt writes: the price of its tokens, plus guardrail spend if any.\<close>

definition attempt_charge ::
  "'v llm_request \<Rightarrow> 'v structured_outcome \<Rightarrow> nat \<Rightarrow> structured_attempt \<Rightarrow> error + model_charge" where
  "attempt_charge q out index a =
     (let u = sa_usage a
      in sum_bind (if lu_guardrail_cost u \<noteq> 0
                   then sum_bind (model_call_cost_usd (so_model out) (lu_prompt_tokens u) (lu_completion_tokens u))
                          (\<lambda>x. Inr (Some (x + lu_guardrail_cost u)))
                   else Inr None)
           (\<lambda>cost.
             Inr \<lparr>mg_key = (case lq_key q of
                              Some (c # cs) \<Rightarrow> Some ((c # cs) @ '':attempt'' @ py_str_int (int index))
                            | _ \<Rightarrow> None),
                  mg_model = so_model out, mg_purpose = lq_purpose q,
                  mg_prompt_tokens = lu_prompt_tokens u, mg_completion_tokens = lu_completion_tokens u,
                  mg_organization_id = lq_organization_id q, mg_lead_id = lq_lead_id q,
                  mg_latency = Some (sa_latency a), mg_escalated_from = None, mg_cost = cost,
                  mg_provider = Some (so_provider out), mg_batch_id = lq_batch_id q,
                  mg_actual_cost = None, mg_cost_basis = None\<rparr>))"

text \<open>\<open>_record\<close>: each row commits on its own, so an error leaves the rows before it.\<close>

fun record_attempts ::
  "llm_service \<Rightarrow> 'v llm_request \<Rightarrow> 'v structured_outcome \<Rightarrow> nat \<Rightarrow> structured_attempt list \<Rightarrow> model_call list
     \<Rightarrow> model_call list \<times> (error + uuid list \<times> real)" where
  "record_attempts sv q out index [] rows = (rows, Inr ([], 0))"
| "record_attempts sv q out index (a # attempts) rows =
     (if \<not> sa_billable a then record_attempts sv q out (Suc index) attempts rows
      else
        (case sum_bind (attempt_charge q out index a) (\<lambda>c. record_model_call (sv_write sv index) c rows) of
           Inl e \<Rightarrow> (rows, Inl e)
         | Inr (rows1, w) \<Rightarrow>
             (case record_attempts sv q out (Suc index) attempts rows1 of
                (rows2, Inl e) \<Rightarrow> (rows2, Inl e)
              | (rows2, Inr (ids, spent)) \<Rightarrow>
                  (rows2, Inr (lw_call_id w # ids, (if lw_recorded w then lw_cost w else 0) + spent)))))"

definition unusable_detail :: "string option \<Rightarrow> string" where
  "unusable_detail failure =
     ''the AI response could not be used ('' @ (case failure of None \<Rightarrow> ''None'' | Some f \<Rightarrow> f) @ '').''"

definition llm_generate ::
  "llm_service \<Rightarrow> 'v llm_request \<Rightarrow> llm_organizations \<Rightarrow> model_call list
     \<Rightarrow> model_call list \<times> (error + 'v intelligence_result)" where
  "llm_generate sv q orgs rows =
     (case resolve_provider sv (lq_organization_id q) orgs of
        Inl e \<Rightarrow> (rows, Inl e)
      | Inr (Inl msg) \<Rightarrow> (rows, Inr (refused_result (decision_provider_unavailable msg)))
      | Inr (Inr p) \<Rightarrow>
          (case sum_bind (estimate_cost sv p q) (\<lambda>estimate.
                  authorize_llm_call (sv_money sv) (lq_organization_id q) estimate (lq_now q) (lq_batch_id q)
                    orgs rows) of
             Inl e \<Rightarrow> (rows, Inl e)
           | Inr dec \<Rightarrow>
               if \<not> bd_allowed dec then (rows, Inr (refused_result dec))
               else
                 (let out = generate_structured p (lq_model_type q) (sv_data_rule sv) (lq_instructions q)
                              (lq_untrusted q) (sv_config sv) None (lq_max_output_tokens q)
                  in case record_attempts sv q out 0 (so_attempts out) rows of
                       (rows', Inl e) \<Rightarrow> (rows', Inl e)
                     | (rows', Inr (ids, spent)) \<Rightarrow>
                         (rows', Inr \<lparr>ir_value = so_value out, ir_reason = ALLOWED,
                            ir_detail = (if so_value out \<noteq> None then bd_detail dec
                                         else unusable_detail (so_failure out)),
                            ir_cost = spent, ir_usage = outcome_usage out,
                            ir_provider = Some (so_provider out), ir_model = Some (so_model out),
                            ir_call_ids = ids, ir_outcome = Some out\<rparr>))))"

subsection \<open>What a generation records\<close>

text \<open>The ledger price of one attempt.\<close>

definition attempt_cost :: "string \<Rightarrow> structured_attempt \<Rightarrow> error + real" where
  "attempt_cost model a =
     sum_bind (model_call_cost_usd model (lu_prompt_tokens (sa_usage a)) (lu_completion_tokens (sa_usage a)))
       (\<lambda>x. Inr (x + lu_guardrail_cost (sa_usage a)))"

lemma charged_row:
  assumes "attempt_charge q out i a = Inr c" and "model_row env c = Inr row"
  shows "attempt_cost (so_model out) a = Inr (mc_cost row) \<and> mc_organization_id row = lq_organization_id q
    \<and> mc_batch_id row = lq_batch_id q \<and> mc_key row = mg_key c"
  using assms
  by (cases "lu_guardrail_cost (sa_usage a) = 0")
    (auto simp: attempt_charge_def model_row_def attempt_cost_def sum_bind_Inr Let_def split: list.splits option.splits)

text \<open>A row of the generation: billed to its organization and batch, at the price of an attempt.\<close>

definition billed_row :: "'v llm_request \<Rightarrow> string \<Rightarrow> structured_attempt list \<Rightarrow> model_call \<Rightarrow> bool" where
  "billed_row q model attempts r \<longleftrightarrow>
     mc_organization_id r = lq_organization_id q \<and> mc_batch_id r = lq_batch_id q
     \<and> (\<exists>a \<in> set attempts. sa_billable a \<and> attempt_cost model a = Inr (mc_cost r))"

lemma billed_row_mono: "billed_row q m xs r \<Longrightarrow> billed_row q m (a # xs) r"
  by (auto simp: billed_row_def)

lemma record_attempts_rows:
  assumes "record_attempts sv q out i attempts rows = (rows', Inr (ids, spent))"
  shows "\<exists>new. rows' = rows @ new \<and> length new \<le> length (filter sa_billable attempts)
    \<and> (\<forall>r \<in> set new. billed_row q (so_model out) attempts r) \<and> spent = sum_list (map mc_cost new)"
  using assms
proof (induction attempts arbitrary: i rows rows' ids spent)
  case (Cons a attempts)
  show ?case
  proof (cases "sa_billable a")
    case False
    with Cons.prems have "record_attempts sv q out (Suc i) attempts rows = (rows', Inr (ids, spent))" by simp
    from Cons.IH [OF this] False show ?thesis by (auto intro: billed_row_mono)
  next
    case True
    with Cons.prems obtain c rows1 w ids2 spent2 where c: "attempt_charge q out i a = Inr c"
      and rec: "record_model_call (sv_write sv i) c rows = Inr (rows1, w)"
      and rest: "record_attempts sv q out (Suc i) attempts rows1 = (rows', Inr (ids2, spent2))"
      and spent: "spent = (if lw_recorded w then lw_cost w else 0) + spent2"
      by (auto simp: sum_bind_Inr split: sum.splits prod.splits)
    from Cons.IH [OF rest] obtain new where new: "rows' = rows1 @ new"
      "length new \<le> length (filter sa_billable attempts)"
      "\<forall>r \<in> set new. billed_row q (so_model out) attempts r" "spent2 = sum_list (map mc_cost new)" by blast
    from rec obtain row where row: "model_row (sv_write sv i) c = Inr row"
      by (auto simp: record_model_call_def sum_bind_Inr)
    have this_row: "billed_row q (so_model out) (a # attempts) row"
      using charged_row [OF c row] True by (auto simp: billed_row_def)
    from rec row consider "rows1 = rows" "\<not> lw_recorded w"
      | "rows1 = rows @ [row]" "lw_recorded w" "lw_cost w = mc_cost row"
      by (auto simp: record_model_call_def split: if_splits option.splits)
    then show ?thesis
    proof cases
      case 1
      with new spent True show ?thesis by (intro exI [of _ new]) (auto intro: billed_row_mono)
    next
      case 2
      with new spent True this_row show ?thesis
        by (intro exI [of _ "row # new"]) (auto intro: billed_row_mono)
    qed
  qed
qed simp

subsection \<open>The budget holds\<close>

lemma sum_of_bound:
  assumes "\<forall>x \<in> set xs. 0 \<le> f x \<and> f x \<le> b" and "length xs \<le> n" and "0 \<le> b"
  shows "sum_of f P xs \<le> of_nat n * b"
proof -
  have "sum_of f P xs \<le> of_nat (length xs) * b"
    using assms(1) by (induction xs) (auto simp: sum_of_def algebra_simps \<open>0 \<le> b\<close>)
  also have "\<dots> \<le> of_nat n * b" using assms(2,3) by (intro mult_right_mono) simp_all
  finally show ?thesis .
qed

lemma evaluate_budget_allowed:
  assumes "bd_allowed (evaluate_budget money l s estimate scoped)"
  shows "ls_month_cost s + estimate \<le> ll_max_cost_per_month l"
    and "scoped \<Longrightarrow> ls_batch_cost s + estimate \<le> ll_max_cost_per_batch l"
    and "scoped \<Longrightarrow> int (ls_batch_calls s) + 1 \<le> ll_max_calls_per_batch l"
  using assms by (auto simp: evaluate_budget_def Let_def split: if_splits)

lemma evaluate_budget_reason:
  "bd_reason (evaluate_budget money l s estimate scoped) = ALLOWED \<longleftrightarrow>
     bd_allowed (evaluate_budget money l s estimate scoped)"
  by (simp add: evaluate_budget_def Let_def)

text \<open>How a generation that reached the provider came about.\<close>

lemma generate_called:
  assumes "llm_generate sv q orgs rows = (rows', Inr r)" and "ir_outcome r = Some out"
  obtains p estimate l ids where "resolve_provider sv (lq_organization_id q) orgs = Inr (Inr p)"
    and "estimate_cost sv p q = Inr estimate" and "orgs (lq_organization_id q) = Some l"
    and "bd_allowed (evaluate_budget (sv_money sv) l
           (get_llm_spend (lq_organization_id q) (lq_now q) (lq_batch_id q) rows) estimate (lq_batch_id q \<noteq> None))"
    and "out = generate_structured p (lq_model_type q) (sv_data_rule sv) (lq_instructions q)
           (lq_untrusted q) (sv_config sv) None (lq_max_output_tokens q)"
    and "record_attempts sv q out 0 (so_attempts out) rows = (rows', Inr (ids, ir_cost r))"
proof -
  from assms obtain p where p: "resolve_provider sv (lq_organization_id q) orgs = Inr (Inr p)"
    by (auto simp: llm_generate_def refused_result_def split: sum.splits)
  note run = assms(1) [unfolded llm_generate_def p, simplified]
  from run assms(2) obtain estimate dec where e: "estimate_cost sv p q = Inr estimate" and
    d: "authorize_llm_call (sv_money sv) (lq_organization_id q) estimate (lq_now q) (lq_batch_id q) orgs rows = Inr dec"
    by (auto simp: sum_bind_Inr split: sum.splits)
  from d obtain l where l: "orgs (lq_organization_id q) = Some l" and dec: "dec = evaluate_budget (sv_money sv) l
      (get_llm_spend (lq_organization_id q) (lq_now q) (lq_batch_id q) rows) estimate (lq_batch_id q \<noteq> None)"
    by (auto simp: authorize_llm_call_def get_llm_limits_def sum_bind_Inr split: option.splits)
  have allowed: "bd_allowed dec"
    using run assms(2) by (auto simp: e d refused_result_def split: if_splits)
  let ?out = "generate_structured p (lq_model_type q) (sv_data_rule sv) (lq_instructions q)
      (lq_untrusted q) (sv_config sv) None (lq_max_output_tokens q)"
  from run allowed obtain ids spent where rec: "record_attempts sv q ?out 0 (so_attempts ?out) rows = (rows', Inr (ids, spent))"
    and "ir_outcome r = Some ?out" "ir_cost r = spent"
    by (auto simp: e d Let_def split: prod.splits sum.splits)
  with that [OF p e l allowed [unfolded dec]] assms(2) show thesis by auto
qed

text \<open>
  C35. A model call keeps the budget. When a generation reaches the provider and no billed attempt
  costs more than the worst case that was priced for it, then afterwards the organization's
  month is within its monthly ceiling and the batch within its cost ceiling, however many rows
  the generation wrote; the batch's calls pass their ceiling by at most the repair attempts; and
  the reported cost is what the ledger gained.
\<close>

theorem generation_within_budget:
  assumes run: "llm_generate sv q orgs rows = (rows', Inr r)" and called: "ir_outcome r = Some out"
    and l: "orgs (lq_organization_id q) = Some l"
    and prov: "resolve_provider sv (lq_organization_id q) orgs = Inr (Inr p)"
    and per: "estimate_attempt sv p q = Inr per" and pos: "0 \<le> per"
    and worst: "\<forall>a \<in> set (so_attempts out). \<forall>x. attempt_cost (so_model out) a = Inr x \<longrightarrow> 0 \<le> x \<and> x \<le> per"
  shows "ls_month_cost (get_llm_spend (lq_organization_id q) (lq_now q) (lq_batch_id q) rows') \<le> ll_max_cost_per_month l
    \<and> (lq_batch_id q \<noteq> None \<longrightarrow>
         ls_batch_cost (get_llm_spend (lq_organization_id q) (lq_now q) (lq_batch_id q) rows') \<le> ll_max_cost_per_batch l
         \<and> int (ls_batch_calls (get_llm_spend (lq_organization_id q) (lq_now q) (lq_batch_id q) rows'))
             \<le> ll_max_calls_per_batch l + max 1 (ic_max_attempts (sv_config sv)) - 1)
    \<and> (\<exists>new. rows' = rows @ new \<and> ir_cost r = sum_list (map mc_cost new))"
proof -
  let ?spend = "get_llm_spend (lq_organization_id q) (lq_now q) (lq_batch_id q)"
  let ?n = "nat (max 1 (ic_max_attempts (sv_config sv)))"
  obtain estimate ids where e: "estimate_cost sv p q = Inr estimate"
    and ok: "bd_allowed (evaluate_budget (sv_money sv) l (?spend rows) estimate (lq_batch_id q \<noteq> None))"
    and out: "out = generate_structured p (lq_model_type q) (sv_data_rule sv) (lq_instructions q)
           (lq_untrusted q) (sv_config sv) None (lq_max_output_tokens q)"
    and rec: "record_attempts sv q out 0 (so_attempts out) rows = (rows', Inr (ids, ir_cost r))"
    by (rule generate_called [OF run called]) (use l prov in auto)
  have est: "estimate = of_nat ?n * per" using e per by (auto simp: estimate_cost_def mult.commute)
  obtain new where new: "rows' = rows @ new" "length new \<le> length (filter sa_billable (so_attempts out))"
    "\<forall>r \<in> set new. billed_row q (so_model out) (so_attempts out) r" "ir_cost r = sum_list (map mc_cost new)"
    using record_attempts_rows [OF rec] by blast
  have len: "length (so_attempts out) \<le> ?n"
    unfolding out generate_structured_def Let_def
    by (auto dest: attempt_loop_spec(1) split: prod.split)
  have few: "length new \<le> ?n"
    using new(2) len length_filter_le [of sa_billable "so_attempts out"] by linarith
  have cost: "\<forall>r \<in> set new. 0 \<le> mc_cost r \<and> mc_cost r \<le> per"
    using new(3) worst by (fastforce simp: billed_row_def)
  have added: "sum_of mc_cost P new \<le> estimate" for P
    unfolding est by (rule sum_of_bound [OF cost few pos])
  have month: "ls_month_cost (?spend rows') \<le> ls_month_cost (?spend rows) + estimate"
    using added by (simp add: get_llm_spend_def new(1))
  have batch: "ls_batch_cost (?spend rows') \<le> ls_batch_cost (?spend rows) + estimate"
    "int (ls_batch_calls (?spend rows')) \<le> int (ls_batch_calls (?spend rows)) + int ?n" if "lq_batch_id q \<noteq> None"
  proof -
    from that obtain b where b: "lq_batch_id q = Some b" by blast
    show "ls_batch_cost (?spend rows') \<le> ls_batch_cost (?spend rows) + estimate"
      using added by (simp add: get_llm_spend_def new(1) b)
    have "length (filter (of_batch (lq_organization_id q) b) new) \<le> ?n"
      by (rule order_trans [OF length_filter_le few])
    then have "int (length (filter (of_batch (lq_organization_id q) b) new)) \<le> max 1 (ic_max_attempts (sv_config sv))"
      by linarith
    then show "int (ls_batch_calls (?spend rows')) \<le> int (ls_batch_calls (?spend rows)) + int ?n"
      by (simp add: get_llm_spend_def new(1) b count_of_def)
  qed
  have "ls_month_cost (?spend rows') \<le> ll_max_cost_per_month l"
    using month evaluate_budget_allowed(1) [OF ok] by linarith
  moreover have "ls_batch_cost (?spend rows') \<le> ll_max_cost_per_batch l" if b: "lq_batch_id q \<noteq> None"
    using batch(1) [OF b] evaluate_budget_allowed(2) [OF ok b] by linarith
  moreover have "int (ls_batch_calls (?spend rows'))
      \<le> ll_max_calls_per_batch l + max 1 (ic_max_attempts (sv_config sv)) - 1" if b: "lq_batch_id q \<noteq> None"
    using batch(2) [OF b] evaluate_budget_allowed(3) [OF ok b] by linarith
  ultimately show ?thesis using new(1,4) by blast
qed

text \<open>
  A refused generation leaves no trace. When it does not reach a model, it writes no row,
  costs nothing and returns no value, and whatever the provider would have answered makes no
  difference.
\<close>

theorem refused_generation_is_free:
  assumes "llm_generate sv q orgs rows = (rows', Inr r)" and "ir_reason r \<noteq> ALLOWED"
    and "sv_provider sv = Some p"
  shows "rows' = rows \<and> ir_value r = None \<and> ir_cost r = 0 \<and> ir_call_ids r = [] \<and> ir_outcome r = None
    \<and> llm_generate (sv\<lparr>sv_provider := Some (p\<lparr>lp_generate := other\<rparr>)\<rparr>) q orgs rows = (rows, Inr r)"
proof -
  let ?sv = "sv\<lparr>sv_provider := Some (p\<lparr>lp_generate := other\<rparr>)\<rparr>"
  have same: "estimate_cost ?sv (p\<lparr>lp_generate := other\<rparr>) q = estimate_cost sv p q"
    by (simp add: estimate_cost_def estimate_attempt_def prompt_chars_def)
  from assms obtain dec where dec: "sum_bind (estimate_cost sv p q) (\<lambda>estimate.
        authorize_llm_call (sv_money sv) (lq_organization_id q) estimate (lq_now q) (lq_batch_id q) orgs rows) = Inr dec"
    by (auto simp: llm_generate_def resolve_provider_def split: sum.splits)
  have no: "\<not> bd_allowed dec"
    using assms dec by (auto simp: llm_generate_def resolve_provider_def Let_def split: prod.splits sum.splits)
  with assms dec have "rows' = rows" "r = refused_result dec"
    by (auto simp: llm_generate_def resolve_provider_def)
  moreover have "llm_generate ?sv q orgs rows = (rows, Inr (refused_result dec))"
    using dec no by (simp add: llm_generate_def resolve_provider_def same)
  ultimately show ?thesis by (simp add: refused_result_def)
qed

definition no_clients :: llm_clients where
  "no_clients = \<lparr>cl_fake = (\<lambda>_. prose_then_json), cl_deepseek = (\<lambda>_. Inl ''no key''),
     cl_bedrock = (\<lambda>_. Inl ''no key''), cl_agentcore = (\<lambda>_. Inl ''no key'')\<rparr>"

definition demo_service :: llm_service where
  "demo_service =
     \<lparr>sv_provider = Some prose_then_json, sv_clients = no_clients, sv_config = demo_intelligence,
      sv_data_rule = replicate 200 (CHR ''x''), sv_money = (\<lambda>_. ''0''),
      sv_write = (\<lambda>n. \<lparr>we_fresh = n, we_db_now = 10, we_py_now = 10\<rparr>)\<rparr>"

definition demo_llm_request :: "nat llm_request" where
  "demo_llm_request =
     \<lparr>lq_organization_id = 3, lq_purpose = ''copilot'', lq_model_type = demo_model_type,
      lq_instructions = ''do'', lq_now = 10, lq_untrusted = [], lq_batch_id = Some 5, lq_lead_id = None,
      lq_key = None, lq_max_output_tokens = None\<rparr>"

definition demo_ceilings :: "int \<Rightarrow> llm_organizations" where
  "demo_ceilings calls = [3 \<mapsto> \<lparr>ll_max_calls_per_batch = calls, ll_max_cost_per_batch = 2,
     ll_max_cost_per_month = 25, ll_preferred_model = None\<rparr>]"

text \<open>The ceiling of one call per batch is passed by a repair attempt.\<close>

lemma retry_passes_call_ceiling:
  "count_of (of_batch 3 5) (fst (llm_generate demo_service demo_llm_request (demo_ceilings 1) [])) = 2"
  by code_simp

text \<open>The note of a repair is sent beside what was priced.\<close>

lemma repair_note_not_priced:
  "sum_list (map (length \<circ> lm_content) (messages_for (base_messages (sv_data_rule sv) (lq_instructions q)
      (fst (render_untrusted (lq_untrusted q) (ic_max_untrusted_chars (sv_config sv))))) (Some e)))
    + length (mt_schema (lq_model_type q))
   \<ge> prompt_chars sv q + length (repair_note e)"
  by (simp add: prompt_chars_def messages_for_def base_messages_def)

theorem generation_within_budget_witness:
  "\<exists>rows' r. llm_generate demo_service demo_llm_request (demo_ceilings 500) [] = (rows', Inr r)
     \<and> ls_month_cost (get_llm_spend 3 10 (Some 5) rows') \<le> 25"
proof -
  let ?per = "313 / 12500000 :: real"
  let ?run = "llm_generate demo_service demo_llm_request (demo_ceilings 500) []"
  have eval: "(case snd ?run of Inl _ \<Rightarrow> False | Inr r \<Rightarrow> (case ir_outcome r of None \<Rightarrow> False | Some out \<Rightarrow>
      list_all (\<lambda>a. case attempt_cost (so_model out) a of Inl _ \<Rightarrow> True | Inr x \<Rightarrow> 0 \<le> x \<and> x \<le> ?per)
        (so_attempts out)))"
    by code_simp
  obtain rows' res where run: "?run = (rows', res)" by fastforce
  with eval obtain r out where res: "res = Inr r" and called: "ir_outcome r = Some out"
    by (auto split: sum.splits option.splits)
  have worst: "\<forall>a \<in> set (so_attempts out). \<forall>x. attempt_cost (so_model out) a = Inr x \<longrightarrow> 0 \<le> x \<and> x \<le> ?per"
    using eval run res called by (auto simp: list_all_iff split: sum.splits)
  have l: "demo_ceilings 500 (lq_organization_id demo_llm_request) = Some \<lparr>ll_max_calls_per_batch = 500,
      ll_max_cost_per_batch = 2, ll_max_cost_per_month = 25, ll_preferred_model = None\<rparr>"
    by (simp add: demo_ceilings_def demo_llm_request_def)
  have prov: "resolve_provider demo_service (lq_organization_id demo_llm_request) (demo_ceilings 500)
      = Inr (Inr prose_then_json)"
    by (simp add: resolve_provider_def demo_service_def)
  have per: "estimate_attempt demo_service prose_then_json demo_llm_request = Inr ?per"
    by code_simp
  show ?thesis
    using generation_within_budget [OF run [unfolded res] called l prov per _ worst] run res
    by (simp add: demo_llm_request_def)
qed

definition tapped_out :: llm_organizations where
  "tapped_out = demo_ceilings 0"

theorem refused_generation_is_free_witness:
  "\<exists>r. llm_generate demo_service demo_llm_request tapped_out [] = ([], Inr r) \<and> ir_reason r = LLM_DISABLED
     \<and> ir_cost r = 0"
proof -
  let ?run = "llm_generate demo_service demo_llm_request tapped_out []"
  have eval: "(case snd ?run of Inl _ \<Rightarrow> False | Inr r \<Rightarrow> ir_reason r = LLM_DISABLED)" by code_simp
  obtain rows' res where run: "?run = (rows', res)" by fastforce
  with eval obtain r where res: "res = Inr r" and reason: "ir_reason r = LLM_DISABLED"
    by (auto split: sum.splits)
  have pinned: "sv_provider demo_service = Some prose_then_json" by (simp add: demo_service_def)
  from refused_generation_is_free [OF run [unfolded res] _ pinned] reason run res show ?thesis by auto
qed

end
