(* ===== verification/Csv_Reader.thy ===== *)
theory Csv_Reader
  imports LLM_Structured
begin

text \<open>
  What an upload uses of Python's \<open>csv\<close>: the reader of the default dialect (comma, double quote,
  doubled quotes, not strict) as the state machine it is, over the lines of a \<open>StringIO\<close>, and
  \<open>DictReader\<close> on top of it. A reader takes the lines it needs and leaves the rest, so an error
  further down a file is met only by whoever reads that far.
\<close>

subsection \<open>The reader\<close>

datatype reader_state =
  START_RECORD | START_FIELD | IN_FIELD | IN_QUOTED_FIELD | QUOTE_IN_QUOTED_FIELD | EAT_CRNL

record csv_reader =
  rd_state :: reader_state
  rd_field :: string
  rd_fields :: "string list"

definition CR :: char where
  "CR = CHR 0x0D"

definition QUOTE :: char where
  "QUOTE = CHR 0x22"

definition FIELD_LIMIT :: nat where
  "FIELD_LIMIT = 131072"

definition NEW_LINE_ERROR :: string where
  "NEW_LINE_ERROR = ''new-line character seen in unquoted field - do you need to open the file with newline=''
     @ [CHR 0x27, CHR 0x27] @ ''?''"

definition new_reader :: csv_reader where
  "new_reader = \<lparr>rd_state = START_RECORD, rd_field = [], rd_fields = []\<rparr>"

definition save_field :: "reader_state \<Rightarrow> csv_reader \<Rightarrow> csv_reader" where
  "save_field s r = \<lparr>rd_state = s, rd_field = [], rd_fields = rd_fields r @ [rd_field r]\<rparr>"

definition add_char :: "reader_state \<Rightarrow> char \<Rightarrow> csv_reader \<Rightarrow> string + csv_reader" where
  "add_char s c r =
     (if length (rd_field r) \<ge> FIELD_LIMIT then Inl ''field larger than field limit (131072)''
      else Inr (r\<lparr>rd_state := s, rd_field := rd_field r @ [c]\<rparr>))"

definition feed_start_field :: "char \<Rightarrow> csv_reader \<Rightarrow> string + csv_reader" where
  "feed_start_field c r =
     (if c = LF \<or> c = CR then Inr (save_field EAT_CRNL r)
      else if c = QUOTE then Inr (r\<lparr>rd_state := IN_QUOTED_FIELD\<rparr>)
      else if c = CHR '','' then Inr (save_field START_FIELD r)
      else add_char IN_FIELD c r)"

definition feed :: "char \<Rightarrow> csv_reader \<Rightarrow> string + csv_reader" where
  "feed c r =
     (case rd_state r of
        START_RECORD \<Rightarrow>
          if c = LF \<or> c = CR then Inr (r\<lparr>rd_state := EAT_CRNL\<rparr>) else feed_start_field c r
      | START_FIELD \<Rightarrow> feed_start_field c r
      | IN_FIELD \<Rightarrow>
          if c = LF \<or> c = CR then Inr (save_field EAT_CRNL r)
          else if c = CHR '','' then Inr (save_field START_FIELD r)
          else add_char IN_FIELD c r
      | IN_QUOTED_FIELD \<Rightarrow>
          if c = QUOTE then Inr (r\<lparr>rd_state := QUOTE_IN_QUOTED_FIELD\<rparr>)
          else add_char IN_QUOTED_FIELD c r
      | QUOTE_IN_QUOTED_FIELD \<Rightarrow>
          if c = QUOTE then add_char IN_QUOTED_FIELD c r
          else if c = CHR '','' then Inr (save_field START_FIELD r)
          else if c = LF \<or> c = CR then Inr (save_field EAT_CRNL r)
          else add_char IN_FIELD c r
      | EAT_CRNL \<Rightarrow> if c = LF \<or> c = CR then Inr r else Inl NEW_LINE_ERROR)"

text \<open>The end-of-line event that follows the last character of every line.\<close>

definition feed_eol :: "csv_reader \<Rightarrow> csv_reader" where
  "feed_eol r =
     (case rd_state r of
        START_RECORD \<Rightarrow> r
      | IN_QUOTED_FIELD \<Rightarrow> r
      | EAT_CRNL \<Rightarrow> r\<lparr>rd_state := START_RECORD\<rparr>
      | _ \<Rightarrow> save_field START_RECORD r)"

definition feed_line :: "string \<Rightarrow> csv_reader \<Rightarrow> string + csv_reader" where
  "feed_line l r = sum_bind (sum_foldM feed l r) (\<lambda>r'. Inr (feed_eol r'))"

text \<open>\<open>next(reader)\<close>: the fields of a record and the lines behind it, or the end of the file.\<close>

fun read_record :: "csv_reader \<Rightarrow> string list \<Rightarrow> string + (string list \<times> string list) option" where
  "read_record r [] =
     Inr (if rd_field r \<noteq> [] \<or> rd_state r = IN_QUOTED_FIELD
          then Some (rd_fields r @ [rd_field r], []) else None)"
| "read_record r (l # ls) =
     sum_bind (feed_line l r) (\<lambda>r'.
       if rd_state r' = START_RECORD then Inr (Some (rd_fields r', ls)) else read_record r' ls)"

text \<open>Iterating a \<open>StringIO\<close>: lines end behind a line feed.\<close>

fun split_lines :: "string \<Rightarrow> string list" where
  "split_lines [] = []"
| "split_lines (c # cs) =
     (if c = LF then [c] # split_lines cs
      else case split_lines cs of [] \<Rightarrow> [[c]] | l # ls \<Rightarrow> (c # l) # ls)"

lemma read_record_shrinks:
  "read_record r ls = Inr (Some (row, ls')) \<Longrightarrow> ls \<noteq> [] \<Longrightarrow> length ls' < length ls"
proof (induction r ls arbitrary: row ls' rule: read_record.induct)
  case (2 r l ls)
  then show ?case by (cases ls) (fastforce simp: sum_bind_Inr split: if_splits)+
qed simp

subsection \<open>\<open>DictReader\<close>\<close>

text \<open>A row: the cells under their headers (\<open>None\<close> where the line was too short), and the surplus
  of a line that was too long.\<close>

record csv_row =
  cr_cells :: "(string \<times> string option) list"
  cr_surplus :: "string list"

definition dict_row :: "string list \<Rightarrow> string list \<Rightarrow> csv_row" where
  "dict_row fieldnames row =
     \<lparr>cr_cells = fold (\<lambda>(k, v). AList.update k v)
        (zip fieldnames (map Some row @ replicate (length fieldnames) None)) [],
      cr_surplus = drop (length fieldnames) row\<rparr>"

text \<open>Blank lines are passed over. At most \<open>n\<close> rows are read.\<close>

function dict_rows :: "string list \<Rightarrow> nat \<Rightarrow> string list \<Rightarrow> string + csv_row list" where
  "dict_rows fieldnames n ls =
     (if n = 0 \<or> ls = [] then Inr []
      else
        (case read_record new_reader ls of
           Inl e \<Rightarrow> Inl e
         | Inr None \<Rightarrow> Inr []
         | Inr (Some (row, ls')) \<Rightarrow>
             if row = [] then dict_rows fieldnames n ls'
             else sum_bind (dict_rows fieldnames (n - 1) ls') (\<lambda>rows.
               Inr (dict_row fieldnames row # rows))))"
  by pat_completeness auto
termination
  by (relation "measure (\<lambda>(_, _, ls). length ls)") (auto dest: read_record_shrinks)

declare dict_rows.simps [simp del]

end
