(* ===== verification/Ingest.thy ===== *)
theory Ingest
  imports Identity Access Review
begin

text \<open>
  \<open>arie.api.ingest\<close>: the one write path by which a raw inbound record becomes a lead. Identity
  resolution, the INSERT into \<open>leads\<close>, the first event and the first job run in the caller's
  transaction: the model's function returns the whole new state or the error alone. The columns
  of \<open>leads\<close> that only ingestion writes are a table of their own beside the status and the
  version of \<open>State_Machine\<close>. The UUIDs drawn by the database and the trace context of the
  request are arguments.
\<close>

subsection \<open>Commands, rows and the state\<close>

text \<open>A \<open>Decimal\<close> with the text \<open>str\<close> gives of it.\<close>

type_synonym money = "real \<times> string"

record ingest_command =
  ic_source :: string
  ic_email :: string
  ic_organization_id :: uuid
  ic_external_ref :: "string option"
  ic_company_domain :: "string option"
  ic_company_name :: "string option"
  ic_full_name :: "string option"
  ic_title :: "string option"
  ic_budget_usd_cap :: "money option"
  ic_is_shadow :: bool
  ic_batch_id :: "uuid option"
  ic_data_class :: lead_data_class

record ingest_result =
  ir_lead_id :: uuid
  ir_status :: lead_status
  ir_version :: int
  ir_created :: bool
  ir_company_id :: uuid
  ir_person_id :: uuid
  ir_job_id :: uuid
  ir_job_created :: bool
  ir_job_requeued :: bool
  ir_is_shadow :: bool

record intake_row =
  in_lead_id :: uuid
  in_organization_id :: uuid
  in_person_id :: uuid
  in_company_id :: uuid
  in_source :: string
  in_external_ref :: "string option"
  in_budget_usd_cap :: money
  in_is_shadow :: bool
  in_batch_id :: "uuid option"
  in_data_class :: lead_data_class

record intake_db = queue_db +
  intake :: "intake_row list"
  identities :: identity_db

text \<open>The UUIDs of one ingestion, drawn whether or not they are used.\<close>

record intake_ids =
  ii_company :: uuid
  ii_person :: uuid
  ii_lead :: uuid
  ii_job :: uuid

subsection \<open>Ingestion\<close>

text \<open>The partial unique index: rows without an \<open>external_ref\<close> never conflict.\<close>

definition same_ref :: "uuid \<Rightarrow> string \<Rightarrow> string option \<Rightarrow> intake_row \<Rightarrow> bool" where
  "same_ref org source ref r \<longleftrightarrow>
     ref \<noteq> None \<and> in_organization_id r = org \<and> in_source r = source \<and> in_external_ref r = ref"

definition intake_of :: "ingest_command \<Rightarrow> money \<Rightarrow> uuid \<Rightarrow> uuid \<Rightarrow> uuid \<Rightarrow> intake_row" where
  "intake_of c cap lead_id person_id company_id =
     \<lparr>in_lead_id = lead_id, in_organization_id = ic_organization_id c, in_person_id = person_id,
      in_company_id = company_id, in_source = ic_source c, in_external_ref = ic_external_ref c,
      in_budget_usd_cap = cap, in_is_shadow = ic_is_shadow c, in_batch_id = ic_batch_id c,
      in_data_class = ic_data_class c\<rparr>"

text \<open>
  \<open>_INSERT_LEAD\<close>: on a conflict the row that is there is touched and returned; \<open>status\<close> and
  \<open>version\<close> of a new row are the defaults of the table. The result is the row and \<open>created\<close>.
\<close>

definition insert_lead ::
  "uuid \<Rightarrow> ingest_command \<Rightarrow> money \<Rightarrow> uuid \<Rightarrow> uuid \<Rightarrow> 'a intake_db_scheme
     \<Rightarrow> 'a intake_db_scheme \<times> intake_row \<times> bool" where
  "insert_lead fresh c cap person_id company_id d =
     (case find (same_ref (ic_organization_id c) (ic_source c) (ic_external_ref c)) (intake d) of
        Some r \<Rightarrow>
          (d\<lparr>leads := (leads d)(in_lead_id r :=
               map_option (updated_at_update (\<lambda>_. clock d)) (leads d (in_lead_id r)))\<rparr>, r, False)
      | None \<Rightarrow>
          (let r = intake_of c cap fresh person_id company_id
           in (d\<lparr>leads := (leads d)(fresh \<mapsto> \<lparr>status = NEW, version = 1,
                  organization_id = ic_organization_id c, updated_at = clock d\<rparr>),
                 intake := intake d @ [r]\<rparr>, r, True)))"

definition ingest_payload :: "ingest_command \<Rightarrow> uuid \<Rightarrow> uuid \<Rightarrow> money \<Rightarrow> bool \<Rightarrow> payload" where
  "ingest_payload c company_id person_id cap is_shadow =
     [(''source'', VStr (ic_source c)), (''external_ref'', opt_val (ic_external_ref c)),
      (''company_id'', uuid_val company_id), (''person_id'', uuid_val person_id),
      (''budget_usd_cap'', VStr (snd cap)), (''is_shadow'', VBool is_shadow)]"

definition first_job_key :: "uuid \<Rightarrow> string \<Rightarrow> string" where
  "first_job_key lead_id job_type = ''lead:'' @ py_str_int (int lead_id) @ '':'' @ job_type"

definition command_identity :: "ingest_command \<Rightarrow> lead_query" where
  "command_identity c =
     \<lparr>lq_email = ic_email c, lq_organization_id = ic_organization_id c,
      lq_company_domain = ic_company_domain c, lq_company_name = ic_company_name c,
      lq_full_name = ic_full_name c, lq_title = ic_title c\<rparr>"

text \<open>\<open>policy_cap\<close> is \<open>POLICY.lead_budget_usd_cap\<close>, a setting of the environment.\<close>

definition ingest_lead ::
  "money \<Rightarrow> intake_ids \<Rightarrow> (string \<times> string) list option \<Rightarrow> ingest_command \<Rightarrow> 'a intake_db_scheme
     \<Rightarrow> error + 'a intake_db_scheme \<times> ingest_result" where
  "ingest_lead policy_cap ids trace c d =
     sum_bind (resolve_lead_in (ii_company ids, ii_person ids) (command_identity c) (identities d))
       (\<lambda>(idn, company, person).
     let cap = (case ic_budget_usd_cap c of Some m \<Rightarrow> m | None \<Rightarrow> policy_cap);
         (d1, row, created) = insert_lead (ii_lead ids) c cap (rsp_id person) (rsc_id company)
                                (d\<lparr>identities := idn\<rparr>);
         lead_id = in_lead_id row
     in case leads d1 lead_id of
          None \<Rightarrow> Inl AssertionError
        | Some l \<Rightarrow>
            (let d2 = (if created
                       then insert_lead_event lead_id ''lead:ingested''
                              (ingest_payload c (rsc_id company) (rsp_id person) cap (in_is_shadow row)) d1
                       else d1)
             in case job_type_for NEW of
                  None \<Rightarrow> Inl AssertionError
                | Some job_type \<Rightarrow>
                    (let (d3, e) = enqueue_in (ii_job ids) (Some lead_id) job_type
                                     (Some (first_job_key lead_id job_type)) trace d2
                     in Inr (d3, \<lparr>ir_lead_id = lead_id, ir_status = status l, ir_version = version l,
                          ir_created = created, ir_company_id = rsc_id company,
                          ir_person_id = rsp_id person, ir_job_id = ej_job_id e,
                          ir_job_created = ej_created e, ir_job_requeued = ej_requeued e,
                          ir_is_shadow = in_is_shadow row\<rparr>))))"

subsection \<open>Histories of the intake\<close>

text \<open>What \<open>gen_random_uuid()\<close> promises of the lead's and the job's identifier.\<close>

definition fresh_intake :: "intake_ids \<Rightarrow> 'a intake_db_scheme \<Rightarrow> bool" where
  "fresh_intake ids d \<longleftrightarrow>
     leads d (ii_lead ids) = None \<and> ii_lead ids \<notin> in_lead_id ` set (intake d)
     \<and> ii_job ids \<notin> jb_id ` set (jobs d)"

text \<open>
  One committed transaction: an ingestion, an operation of a worker on its queue, a transition
  of a lead, or the passing of time. Ingestion is the only caller of \<open>enqueue_in\<close>.
\<close>

inductive intake_step :: "'a intake_db_scheme \<Rightarrow> 'a intake_db_scheme \<Rightarrow> bool" where
  ingested: "fresh_intake ids d \<Longrightarrow> ingest_lead cap ids trace c d = Inr (d', r) \<Longrightarrow> intake_step d d'"
| worker_claimed: "claim q py_now skip d = (d', cs) \<Longrightarrow> intake_step d d'"
| worker_completed: "complete_job w j d = Inr d' \<Longrightarrow> intake_step d d'"
| worker_failed: "fail_job w j err M py_now u d = Inr (d', out) \<Longrightarrow> intake_step d d'"
| lead_moved: "apply_transition i v s ty pl d = Inr (d', v') \<Longrightarrow> intake_step d d'"
| time_passed: "intake_step d (d\<lparr>clock := t\<rparr>)"

inductive intake_run :: "'a intake_db_scheme \<Rightarrow> 'a intake_db_scheme \<Rightarrow> bool" where
  intake_start: "intake_run d d"
| intake_more: "intake_run d d' \<Longrightarrow> intake_step d' d'' \<Longrightarrow> intake_run d d''"

definition job_keys :: "'a queue_db_scheme \<Rightarrow> (string option \<times> uuid option \<times> uuid) list" where
  "job_keys d = map (\<lambda>r. (jb_key r, jb_lead_id r, jb_id r)) (jobs d)"

definition job_under :: "'a queue_db_scheme \<Rightarrow> string \<Rightarrow> uuid option" where
  "job_under d k = map_option (\<lambda>p. snd (snd p)) (find (\<lambda>p. fst p = Some k) (job_keys d))"

lemma find_key_of: "find (\<lambda>p. fst p = Some k) (map (\<lambda>r. (jb_key r, jb_lead_id r, jb_id r)) rs)
    = map_option (\<lambda>r. (jb_key r, jb_lead_id r, jb_id r)) (find (same_key (Some k)) rs)"
  by (induction rs) (auto simp: same_key_def)

lemma job_under_find: "job_under d k = map_option jb_id (find (same_key (Some k)) (jobs d))"
  by (simp add: job_under_def job_keys_def find_key_of option.map_comp comp_def)

lemma keys_kept_map:
  assumes "\<And>r. (jb_key (f r), jb_lead_id (f r), jb_id (f r)) = (jb_key r, jb_lead_id r, jb_id r)"
  shows "map (\<lambda>r. (jb_key r, jb_lead_id r, jb_id r)) (map f rs) = map (\<lambda>r. (jb_key r, jb_lead_id r, jb_id r)) rs"
  using assms by (simp add: comp_def)

lemma worker_keeps_keys:
  "claim q py_now skip d = (d', cs) \<Longrightarrow> job_keys d' = job_keys d"
  "complete_job w j d = Inr d' \<Longrightarrow> job_keys d' = job_keys d"
  "fail_job w j err M py_now u d = Inr (d', out) \<Longrightarrow> job_keys d' = job_keys d"
proof -
  show "claim q py_now skip d = (d', cs) \<Longrightarrow> job_keys d' = job_keys d"
    by (auto simp: claim_def Let_def job_keys_def claim_update_def reclaim_row_def)
  show "complete_job w j d = Inr d' \<Longrightarrow> job_keys d' = job_keys d"
    by (auto simp: complete_job_def job_keys_def update_job_def split: if_splits)
  assume "fail_job w j err M py_now u d = Inr (d', out)"
  then show "job_keys d' = job_keys d"
    by (rule fail_job_Inr) (simp add: job_keys_def update_job_def)
qed

lemma worker_keeps_intake:
  "claim q py_now skip d = (d', cs) \<Longrightarrow> intake d' = intake d \<and> leads d' = leads d \<and> lead_events d' = lead_events d"
  "complete_job w j d = Inr d' \<Longrightarrow> intake d' = intake d \<and> leads d' = leads d \<and> lead_events d' = lead_events d"
  "fail_job w j err M py_now u d = Inr (d', out) \<Longrightarrow> intake d' = intake d \<and> leads d' = leads d \<and> lead_events d' = lead_events d"
  by (auto simp: claim_def Let_def complete_job_def fail_job_def sum_bind_Inr split: if_splits list.splits)

lemma first_job: "job_type_for NEW = Some ''compute_score''"
  by (simp add: job_type_for_def)

text \<open>The job an ingestion leaves under the lead's key.\<close>

abbreviation lead_key :: "uuid \<Rightarrow> string" where
  "lead_key i \<equiv> first_job_key i ''compute_score''"

lemma enqueue_keys:
  assumes "enqueue_in fresh lead ty (Some k) trace d = (d', e)"
  shows "job_keys d' = (if job_under d k = None then job_keys d @ [(Some k, lead, fresh)] else job_keys d)"
    "job_under d' k = Some (ej_job_id e)" "ej_created e \<longleftrightarrow> job_under d k = None"
    "ej_requeued e \<Longrightarrow> \<exists>r \<in> set (jobs d). jb_key r = Some k \<and> jb_status r = JOB_DEAD_LETTER"
proof -
  have "job_keys d' = (if job_under d k = None then job_keys d @ [(Some k, lead, fresh)] else job_keys d)
      \<and> job_under d' k = Some (ej_job_id e) \<and> (ej_created e \<longleftrightarrow> job_under d k = None)"
  proof (cases "find (same_key (Some k)) (jobs d)")
    case None
    with assms show ?thesis
      by (auto simp: enqueue_in_def job_under_find job_keys_def new_job_def find_append same_key_def)
  next
    case (Some r)
    then have d': "job_keys d' = job_keys d" and e: "ej_job_id e = jb_id r" "\<not> ej_created e"
      using assms by (auto simp: enqueue_in_def job_keys_def requeue_row_def)
    have "job_under d' k = job_under d k" by (simp add: job_under_def d')
    moreover have "job_under d k = Some (jb_id r)" by (simp add: job_under_find Some)
    ultimately show ?thesis by (simp add: d' e)
  qed
  then show "job_keys d' = (if job_under d k = None then job_keys d @ [(Some k, lead, fresh)] else job_keys d)"
    "job_under d' k = Some (ej_job_id e)" "ej_created e \<longleftrightarrow> job_under d k = None" by simp_all
  show "\<exists>r \<in> set (jobs d). jb_key r = Some k \<and> jb_status r = JOB_DEAD_LETTER" if "ej_requeued e"
    using that assms by (auto simp: enqueue_in_def same_key_def find_Some_iff split: option.splits)
qed

lemma enqueue_keeps:
  assumes "enqueue_in fresh lead ty k trace d = (d', e)"
  shows "intake d' = intake d \<and> leads d' = leads d \<and> lead_events d' = lead_events d"
  using assms by (auto simp: enqueue_in_def split: option.splits)

text \<open>An ingestion that returns either meets the lead that is there or makes a new one.\<close>

lemma ingest_lead_cases:
  assumes "ingest_lead cap ids trace c d = Inr (d', r)"
  obtains
    (known) row l where
      "find (same_ref (ic_organization_id c) (ic_source c) (ic_external_ref c)) (intake d) = Some row"
      "leads d (in_lead_id row) = Some l" "ir_lead_id r = in_lead_id row" "\<not> ir_created r"
      "ir_status r = status l" "ir_version r = version l" "ir_is_shadow r = in_is_shadow row"
      "intake d' = intake d" "lead_events d' = lead_events d"
      "leads d' = (leads d)(in_lead_id row \<mapsto> l\<lparr>updated_at := clock d\<rparr>)"
  | (new) row where
      "find (same_ref (ic_organization_id c) (ic_source c) (ic_external_ref c)) (intake d) = None"
      "row = intake_of c (case ic_budget_usd_cap c of Some m \<Rightarrow> m | None \<Rightarrow> cap) (ii_lead ids)
               (ir_person_id r) (ir_company_id r)"
      "ir_lead_id r = ii_lead ids" "ir_created r" "ir_is_shadow r = ic_is_shadow c"
      "intake d' = intake d @ [row]"
      "lead_events d' = lead_events d @ [\<lparr>le_lead_id = ii_lead ids, le_type = ''lead:ingested'',
         le_payload = ingest_payload c (ir_company_id r) (ir_person_id r) (in_budget_usd_cap row) (ic_is_shadow c)\<rparr>]"
      "leads d' = (leads d)(ii_lead ids \<mapsto> \<lparr>status = NEW, version = 1,
         organization_id = ic_organization_id c, updated_at = clock d\<rparr>)"
proof -
  let ?f = "find (same_ref (ic_organization_id c) (ic_source c) (ic_external_ref c)) (intake d)"
  from assms obtain idn company person where
    "resolve_lead_in (ii_company ids, ii_person ids) (command_identity c) (identities d) = Inr (idn, company, person)"
    by (auto simp: ingest_lead_def sum_bind_Inr)
  note run = assms [unfolded ingest_lead_def this]
  show ?thesis
  proof (cases ?f)
    case (Some row)
    with run known [OF Some] show ?thesis
      by (auto simp: insert_lead_def first_job Let_def dest!: enqueue_keeps split: option.splits prod.splits)
  next
    case None
    with run new [OF None] show ?thesis
      by (auto simp: insert_lead_def first_job Let_def intake_of_def insert_lead_event_def
          dest!: enqueue_keeps split: option.splits prod.splits)
  qed
qed

lemma ingest_lead_job:
  assumes "ingest_lead cap ids trace c d = Inr (d', r)"
  shows "job_keys d' = (if job_under d (lead_key (ir_lead_id r)) = None
      then job_keys d @ [(Some (lead_key (ir_lead_id r)), Some (ir_lead_id r), ii_job ids)] else job_keys d)
    \<and> job_under d' (lead_key (ir_lead_id r)) = Some (ir_job_id r)
    \<and> (ir_job_created r \<longleftrightarrow> job_under d (lead_key (ir_lead_id r)) = None)"
proof -
  from assms obtain idn company person where
    "resolve_lead_in (ii_company ids, ii_person ids) (command_identity c) (identities d) = Inr (idn, company, person)"
    by (auto simp: ingest_lead_def sum_bind_Inr)
  note run = assms [unfolded ingest_lead_def this]
  from run obtain d2 e where e: "enqueue_in (ii_job ids) (Some (ir_lead_id r)) ''compute_score''
        (Some (lead_key (ir_lead_id r))) trace d2 = (d', e)"
    and j: "jobs d2 = jobs d" "ir_job_id r = ej_job_id e" "ir_job_created r = ej_created e"
    by (auto simp: first_job Let_def insert_lead_def insert_lead_event_def
        split: option.splits prod.splits if_splits)
  have "job_keys d2 = job_keys d" "job_under d2 k = job_under d k" for k
    by (simp_all add: job_keys_def job_under_def j)
  with enqueue_keys [OF e] show ?thesis by (simp add: j)
qed

subsection \<open>No lead without its job\<close>

definition ref_keys :: "intake_row list \<Rightarrow> (uuid \<times> string \<times> string) list" where
  "ref_keys rows =
     List.map_filter (\<lambda>r. map_option (\<lambda>x. (in_organization_id r, in_source r, x)) (in_external_ref r)) rows"

text \<open>
  The lead ids are unique and those of \<open>leads\<close>, the upstream keys are unique, and every lead has
  its first job and its \<open>lead:ingested\<close> event.
\<close>

definition intake_ok :: "'a intake_db_scheme \<Rightarrow> bool" where
  "intake_ok d \<longleftrightarrow>
     distinct (map in_lead_id (intake d)) \<and> distinct (ref_keys (intake d))
     \<and> dom (leads d) = in_lead_id ` set (intake d)
     \<and> map (\<lambda>p. (fst p, fst (snd p))) (job_keys d)
         = map (\<lambda>r. (Some (lead_key (in_lead_id r)), Some (in_lead_id r))) (intake d)
     \<and> (\<forall>i \<in> in_lead_id ` set (intake d).
          \<exists>e \<in> set (lead_events d). le_lead_id e = i \<and> le_type e = ''lead:ingested'')"

lemma lead_key_inject: "lead_key i = lead_key j \<longleftrightarrow> i = j"
proof
  assume "lead_key i = lead_key j"
  then have "py_str_int (int i) @ '':compute_score'' = py_str_int (int j) @ '':compute_score''"
    by (simp add: first_job_key_def)
  then show "i = j" by (simp only: append_same_eq py_str_int_nat_inject)
qed simp

lemma job_under_lead:
  assumes "intake_ok d"
  shows "job_under d (lead_key i) \<noteq> None \<longleftrightarrow> i \<in> in_lead_id ` set (intake d)"
proof -
  have "job_under d (lead_key i) \<noteq> None \<longleftrightarrow> Some (lead_key i) \<in> fst ` set (map (\<lambda>p. (fst p, fst (snd p))) (job_keys d))"
    by (force simp: job_under_def find_None_iff image_image)
  also have "\<dots> \<longleftrightarrow> i \<in> in_lead_id ` set (intake d)"
    using assms unfolding intake_ok_def by (auto simp: image_image lead_key_inject simp del: first_job_key_def)
  finally show ?thesis .
qed

lemma ref_keys_simps [simp]:
  "ref_keys [] = []"
  "ref_keys (r # rows) = (case in_external_ref r of None \<Rightarrow> ref_keys rows
     | Some x \<Rightarrow> (in_organization_id r, in_source r, x) # ref_keys rows)"
  "ref_keys (rows @ rows') = ref_keys rows @ ref_keys rows'"
  by (simp_all add: ref_keys_def List.map_filter_def split: option.splits)

lemma ref_keys_found:
  "find (same_ref org src (Some x)) rows = None \<longleftrightarrow> (org, src, x) \<notin> set (ref_keys rows)"
  by (induction rows) (auto simp: same_ref_def split: option.splits)

lemma moved_keeps:
  assumes "apply_transition i v s ty pl d = Inr (d', v')"
  shows "intake d' = intake d \<and> jobs d' = jobs d \<and> dom (leads d') = dom (leads d)
    \<and> (\<exists>e. lead_events d' = lead_events d @ [e])"
  using assms by (auto simp: apply_transition_ok dom_def split: if_splits)

lemma intake_ok_same:
  assumes "intake_ok d" and "intake d' = intake d" and "job_keys d' = job_keys d"
    and "dom (leads d') = dom (leads d)" and "set (lead_events d) \<subseteq> set (lead_events d')"
  shows "intake_ok d'"
  using assms(1) subsetD [OF assms(5)] unfolding intake_ok_def assms(2-4) by blast

lemma ingest_keeps_ok:
  assumes ok: "intake_ok d" and fresh: "fresh_intake ids d" and run: "ingest_lead cap ids trace c d = Inr (d', r)"
  shows "intake_ok d'"
  using run
proof (cases rule: ingest_lead_cases)
  case (known row l)
  have row: "row \<in> set (intake d)" using known(1) by (auto simp: find_Some_iff)
  then have "job_under d (lead_key (ir_lead_id r)) \<noteq> None"
    using job_under_lead [OF ok, of "in_lead_id row"] by (auto simp: known(3))
  with ingest_lead_job [OF run] have "job_keys d' = job_keys d" by simp
  moreover have "dom (leads d') = dom (leads d)" using known(2,10) by auto
  ultimately show ?thesis using intake_ok_same [OF ok known(8)] known(9) by simp
next
  case (new row)
  have row: "in_lead_id row = ii_lead ids" by (simp add: new(2) intake_of_def)
  have "job_under d (lead_key (ii_lead ids)) = None"
    using job_under_lead [OF ok, of "ii_lead ids"] fresh by (simp add: fresh_intake_def)
  with ingest_lead_job [OF run] have "job_keys d' = job_keys d @ [(Some (lead_key (ii_lead ids)), Some (ii_lead ids), ii_job ids)]"
    by (simp add: new(3))
  then have job: "map (\<lambda>p. (fst p, fst (snd p))) (job_keys d')
         = map (\<lambda>r. (Some (lead_key (in_lead_id r)), Some (in_lead_id r))) (intake d')"
    using ok by (simp add: new(6) row intake_ok_def)
  have refs: "distinct (ref_keys (intake d'))"
  proof (cases "in_external_ref row")
    case None
    with ok show ?thesis by (simp add: new(6) intake_ok_def)
  next
    case (Some x)
    then have "ic_external_ref c = Some x" by (simp add: new(2) intake_of_def)
    with new(1) have "(ic_organization_id c, ic_source c, x) \<notin> set (ref_keys (intake d))"
      by (simp add: ref_keys_found)
    moreover have "(in_organization_id row, in_source row, x) = (ic_organization_id c, ic_source c, x)"
      by (simp add: new(2) intake_of_def)
    ultimately show ?thesis using ok Some by (simp add: new(6) intake_ok_def)
  qed
  have ids: "distinct (map in_lead_id (intake d'))"
    using ok fresh by (simp add: new(6) row intake_ok_def fresh_intake_def)
  have domn: "dom (leads d') = in_lead_id ` set (intake d')"
    using ok by (simp add: new(6,8) row intake_ok_def)
  have each: "\<exists>e \<in> set (lead_events d'). le_lead_id e = i \<and> le_type e = ''lead:ingested''"
    if "i \<in> in_lead_id ` set (intake d')" for i
    using that ok unfolding intake_ok_def by (fastforce simp: new(6,7) row)
  show ?thesis unfolding intake_ok_def using refs ids domn job each by blast
qed

lemma intake_step_ok: "intake_step d d' \<Longrightarrow> intake_ok d \<Longrightarrow> intake_ok d'"
proof (induction rule: intake_step.induct)
  case (ingested ids d cap trace c d' r)
  then show ?case by (blast intro: ingest_keeps_ok)
next
  case (worker_claimed q py_now skip d d' cs)
  with worker_keeps_intake(1) [OF this(1)] worker_keeps_keys(1) [OF this(1)] show ?case
    by - (rule intake_ok_same [of d], simp_all)
next
  case (worker_completed w j d d')
  with worker_keeps_intake(2) [OF this(1)] worker_keeps_keys(2) [OF this(1)] show ?case
    by - (rule intake_ok_same [of d], simp_all)
next
  case (worker_failed w j err M py_now u d d' out)
  with worker_keeps_intake(3) [OF this(1)] worker_keeps_keys(3) [OF this(1)] show ?case
    by - (rule intake_ok_same [of d], simp_all)
next
  case (lead_moved i v s ty pl d d' v')
  from moved_keeps [OF this(1)] this(2) show ?case
    by - (rule intake_ok_same [of d], auto simp: job_keys_def)
next
  case (time_passed d t)
  then show ?case by - (rule intake_ok_same [of d], auto simp: job_keys_def)
qed

lemma intake_run_ok: "intake_run d d' \<Longrightarrow> intake_ok d \<Longrightarrow> intake_ok d'"
  by (induction rule: intake_run.induct) (auto intro: intake_step_ok)

lemma empty_intake_ok: "leads d = Map.empty \<Longrightarrow> intake d = [] \<Longrightarrow> jobs d = [] \<Longrightarrow> intake_ok d"
  by (simp add: intake_ok_def job_keys_def)

subsection \<open>A delivery is answered once\<close>

text \<open>The two tables only grow at their end.\<close>

lemma step_extends:
  "intake_step d d' \<Longrightarrow> \<exists>rows js. intake d' = intake d @ rows \<and> job_keys d' = job_keys d @ js"
proof (induction rule: intake_step.induct)
  case (ingested ids d cap trace c d' r)
  from ingest_lead_job [OF this(2)] have "\<exists>js. job_keys d' = job_keys d @ js" by (simp split: if_splits)
  moreover from ingested(2) have "\<exists>rows. intake d' = intake d @ rows"
    by (cases rule: ingest_lead_cases) auto
  ultimately show ?case by blast
next
  case (worker_claimed q py_now skip d d' cs)
  with worker_keeps_intake(1) [OF this] worker_keeps_keys(1) [OF this] show ?case by simp
next
  case (worker_completed w j d d')
  with worker_keeps_intake(2) [OF this] worker_keeps_keys(2) [OF this] show ?case by simp
next
  case (worker_failed w j err M py_now u d d' out)
  with worker_keeps_intake(3) [OF this] worker_keeps_keys(3) [OF this] show ?case by simp
next
  case (lead_moved i v s ty pl d d' v')
  from moved_keeps [OF this] show ?case by (simp add: job_keys_def)
next
  case (time_passed d t)
  then show ?case by (simp add: job_keys_def)
qed

lemma run_extends:
  "intake_run d d' \<Longrightarrow> \<exists>rows js. intake d' = intake d @ rows \<and> job_keys d' = job_keys d @ js"
proof (induction rule: intake_run.induct)
  case (intake_more d d' d'')
  then show ?case using step_extends [OF intake_more(2)] by fastforce
qed simp

lemma ingest_returns:
  assumes "intake_ok d" and "resolve_lead_in (ii_company ids, ii_person ids) (command_identity c) (identities d) = Inr x"
  shows "\<exists>d' r. ingest_lead cap ids trace c d = Inr (d', r)"
proof -
  obtain idn company person where x: "x = (idn, company, person)" by (cases x) auto
  note enter = ingest_lead_def assms(2) x insert_lead_def intake_of_def first_job Let_def
  show ?thesis
  proof (cases "find (same_ref (ic_organization_id c) (ic_source c) (ic_external_ref c)) (intake d)")
    case None
    then show ?thesis by (simp add: enter split: prod.split)
  next
    case (Some row)
    then have "in_lead_id row \<in> dom (leads d)" using assms(1) by (auto simp: intake_ok_def find_Some_iff)
    then obtain l where "leads d (in_lead_id row) = Some l" by blast
    with Some show ?thesis by (simp add: enter split: prod.split)
  qed
qed

text \<open>What an ingestion leaves to be found by the next delivery of its record.\<close>

lemma ingest_leaves:
  assumes "ingest_lead cap ids trace c d = Inr (d', r)" and "ic_external_ref c = Some ref"
  shows "\<exists>row. find (same_ref (ic_organization_id c) (ic_source c) (Some ref)) (intake d') = Some row
    \<and> in_lead_id row = ir_lead_id r \<and> in_is_shadow row = ir_is_shadow r"
  using assms(1)
proof (cases rule: ingest_lead_cases)
  case (known row l)
  then show ?thesis by (simp add: assms(2))
next
  case (new row)
  then show ?thesis using assms(2) by (simp add: find_append intake_of_def same_ref_def)
qed


lemma ingest_identities:
  assumes "ingest_lead cap ids trace c d = Inr (d', r)"
    and "resolve_lead_in (ii_company ids, ii_person ids) (command_identity c) (identities d) = Inr (idn, company, person)"
  shows "identities d' = idn"
  using assms(1)
  by (auto simp: ingest_lead_def assms(2) insert_lead_def insert_lead_event_def enqueue_in_def Let_def
      split: option.splits prod.splits if_splits)

definition demo_command :: ingest_command where
  "demo_command =
     \<lparr>ic_source = ''crm'', ic_email = ''Jane+x@ACME.com'', ic_organization_id = 3,
      ic_external_ref = Some ''A-17'', ic_company_domain = None, ic_company_name = None,
      ic_full_name = None, ic_title = None, ic_budget_usd_cap = None, ic_is_shadow = True,
      ic_batch_id = None, ic_data_class = PRODUCTION\<rparr>"

definition empty_intake :: intake_db where
  "empty_intake = \<lparr>clock = 100, leads = Map.empty, lead_events = [], jobs = [], intake = [],
     identities = empty_identities\<rparr>"

definition demo_ids :: "nat \<Rightarrow> intake_ids" where
  "demo_ids n = \<lparr>ii_company = n, ii_person = n + 1, ii_lead = n + 2, ii_job = n + 3\<rparr>"

lemma demo_ids_fields:
  "(ii_company (demo_ids 1), ii_person (demo_ids 1)) = (1, 2)"
  "(ii_company (demo_ids 5), ii_person (demo_ids 5)) = (5, 6)"
  by (simp_all add: demo_ids_def)

lemma demo_command_identity: "command_identity c = tagged_lead" if "c = demo_command \<or> c = demo_command\<lparr>ic_is_shadow := False\<rparr>"
  using that by (auto simp: command_identity_def demo_command_def tagged_lead_def)

lemma demo_resolves:
  "resolve_lead_in (1, 2) tagged_lead empty_identities
     = Inr (\<lparr>companies = [\<lparr>cp_id = 1, cp_domain = Some ''acme.com'', cp_name = ''acme.com'', cp_normalized = None\<rparr>],
      persons = [\<lparr>pe_id = 2, pe_email = ''jane@acme.com'', pe_full_name = None, pe_title = None,
        pe_company_id = Some 1, pe_organization_id = 3\<rparr>]\<rparr>,
       \<lparr>rsc_id = 1, rsc_domain = Some ''acme.com'', rsc_created = True\<rparr>,
       \<lparr>rsp_id = 2, rsp_email = ''jane@acme.com'', rsp_company_id = Some 1, rsp_created = True\<rparr>)"
  "\<exists>x. resolve_lead_in (5, 6) tagged_lead
      \<lparr>companies = [\<lparr>cp_id = 1, cp_domain = Some ''acme.com'', cp_name = ''acme.com'', cp_normalized = None\<rparr>],
      persons = [\<lparr>pe_id = 2, pe_email = ''jane@acme.com'', pe_full_name = None, pe_title = None,
        pe_company_id = Some 1, pe_organization_id = 3\<rparr>]\<rparr> = Inr x"
proof -
  have n: "normalize_email (lq_email tagged_lead) = Inr ''jane@acme.com''" by code_simp
  have d: "domain_from_email (lq_email tagged_lead) = Inr (Some ''acme.com'')" by code_simp
  have a: "normalize_domain ''acme.com'' = Inr ''acme.com''" by code_simp
  note defs = resolve_lead_in_def d resolve_company_in_def a upsert_company_by_domain_def
    resolve_person_in_def n present_def
  have t: "lq_company_domain tagged_lead = None" "lq_company_name tagged_lead = None"
    "lq_full_name tagged_lead = None" "lq_title tagged_lead = None" "lq_organization_id tagged_lead = 3"
    by (simp_all add: tagged_lead_def)
  show "resolve_lead_in (1, 2) tagged_lead empty_identities
     = Inr (\<lparr>companies = [\<lparr>cp_id = 1, cp_domain = Some ''acme.com'', cp_name = ''acme.com'', cp_normalized = None\<rparr>],
      persons = [\<lparr>pe_id = 2, pe_email = ''jane@acme.com'', pe_full_name = None, pe_title = None,
        pe_company_id = Some 1, pe_organization_id = 3\<rparr>]\<rparr>,
       \<lparr>rsc_id = 1, rsc_domain = Some ''acme.com'', rsc_created = True\<rparr>,
       \<lparr>rsp_id = 2, rsp_email = ''jane@acme.com'', rsp_company_id = Some 1, rsp_created = True\<rparr>)"
    by (simp add: defs t empty_identities_def)
  show "\<exists>x. resolve_lead_in (5, 6) tagged_lead
      \<lparr>companies = [\<lparr>cp_id = 1, cp_domain = Some ''acme.com'', cp_name = ''acme.com'', cp_normalized = None\<rparr>],
      persons = [\<lparr>pe_id = 2, pe_email = ''jane@acme.com'', pe_full_name = None, pe_title = None,
        pe_company_id = Some 1, pe_organization_id = 3\<rparr>]\<rparr> = Inr x"
    by (simp add: defs t)
qed


text \<open>
  C5. Ingestion loses no lead and duplicates none. In every state reached from an empty database -
  by ingestions under fresh identifiers, a worker's claims, completions and failures, transitions
  and the passing of time - the job table lists exactly one job per lead, under the lead's own key
  and in the order the leads arrived, no lead stands without one, every lead has its
  \<open>lead:ingested\<close> event, and no two leads share an organization, source and \<open>external_ref\<close>.
\<close>

theorem every_lead_has_its_one_job:
  assumes "intake_run d0 d" and "leads d0 = Map.empty" and "intake d0 = []" and "jobs d0 = []"
  shows "map (\<lambda>j. (jb_key j, jb_lead_id j)) (jobs d)
      = map (\<lambda>r. (Some (first_job_key (in_lead_id r) ''compute_score''), Some (in_lead_id r))) (intake d)
    \<and> dom (leads d) = set (map in_lead_id (intake d)) \<and> distinct (map in_lead_id (intake d))
    \<and> distinct (ref_keys (intake d))
    \<and> set (map in_lead_id (intake d)) \<subseteq> {i. \<exists>e \<in> set (lead_events d). le_lead_id e = i \<and> le_type e = ''lead:ingested''}"
proof -
  have "intake_ok d" by (rule intake_run_ok [OF assms(1) empty_intake_ok [OF assms(2-4)]])
  then show ?thesis by (auto simp: intake_ok_def job_keys_def comp_def)
qed

theorem every_lead_has_its_one_job_witness:
  "\<exists>d :: intake_db. dom (leads d) = {3} \<and> map (\<lambda>j. (jb_key j, jb_lead_id j)) (jobs d) = [(Some ''lead:3:compute_score'', Some 3)]"
proof -
  have ok: "intake_ok empty_intake" by (rule empty_intake_ok) (simp_all add: empty_intake_def)
  have one: "resolve_lead_in (ii_company (demo_ids 1), ii_person (demo_ids 1)) (command_identity demo_command) (identities empty_intake)
      = resolve_lead_in (1, 2) tagged_lead empty_identities"
    unfolding demo_ids_fields by (simp add: demo_command_identity empty_intake_def)
  from ingest_returns [OF ok one [unfolded demo_resolves]] obtain d r
    where run: "ingest_lead (1.5, ''1.5'') (demo_ids 1) None demo_command empty_intake = Inr (d, r)" by blast
  have "fresh_intake (demo_ids 1) empty_intake" by (simp add: fresh_intake_def empty_intake_def)
  then have reached: "intake_run empty_intake d" by (intro intake_more [OF intake_start] ingested [OF _ run])
  have rows: "map in_lead_id (intake d) = [3]"
    using run by (cases rule: ingest_lead_cases) (simp_all add: empty_intake_def demo_ids_def intake_of_def)
  then have list: "map (\<lambda>r. (Some (lead_key (in_lead_id r)), Some (in_lead_id r))) (intake d) = [(Some (lead_key 3), Some 3)]"
    by (auto simp: map_eq_Cons_conv)
  have key: "lead_key 3 = ''lead:3:compute_score''" by code_simp
  have "leads empty_intake = Map.empty" "intake empty_intake = []" "jobs empty_intake = []"
    by (simp_all add: empty_intake_def)
  from every_lead_has_its_one_job [OF reached this]
  have j: "map (\<lambda>j. (jb_key j, jb_lead_id j)) (jobs d) = [(Some (lead_key 3), Some 3)]"
    and dm: "dom (leads d) = set (map in_lead_id (intake d))"
    unfolding list by blast+
  from j [unfolded key] dm [unfolded rows] show ?thesis by (intro exI [of _ d]) simp
qed

end
