(* ===== verification/Csv_Upload.thy ===== *)
theory Csv_Upload
  imports Csv_Reader Canonical_Key Ingest
begin

text \<open>
  The first half of \<open>arie.batches\<close>: from the content of an uploaded CSV file to the rows that
  will be ingested. A problem of the file as a whole is an error before anything is written; a
  problem of one row is recorded on that row. The content is given by its size in bytes and by
  what \<open>bytes.decode\<close> makes of it, a text or the message of the \<open>UnicodeDecodeError\<close>.
\<close>

record upload =
  up_size :: nat
  up_text :: "string + string"

definition MAX_FILE_SIZE_BYTES :: nat where
  "MAX_FILE_SIZE_BYTES = 1000000"

definition MAX_ROWS :: nat where
  "MAX_ROWS = 200"

definition SOURCE :: string where
  "SOURCE = ''csv_upload''"

definition COLUMN_ALIASES :: "(string \<times> string list) list" where
  "COLUMN_ALIASES =
     [(''email'', [''email'', ''email address'']),
      (''first_name'', [''first name'', ''firstname'']),
      (''last_name'', [''last name'', ''lastname'']),
      (''full_name'', [''full name'', ''fullname'', ''name'']),
      (''company_name'', [''company'', ''company name'', ''organization'']),
      (''company_domain'', [''domain'', ''company domain'', ''website'']),
      (''title'', [''title'', ''job title''])]"

definition MAX_LENGTHS :: "(string \<times> nat) list" where
  "MAX_LENGTHS =
     [(''email'', 320), (''company_domain'', 253), (''company_name'', 200), (''full_name'', 200),
      (''title'', 200)]"

datatype validation_status = ACCEPTED | ROW_REJECTED

text \<open>Why a row was rejected; an invalid value carries the exception of its normalizer.\<close>

datatype row_problem =
  Email_Required | Too_Long string nat | Invalid_Email error | Invalid_Company_Domain error

record parsed_row =
  pw_row_number :: nat
  pw_raw :: csv_row
  pw_status :: validation_status
  pw_error :: "row_problem option"
  pw_command :: "ingest_command option"

subsection \<open>Columns\<close>

definition normalize_upload_header :: "string \<Rightarrow> string" where
  "normalize_upload_header name = blank_runs (\<lambda>c. is_space c \<or> c = CHR ''_'') (py_lower (py_strip name))"

text \<open>The lookup is a dictionary comprehension: of two headers with one form the later stands.\<close>

definition map_columns :: "string list \<Rightarrow> (string \<times> string) list" where
  "map_columns fieldnames =
     (let look = map_of (rev (map (\<lambda>n. (normalize_upload_header n, n)) (filter (\<lambda>n. n \<noteq> []) fieldnames)))
      in List.map_filter (\<lambda>(canonical, aliases).
           case find (\<lambda>a. look a \<noteq> None) aliases of
             None \<Rightarrow> None
           | Some a \<Rightarrow> map_option (\<lambda>h. (canonical, h)) (look a)) COLUMN_ALIASES)"

subsection \<open>Rows\<close>

definition rejected_row :: "nat \<Rightarrow> csv_row \<Rightarrow> row_problem \<Rightarrow> parsed_row" where
  "rejected_row n raw reason =
     \<lparr>pw_row_number = n, pw_raw = raw, pw_status = ROW_REJECTED, pw_error = Some reason, pw_command = None\<rparr>"

text \<open>\<open>value or None\<close>\<close>

definition nonempty :: "string \<Rightarrow> string option" where
  "nonempty s = (if s = [] then None else Some s)"

definition row_cell :: "(string \<times> string) list \<Rightarrow> csv_row \<Rightarrow> string \<Rightarrow> string option" where
  "row_cell field_map raw field =
     (case map_of field_map field of
        None \<Rightarrow> None
      | Some header \<Rightarrow>
          nonempty (py_strip (case map_of (cr_cells raw) header of Some (Some v) \<Rightarrow> v | _ \<Rightarrow> [])))"

definition max_length :: "string \<Rightarrow> nat" where
  "max_length field = the (map_of MAX_LENGTHS field)"

definition too_long :: "string \<Rightarrow> string option \<Rightarrow> bool" where
  "too_long field value = (case value of None \<Rightarrow> False | Some v \<Rightarrow> max_length field < length v)"

definition contact_name :: "(string \<Rightarrow> string option) \<Rightarrow> string option" where
  "contact_name cell =
     (case cell ''full_name'' of
        Some n \<Rightarrow> Some n
      | None \<Rightarrow> nonempty (join_words (List.map_filter cell [''first_name'', ''last_name''])))"

definition upload_command ::
  "uuid \<Rightarrow> string \<Rightarrow> string \<Rightarrow> (string \<Rightarrow> string option) \<Rightarrow> ingest_command" where
  "upload_command org email normalized cell =
     \<lparr>ic_source = SOURCE, ic_email = email, ic_organization_id = org,
      ic_external_ref = Some (''csv:'' @ normalized), ic_company_domain = cell ''company_domain'',
      ic_company_name = cell ''company_name'', ic_full_name = contact_name cell,
      ic_title = cell ''title'', ic_budget_usd_cap = None, ic_is_shadow = False, ic_batch_id = None,
      ic_data_class = PRODUCTION\<rparr>"

definition validate_row :: "nat \<Rightarrow> csv_row \<Rightarrow> (string \<times> string) list \<Rightarrow> uuid \<Rightarrow> parsed_row" where
  "validate_row n raw field_map org =
     (let cell = row_cell field_map raw; reject = rejected_row n raw
      in case cell ''email'' of
           None \<Rightarrow> reject Email_Required
         | Some email \<Rightarrow>
             if too_long ''email'' (Some email) then reject (Too_Long ''email'' 320)
             else
               (case normalize_email email of
                  Inl e \<Rightarrow> reject (Invalid_Email e)
                | Inr normalized \<Rightarrow>
                    if too_long ''company_domain'' (cell ''company_domain'')
                    then reject (Too_Long ''company_domain'' 253)
                    else
                      (case (case cell ''company_domain'' of
                               None \<Rightarrow> None
                             | Some dm \<Rightarrow> (case normalize_domain dm of Inl e \<Rightarrow> Some e | Inr _ \<Rightarrow> None)) of
                         Some e \<Rightarrow> reject (Invalid_Company_Domain e)
                       | None \<Rightarrow>
                           if too_long ''company_name'' (cell ''company_name'')
                           then reject (Too_Long ''company_name'' 200)
                           else if too_long ''full_name'' (contact_name cell)
                           then reject (Too_Long ''full_name'' 200)
                           else if too_long ''title'' (cell ''title'')
                           then reject (Too_Long ''title'' 200)
                           else \<lparr>pw_row_number = n, pw_raw = raw, pw_status = ACCEPTED, pw_error = None,
                                  pw_command = Some (upload_command org email normalized cell)\<rparr>)))"

subsection \<open>The file\<close>

text \<open>A fresh \<open>DictReader\<close> asked for its field names and then for at most \<open>n\<close> rows.\<close>

definition read_csv :: "nat \<Rightarrow> string \<Rightarrow> string + string list \<times> csv_row list" where
  "read_csv n text =
     (case read_record new_reader (split_lines text) of
        Inl e \<Rightarrow> Inl e
      | Inr None \<Rightarrow> Inr ([], [])
      | Inr (Some (names, ls)) \<Rightarrow> sum_bind (dict_rows names n ls) (\<lambda>rows. Inr (names, rows)))"

definition MALFORMED_SIZE :: string where
  "MALFORMED_SIZE = ''file exceeds the 1000000-byte limit''"

definition checked_text :: "upload \<Rightarrow> string + string" where
  "checked_text up =
     (if up_size up > MAX_FILE_SIZE_BYTES then Inl MALFORMED_SIZE
      else case up_text up of Inl e \<Rightarrow> Inl (''file is not valid UTF-8: '' @ e) | Inr t \<Rightarrow> Inr t)"

definition parse_error :: "string + 'a \<Rightarrow> string + 'a" where
  "parse_error x = (case x of Inl e \<Rightarrow> Inl (''could not parse CSV: '' @ e) | Inr v \<Rightarrow> Inr v)"

definition resolved_columns ::
  "string list \<Rightarrow> (string \<times> string) list option \<Rightarrow> (string \<times> string) list" where
  "resolved_columns fieldnames field_map =
     (case field_map of
        None \<Rightarrow> map_columns fieldnames
      | Some m \<Rightarrow> filter (\<lambda>(f, h). h \<noteq> [] \<and> h \<in> set fieldnames) m)"

definition parse_csv ::
  "upload \<Rightarrow> uuid \<Rightarrow> (string \<times> string) list option \<Rightarrow> string + parsed_row list" where
  "parse_csv up org field_map =
     sum_bind (checked_text up) (\<lambda>text.
     sum_bind (parse_error (read_csv (length (split_lines text)) text)) (\<lambda>(fieldnames, raw_rows).
       let cols = resolved_columns fieldnames field_map
       in if fieldnames = [] then Inl ''file has no header row''
          else if map_of cols ''email'' = None
          then Inl ''missing required column: email (or a recognised alias)''
          else if raw_rows = [] then Inl ''file has no data rows''
          else if length raw_rows > MAX_ROWS
          then Inl (''file has '' @ py_str_int (int (length raw_rows)) @ '' rows, exceeding the 200-row limit'')
          else Inr (map (\<lambda>(i, raw). validate_row i raw cols org) (enumerate 1 raw_rows))))"

end
