(* ===== verification/Batches.thy ===== *)
theory Batches
  imports Csv_Mapping
begin

text \<open>
  The second half of \<open>arie.batches\<close> and the upload endpoint of \<open>arie.api.main\<close>: an upload becomes
  one row of \<open>lead_batches\<close>, one of \<open>lead_batch_rows\<close> for each line, and an ingestion for each
  well-formed line, each in a transaction of its own. A batch's progress is counted from the
  leads it created.
\<close>

record batch_record =
  bt_id :: uuid
  bt_organization_id :: uuid
  bt_filename :: string
  bt_total_rows :: nat
  bt_accepted_rows :: nat
  bt_rejected_rows :: nat
  bt_created_by :: uuid
  bt_created_at :: instant

record batch_line =
  bw_batch_id :: uuid
  bw_row_number :: nat
  bw_organization_id :: uuid
  bw_raw :: csv_row
  bw_status :: validation_status
  bw_error :: "row_problem option"
  bw_lead_id :: "uuid option"

record batch_db = intake_db +
  batches :: "batch_record list"
  batch_lines :: "batch_line list"

text \<open>
  What one upload draws from its surroundings: the batch's UUID, and for each row (and, at 0, for
  the batch itself) the UUIDs, the trace context and the \<open>now()\<close> of its transaction.
\<close>

record upload_env =
  ue_batch_id :: uuid
  ue_ids :: "nat \<Rightarrow> intake_ids"
  ue_trace :: "nat \<Rightarrow> (string \<times> string) list option"
  ue_now :: "nat \<Rightarrow> instant"
  ue_policy_cap :: money

subsection \<open>Uploading\<close>

definition line_of :: "uuid \<Rightarrow> uuid \<Rightarrow> parsed_row \<Rightarrow> uuid option \<Rightarrow> batch_line" where
  "line_of b org row lead =
     \<lparr>bw_batch_id = b, bw_row_number = pw_row_number row, bw_organization_id = org, bw_raw = pw_raw row,
      bw_status = pw_status row, bw_error = pw_error row, bw_lead_id = lead\<rparr>"

definition ingest_row ::
  "upload_env \<Rightarrow> uuid \<Rightarrow> parsed_row \<Rightarrow> batch_db \<Rightarrow> error + batch_db" where
  "ingest_row env org row d =
     (let n = pw_row_number row; d0 = d\<lparr>clock := ue_now env n\<rparr>
      in sum_bind (case pw_command row of
                     None \<Rightarrow> Inr (d0, None)
                   | Some c \<Rightarrow>
                       sum_bind (ingest_lead (ue_policy_cap env) (ue_ids env n) (ue_trace env n)
                                   (c\<lparr>ic_batch_id := Some (ue_batch_id env)\<rparr>) d0)
                         (\<lambda>(d1, r). Inr (d1, Some (ir_lead_id r))))
           (\<lambda>(d1, lead). Inr (d1\<lparr>batch_lines := batch_lines d1 @ [line_of (ue_batch_id env) org row lead]\<rparr>)))"

text \<open>Each row commits: an exception leaves the rows before it.\<close>

fun ingest_rows ::
  "upload_env \<Rightarrow> uuid \<Rightarrow> parsed_row list \<Rightarrow> batch_db \<Rightarrow> batch_db \<times> error option" where
  "ingest_rows env org [] d = (d, None)"
| "ingest_rows env org (row # rows) d =
     (case ingest_row env org row d of
        Inl e \<Rightarrow> (d, Some e)
      | Inr d' \<Rightarrow> ingest_rows env org rows d')"

definition accepted_count :: "parsed_row list \<Rightarrow> nat" where
  "accepted_count rows = length (filter (\<lambda>r. pw_status r = ACCEPTED) rows)"

definition create_batch ::
  "upload_env \<Rightarrow> uuid \<Rightarrow> uuid \<Rightarrow> string \<Rightarrow> upload \<Rightarrow> (string \<times> string) list option \<Rightarrow> batch_db
     \<Rightarrow> batch_db \<times> (mapping_error + batch_record)" where
  "create_batch env org user filename up field_map d =
     (case parse_csv up org field_map of
        Inl e \<Rightarrow> (d, Inl (Malformed_Csv e))
      | Inr rows \<Rightarrow>
          (let b = \<lparr>bt_id = ue_batch_id env, bt_organization_id = org, bt_filename = filename,
                    bt_total_rows = length rows, bt_accepted_rows = accepted_count rows,
                    bt_rejected_rows = length rows - accepted_count rows, bt_created_by = user,
                    bt_created_at = ue_now env 0\<rparr>;
               d1 = d\<lparr>clock := ue_now env 0, batches := batches d @ [b]\<rparr>
           in case ingest_rows env org rows d1 of
                (d2, None) \<Rightarrow> (d2, Inr b)
              | (d2, Some e) \<Rightarrow> (d2, Inl (Raised e))))"

subsection \<open>Reading batches\<close>

definition get_batch :: "uuid \<Rightarrow> uuid \<Rightarrow> batch_db \<Rightarrow> batch_record option" where
  "get_batch org batch_id d = find (\<lambda>b. bt_id b = batch_id \<and> bt_organization_id b = org) (batches d)"

text \<open>A batch whose leads are all a harness's stays out of the list; one without leads is kept.\<close>

definition batch_listed :: "batch_db \<Rightarrow> batch_record \<Rightarrow> bool" where
  "batch_listed d b \<longleftrightarrow>
     \<not> list_ex (\<lambda>r. in_batch_id r = Some (bt_id b)) (intake d)
     \<or> list_ex (\<lambda>r. in_batch_id r = Some (bt_id b) \<and> in_data_class r = PRODUCTION) (intake d)"

definition list_batches :: "uuid \<Rightarrow> nat \<Rightarrow> nat \<Rightarrow> batch_db \<Rightarrow> batch_record list" where
  "list_batches org limit offset d =
     take limit (drop offset
       (sort_key (\<lambda>b. - bt_created_at b)
          (filter (\<lambda>b. bt_organization_id b = org \<and> batch_listed d b) (batches d))))"

text \<open>The rows of a batch, each with the status its lead has now.\<close>

definition list_batch_lines ::
  "uuid \<Rightarrow> uuid \<Rightarrow> nat \<Rightarrow> nat \<Rightarrow> batch_db \<Rightarrow> (batch_line \<times> lead_status option) list" where
  "list_batch_lines org batch_id limit offset d =
     map (\<lambda>l. (l, Option.bind (bw_lead_id l) (lead_status_of d)))
       (take limit (drop offset
          (sort_key bw_row_number
             (filter (\<lambda>l. bw_batch_id l = batch_id \<and> bw_organization_id l = org) (batch_lines d)))))"

record batch_progress =
  bp_total_rows :: nat
  bp_accepted_rows :: nat
  bp_rejected_rows :: nat
  bp_processing :: nat
  bp_qualified :: nat
  bp_rejected_leads :: nat
  bp_review :: nat
  bp_failed :: nat
  bp_provider_cost :: real
  bp_model_cost :: real

definition progress_complete :: "batch_progress \<Rightarrow> bool" where
  "progress_complete p \<longleftrightarrow> bp_processing p = 0"

definition progress_cost :: "batch_progress \<Rightarrow> real" where
  "progress_cost p = bp_provider_cost p + bp_model_cost p"

definition batch_leads :: "uuid \<Rightarrow> uuid \<Rightarrow> 'a intake_db_scheme \<Rightarrow> uuid list" where
  "batch_leads org batch_id d =
     map in_lead_id (filter (\<lambda>r. in_batch_id r = Some batch_id \<and> in_organization_id r = org) (intake d))"

definition in_statuses :: "'a intake_db_scheme \<Rightarrow> lead_status set \<Rightarrow> uuid \<Rightarrow> bool" where
  "in_statuses d S i \<longleftrightarrow> (case lead_status_of d i of None \<Rightarrow> False | Some s \<Rightarrow> s \<in> S)"

definition batch_progress_of ::
  "uuid \<Rightarrow> batch_record \<Rightarrow> provider_call list \<Rightarrow> model_call list \<Rightarrow> 'a intake_db_scheme \<Rightarrow> batch_progress" where
  "batch_progress_of org b pcs mcs d =
     (let ours = batch_leads org (bt_id b) d;
          mine = (\<lambda>l. case l of None \<Rightarrow> False | Some i \<Rightarrow> i \<in> set ours);
          qualified = count_of (in_statuses d QUALIFIED) ours;
          rejected = count_of (in_statuses d REJECTED) ours;
          review = count_of (in_statuses d AWAITING_REVIEW) ours;
          failed = count_of (in_statuses d FAILURE) ours
      in \<lparr>bp_total_rows = bt_total_rows b, bp_accepted_rows = bt_accepted_rows b,
          bp_rejected_rows = bt_rejected_rows b,
          bp_processing = length ours - (qualified + rejected + review + failed),
          bp_qualified = qualified, bp_rejected_leads = rejected, bp_review = review, bp_failed = failed,
          bp_provider_cost = sum_of pc_cost (\<lambda>r. \<not> pc_cache_hit r \<and> mine (pc_lead_id r)) pcs,
          bp_model_cost = sum_of mc_cost (\<lambda>r. mine (mc_lead_id r)) mcs\<rparr>)"

subsection \<open>The upload endpoint\<close>

datatype upload_answer =
  Created batch_record batch_progress | Refused nat string | Server_Error error

definition MAX_UPLOAD_CONTENT_LENGTH :: nat where
  "MAX_UPLOAD_CONTENT_LENGTH = MAX_FILE_SIZE_BYTES + 10000"

text \<open>A mapping sent along: what \<open>json.loads\<close> makes of it - nothing, or something that may be an
  object from strings to strings.\<close>

definition confirmed_field_map ::
  "upload \<Rightarrow> (string \<times> string) list option option option \<Rightarrow> string + (string \<times> string) list option" where
  "confirmed_field_map up mapping =
     (case mapping of
        None \<Rightarrow> Inr None
      | Some None \<Rightarrow> Inl ''the column mapping was not valid JSON''
      | Some (Some None) \<Rightarrow> Inl ''the column mapping must be an object of field name to column name''
      | Some (Some (Some m)) \<Rightarrow>
          sum_bind (read_headers_and_samples up) (\<lambda>(headers, _).
            let (validated, problems) = validate_confirmed_mapping headers m
            in if problems \<noteq> [] then Inl (join_words problems) else Inr (Some validated)))"

record upload_request =
  ur_human :: bool
  ur_organization_id :: uuid
  ur_user_id :: uuid
  ur_content_length :: "nat option"
  ur_upload :: upload
  ur_filename :: "string option"
  ur_mapping :: "(string \<times> string) list option option option"

text \<open>What the endpoint reads beside the intake: the limits, the month's leads and the two ledgers.\<close>

record quota_view =
  qv_organizations :: organizations
  qv_leads :: "usage_lead list"
  qv_provider_calls :: "provider_call list"
  qv_model_calls :: "model_call list"

definition upload_batch ::
  "upload_env \<Rightarrow> instant \<Rightarrow> quota_view \<Rightarrow> upload_request \<Rightarrow> batch_db \<Rightarrow> batch_db \<times> upload_answer" where
  "upload_batch env now qv rq d =
     (if \<not> ur_human rq then (d, Refused 403 ''requires a user session (API keys cannot read organization configuration)'')
      else if (case ur_content_length rq of None \<Rightarrow> False | Some n \<Rightarrow> n > MAX_UPLOAD_CONTENT_LENGTH)
      then (d, Refused 413 ''upload exceeds the 1010000-byte limit'')
      else
        (case confirmed_field_map (ur_upload rq) (ur_mapping rq) of
           Inl m \<Rightarrow> (d, Refused 422 m)
         | Inr field_map \<Rightarrow>
             (case parse_csv (ur_upload rq) (ur_organization_id rq) field_map of
                Inl m \<Rightarrow> (d, Refused 422 m)
              | Inr preview \<Rightarrow>
                  (case sum_bind (enforce_csv_row_quota (ur_organization_id rq) (int (length preview))
                           (qv_organizations qv))
                         (\<lambda>_. enforce_lead_quota (ur_organization_id rq) now (qv_organizations qv)
                                (qv_leads qv) (qv_provider_calls qv) (qv_model_calls qv)) of
                     Inl e \<Rightarrow> (d, if e = LimitExceededError then Refused 429 ''LimitExceededError'' else Server_Error e)
                   | Inr _ \<Rightarrow>
                       (case create_batch env (ur_organization_id rq) (ur_user_id rq)
                               (case ur_filename rq of Some f \<Rightarrow> if f = [] then ''upload.csv'' else f | None \<Rightarrow> ''upload.csv'')
                               (ur_upload rq) field_map d of
                          (d', Inl (Malformed_Csv m)) \<Rightarrow> (d', Refused 422 m)
                        | (d', Inl (Raised e)) \<Rightarrow> (d', Server_Error e)
                        | (d', Inr b) \<Rightarrow>
                            (d', Created b (batch_progress_of (ur_organization_id rq) b
                                   (qv_provider_calls qv) (qv_model_calls qv) d')))))))"

subsection \<open>What a parsed file holds\<close>

definition command_sound :: "uuid \<Rightarrow> ingest_command \<Rightarrow> bool" where
  "command_sound org c \<longleftrightarrow>
     (case normalize_email (ic_email c) of
        Inl _ \<Rightarrow> False
      | Inr e \<Rightarrow> ic_external_ref c = Some (''csv:'' @ e))
     \<and> ic_organization_id c = org \<and> ic_source c = SOURCE \<and> ic_data_class c = PRODUCTION \<and> \<not> ic_is_shadow c
     \<and> length (ic_email c) \<le> 320
     \<and> (case ic_company_domain c of None \<Rightarrow> True
        | Some dm \<Rightarrow> length dm \<le> 253 \<and> (case normalize_domain dm of Inl _ \<Rightarrow> False | Inr _ \<Rightarrow> True))
     \<and> list_all (\<lambda>v. case v of None \<Rightarrow> True | Some s \<Rightarrow> s \<noteq> [] \<and> length s \<le> 200)
         [ic_company_name c, ic_full_name c, ic_title c]"

definition row_sound :: "uuid \<Rightarrow> parsed_row \<Rightarrow> bool" where
  "row_sound org r \<longleftrightarrow>
     (case pw_command r of
        None \<Rightarrow> pw_status r = ROW_REJECTED \<and> pw_error r \<noteq> None
      | Some c \<Rightarrow> pw_status r = ACCEPTED \<and> pw_error r = None \<and> command_sound org c)"

lemma max_lengths: "max_length ''email'' = 320" "max_length ''company_domain'' = 253"
  "max_length ''company_name'' = 200" "max_length ''full_name'' = 200" "max_length ''title'' = 200"
  by (simp_all add: max_length_def MAX_LENGTHS_def)

lemma row_cell_nonempty: "row_cell m raw f = Some v \<Longrightarrow> v \<noteq> []"
  by (auto simp: row_cell_def nonempty_def split: option.splits if_splits)

lemma contact_name_nonempty:
  assumes "contact_name (row_cell m raw) = Some v"
  shows "v \<noteq> []"
  using assms row_cell_nonempty [of m raw "''full_name''"]
  by (auto simp: contact_name_def nonempty_def split: option.splits if_splits)

lemma validate_row_number: "pw_row_number (validate_row n raw m org) = n"
  by (simp add: validate_row_def rejected_row_def Let_def split: option.split sum.split)

lemma validate_row_cases:
  obtains (rejected) p where "validate_row n raw m org = rejected_row n raw p"
  | (accepted) email e where "row_cell m raw ''email'' = Some email" "\<not> too_long ''email'' (Some email)"
      "normalize_email email = Inr e" "\<not> too_long ''company_domain'' (row_cell m raw ''company_domain'')"
      "\<And>dm x. row_cell m raw ''company_domain'' = Some dm \<Longrightarrow> normalize_domain dm \<noteq> Inl x"
      "\<not> too_long ''company_name'' (row_cell m raw ''company_name'')"
      "\<not> too_long ''full_name'' (contact_name (row_cell m raw))"
      "\<not> too_long ''title'' (row_cell m raw ''title'')"
      "validate_row n raw m org = \<lparr>pw_row_number = n, pw_raw = raw, pw_status = ACCEPTED, pw_error = None,
         pw_command = Some (upload_command org email e (row_cell m raw))\<rparr>"
proof -
  define cell where "cell = row_cell m raw"
  note row = validate_row_def [of n raw m org, folded cell_def] Let_def
  note rejected = rejected [folded cell_def] and accepted = accepted [folded cell_def]
  show ?thesis
  proof (cases "cell ''email''")
    case None
    then show ?thesis using rejected by (simp add: row)
  next
    case (Some email)
    note email = Some
    show ?thesis
    proof (cases "too_long ''email'' (Some email)")
      case True
      then show ?thesis using rejected by (simp add: row email)
    next
      case False
      note short = False
      show ?thesis
      proof (cases "normalize_email email")
        case (Inl x)
        then show ?thesis using rejected by (simp add: row email short)
      next
        case (Inr e)
        note row1 = row email short Inr sum.case option.case if_False
        let ?bad = "case cell ''company_domain'' of None \<Rightarrow> None
            | Some dm \<Rightarrow> (case normalize_domain dm of Inl e \<Rightarrow> Some e | Inr _ \<Rightarrow> None)"
        let ?long = "\<lambda>f v. too_long f v"
        consider (bad) "?long ''company_domain'' (cell ''company_domain'') \<or> ?bad \<noteq> None
            \<or> ?long ''company_name'' (cell ''company_name'') \<or> ?long ''full_name'' (contact_name cell)
            \<or> ?long ''title'' (cell ''title'')"
          | (good) "\<not> ?long ''company_domain'' (cell ''company_domain'')" "?bad = None"
            "\<not> ?long ''company_name'' (cell ''company_name'')" "\<not> ?long ''full_name'' (contact_name cell)"
            "\<not> ?long ''title'' (cell ''title'')"
          by blast
        then show ?thesis
        proof cases
          case bad
          then have "\<exists>p. validate_row n raw m org = rejected_row n raw p"
            unfolding row1 by (auto split: option.split)
          then show ?thesis using rejected by blast
        next
          case good
          have "normalize_domain dm \<noteq> Inl x" if "cell ''company_domain'' = Some dm" for dm x
            using good(2) that by (auto split: sum.splits)
          moreover have "validate_row n raw m org = \<lparr>pw_row_number = n, pw_raw = raw, pw_status = ACCEPTED,
              pw_error = None, pw_command = Some (upload_command org email e cell)\<rparr>"
            unfolding row1 good(2) using good short by simp
          ultimately show ?thesis using accepted [OF email short Inr good(1) _ good(3-5)] by blast
        qed
      qed
    qed
  qed
qed

lemma short_text: "\<not> too_long f v \<Longrightarrow> (\<And>s. v = Some s \<Longrightarrow> s \<noteq> [])
    \<Longrightarrow> (case v of None \<Rightarrow> True | Some s \<Rightarrow> s \<noteq> [] \<and> length s \<le> max_length f)"
  by (cases v) (simp_all add: too_long_def not_less)

lemma validate_row_sound: "row_sound org (validate_row n raw m org)"
proof (cases rule: validate_row_cases [of n raw m org])
  case (rejected p)
  then show ?thesis by (simp add: row_sound_def rejected_row_def)
next
  case (accepted email e)
  have dom: "case row_cell m raw ''company_domain'' of None \<Rightarrow> True
      | Some dm \<Rightarrow> length dm \<le> 253 \<and> (case normalize_domain dm of Inl _ \<Rightarrow> False | Inr _ \<Rightarrow> True)"
    using accepted(4,5) by (auto simp: too_long_def max_lengths not_less split: option.splits sum.splits)
  have "length email \<le> 320" using accepted(2) by (simp add: too_long_def max_lengths)
  with dom accepted(3) short_text [OF accepted(6) row_cell_nonempty [of m raw "''company_name''"], unfolded max_lengths] short_text [OF accepted(7) contact_name_nonempty [of m raw], unfolded max_lengths]
    short_text [OF accepted(8) row_cell_nonempty [of m raw "''title''"], unfolded max_lengths]
  show ?thesis
    by (simp add: accepted(9) row_sound_def command_sound_def upload_command_def max_lengths)
qed

lemma parse_csv_rows:
  assumes "parse_csv up org fm = Inr rows"
  obtains raws cols where "rows = map (\<lambda>(i, raw). validate_row i raw cols org) (enumerate 1 raws)"
    "raws \<noteq> []" "length raws \<le> MAX_ROWS" "map_of cols ''email'' \<noteq> None"
  using assms by (fastforce simp: parse_csv_def sum_bind_Inr Let_def split: if_splits)

lemma parsed_rows:
  "case parse_csv up org fm of
     Inl _ \<Rightarrow> True
   | Inr rows \<Rightarrow> 1 \<le> length rows \<and> length rows \<le> 200
       \<and> map pw_row_number rows = [1..<Suc (length rows)] \<and> list_all (row_sound org) rows"
proof (cases "parse_csv up org fm")
  case (Inr rows)
  from parse_csv_rows [OF this] obtain raws cols where
    rows: "rows = map (\<lambda>(i, raw). validate_row i raw cols org) (enumerate 1 raws)" "raws \<noteq> []"
      "length raws \<le> MAX_ROWS" by blast
  have "map pw_row_number rows = map fst (enumerate 1 raws)"
    by (simp add: rows(1) validate_row_number case_prod_beta comp_def)
  then have "map pw_row_number rows = [1..<Suc (length rows)]" by (simp add: rows(1) add.commute)
  moreover have "list_all (row_sound org) rows"
    by (auto simp: rows(1) list_all_iff validate_row_sound)
  moreover have "1 \<le> length rows \<and> length rows \<le> 200"
    using rows by (simp add: MAX_ROWS_def Suc_le_eq)
  ultimately show ?thesis using Inr by simp
qed simp


subsection \<open>Progress\<close>

lemma status_of_one_group:
  "of_bool (s \<in> QUALIFIED) + of_bool (s \<in> REJECTED) + of_bool (s \<in> AWAITING_REVIEW) + of_bool (s \<in> FAILURE) \<le> (1 :: nat)"
  using status_groups_disjoint by (auto simp: of_bool_def)

lemma groups_at_most_all:
  "count_of (in_statuses d QUALIFIED) xs + count_of (in_statuses d REJECTED) xs
     + count_of (in_statuses d AWAITING_REVIEW) xs + count_of (in_statuses d FAILURE) xs \<le> length xs"
proof (induction xs)
  case (Cons i xs)
  show ?case
  proof (cases "lead_status_of d i")
    case None
    with Cons show ?thesis by (simp add: count_of_def in_statuses_def)
  next
    case (Some s)
    with Cons status_of_one_group [of s] show ?thesis
      by (simp add: count_of_def in_statuses_def of_bool_def split: if_splits)
  qed
qed (simp add: count_of_def)

text \<open>
  A batch's progress accounts for every lead. The leads a batch created are, each exactly
  once, being processed, qualified, rejected, in review or failed; the batch is complete exactly
  when none is being processed, whatever the number of accepted rows, and what it counts as
  provider cost comes from calls that were not answered from the cache.
\<close>

theorem batch_progress_accounts_for_every_lead:
  fixes org b pcs mcs d
  defines "p \<equiv> batch_progress_of org b pcs mcs d"
  shows "length (batch_leads org (bt_id b) d)
      = bp_processing p + bp_qualified p + bp_rejected_leads p + bp_review p + bp_failed p
    \<and> (progress_complete p \<longleftrightarrow> length (batch_leads org (bt_id b) d)
         = bp_qualified p + bp_rejected_leads p + bp_review p + bp_failed p)
    \<and> progress_cost p = sum_of pc_cost (\<lambda>r. \<not> pc_cache_hit r \<and> (\<exists>i \<in> set (batch_leads org (bt_id b) d). pc_lead_id r = Some i)) pcs
        + sum_of mc_cost (\<lambda>r. \<exists>i \<in> set (batch_leads org (bt_id b) d). mc_lead_id r = Some i) mcs"
proof -
  have mine: "(case l of None \<Rightarrow> False | Some i \<Rightarrow> i \<in> A) \<longleftrightarrow> (\<exists>i \<in> A. l = Some i)" for l :: "uuid option" and A
    by (cases l) auto
  show ?thesis
    using groups_at_most_all [of d "batch_leads org (bt_id b) d"]
    by (simp add: p_def batch_progress_of_def Let_def progress_complete_def progress_cost_def mine)
qed

subsection \<open>Uploading the same file again\<close>

text \<open>The lead a command's key names.\<close>

definition lead_for :: "'a intake_db_scheme \<Rightarrow> ingest_command \<Rightarrow> uuid option" where
  "lead_for d c =
     map_option in_lead_id (find (same_ref (ic_organization_id c) (ic_source c) (ic_external_ref c)) (intake d))"

text \<open>\<open>d'\<close> continues \<open>d\<close>: the leads and jobs there are still the first ones found.\<close>

definition continues :: "batch_db \<Rightarrow> batch_db \<Rightarrow> bool" where
  "continues d d' \<longleftrightarrow> (\<exists>rows js. intake d' = intake d @ rows \<and> job_keys d' = job_keys d @ js)"

definition answered :: "batch_db \<Rightarrow> ingest_command \<Rightarrow> bool" where
  "answered d c \<longleftrightarrow> (\<exists>i. lead_for d c = Some i \<and> job_under d (lead_key i) \<noteq> None)"

lemma continues_refl [simp]: "continues d d"
  by (simp add: continues_def)

lemma continues_trans: "continues d d' \<Longrightarrow> continues d' d'' \<Longrightarrow> continues d d''"
  by (fastforce simp: continues_def)

lemma continues_lead: "continues d d' \<Longrightarrow> lead_for d c = Some i \<Longrightarrow> lead_for d' c = Some i"
  by (auto simp: continues_def lead_for_def find_append)

lemma continues_answered: "continues d d' \<Longrightarrow> answered d c \<Longrightarrow> answered d' c"
  using continues_lead
  by (fastforce simp: answered_def continues_def job_under_def find_append split: option.splits)

lemma run_continues: "intake_run d d' \<Longrightarrow> continues d d'"
  using run_extends by (auto simp: continues_def)

lemma enqueue_keeps_lines:
  "enqueue_in fresh lead ty k trace d = (d', e) \<Longrightarrow> batch_lines (d' :: batch_db) = batch_lines d"
  by (auto simp: enqueue_in_def split: option.splits)

lemma insert_keeps_lines:
  "insert_lead fresh c cap p m d = (d', row, new) \<Longrightarrow> batch_lines (d' :: batch_db) = batch_lines d"
  by (auto simp: insert_lead_def Let_def split: option.splits)

lemma ingest_keeps_lines:
  fixes d d' :: batch_db
  assumes "ingest_lead cap ids trace c d = Inr (d', r)"
  shows "batch_lines d' = batch_lines d"
proof -
  from assms obtain idn company person where
    "resolve_lead_in (ii_company ids, ii_person ids) (command_identity c) (identities d) = Inr (idn, company, person)"
    by (auto simp: ingest_lead_def sum_bind_Inr)
  note run = assms [unfolded ingest_lead_def this]
  obtain d1 row new where i: "insert_lead (ii_lead ids) c (case ic_budget_usd_cap c of Some m \<Rightarrow> m | None \<Rightarrow> cap)
      (rsp_id person) (rsc_id company) (d\<lparr>identities := idn\<rparr>) = (d1, row, new)" by (metis prod_cases3)
  from run obtain d2 e k where "enqueue_in (ii_job ids) (Some (in_lead_id row)) ''compute_score'' k trace d2 = (d', e)"
    and "batch_lines d2 = batch_lines d1"
    by (auto simp: i first_job Let_def insert_lead_event_def split: option.splits prod.splits if_splits)
  with enqueue_keeps_lines insert_keeps_lines [OF i] show ?thesis by auto
qed

lemma ingest_answers:
  fixes d d' :: batch_db
  assumes "ingest_lead cap ids trace c d = Inr (d', r)" and "ic_external_ref c \<noteq> None"
  shows "continues d d' \<and> answered d' c \<and> lead_for d' c = Some (ir_lead_id r) \<and> batch_lines d' = batch_lines d"
proof -
  have "continues d d'"
    using assms(1) ingest_lead_job [OF assms(1)]
    by (cases rule: ingest_lead_cases) (auto simp: continues_def split: if_splits)
  moreover have "lead_for d' c = Some (ir_lead_id r)"
    using ingest_leaves [OF assms(1)] assms(2) by (auto simp: lead_for_def)
  moreover have "batch_lines d' = batch_lines d" by (rule ingest_keeps_lines [OF assms(1)])
  ultimately show ?thesis using ingest_lead_job [OF assms(1)] by (simp add: answered_def)
qed

lemma ingest_answered:
  fixes d d' :: batch_db
  assumes "ingest_lead cap ids trace c d = Inr (d', r)" and "answered d c"
  shows "intake d' = intake d \<and> job_keys d' = job_keys d \<and> lead_events d' = lead_events d
    \<and> lead_status_of d' = lead_status_of d \<and> lead_version d' = lead_version d"
proof -
  from assms(2) obtain row where
    row: "find (same_ref (ic_organization_id c) (ic_source c) (ic_external_ref c)) (intake d) = Some row"
    and job: "job_under d (lead_key (in_lead_id row)) \<noteq> None"
    by (auto simp: answered_def lead_for_def)
  from assms(1) show ?thesis
  proof (cases rule: ingest_lead_cases)
    case (known row' l)
    with row job ingest_lead_job [OF assms(1)] show ?thesis
      by (auto simp: lead_status_of_def lead_version_def fun_eq_iff)
  next
    case (new row')
    with row show ?thesis by simp
  qed
qed

lemma same_key_commands:
  "lead_for d (c\<lparr>ic_batch_id := b\<rparr>) = lead_for d c" "answered d (c\<lparr>ic_batch_id := b\<rparr>) \<longleftrightarrow> answered d c"
  "lead_for (d\<lparr>clock := t\<rparr>) c = lead_for d c" "answered (d\<lparr>clock := t\<rparr>) c \<longleftrightarrow> answered d c"
  "lead_for (d\<lparr>batch_lines := ls\<rparr>) c = lead_for d c" "answered (d\<lparr>batch_lines := ls\<rparr>) c \<longleftrightarrow> answered d c"
  by (simp_all add: lead_for_def answered_def job_under_def job_keys_def)

definition row_leads :: "batch_db \<Rightarrow> parsed_row \<Rightarrow> uuid option" where
  "row_leads d row = Option.bind (pw_command row) (lead_for d)"

abbreviation keyed_row :: "parsed_row \<Rightarrow> bool" where
  "keyed_row row \<equiv> \<forall>c. pw_command row = Some c \<longrightarrow> ic_external_ref c \<noteq> None"

lemma ingest_row_first:
  assumes "ingest_row env org row d = Inr d'" and "keyed_row row"
  shows "continues d d' \<and> (\<forall>c. pw_command row = Some c \<longrightarrow> answered d' c)
    \<and> batch_lines d' = batch_lines d @ [line_of (ue_batch_id env) org row (row_leads d' row)]"
proof (cases "pw_command row")
  case None
  with assms(1) show ?thesis
    by (auto simp: ingest_row_def Let_def row_leads_def continues_def job_keys_def)
next
  case (Some c)
  let ?c = "c\<lparr>ic_batch_id := Some (ue_batch_id env)\<rparr>"
  let ?d0 = "d\<lparr>clock := ue_now env (pw_row_number row)\<rparr>"
  from assms(1) Some obtain d1 r where
    run: "ingest_lead (ue_policy_cap env) (ue_ids env (pw_row_number row)) (ue_trace env (pw_row_number row)) ?c ?d0 = Inr (d1, r)"
    and d': "d' = d1\<lparr>batch_lines := batch_lines d1 @ [line_of (ue_batch_id env) org row (Some (ir_lead_id r))]\<rparr>"
    by (auto simp: ingest_row_def Let_def sum_bind_Inr)
  have "ic_external_ref ?c \<noteq> None" using assms(2) Some by simp
  from ingest_answers [OF run this]
  have a: "continues ?d0 d1" "answered d1 c" "lead_for d1 c = Some (ir_lead_id r)" "batch_lines d1 = batch_lines d"
    by (simp_all add: same_key_commands)
  from a(1) have "continues d d'" by (simp add: continues_def d' job_keys_def)
  with a show ?thesis by (simp add: d' Some row_leads_def same_key_commands)
qed

lemma continues_row_leads:
  assumes "continues d d'" and "\<forall>c. pw_command row = Some c \<longrightarrow> answered d c"
  shows "row_leads d' row = row_leads d row"
proof (cases "pw_command row")
  case (Some c)
  with assms(2) obtain i where "lead_for d c = Some i" by (auto simp: answered_def)
  with continues_lead [OF assms(1) this] Some show ?thesis by (simp add: row_leads_def)
qed (simp add: row_leads_def)

lemma ingest_rows_first:
  assumes "ingest_rows env org rows d = (d', None)" and "\<forall>row \<in> set rows. keyed_row row"
  shows "continues d d' \<and> (\<forall>row \<in> set rows. \<forall>c. pw_command row = Some c \<longrightarrow> answered d' c)
    \<and> batch_lines d' = batch_lines d @ map (\<lambda>row. line_of (ue_batch_id env) org row (row_leads d' row)) rows"
  using assms
proof (induction rows arbitrary: d)
  case (Cons row rows)
  from Cons.prems(1) obtain d1 where one: "ingest_row env org row d = Inr d1"
    and rest: "ingest_rows env org rows d1 = (d', None)" by (auto split: sum.splits)
  from ingest_row_first [OF one] Cons.prems(2)
  have a: "continues d d1" "\<forall>c. pw_command row = Some c \<longrightarrow> answered d1 c"
    "batch_lines d1 = batch_lines d @ [line_of (ue_batch_id env) org row (row_leads d1 row)]" by auto
  from Cons.IH [OF rest] Cons.prems(2)
  have b: "continues d1 d'" "\<forall>row \<in> set rows. \<forall>c. pw_command row = Some c \<longrightarrow> answered d' c"
    "batch_lines d' = batch_lines d1 @ map (\<lambda>row. line_of (ue_batch_id env) org row (row_leads d' row)) rows" by auto
  have "row_leads d' row = row_leads d1 row" by (rule continues_row_leads [OF b(1) a(2)])
  then show ?case
    using continues_trans [OF a(1) b(1)] continues_answered [OF b(1)] a(2,3) b(2,3) by auto
qed simp

definition same_work :: "batch_db \<Rightarrow> batch_db \<Rightarrow> bool" where
  "same_work d d' \<longleftrightarrow> intake d' = intake d \<and> job_keys d' = job_keys d \<and> lead_events d' = lead_events d
     \<and> lead_status_of d' = lead_status_of d \<and> lead_version d' = lead_version d"

lemma same_work_answered: "same_work d d' \<Longrightarrow> answered d' c \<longleftrightarrow> answered d c"
  by (simp add: same_work_def answered_def lead_for_def job_under_def)

lemma ingest_row_again:
  assumes "ingest_row env org row d = Inr d'" and "\<forall>c. pw_command row = Some c \<longrightarrow> answered d c"
  shows "same_work d d'"
proof (cases "pw_command row")
  case None
  with assms(1) show ?thesis
    by (auto simp: ingest_row_def Let_def same_work_def job_keys_def lead_status_of_def lead_version_def fun_eq_iff)
next
  case (Some c)
  let ?d0 = "d\<lparr>clock := ue_now env (pw_row_number row)\<rparr>"
  from assms(1) Some obtain d1 r where
    run: "ingest_lead (ue_policy_cap env) (ue_ids env (pw_row_number row)) (ue_trace env (pw_row_number row))
            (c\<lparr>ic_batch_id := Some (ue_batch_id env)\<rparr>) ?d0 = Inr (d1, r)"
    and d': "d' = d1\<lparr>batch_lines := batch_lines d1 @ [line_of (ue_batch_id env) org row (Some (ir_lead_id r))]\<rparr>"
    by (auto simp: ingest_row_def Let_def sum_bind_Inr)
  have "answered ?d0 (c\<lparr>ic_batch_id := Some (ue_batch_id env)\<rparr>)" using assms(2) Some by (simp add: same_key_commands)
  from ingest_answered [OF run this] show ?thesis
    by (simp add: same_work_def d' job_keys_def lead_status_of_def [abs_def] lead_version_def [abs_def] fun_eq_iff)
qed

lemma ingest_rows_again:
  assumes "ingest_rows env org rows d = (d', e)" and "\<forall>row \<in> set rows. \<forall>c. pw_command row = Some c \<longrightarrow> answered d c"
  shows "same_work d d'"
  using assms
proof (induction rows arbitrary: d)
  case (Cons row rows)
  show ?case
  proof (cases "ingest_row env org row d")
    case (Inl x)
    with Cons.prems(1) show ?thesis by (auto simp: same_work_def)
  next
    case (Inr d1)
    from ingest_row_again [OF Inr] Cons.prems(2) have w: "same_work d d1" by simp
    have "same_work d1 d'"
      using Cons.IH [of d1] Cons.prems Inr by (simp add: same_work_answered [OF w])
    with w show ?thesis by (simp add: same_work_def)
  qed
qed (simp add: same_work_def)

lemma parsed_rows_keyed:
  assumes "parse_csv up org fm = Inr rows"
  shows "\<forall>row \<in> set rows. keyed_row row"
proof (intro ballI allI impI)
  fix row c assume "row \<in> set rows" and c: "pw_command row = Some c"
  with parsed_rows [where up = up and org = org and fm = fm] assms have "row_sound org row" by (simp add: list_all_iff)
  with c show "ic_external_ref c \<noteq> None"
    by (auto simp: row_sound_def command_sound_def split: sum.splits)
qed

text \<open>
  C14. Uploading a file again makes no work. Once an upload has gone through, a second upload of the
  same content under the same mapping - by anyone in the organization, whenever, and whatever
  happened to the leads in between - creates no lead, no job and no event and moves no lead, even
  if it fails on the way; and when it goes through, its rows name the same leads as the first's.
\<close>

theorem uploading_again_makes_no_work:
  assumes "create_batch env org user filename up fm d0 = (d1, Inr b)" and "intake_run d1 d2"
    and "create_batch env' org user' filename' up fm d2 = (d3, res)"
  shows "intake d3 = intake d2 \<and> job_keys d3 = job_keys d2 \<and> lead_events d3 = lead_events d2
    \<and> lead_status_of d3 = lead_status_of d2 \<and> lead_version d3 = lead_version d2
    \<and> (case res of Inl _ \<Rightarrow> True
       | Inr _ \<Rightarrow> map bw_lead_id (drop (length (batch_lines d2)) (batch_lines d3))
           = map bw_lead_id (drop (length (batch_lines d0)) (batch_lines d1)))"
proof -
  from assms(1) obtain rows s0 where rows: "parse_csv up org fm = Inr rows"
    and first: "ingest_rows env org rows s0 = (d1, None)" and s0: "batch_lines s0 = batch_lines d0"
    by (auto simp: create_batch_def Let_def split: sum.splits prod.splits option.splits)
  from assms(3) rows obtain s2 e where again: "ingest_rows env' org rows s2 = (d3, e)"
    and s2: "continues d2 s2" "same_work d2 s2" "batch_lines s2 = batch_lines d2"
    and e: "(\<exists>x. res = Inr x) \<longrightarrow> e = None"
    by (auto simp: create_batch_def Let_def same_work_def continues_def job_keys_def lead_status_of_def
        lead_version_def fun_eq_iff split: prod.splits option.splits)
  note f = ingest_rows_first [OF first parsed_rows_keyed [OF rows]]
  have run: "continues d1 s2" by (rule continues_trans [OF run_continues [OF assms(2)] s2(1)])
  have known: "\<forall>row \<in> set rows. \<forall>c. pw_command row = Some c \<longrightarrow> answered s2 c"
    using f continues_answered [OF run] by blast
  have work: "same_work d2 d3"
    using ingest_rows_again [OF again known] s2(2) by (simp add: same_work_def)
  have lines: "map bw_lead_id (drop (length (batch_lines d2)) (batch_lines d3))
      = map bw_lead_id (drop (length (batch_lines d0)) (batch_lines d1))" if "e = None"
  proof -
    have g: "continues s2 d3" "batch_lines d3 = batch_lines s2 @ map (\<lambda>row. line_of (ue_batch_id env') org row (row_leads d3 row)) rows"
      using ingest_rows_first [OF _ parsed_rows_keyed [OF rows], of env' org s2 d3] again that by auto
    have "row_leads d3 row = row_leads d1 row" if "row \<in> set rows" for row
      using continues_row_leads [OF continues_trans [OF run g(1)]] f that by blast
    then show ?thesis using f by (simp add: g(2) s2(3) s0 line_of_def)
  qed
  show ?thesis using work lines e by (auto simp: same_work_def split: sum.splits)
qed

definition empty_batches :: batch_db where
  "empty_batches = \<lparr>clock = 0, leads = Map.empty, lead_events = [], jobs = [], intake = [],
     identities = empty_identities, batches = [], batch_lines = []\<rparr>"

definition demo_upload_env :: "nat \<Rightarrow> upload_env" where
  "demo_upload_env n = \<lparr>ue_batch_id = n, ue_ids = (\<lambda>i. demo_ids (n + 4 * i)), ue_trace = (\<lambda>_. None),
     ue_now = (\<lambda>_. 5), ue_policy_cap = (1.5, ''1.5'')\<rparr>"

lemma demo_parse:
  "parse_csv demo_upload 3 (Some [(''email'', ''email'')]) = Inr [validate_row 1
     \<lparr>cr_cells = [(''email'', Some ''a@x.io''), (''who'', Some ''A'')], cr_surplus = []\<rparr> [(''email'', ''email'')] 3]"
  by (simp add: parse_csv_def checked_text_def demo_upload_def MAX_FILE_SIZE_BYTES_def MAX_ROWS_def
      parse_error_def read_csv_def new_reader_def feed_line_def feed_def feed_start_field_def add_char_def
      feed_eol_def save_field_def LF_def CR_def QUOTE_def FIELD_LIMIT_def dict_rows.simps dict_row_def
      resolved_columns_def)

lemma demo_uploaded:
  "\<exists>d1 b. create_batch (demo_upload_env 1) 3 7 ''a.csv'' demo_upload (Some [(''email'', ''email'')]) empty_batches
     = (d1, Inr b) \<and> length (intake d1) = 1"
proof -
  let ?raw = "\<lparr>cr_cells = [(''email'', Some ''a@x.io''), (''who'', Some ''A'')], cr_surplus = []\<rparr>"
  let ?cell = "row_cell [(''email'', ''email'')] ?raw"
  have mail: "py_strip ''a@x.io'' = ''a@x.io''" "normalize_email ''a@x.io'' = Inr ''a@x.io''"
    "domain_from_email ''a@x.io'' = Inr (Some ''x.io'')" "normalize_domain ''x.io'' = Inr ''x.io''"
    by code_simp+
  have cell: "?cell ''email'' = Some ''a@x.io''" by (simp add: row_cell_def mail nonempty_def)
  have none: "?cell f = None" if "f \<noteq> ''email''" for f using that by (simp add: row_cell_def)
  have name: "contact_name ?cell = None" by (simp add: contact_name_def none List.map_filter_simps nonempty_def)
  let ?c = "upload_command 3 ''a@x.io'' ''a@x.io'' ?cell"
  have row: "validate_row 1 ?raw [(''email'', ''email'')] 3
       = \<lparr>pw_row_number = 1, pw_raw = ?raw, pw_status = ACCEPTED, pw_error = None, pw_command = Some ?c\<rparr>"
    by (simp add: validate_row_def cell none name too_long_def max_lengths mail)
  let ?d0 = "\<lambda>bs. empty_batches\<lparr>clock := 5, batches := bs\<rparr>"
  let ?c' = "?c\<lparr>ic_batch_id := Some 1\<rparr>"
  have "\<exists>x. resolve_lead_in fr (command_identity ?c') (identities (?d0 bs)) = Inr x" for fr bs
    by (simp add: resolve_lead_in_def command_identity_def upload_command_def none present_def mail
        resolve_company_in_def upsert_company_by_domain_def resolve_person_in_def empty_batches_def
        empty_identities_def)
  moreover have "intake_ok (?d0 bs)" for bs by (rule empty_intake_ok) (simp_all add: empty_batches_def)
  ultimately have any: "\<exists>d1 r. ingest_lead cap ids trace ?c' (?d0 bs) = Inr (d1, r)" for cap ids trace bs
    using ingest_returns by blast
  define V where "V = validate_row 1 ?raw [(''email'', ''email'')] 3"
  have V: "pw_command V = Some ?c" "pw_row_number V = 1" "accepted_count [V] = 1"
    unfolding V_def row by (simp_all add: accepted_count_def)
  define E where "E = demo_upload_env 1"
  have E: "ue_batch_id E = 1" "ue_now E 0 = 5" "ue_now E 1 = 5"
    by (simp_all add: E_def demo_upload_env_def)
  define B where "B = \<lparr>bt_id = ue_batch_id E, bt_organization_id = 3, bt_filename = ''a.csv'',
    bt_total_rows = length [V], bt_accepted_rows = accepted_count [V],
    bt_rejected_rows = length [V] - accepted_count [V], bt_created_by = 7, bt_created_at = ue_now E 0\<rparr>"
  from any obtain d1 r where run: "ingest_lead (ue_policy_cap E) (ue_ids E 1) (ue_trace E 1) ?c' (?d0 [B]) = Inr (d1, r)"
    by blast
  have one: "length (intake d1) = 1"
    using run by (cases rule: ingest_lead_cases) (simp_all add: empty_batches_def)
  have start: "empty_batches\<lparr>clock := ue_now E 0, batches := batches empty_batches @ [B], clock := 5\<rparr> = ?d0 [B]"
    by (simp add: empty_batches_def)
  have "ingest_row E 3 V (empty_batches\<lparr>clock := ue_now E 0, batches := batches empty_batches @ [B]\<rparr>)
      = Inr (d1\<lparr>batch_lines := batch_lines d1 @ [line_of 1 3 V (Some (ir_lead_id r))]\<rparr>)"
    unfolding ingest_row_def Let_def V E start [unfolded E] option.case run by simp
  then have "create_batch E 3 7 ''a.csv'' demo_upload (Some [(''email'', ''email'')]) empty_batches
     = (d1\<lparr>batch_lines := batch_lines d1 @ [line_of 1 3 V (Some (ir_lead_id r))]\<rparr>, Inr B)"
    unfolding create_batch_def demo_parse V_def [symmetric] by (simp add: B_def)
  with one show ?thesis unfolding E_def [symmetric]
    by (intro exI [of _ "d1\<lparr>batch_lines := batch_lines d1 @ [line_of 1 3 V (Some (ir_lead_id r))]\<rparr>"] exI [of _ B]) simp
qed

theorem uploading_again_makes_no_work_witness:
  "\<exists>d1 b d3 res. create_batch (demo_upload_env 1) 3 7 ''a.csv'' demo_upload (Some [(''email'', ''email'')]) empty_batches
       = (d1, Inr b)
     \<and> create_batch (demo_upload_env 20) 3 8 ''b.csv'' demo_upload (Some [(''email'', ''email'')]) d1 = (d3, res)
     \<and> length (intake d3) = 1"
proof -
  from demo_uploaded obtain d1 b where one: "create_batch (demo_upload_env 1) 3 7 ''a.csv'' demo_upload
      (Some [(''email'', ''email'')]) empty_batches = (d1, Inr b)" "length (intake d1) = 1" by blast
  obtain d3 res where two: "create_batch (demo_upload_env 20) 3 8 ''b.csv'' demo_upload
      (Some [(''email'', ''email'')]) d1 = (d3, res)" by fastforce
  from uploading_again_makes_no_work [OF one(1) intake_start two] one two show ?thesis by metis
qed

subsection \<open>An accepted row that cannot be ingested\<close>

text \<open>
  C19. Being accepted is not enough to be ingested. A row whose address is with a free mail provider
  and that names neither a company nor a domain passes validation and is counted as accepted, but
  identity resolution has nothing to file its company under: whatever the database holds, its
  ingestion raises, the upload stops there, and the rows behind it are neither ingested nor recorded.
\<close>

theorem accepted_row_can_stop_its_upload:
  assumes "pw_command row = Some c" and "domain_from_email (ic_email c) = Inr None"
    and "ic_company_domain c = None" and "ic_company_name c = None"
    and "ingest_rows env org before d = (d', None)"
  shows "ingest_rows env org (before @ row # after) d = (d', Some ValueError)"
  using assms(5)
proof (induction before arbitrary: d)
  case Nil
  have "ingest_row env org row d = Inl ValueError" for d
    by (simp add: ingest_row_def assms(1-4) Let_def ingest_lead_def resolve_lead_in_def command_identity_def
        present_def resolve_company_in_def)
  with Nil show ?case by simp
next
  case (Cons x before)
  then show ?case by (auto split: sum.splits)
qed

definition free_mail_row :: csv_row where
  "free_mail_row = \<lparr>cr_cells = [(''email'', Some ''a@gmx.com'')], cr_surplus = []\<rparr>"

theorem accepted_row_can_stop_its_upload_witness:
  "\<exists>c. validate_row 1 free_mail_row [(''email'', ''email'')] 3
       = \<lparr>pw_row_number = 1, pw_raw = free_mail_row, pw_status = ACCEPTED, pw_error = None, pw_command = Some c\<rparr>
     \<and> (\<forall>env d after. ingest_rows env 3 (validate_row 1 free_mail_row [(''email'', ''email'')] 3 # after) d
          = (d, Some ValueError))"
proof -
  have strip: "py_strip ''a@gmx.com'' = ''a@gmx.com''" by code_simp
  have mail: "normalize_email ''a@gmx.com'' = Inr ''a@gmx.com''" by code_simp
  have free: "domain_from_email ''a@gmx.com'' = Inr None" by code_simp
  let ?c = "upload_command 3 ''a@gmx.com'' ''a@gmx.com'' (row_cell [(''email'', ''email'')] free_mail_row)"
  have cell: "row_cell [(''email'', ''email'')] free_mail_row ''email'' = Some ''a@gmx.com''"
    by (simp add: row_cell_def free_mail_row_def strip nonempty_def)
  have none: "row_cell [(''email'', ''email'')] free_mail_row f = None" if "f \<noteq> ''email''" for f
    using that by (simp add: row_cell_def)
  have name: "contact_name (row_cell [(''email'', ''email'')] free_mail_row) = None"
    by (simp add: contact_name_def none List.map_filter_simps nonempty_def)
  have row: "validate_row 1 free_mail_row [(''email'', ''email'')] 3
       = \<lparr>pw_row_number = 1, pw_raw = free_mail_row, pw_status = ACCEPTED, pw_error = None, pw_command = Some ?c\<rparr>"
    by (simp add: validate_row_def cell none name too_long_def max_lengths mail)
  have c: "ic_email ?c = ''a@gmx.com''" "ic_company_domain ?c = None" "ic_company_name ?c = None"
    by (simp_all add: upload_command_def none)
  have cmd: "pw_command (validate_row 1 free_mail_row [(''email'', ''email'')] 3) = Some ?c" unfolding row by simp
  have "ingest_rows env 3 ([] @ validate_row 1 free_mail_row [(''email'', ''email'')] 3 # after) d = (d, Some ValueError)"
    for env d after
    by (rule accepted_row_can_stop_its_upload [OF cmd]) (simp_all only: c free, simp)
  with row show ?thesis by (intro exI [of _ ?c]) simp
qed

end
